(* ===== verification/Prelude.thy ===== *)
theory Prelude
  imports
    Main
    "HOL-Library.Word"
    "HOL-Library.Char_ord"
    "HOL-Library.List_Lexorder"
    "HOL-Library.Sublist"
begin

text \<open>
  The vocabulary shared by every component theory:
  \<^item> \<open>result\<close>: what a Rust function returns.  \<open>Ok\<close> and \<open>Err\<close> are the two constructors of
    Rust's own type; \<open>Panic\<close> is the third way a call can end (a failed \<open>assert!\<close>, an
    \<open>unwrap\<close> on nothing, an index out of range, \<open>todo!\<close>, \<open>unreachable!\<close>).  Code that inspects
    an \<open>Err\<close> never sees a \<open>Panic\<close>, so the three stay apart.
  \<^item> \<open>anyhow\<close>: the dynamically typed error of the \<open>anyhow\<close> crate, kept as the format string
    of the source and the values it interpolates.
  \<^item> \<open>f64\<close>: an IEEE double as its 64 bits, with the comparisons the code uses.
  \<^item> strings as byte lists, with the \<open>str\<close> methods the sources call;
  \<^item> association lists for maps whose iteration order reaches the result.
\<close>

named_theorems result_simps \<open>equations of the result combinators\<close>

subsection \<open>Results\<close>

datatype ('e, 'a) result = Ok 'a | Err 'e | Panic string

datatype anyhow = Bail string "string list" | Context string anyhow

type_synonym 'a res = "(anyhow, 'a) result"

fun r_bind :: "('e, 'a) result \<Rightarrow> ('a \<Rightarrow> ('e, 'b) result) \<Rightarrow> ('e, 'b) result" where
  "r_bind (Ok x) f = f x"
| "r_bind (Err e) f = Err e"
| "r_bind (Panic p) f = Panic p"

fun map_err :: "('e \<Rightarrow> 'f) \<Rightarrow> ('e, 'a) result \<Rightarrow> ('f, 'a) result" where
  "map_err f (Ok x) = Ok x"
| "map_err f (Err e) = Err (f e)"
| "map_err f (Panic p) = Panic p"

fun r_map_ok :: "('a \<Rightarrow> 'b) \<Rightarrow> ('e, 'a) result \<Rightarrow> ('e, 'b) result" where
  "r_map_ok f (Ok x) = Ok (f x)"
| "r_map_ok f (Err e) = Err e"
| "r_map_ok f (Panic p) = Panic p"

abbreviation with_context :: "string \<Rightarrow> 'a res \<Rightarrow> 'a res" where
  "with_context c r \<equiv> map_err (Context c) r"

definition ensure :: "bool \<Rightarrow> 'e \<Rightarrow> ('e, unit) result" where
  "ensure b e = (if b then Ok () else Err e)"

definition ok_or :: "'e \<Rightarrow> 'a option \<Rightarrow> ('e, 'a) result" where
  "ok_or e x = (case x of Some y \<Rightarrow> Ok y | None \<Rightarrow> Err e)"

definition unwrap :: "string \<Rightarrow> 'a option \<Rightarrow> ('e, 'a) result" where
  "unwrap msg x = (case x of Some y \<Rightarrow> Ok y | None \<Rightarrow> Panic msg)"

definition is_ok :: "('e, 'a) result \<Rightarrow> bool" where
  "is_ok r = (case r of Ok _ \<Rightarrow> True | _ \<Rightarrow> False)"

definition no_panic :: "('e, 'a) result \<Rightarrow> bool" where
  "no_panic r = (case r of Panic _ \<Rightarrow> False | _ \<Rightarrow> True)"

text \<open>\<open>for x in xs { acc = f(x, acc)?; }\<close> and \<open>xs.map(f).collect::<Result<Vec<_>>>()\<close>.\<close>

fun r_fold :: "('a \<Rightarrow> 'b \<Rightarrow> ('e, 'b) result) \<Rightarrow> 'a list \<Rightarrow> 'b \<Rightarrow> ('e, 'b) result" where
  "r_fold f [] acc = Ok acc"
| "r_fold f (x # xs) acc = r_bind (f x acc) (r_fold f xs)"

fun r_map :: "('a \<Rightarrow> ('e, 'b) result) \<Rightarrow> 'a list \<Rightarrow> ('e, 'b list) result" where
  "r_map f [] = Ok []"
| "r_map f (x # xs) = r_bind (f x) (\<lambda>y. r_bind (r_map f xs) (\<lambda>ys. Ok (y # ys)))"

lemma r_bind_cong [fundef_cong]:
  "r = r' \<Longrightarrow> (\<And>x. r' = Ok x \<Longrightarrow> f x = g x) \<Longrightarrow> r_bind r f = r_bind r' g"
  by (cases r') auto

lemma r_fold_cong [fundef_cong]:
  "xs = ys \<Longrightarrow> acc = acc' \<Longrightarrow> (\<And>x a. x \<in> set ys \<Longrightarrow> f x a = g x a) \<Longrightarrow>
     r_fold f xs acc = r_fold g ys acc'"
proof (induction xs arbitrary: ys acc acc')
  case Nil
  then show ?case by auto
next
  case (Cons x xs)
  show ?case
  proof (cases "g x acc'")
    case (Ok b)
    with Cons.prems show ?thesis
      using Cons.IH [of xs b b] by auto
  qed (use Cons.prems in auto)
qed

lemma r_map_cong [fundef_cong]:
  "xs = ys \<Longrightarrow> (\<And>x. x \<in> set ys \<Longrightarrow> f x = g x) \<Longrightarrow> r_map f xs = r_map g ys"
proof (induction xs arbitrary: ys)
  case Nil
  then show ?case by auto
next
  case (Cons x xs)
  then show ?case using Cons.IH [of xs] by auto
qed

lemma r_bind_Ok_iff: "r_bind r f = Ok y \<longleftrightarrow> (\<exists>x. r = Ok x \<and> f x = Ok y)"
  by (cases r) auto

lemma r_bind_Panic_iff: "r_bind r f = Panic p \<longleftrightarrow> r = Panic p \<or> (\<exists>x. r = Ok x \<and> f x = Panic p)"
  by (cases r) auto

lemma r_bind_Err_iff: "r_bind r f = Err e \<longleftrightarrow> r = Err e \<or> (\<exists>x. r = Ok x \<and> f x = Err e)"
  by (cases r) auto

lemma map_err_Ok_iff [simp]: "map_err f r = Ok y \<longleftrightarrow> r = Ok y"
  by (cases r) auto

lemma map_err_Panic_iff [simp]: "map_err f r = Panic p \<longleftrightarrow> r = Panic p"
  by (cases r) auto

lemma r_map_ok_Ok_iff: "r_map_ok f r = Ok y \<longleftrightarrow> (\<exists>x. r = Ok x \<and> y = f x)"
  by (cases r) auto

lemma ensure_Ok_iff [simp]: "ensure b e = Ok u \<longleftrightarrow> b"
  by (simp add: ensure_def)

lemma ensure_not_Panic [simp]: "ensure b e \<noteq> Panic p"
  by (simp add: ensure_def)

lemma ensure_True [simp]: "ensure True e = Ok ()"
  by (simp add: ensure_def)

lemma ensure_False [simp]: "ensure False e = Err e"
  by (simp add: ensure_def)

lemma ok_or_simps [simp]: "ok_or e (Some x) = Ok x" "ok_or e None = Err e"
  by (simp_all add: ok_or_def)

lemma ok_or_Ok_iff [simp]: "ok_or e x = Ok y \<longleftrightarrow> x = Some y"
  by (cases x) auto

lemma ok_or_not_Panic [simp]: "ok_or e x \<noteq> Panic p"
  by (cases x) auto

lemma unwrap_simps [simp]: "unwrap m (Some x) = Ok x" "unwrap m None = Panic m"
  by (simp_all add: unwrap_def)

lemma unwrap_Ok_iff [simp]: "unwrap m x = Ok y \<longleftrightarrow> x = Some y"
  by (cases x) auto

lemma is_ok_iff: "is_ok r \<longleftrightarrow> (\<exists>x. r = Ok x)"
  by (cases r) (auto simp: is_ok_def)

lemma no_panic_iff: "no_panic r \<longleftrightarrow> (\<forall>p. r \<noteq> Panic p)"
  by (cases r) (auto simp: no_panic_def)

lemma is_ok_simps [simp]: "is_ok (Ok x)" "\<not> is_ok (Err e)" "\<not> is_ok (Panic p)"
  by (simp_all add: is_ok_def)

lemma no_panic_simps [simp]: "no_panic (Ok x)" "no_panic (Err e)" "\<not> no_panic (Panic p)"
  by (simp_all add: no_panic_def)

lemma no_panic_ensure [simp]: "no_panic (ensure b e)"
  by (simp add: ensure_def)

lemma no_panic_ok_or [simp]: "no_panic (ok_or e x)"
  by (cases x) auto

lemma no_panic_map_err [simp]: "no_panic (map_err f r) \<longleftrightarrow> no_panic r"
  by (cases r) auto

lemma no_panic_map_ok [simp]: "no_panic (r_map_ok f r) \<longleftrightarrow> no_panic r"
  by (cases r) auto

lemma no_panic_bind [intro!]:
  "no_panic r \<Longrightarrow> (\<And>x. r = Ok x \<Longrightarrow> no_panic (f x)) \<Longrightarrow> no_panic (r_bind r f)"
  by (cases r) auto

lemmas [result_simps] = r_bind_Ok_iff r_bind_Err_iff r_bind_Panic_iff r_map_ok_Ok_iff

lemma r_map_Ok_iff:
  "r_map f xs = Ok ys \<longleftrightarrow> list_all2 (\<lambda>x y. f x = Ok y) xs ys"
proof (induction xs arbitrary: ys)
  case Nil
  then show ?case by auto
next
  case (Cons x xs)
  then show ?case by (cases ys) (auto simp: r_bind_Ok_iff)
qed

lemma r_map_length: "r_map f xs = Ok ys \<Longrightarrow> length ys = length xs"
  by (auto simp: r_map_Ok_iff dest: list_all2_lengthD)

lemma r_map_Ok_map: "(\<And>x. x \<in> set xs \<Longrightarrow> f x = Ok (g x)) \<Longrightarrow> r_map f xs = Ok (map g xs)"
  by (induction xs) auto

lemma no_panic_map [intro!]: "(\<And>x. x \<in> set xs \<Longrightarrow> no_panic (f x)) \<Longrightarrow> no_panic (r_map f xs)"
  by (induction xs) auto

lemma r_fold_append:
  "r_fold f (xs @ ys) acc = r_bind (r_fold f xs acc) (r_fold f ys)"
proof (induction xs arbitrary: acc)
  case (Cons x xs)
  then show ?case by (cases "f x acc") auto
qed simp

text \<open>The loop rule: an invariant kept by every successful iteration holds at the end.\<close>

lemma r_fold_invariant:
  assumes "r_fold f xs acc = Ok acc'" and "P acc"
    and "\<And>x a b. x \<in> set xs \<Longrightarrow> P a \<Longrightarrow> f x a = Ok b \<Longrightarrow> P b"
  shows "P acc'"
  using assms
proof (induction xs arbitrary: acc)
  case (Cons x xs)
  then obtain b where "f x acc = Ok b" "r_fold f xs b = Ok acc'"
    by (auto simp: r_bind_Ok_iff)
  with Cons.prems Cons.IH [of b] show ?case by auto
qed simp

lemma r_fold_step_Ok:
  "r_fold f xs acc = Ok acc' \<Longrightarrow> x \<in> set xs \<Longrightarrow> \<exists>a b. f x a = Ok b"
  by (induction xs arbitrary: acc) (auto simp: r_bind_Ok_iff)

lemma no_panic_fold [intro!]:
  "(\<And>x a. x \<in> set xs \<Longrightarrow> no_panic (f x a)) \<Longrightarrow> no_panic (r_fold f xs acc)"
  by (induction xs arbitrary: acc) auto

subsection \<open>Strings\<close>

text \<open>
  A Rust \<open>str\<close> is a sequence of UTF-8 bytes, a \<open>char list\<close> here.  Every pattern the sources
  search for is ASCII, for which byte-wise and code-point-wise search agree.
\<close>

definition starts_with :: "string \<Rightarrow> string \<Rightarrow> bool" where
  "starts_with needle s = (take (length needle) s = needle)"

definition strip_prefix :: "string \<Rightarrow> string \<Rightarrow> string option" where
  "strip_prefix p s = (if starts_with p s then Some (drop (length p) s) else None)"

definition strip_suffix_char :: "char \<Rightarrow> string \<Rightarrow> string option" where
  "strip_suffix_char c s = (if s \<noteq> [] \<and> last s = c then Some (butlast s) else None)"

fun split_on :: "char \<Rightarrow> string \<Rightarrow> string list" where
  "split_on c [] = [[]]"
| "split_on c (x # xs) =
     (if x = c then [] # split_on c xs
      else case split_on c xs of [] \<Rightarrow> [[x]] | y # ys \<Rightarrow> (x # y) # ys)"

fun join :: "string \<Rightarrow> string list \<Rightarrow> string" where
  "join sep [] = []"
| "join sep [x] = x"
| "join sep (x # y # zs) = x @ sep @ join sep (y # zs)"

fun show_nat :: "nat \<Rightarrow> string" where
  "show_nat n =
     (if n < 10 then [char_of (48 + n)] else show_nat (n div 10) @ [char_of (48 + n mod 10)])"

declare show_nat.simps [simp del]

lemma starts_with_prefix: "starts_with p s \<longleftrightarrow> prefix p s"
  by (metis append_eq_conv_conj append_take_drop_id prefixE prefixI starts_with_def)

lemma strip_prefix_Some: "strip_prefix p s = Some t \<longleftrightarrow> s = p @ t"
  by (auto simp: strip_prefix_def starts_with_def) (metis append_take_drop_id)

lemma strip_prefix_append [simp]: "strip_prefix p (p @ s) = Some s"
  by (simp add: strip_prefix_Some)

lemma strip_suffix_char_snoc [simp]: "strip_suffix_char c (s @ [c]) = Some s"
  by (simp add: strip_suffix_char_def)

lemma strip_suffix_char_Some: "strip_suffix_char c s = Some t \<longleftrightarrow> s = t @ [c]"
  by (auto simp: strip_suffix_char_def) (metis butlast_snoc)

lemma split_on_not_Nil [simp]: "split_on c s \<noteq> []"
  by (induction s) (auto split: list.splits)

lemma split_on_no_sep: "c \<notin> set s \<Longrightarrow> split_on c s = [s]"
  by (induction s) auto

lemma length_split_on: "length (split_on c s) = Suc (count_list s c)"
  by (induction s) (auto split: list.splits)

lemma split_on_append: "c \<notin> set v \<Longrightarrow> split_on c (v @ c # n) = v # split_on c n"
  by (induction v) auto

lemma split_join:
  "fs \<noteq> [] \<Longrightarrow> (\<And>f. f \<in> set fs \<Longrightarrow> c \<notin> set f) \<Longrightarrow> split_on c (join [c] fs) = fs"
  by (induction fs rule: induct_list012) (auto simp: split_on_no_sep split_on_append)

lemma join_split_on: "join [c] (split_on c s) = s"
proof (induction s)
  case (Cons x xs)
  obtain y ys where "split_on c xs = y # ys"
    by (meson list.exhaust split_on_not_Nil)
  with Cons show ?case by (cases ys) auto
qed simp

subsection \<open>Association lists\<close>

text \<open>
  A map whose iteration order matters is an association list in iteration order;
  \<open>map_of\<close> reads it.  \<open>al_insert\<close> replaces the value of a present key in place and appends
  a new key.
\<close>

fun al_insert :: "'k \<Rightarrow> 'v \<Rightarrow> ('k \<times> 'v) list \<Rightarrow> ('k \<times> 'v) list" where
  "al_insert k v [] = [(k, v)]"
| "al_insert k v ((k', v') # xs) = (if k = k' then (k, v) # xs else (k', v') # al_insert k v xs)"

definition al_remove :: "'k \<Rightarrow> ('k \<times> 'v) list \<Rightarrow> ('k \<times> 'v) list" where
  "al_remove k xs = filter (\<lambda>(k', _). k' \<noteq> k) xs"

lemma map_of_al_insert [simp]: "map_of (al_insert k v xs) = (map_of xs)(k \<mapsto> v)"
  by (induction k v xs rule: al_insert.induct) auto

lemma keys_al_insert [simp]: "fst ` set (al_insert k v xs) = insert k (fst ` set xs)"
  by (induction k v xs rule: al_insert.induct) auto

lemma distinct_al_insert [simp]:
  "distinct (map fst xs) \<Longrightarrow> distinct (map fst (al_insert k v xs))"
  by (induction k v xs rule: al_insert.induct) (auto simp flip: set_map simp del: set_map, auto)

lemma map_of_al_remove [simp]: "map_of (al_remove k xs) = (map_of xs)(k := None)"
  by (induction xs) (auto simp: al_remove_def fun_eq_iff)

lemma distinct_al_remove [simp]:
  "distinct (map fst xs) \<Longrightarrow> distinct (map fst (al_remove k xs))"
  by (induction xs) (auto simp: al_remove_def)

lemma distinct_keys_card: "distinct (map fst xs) \<Longrightarrow> length xs = card (fst ` set xs)"
  by (metis distinct_card length_map set_map)

subsection \<open>Ordered maps\<close>

text \<open>
  Rust's \<open>BTreeMap\<close> with string keys: an association list with strictly increasing keys,
  which is also its iteration order.  String order is byte-wise lexicographic.
\<close>

type_synonym 'v btree = "(string \<times> 'v) list"

definition bt_inv :: "'v btree \<Rightarrow> bool" where
  "bt_inv m = sorted_wrt (<) (map fst m)"

fun bt_insert :: "string \<Rightarrow> 'v \<Rightarrow> 'v btree \<Rightarrow> 'v btree" where
  "bt_insert k v [] = [(k, v)]"
| "bt_insert k v ((k', v') # xs) =
     (if k < k' then (k, v) # (k', v') # xs
      else if k = k' then (k, v) # xs
      else (k', v') # bt_insert k v xs)"

lemma keys_bt_insert [simp]: "fst ` set (bt_insert k v m) = insert k (fst ` set m)"
  by (induction k v m rule: bt_insert.induct) auto

lemma map_of_bt_insert [simp]:
  "bt_inv m \<Longrightarrow> map_of (bt_insert k v m) = (map_of m)(k \<mapsto> v)"
proof (induction k v m rule: bt_insert.induct)
  case (2 k v k' v' xs)
  show ?case
  proof (cases "k < k'")
    case True
    then show ?thesis by (auto simp: fun_eq_iff)
  next
    case False
    with 2 show ?thesis by (auto simp: fun_eq_iff bt_inv_def)
  qed
qed auto

lemma bt_inv_Nil [simp]: "bt_inv []"
  by (simp add: bt_inv_def)

lemma bt_inv_Cons: "bt_inv ((k, v) # m) \<longleftrightarrow> (\<forall>k' \<in> fst ` set m. k < k') \<and> bt_inv m"
  by (auto simp: bt_inv_def)

lemma bt_inv_insert [simp]: "bt_inv m \<Longrightarrow> bt_inv (bt_insert k v m)"
proof (induction k v m rule: bt_insert.induct)
  case (2 k v k' v' xs)
  show ?case
  proof (cases "k < k'")
    case True
    with 2 show ?thesis by (auto simp: bt_inv_Cons)
  next
    case False
    then have "k = k' \<or> k' < k" by auto
    with 2 False show ?thesis by (auto simp: bt_inv_Cons simp del: set_map)
  qed
qed (simp add: bt_inv_def)

lemma bt_inv_distinct: "bt_inv m \<Longrightarrow> distinct (map fst m)"
  by (simp add: bt_inv_def strict_sorted_iff)

lemma bt_inv_al_remove [simp]: "bt_inv m \<Longrightarrow> bt_inv (al_remove k m)"
  by (induction m) (auto simp: al_remove_def bt_inv_Cons bt_inv_def)

lemma bt_lookup_iff: "bt_inv m \<Longrightarrow> map_of m k = Some v \<longleftrightarrow> (k, v) \<in> set m"
  using bt_inv_distinct by (metis map_of_SomeD map_of_is_SomeI)

lemma prefix_imp_le: "prefix a b \<Longrightarrow> a \<le> (b :: string)"
proof (induction a arbitrary: b)
  case (Cons x a)
  then obtain b' where "b = x # b'" "prefix a b'" by (cases b) auto
  with Cons.IH show ?case by simp
qed simp

lemma prefixes_le_length:
  "prefix a p \<Longrightarrow> prefix b p \<Longrightarrow> a \<le> (b :: string) \<Longrightarrow> length a \<le> length b"
  by (metis antisym_conv le_cases prefix_imp_le prefix_length_le prefix_length_prefix)

subsection \<open>Doubles\<close>

type_synonym f64 = "64 word"
type_synonym u64 = "64 word"
type_synonym i64 = "64 word"

definition f64_abs_bits :: "f64 \<Rightarrow> nat" where
  "f64_abs_bits x = unat x mod 2 ^ 63"

definition f64_neg :: "f64 \<Rightarrow> bool" where
  "f64_neg x = (2 ^ 63 \<le> unat x)"

definition f64_is_nan :: "f64 \<Rightarrow> bool" where
  "f64_is_nan x = (2047 * 2 ^ 52 < f64_abs_bits x)"

definition f64_rank :: "f64 \<Rightarrow> int" where
  "f64_rank x = (if f64_neg x then - int (f64_abs_bits x) else int (f64_abs_bits x))"

text \<open>Rust's \<open>==\<close> and \<open><\<close> on \<open>f64\<close>: a NaN is unordered, the two zeros are equal.\<close>

definition f64_eq :: "f64 \<Rightarrow> f64 \<Rightarrow> bool" where
  "f64_eq x y = (\<not> f64_is_nan x \<and> \<not> f64_is_nan y \<and> f64_rank x = f64_rank y)"

definition f64_less :: "f64 \<Rightarrow> f64 \<Rightarrow> bool" where
  "f64_less x y = (\<not> f64_is_nan x \<and> \<not> f64_is_nan y \<and> f64_rank x < f64_rank y)"

text \<open>
  Rust's \<open>as f64\<close> on integers: round to nearest, ties to even.  \<open>e\<close> is the exponent of the
  leading bit; up to 53 bits are exact, beyond that the quotient is rounded (a carry out of the
  mantissa moves into the exponent field by itself).
\<close>

fun ilog2 :: "nat \<Rightarrow> nat" where
  "ilog2 n = (if n < 2 then 0 else Suc (ilog2 (n div 2)))"

declare ilog2.simps [simp del]

definition f64_of_nat :: "nat \<Rightarrow> f64" where
  "f64_of_nat n =
     (if n = 0 then 0
      else let e = ilog2 n in
        if e \<le> 52 then of_nat ((e + 1023) * 2 ^ 52 + (n * 2 ^ (52 - e) - 2 ^ 52))
        else let q = n div 2 ^ (e - 52); r = n mod 2 ^ (e - 52); half = 2 ^ (e - 53);
                 q' = (if half < r \<or> (r = half \<and> odd q) then q + 1 else q)
             in of_nat ((e + 1023) * 2 ^ 52 + (q' - 2 ^ 52)))"

definition f64_of_int :: "int \<Rightarrow> f64" where
  "f64_of_int i = (if i < 0 then f64_of_nat (nat (- i)) + 2 ^ 63 else f64_of_nat (nat i))"

text \<open>Rust's \<open>str::parse::<u64>\<close>: an optional plus sign, then at least one digit, no overflow.\<close>

definition digit_val :: "char \<Rightarrow> nat option" where
  "digit_val c = (if 48 \<le> (of_char c :: nat) \<and> (of_char c :: nat) \<le> 57 then Some (of_char c - 48) else None)"

fun parse_digits :: "nat \<Rightarrow> string \<Rightarrow> nat option" where
  "parse_digits acc [] = Some acc"
| "parse_digits acc (c # cs) =
     (case digit_val c of
        None \<Rightarrow> None
      | Some d \<Rightarrow> if acc * 10 + d < 2 ^ 64 then parse_digits (acc * 10 + d) cs else None)"

definition parse_u64 :: "string \<Rightarrow> u64 option" where
  "parse_u64 s =
     (let ds = (case s of c # cs \<Rightarrow> if c = CHR ''+'' then cs else s | [] \<Rightarrow> s)
      in if ds = [] then None else map_option of_nat (parse_digits 0 ds))"

definition parse_bool :: "string \<Rightarrow> bool option" where
  "parse_bool s = (if s = ''true'' then Some True else if s = ''false'' then Some False else None)"

end
