(* ===== verification/Prefix_Map.thy ===== *)
theory Prefix_Map
  imports Prelude
begin

text \<open>
  \<open>server/src/prefix_map.rs\<close>: a map from path prefixes to values, looked up by the longest
  entry that is a path prefix of a request path.  The authorization tables of
  \<open>server/src/policies.rs\<close> are built on it; what they rely on is the locale
  \<open>prefix_lookup\<close>, interpreted at the end of the theory on the definitions of this file.
\<close>

record 'v prefix_map =
  pm_map :: "'v btree"

definition pm_default :: "'v prefix_map" where
  "pm_default = \<lparr>pm_map = []\<rparr>"

definition pm_insert :: "string \<Rightarrow> 'v \<Rightarrow> 'v prefix_map \<Rightarrow> 'v prefix_map \<times> 'v option" where
  "pm_insert k v m = (m\<lparr>pm_map := bt_insert k v (pm_map m)\<rparr>, map_of (pm_map m) k)"

definition is_path_prefix :: "string \<Rightarrow> string \<Rightarrow> bool" where
  "is_path_prefix needle haystack =
     (if \<not> starts_with needle haystack then False
      else (needle \<noteq> [] \<and> last needle = CHR ''/'') \<or>
           (let unmatched = drop (length needle) haystack
            in unmatched = [] \<or> starts_with ''/'' unmatched))"

text \<open>\<open>map.range(..=path)\<close>, in ascending order, then the loop over its reverse.\<close>

definition tree_range :: "'v prefix_map \<Rightarrow> string \<Rightarrow> 'v btree" where
  "tree_range m path = takeWhile (\<lambda>(p, v). p \<le> path) (pm_map m)"

fun first_path_prefix :: "'v btree \<Rightarrow> string \<Rightarrow> (string \<times> 'v) option" where
  "first_path_prefix [] path = None"
| "first_path_prefix ((p, v) # rest) path =
     (if is_path_prefix p path then Some (p, v) else first_path_prefix rest path)"

definition longest_prefix :: "'v prefix_map \<Rightarrow> string \<Rightarrow> (string \<times> 'v) option" where
  "longest_prefix m path = first_path_prefix (rev (tree_range m path)) path"

subsection \<open>Correctness of the lookup\<close>

definition pm_inv :: "'v prefix_map \<Rightarrow> bool" where
  "pm_inv m = bt_inv (pm_map m)"

definition pm_get :: "'v prefix_map \<Rightarrow> string \<rightharpoonup> 'v" where
  "pm_get m = map_of (pm_map m)"

lemma is_path_prefix_prefix: "is_path_prefix p path \<Longrightarrow> prefix p path"
  by (auto simp: is_path_prefix_def starts_with_prefix split: if_splits)

text \<open>The declarative reading: the needle is a prefix that ends at a path component boundary.\<close>

lemma is_path_prefix_iff:
  "is_path_prefix p path \<longleftrightarrow>
     (\<exists>rest. path = p @ rest \<and> (rest = [] \<or> hd rest = CHR ''/'' \<or> (p \<noteq> [] \<and> last p = CHR ''/'')))"
proof
  assume "is_path_prefix p path"
  moreover from this obtain rest where "path = p @ rest"
    using is_path_prefix_prefix prefixE by blast
  ultimately show "\<exists>rest. path = p @ rest \<and> (rest = [] \<or> hd rest = CHR ''/'' \<or> (p \<noteq> [] \<and> last p = CHR ''/''))"
    by (cases rest) (auto simp: is_path_prefix_def starts_with_def Let_def split: if_splits)
next
  assume "\<exists>rest. path = p @ rest \<and> (rest = [] \<or> hd rest = CHR ''/'' \<or> (p \<noteq> [] \<and> last p = CHR ''/''))"
  then obtain rest where "path = p @ rest" and "rest = [] \<or> hd rest = CHR ''/'' \<or> (p \<noteq> [] \<and> last p = CHR ''/'')"
    by blast
  then show "is_path_prefix p path"
    by (cases rest) (auto simp: is_path_prefix_def starts_with_def Let_def)
qed

lemma set_tree_range:
  "pm_inv m \<Longrightarrow> set (tree_range m path) = {(p, v) \<in> set (pm_map m). p \<le> path}"
proof -
  have "bt_inv xs \<Longrightarrow> set (takeWhile (\<lambda>(p, v). p \<le> path) xs) = {(p, v) \<in> set xs. p \<le> path}" for xs :: "'a btree"
  proof (induction xs)
    case (Cons x xs)
    obtain p v where x: "x = (p, v)" by (cases x)
    show ?case
    proof (cases "p \<le> path")
      case True
      with Cons x show ?thesis by (auto simp: bt_inv_Cons)
    next
      case False
      with Cons.prems x have "\<forall>(p', v') \<in> set xs. \<not> p' \<le> path"
        by (force simp: bt_inv_Cons)
      with False x show ?thesis by auto
    qed
  qed simp
  then show "pm_inv m \<Longrightarrow> ?thesis" by (simp add: pm_inv_def tree_range_def)
qed

lemma first_path_prefix_None:
  "first_path_prefix xs path = None \<longleftrightarrow> (\<forall>(p, v) \<in> set xs. \<not> is_path_prefix p path)"
  by (induction xs path rule: first_path_prefix.induct) auto

lemma first_path_prefix_Some:
  assumes "first_path_prefix xs path = Some (p, v)" and "sorted_wrt (\<lambda>a b. fst b < fst a) xs"
  shows "(p, v) \<in> set xs \<and> is_path_prefix p path \<and>
    (\<forall>(p', v') \<in> set xs. is_path_prefix p' path \<longrightarrow> p' \<le> p)"
  using assms
proof (induction xs)
  case (Cons x xs)
  obtain q w where x: "x = (q, w)" by (cases x)
  show ?case
  proof (cases "is_path_prefix q path")
    case True
    with Cons.prems x show ?thesis by (auto intro: less_imp_le)
  next
    case False
    with Cons x show ?thesis by auto
  qed
qed simp

lemma tree_range_sorted:
  "pm_inv m \<Longrightarrow> sorted_wrt (\<lambda>a b. fst b < fst a) (rev (tree_range m path))"
  unfolding pm_inv_def bt_inv_def tree_range_def sorted_wrt_rev sorted_wrt_map
  by (rule sorted_wrt_takeWhile)

lemma longest_prefix_None:
  assumes "pm_inv m"
  shows "longest_prefix m path = None \<longleftrightarrow> (\<forall>p \<in> dom (pm_get m). \<not> is_path_prefix p path)"
proof -
  have "longest_prefix m path = None \<longleftrightarrow> (\<forall>(p, v) \<in> set (pm_map m). p \<le> path \<longrightarrow> \<not> is_path_prefix p path)"
    using assms by (auto simp: longest_prefix_def first_path_prefix_None set_tree_range)
  also have "\<dots> \<longleftrightarrow> (\<forall>(p, v) \<in> set (pm_map m). \<not> is_path_prefix p path)"
    using is_path_prefix_prefix prefix_imp_le by fastforce
  also have "\<dots> \<longleftrightarrow> (\<forall>p \<in> dom (pm_get m). \<not> is_path_prefix p path)"
    by (auto simp: pm_get_def dom_map_of_conv_image_fst)
  finally show ?thesis .
qed

lemma longest_prefix_Some:
  assumes inv: "pm_inv m" and found: "longest_prefix m path = Some (p, v)"
  shows "pm_get m p = Some v" and "is_path_prefix p path"
    and "\<And>p'. p' \<in> dom (pm_get m) \<Longrightarrow> is_path_prefix p' path \<Longrightarrow> length p' \<le> length p"
proof -
  have *: "(p, v) \<in> set (rev (tree_range m path)) \<and> is_path_prefix p path \<and>
    (\<forall>(p', v') \<in> set (rev (tree_range m path)). is_path_prefix p' path \<longrightarrow> p' \<le> p)"
    using found unfolding longest_prefix_def
    by (rule first_path_prefix_Some) (rule tree_range_sorted [OF inv])
  with inv show "pm_get m p = Some v"
    by (auto simp: set_tree_range pm_get_def pm_inv_def bt_lookup_iff)
  from * show pp: "is_path_prefix p path" by blast
  fix p' assume "p' \<in> dom (pm_get m)" and pp': "is_path_prefix p' path"
  then obtain v' where "(p', v') \<in> set (pm_map m)"
    using inv by (auto simp: pm_get_def pm_inv_def bt_lookup_iff)
  moreover have "p' \<le> path"
    using pp' is_path_prefix_prefix prefix_imp_le by blast
  ultimately have "p' \<le> p"
    using * inv pp' by (auto simp: set_tree_range)
  then show "length p' \<le> length p"
    using pp pp' is_path_prefix_prefix prefixes_le_length by blast
qed

subsection \<open>The contract the authorization tables rely on\<close>

locale prefix_lookup =
  fixes new :: "'m"
    and insert :: "string \<Rightarrow> 'v \<Rightarrow> 'm \<Rightarrow> 'm \<times> 'v option"
    and longest :: "'m \<Rightarrow> string \<Rightarrow> (string \<times> 'v) option"
    and get :: "'m \<Rightarrow> string \<rightharpoonup> 'v"
    and inv :: "'m \<Rightarrow> bool"
  assumes inv_new: "inv new"
    and get_new: "get new = Map.empty"
    and inv_insert: "inv m \<Longrightarrow> inv (fst (insert k v m))"
    and get_insert: "inv m \<Longrightarrow> get (fst (insert k v m)) = (get m)(k \<mapsto> v)"
    and insert_old: "inv m \<Longrightarrow> snd (insert k v m) = get m k"
    and longest_None: "inv m \<Longrightarrow> longest m path = None \<longleftrightarrow> (\<forall>p \<in> dom (get m). \<not> is_path_prefix p path)"
    and longest_Some: "inv m \<Longrightarrow> longest m path = Some (p, v) \<Longrightarrow>
       get m p = Some v \<and> is_path_prefix p path \<and>
       (\<forall>p' \<in> dom (get m). is_path_prefix p' path \<longrightarrow> length p' \<le> length p)"
begin

text \<open>The entry found is unique: two path prefixes of one path with the same length are equal.\<close>

lemma longest_eqI:
  assumes "inv m" and "get m p = Some v" and "is_path_prefix p path"
    and "\<And>p'. p' \<in> dom (get m) \<Longrightarrow> is_path_prefix p' path \<Longrightarrow> length p' \<le> length p"
  shows "longest m path = Some (p, v)"
proof (cases "longest m path")
  case None
  with assms(1) have "\<forall>p \<in> dom (get m). \<not> is_path_prefix p path"
    using longest_None by blast
  with assms(2,3) show ?thesis by (auto simp: dom_def)
next
  case (Some pv)
  obtain q w where pv: "pv = (q, w)" by (cases pv)
  with Some assms(1) have q: "get m q = Some w" "is_path_prefix q path"
    and longest: "\<forall>p' \<in> dom (get m). is_path_prefix p' path \<longrightarrow> length p' \<le> length q"
    using longest_Some by blast+
  have "length q = length p"
    using assms(2-4) q longest by (auto intro: le_antisym)
  with assms(3) q(2) have "q = p"
    by (metis is_path_prefix_prefix prefixE append_eq_append_conv)
  with q assms(2) Some pv show ?thesis by simp
qed

text \<open>A test of the entry found, as a statement about the stored entries.\<close>

lemma longest_all:
  assumes "inv m"
  shows "(case longest m path of None \<Rightarrow> True | Some (_, v) \<Rightarrow> P v) \<longleftrightarrow>
    (\<forall>k v. get m k = Some v \<and> is_path_prefix k path \<and>
       (\<forall>k'. get m k' \<noteq> None \<and> is_path_prefix k' path \<longrightarrow> length k' \<le> length k) \<longrightarrow> P v)"
proof (cases "longest m path")
  case None
  then have "\<forall>k \<in> dom (get m). \<not> is_path_prefix k path" using longest_None [OF assms] by blast
  then show ?thesis using None by (auto simp: dom_def)
next
  case (Some kv)
  obtain k v where kv: "kv = (k, v)" by force
  then have k: "get m k = Some v" "is_path_prefix k path"
    "\<forall>k'. get m k' \<noteq> None \<and> is_path_prefix k' path \<longrightarrow> length k' \<le> length k"
    using longest_Some [OF assms, of path k v] Some by (auto simp: dom_def)
  have unique: "longest m path = Some (k', v')" if "get m k' = Some v'" "is_path_prefix k' path"
      "\<forall>k''. get m k'' \<noteq> None \<and> is_path_prefix k'' path \<longrightarrow> length k'' \<le> length k'" for k' v'
    using longest_eqI [OF assms that(1,2)] that(3) by (auto simp: dom_def)
  show ?thesis
  proof
    assume "case longest m path of None \<Rightarrow> True | Some (_, v) \<Rightarrow> P v"
    then have "P v" using Some kv by simp
    then show "\<forall>k v. get m k = Some v \<and> is_path_prefix k path \<and>
       (\<forall>k'. get m k' \<noteq> None \<and> is_path_prefix k' path \<longrightarrow> length k' \<le> length k) \<longrightarrow> P v"
      using unique Some kv by (metis option.inject prod.inject)
  next
    assume "\<forall>k v. get m k = Some v \<and> is_path_prefix k path \<and>
       (\<forall>k'. get m k' \<noteq> None \<and> is_path_prefix k' path \<longrightarrow> length k' \<le> length k) \<longrightarrow> P v"
    then have "P v" using k by blast
    then show "case longest m path of None \<Rightarrow> True | Some (_, v) \<Rightarrow> P v" using Some kv by simp
  qed
qed

text \<open>Inserting under a path that is not a prefix of the request path changes nothing for it.\<close>

lemma longest_insert_other:
  assumes "inv m" and "\<not> is_path_prefix k path"
  shows "longest (fst (insert k v m)) path = longest m path"
proof (cases "longest m path")
  case None
  with assms have "longest (fst (insert k v m)) path = None"
    by (simp add: longest_None inv_insert get_insert)
  with None show ?thesis by simp
next
  case (Some pv)
  obtain p w where pv: "pv = (p, w)" by (cases pv)
  from Some pv assms(1) have "get m p = Some w" "is_path_prefix p path"
    "\<forall>p' \<in> dom (get m). is_path_prefix p' path \<longrightarrow> length p' \<le> length p"
    using longest_Some by blast+
  with assms have "longest (fst (insert k v m)) path = Some (p, w)"
    by (intro longest_eqI) (auto simp: inv_insert get_insert)
  with Some pv show ?thesis by simp
qed

text \<open>A rule inserted for a longer prefix overrides the shorter ones.\<close>

lemma longest_insert_longer:
  assumes "inv m" and "is_path_prefix k path"
    and "\<And>p. p \<in> dom (get m) \<Longrightarrow> is_path_prefix p path \<Longrightarrow> length p \<le> length k"
  shows "longest (fst (insert k v m)) path = Some (k, v)"
  using assms by (intro longest_eqI) (auto simp: inv_insert get_insert split: if_splits)

end

interpretation pm: prefix_lookup pm_default pm_insert longest_prefix pm_get pm_inv
proof unfold_locales
  fix m :: "'a prefix_map" and path p v
  assume "pm_inv m" and "longest_prefix m path = Some (p, v)"
  note * = longest_prefix_Some [OF this]
  show "pm_get m p = Some v \<and> is_path_prefix p path \<and>
      (\<forall>p' \<in> dom (pm_get m). is_path_prefix p' path \<longrightarrow> length p' \<le> length p)"
    by (intro conjI ballI impI *)
qed (auto simp: pm_default_def pm_inv_def pm_get_def pm_insert_def longest_prefix_None)

text \<open>
  C1. The lookup returns the longest entry whose key is a path prefix of the request path:
  a result \<open>(p, v)\<close> is exactly a stored entry that is a path prefix and at least as long as
  every other stored path prefix (the scan over the ordered map in reverse stops at the first
  match, and that match is the longest one).
\<close>

theorem longest_prefix_spec:
  assumes "pm_inv m"
  shows "longest_prefix m path = Some (p, v) \<longleftrightarrow>
    pm_get m p = Some v \<and> is_path_prefix p path \<and>
    (\<forall>p'. pm_get m p' \<noteq> None \<and> is_path_prefix p' path \<longrightarrow> length p' \<le> length p)"
proof
  assume "longest_prefix m path = Some (p, v)"
  with assms show "pm_get m p = Some v \<and> is_path_prefix p path \<and>
    (\<forall>p'. pm_get m p' \<noteq> None \<and> is_path_prefix p' path \<longrightarrow> length p' \<le> length p)"
    using pm.longest_Some by (metis domIff)
next
  assume "pm_get m p = Some v \<and> is_path_prefix p path \<and>
    (\<forall>p'. pm_get m p' \<noteq> None \<and> is_path_prefix p' path \<longrightarrow> length p' \<le> length p)"
  with assms show "longest_prefix m path = Some (p, v)"
    by (intro pm.longest_eqI) (auto simp: dom_def)
qed

theorem longest_prefix_spec_witness:
  "longest_prefix \<lparr>pm_map = [(''/a/b'', 1 :: nat), (''/a/b/c'', 2), (''/a/bb/c'', 3)]\<rparr> ''/a/b/c/d'' = Some (''/a/b/c'', 2)
   \<and> pm_get \<lparr>pm_map = [(''/a/b'', 1 :: nat), (''/a/b/c'', 2), (''/a/bb/c'', 3)]\<rparr> ''/a/b/c'' = Some 2"
proof -
  have inv: "pm_inv \<lparr>pm_map = [(''/a/b'', 1 :: nat), (''/a/b/c'', 2), (''/a/bb/c'', 3)]\<rparr>"
    by code_simp
  have found: "longest_prefix \<lparr>pm_map = [(''/a/b'', 1 :: nat), (''/a/b/c'', 2), (''/a/bb/c'', 3)]\<rparr> ''/a/b/c/d'' = Some (''/a/b/c'', 2)"
    by code_simp
  then show ?thesis
    using longest_prefix_spec [OF inv, of "''/a/b/c/d''" "''/a/b/c''" 2] by simp
qed

end
