(* ===== verification/Json.thy ===== *)
theory Json
  imports Prelude
begin

text \<open>
  JSON documents as \<open>serde_json\<close> hands them to the server.  A number is a non-negative
  integer, a negative integer or a double, the three representations \<open>serde_json\<close> keeps
  apart; an object is an association list in iteration order.
\<close>

datatype jnum = PosInt u64 | NegInt i64 | FloatNum f64

datatype json =
    JNull
  | JBool bool
  | JNumber jnum
  | JString string
  | JArray "json list"
  | JObject "(string \<times> json) list"

definition is_i64 :: "jnum \<Rightarrow> bool" where
  "is_i64 n = (case n of PosInt v \<Rightarrow> unat v < 2 ^ 63 | NegInt _ \<Rightarrow> True | FloatNum _ \<Rightarrow> False)"

definition is_u64 :: "jnum \<Rightarrow> bool" where
  "is_u64 n = (case n of PosInt _ \<Rightarrow> True | _ \<Rightarrow> False)"

definition num_as_f64 :: "jnum \<Rightarrow> f64" where
  "num_as_f64 n = (case n of PosInt v \<Rightarrow> f64_of_nat (unat v) | NegInt v \<Rightarrow> f64_of_int (sint v) | FloatNum f \<Rightarrow> f)"

definition as_object :: "json \<Rightarrow> (string \<times> json) list option" where
  "as_object j = (case j of JObject m \<Rightarrow> Some m | _ \<Rightarrow> None)"

definition as_array :: "json \<Rightarrow> json list option" where
  "as_array j = (case j of JArray xs \<Rightarrow> Some xs | _ \<Rightarrow> None)"

definition json_as_str :: "json \<Rightarrow> string option" where
  "json_as_str j = (case j of JString s \<Rightarrow> Some s | _ \<Rightarrow> None)"

definition json_as_bool :: "json \<Rightarrow> bool option" where
  "json_as_bool j = (case j of JBool b \<Rightarrow> Some b | _ \<Rightarrow> None)"

definition json_as_f64 :: "json \<Rightarrow> f64 option" where
  "json_as_f64 j = (case j of JNumber n \<Rightarrow> Some (num_as_f64 n) | _ \<Rightarrow> None)"

text \<open>\<open>Value::get\<close> with a string key: the member of an object, nothing on any other value.\<close>

definition json_get :: "json \<Rightarrow> string \<Rightarrow> json option" where
  "json_get j k = (case j of JObject m \<Rightarrow> map_of m k | _ \<Rightarrow> None)"

lemma as_object_Some [simp]: "as_object j = Some m \<longleftrightarrow> j = JObject m"
  by (cases j) (auto simp: as_object_def)

lemma as_array_Some [simp]: "as_array j = Some xs \<longleftrightarrow> j = JArray xs"
  by (cases j) (auto simp: as_array_def)

lemma size_json_member [termination_simp]:
  "(k, v) \<in> set m \<Longrightarrow> size v < Suc (size_list (size_prod (\<lambda>_. 0) size) m)"
  by (induction m) auto

lemma size_json_elem [termination_simp]:
  "v \<in> set xs \<Longrightarrow> size v < Suc (size_list size xs)"
  by (induction xs) auto

end
