(* ===== verification/Expr.thy ===== *)
theory Expr
  imports Json
begin

text \<open>
  \<open>server/src/datastore/expr.rs\<close>: the filter expressions of the data layer, and a reference
  meaning for them.  Expressions are built by the JSON filters, by the CRUD parameters, by
  cursors and by the access policies, and are rendered to SQL by the query planner.
\<close>

datatype expr_value =
    VBool bool
  | VU64 u64
  | VI64 i64
  | VF64 f64
  | VString string
  | VNull

datatype binary_op = OpEq | OpNotEq | OpLt | OpLtEq | OpGt | OpGtEq | OpAnd | OpOr | OpLike | OpNotLike

datatype expr =
    Value expr_value
  | Parameter nat
  | Property string expr
  | Binary expr binary_op expr
  | NotExpr expr

fun to_sql_string :: "binary_op \<Rightarrow> string" where
  "to_sql_string OpEq = ''=''"
| "to_sql_string OpNotEq = ''!=''"
| "to_sql_string OpLt = ''<''"
| "to_sql_string OpLtEq = ''<=''"
| "to_sql_string OpGt = ''>''"
| "to_sql_string OpGtEq = ''>=''"
| "to_sql_string OpAnd = ''AND''"
| "to_sql_string OpOr = ''OR''"
| "to_sql_string OpLike = ''LIKE''"
| "to_sql_string OpNotLike = ''NOT LIKE''"

definition value_try_from :: "json \<Rightarrow> expr_value res" where
  "value_try_from j =
     (case j of
        JNull \<Rightarrow> Ok VNull
      | JBool b \<Rightarrow> Ok (VBool b)
      | JNumber n \<Rightarrow>
          if is_i64 n then Ok (VI64 (case n of PosInt v \<Rightarrow> v | NegInt v \<Rightarrow> v | FloatNum _ \<Rightarrow> 0))
          else if is_u64 n then Ok (VU64 (case n of PosInt v \<Rightarrow> v | _ \<Rightarrow> 0))
          else Ok (VF64 (num_as_f64 n))
      | JString s \<Rightarrow> Ok (VString s)
      | JArray _ \<Rightarrow> Err (Bail ''Trying to convert JSON Array {json} to Expression Value which is not supported'' [])
      | JObject _ \<Rightarrow> Err (Bail ''Trying to convert JSON Object {json} to Expression Value which is not supported'' []))"

text \<open>\<open>impl From<&JsonValue> for Value\<close> unwraps the fallible conversion.\<close>

definition value_from_json :: "json \<Rightarrow> expr_value res" where
  "value_from_json j = (case value_try_from j of Err e \<Rightarrow> Panic ''called Result::unwrap() on an Err value'' | r \<Rightarrow> r)"

definition value_from_option :: "expr_value option \<Rightarrow> expr_value" where
  "value_from_option opt = (case opt of Some v \<Rightarrow> v | None \<Rightarrow> VNull)"

definition BinaryExpr_new :: "binary_op \<Rightarrow> expr \<Rightarrow> expr \<Rightarrow> expr" where
  "BinaryExpr_new op lhs rhs = Binary lhs op rhs"

abbreviation expr_eq :: "expr \<Rightarrow> expr \<Rightarrow> expr" where "expr_eq \<equiv> BinaryExpr_new OpEq"
abbreviation expr_and :: "expr \<Rightarrow> expr \<Rightarrow> expr" where "expr_and \<equiv> BinaryExpr_new OpAnd"
abbreviation expr_or :: "expr \<Rightarrow> expr \<Rightarrow> expr" where "expr_or \<equiv> BinaryExpr_new OpOr"

subsection \<open>Reference meaning\<close>

text \<open>
  The database evaluates a filter in SQL's three-valued logic: \<open>None\<close> is UNKNOWN.  The
  comparison of two column values belongs to the database, so it is a parameter
  \<open>cmp op l r\<close>; the connectives are SQL's.  A row gives every property chain a value.
\<close>

type_synonym comparison = "binary_op \<Rightarrow> expr_value \<Rightarrow> expr_value \<Rightarrow> bool option"
type_synonym row_view = "string list \<Rightarrow> expr_value"

fun k_and :: "bool option \<Rightarrow> bool option \<Rightarrow> bool option" where
  "k_and (Some False) _ = Some False"
| "k_and _ (Some False) = Some False"
| "k_and (Some True) (Some True) = Some True"
| "k_and _ _ = None"

fun k_not :: "bool option \<Rightarrow> bool option" where
  "k_not (Some b) = Some (\<not> b)"
| "k_not None = None"

definition k_or :: "bool option \<Rightarrow> bool option \<Rightarrow> bool option" where
  "k_or a b = k_not (k_and (k_not a) (k_not b))"

definition truth_of :: "expr_value \<Rightarrow> bool option" where
  "truth_of v = (case v of VBool b \<Rightarrow> Some b | _ \<Rightarrow> None)"

definition of_truth :: "bool option \<Rightarrow> expr_value" where
  "of_truth t = (case t of Some b \<Rightarrow> VBool b | None \<Rightarrow> VNull)"

fun property_chain :: "expr \<Rightarrow> string list option" where
  "property_chain (Parameter _) = Some []"
| "property_chain (Property p obj) = map_option (\<lambda>ps. ps @ [p]) (property_chain obj)"
| "property_chain _ = None"

fun eval_expr :: "comparison \<Rightarrow> row_view \<Rightarrow> expr \<Rightarrow> expr_value" where
  "eval_expr cmp row (Value v) = v"
| "eval_expr cmp row (Parameter _) = VNull"
| "eval_expr cmp row (Property p obj) =
     (case property_chain (Property p obj) of Some ps \<Rightarrow> row ps | None \<Rightarrow> VNull)"
| "eval_expr cmp row (Binary l op r) =
     of_truth (case op of
        OpAnd \<Rightarrow> k_and (truth_of (eval_expr cmp row l)) (truth_of (eval_expr cmp row r))
      | OpOr \<Rightarrow> k_or (truth_of (eval_expr cmp row l)) (truth_of (eval_expr cmp row r))
      | _ \<Rightarrow> cmp op (eval_expr cmp row l) (eval_expr cmp row r))"
| "eval_expr cmp row (NotExpr e) = of_truth (k_not (truth_of (eval_expr cmp row e)))"

definition truth :: "comparison \<Rightarrow> row_view \<Rightarrow> expr \<Rightarrow> bool option" where
  "truth cmp row e = truth_of (eval_expr cmp row e)"

text \<open>A row passes a filter when the filter is TRUE for it (neither FALSE nor UNKNOWN).\<close>

definition holds :: "comparison \<Rightarrow> row_view \<Rightarrow> expr \<Rightarrow> bool" where
  "holds cmp row e = (truth cmp row e = Some True)"

lemma truth_of_truth [simp]: "truth_of (of_truth t) = t"
  by (cases t) (auto simp: truth_of_def of_truth_def)

lemma truth_Value [simp]: "truth cmp row (Value (VBool b)) = Some b"
  by (simp add: truth_def truth_of_def)

lemma truth_and [simp]:
  "truth cmp row (expr_and a b) = k_and (truth cmp row a) (truth cmp row b)"
  by (simp add: truth_def BinaryExpr_new_def)

lemma truth_or [simp]:
  "truth cmp row (expr_or a b) = k_or (truth cmp row a) (truth cmp row b)"
  by (simp add: truth_def BinaryExpr_new_def)

lemma truth_not [simp]: "truth cmp row (NotExpr e) = k_not (truth cmp row e)"
  by (simp add: truth_def)

lemma truth_cmp [simp]:
  "op \<noteq> OpAnd \<Longrightarrow> op \<noteq> OpOr \<Longrightarrow>
     truth cmp row (BinaryExpr_new op l r) = cmp op (eval_expr cmp row l) (eval_expr cmp row r)"
  by (cases op) (simp_all add: truth_def BinaryExpr_new_def)

lemma k_and_True [simp]: "k_and (Some True) t = t" "k_and t (Some True) = t"
  by (cases t; cases "the t"; simp)+

lemma k_and_False [simp]: "k_and (Some False) t = Some False" "k_and t (Some False) = Some False"
  by (cases t; cases "the t"; simp)+

lemma k_and_assoc: "k_and (k_and a b) c = k_and a (k_and b c)"
  by (cases a rule: option.exhaust; cases b rule: option.exhaust; cases c rule: option.exhaust;
      cases "the a"; cases "the b"; cases "the c"; simp)

lemma k_and_Some_True: "k_and a b = Some True \<longleftrightarrow> a = Some True \<and> b = Some True"
  by (cases "(a, b)" rule: k_and.cases) auto

lemma k_and_Some_False: "k_and a b = Some False \<longleftrightarrow> a = Some False \<or> b = Some False"
  by (cases "(a, b)" rule: k_and.cases) auto

lemma k_not_Some: "k_not t = Some b \<longleftrightarrow> t = Some (\<not> b)"
  by (cases t) auto

lemma k_or_Some_True: "k_or a b = Some True \<longleftrightarrow> a = Some True \<or> b = Some True"
  by (auto simp: k_or_def k_not_Some k_and_Some_False)

lemma k_or_Some_False: "k_or a b = Some False \<longleftrightarrow> a = Some False \<and> b = Some False"
  by (auto simp: k_or_def k_not_Some k_and_Some_True)

lemma k_or_unit [simp]: "k_or (Some False) t = t"
  by (cases t) (auto simp: k_or_def)

text \<open>Conjunction and disjunction of a list of truth values, read off the list as a whole.\<close>

definition k_all :: "bool option list \<Rightarrow> bool option" where
  "k_all ts = (if Some False \<in> set ts then Some False else if \<forall>t \<in> set ts. t = Some True then Some True else None)"

definition k_any :: "bool option list \<Rightarrow> bool option" where
  "k_any ts = (if Some True \<in> set ts then Some True else if \<forall>t \<in> set ts. t = Some False then Some False else None)"

lemma k_all_Nil [simp]: "k_all [] = Some True"
  by (simp add: k_all_def)

lemma k_any_Nil [simp]: "k_any [] = Some False"
  by (simp add: k_any_def)

lemma bool_option_eqI:
  "(\<And>b. s = Some b \<longleftrightarrow> t = Some b) \<Longrightarrow> s = (t :: bool option)"
  by (cases s; cases t) auto

lemma k_all_Some: "k_all ts = Some b \<longleftrightarrow> (if b then \<forall>t \<in> set ts. t = Some True else Some False \<in> set ts)"
  by (auto simp: k_all_def)

lemma k_any_Some: "k_any ts = Some b \<longleftrightarrow> (if b then Some True \<in> set ts else \<forall>t \<in> set ts. t = Some False)"
  by (auto simp: k_any_def)

lemma k_all_snoc: "k_all (ts @ [t]) = k_and (k_all ts) t"
  by (rule bool_option_eqI) (auto simp: k_all_Some k_and_Some_True k_and_Some_False split: if_splits)

lemma k_any_snoc: "k_any (ts @ [t]) = k_or (k_any ts) t"
  by (rule bool_option_eqI) (auto simp: k_any_Some k_or_Some_True k_or_Some_False split: if_splits)

lemma holds_and [simp]: "holds cmp row (expr_and a b) \<longleftrightarrow> holds cmp row a \<and> holds cmp row b"
  by (simp add: holds_def k_and_Some_True)

lemma holds_or [simp]: "holds cmp row (expr_or a b) \<longleftrightarrow> holds cmp row a \<or> holds cmp row b"
  by (simp add: holds_def k_or_Some_True)

end
