(* ===== verification/Filter_Json.thy ===== *)
theory Filter_Json
  imports Expr
begin

text \<open>
  \<open>server/src/datastore/filter.rs\<close>: JSON filters (\<open>{"age": {"$gt": 3}, "$or": [...]}\<close>)
  compiled to filter expressions.  The compiler refuses documents nested deeper than 100.
\<close>

definition max_depth :: nat where
  "max_depth = 100"

definition comparison_operator :: "string \<Rightarrow> binary_op option" where
  "comparison_operator key =
     (if key = ''$eq'' then Some OpEq
      else if key = ''$ne'' then Some OpNotEq
      else if key = ''$gt'' then Some OpGt
      else if key = ''$gte'' then Some OpGtEq
      else if key = ''$lt'' then Some OpLt
      else if key = ''$lte'' then Some OpLtEq
      else None)"

function field_filter_to_expr_rec :: "nat \<Rightarrow> expr \<Rightarrow> json \<Rightarrow> expr res" where
  "field_filter_to_expr_rec depth property val =
     r_bind (ensure (depth \<le> max_depth) (Bail ''reached maximum field filter recursion depth of 100'' [])) (\<lambda>_.
       case val of
         JObject obj \<Rightarrow>
           r_fold (\<lambda>(key, v) expr.
             r_bind
               (if starts_with ''$'' key then
                  r_bind (ok_or (Bail ''encountered unknown comparison operator {op_name}'' [key]) (comparison_operator key)) (\<lambda>op.
                  r_bind (value_try_from v) (\<lambda>expr_value.
                  Ok (BinaryExpr_new op property (Value expr_value))))
                else field_filter_to_expr_rec (depth + 1) (Property key property) v)
               (\<lambda>field_filter. Ok (expr_and expr field_filter)))
             obj (Value (VBool True))
       | _ \<Rightarrow> r_map_ok (\<lambda>expr_value. expr_eq property (Value expr_value)) (value_try_from val))"
  by pat_completeness auto
termination
  by (relation "measure (\<lambda>(depth, property, val). size val)") (auto simp: size_json_member)

declare field_filter_to_expr_rec.simps [simp del]

definition filed_filter_to_expr :: "string \<Rightarrow> json \<Rightarrow> expr res" where
  "filed_filter_to_expr field_name val = field_filter_to_expr_rec 0 (Property field_name (Parameter 0)) val"

function to_expr_rec :: "nat \<Rightarrow> json \<Rightarrow> expr res" where
  "to_expr_rec depth e =
     r_bind (ensure (depth \<le> max_depth) (Bail ''reached maximum expression filter recursion depth of 100'' [])) (\<lambda>_.
       case e of
         JObject filter_obj \<Rightarrow>
           r_fold (\<lambda>(key, val) expr.
             r_bind
               (if key = ''$and'' then
                  (case val of
                     JArray operands \<Rightarrow>
                       r_fold (\<lambda>operand expr. r_map_ok (expr_and expr) (to_expr_rec (depth + 1) operand))
                         operands (Value (VBool True))
                   | _ \<Rightarrow> Err (Bail ''operator $and must be used with an array, but got different type'' []))
                else if key = ''$or'' then
                  (case val of
                     JArray operands \<Rightarrow>
                       r_fold (\<lambda>operand expr. r_map_ok (expr_or expr) (to_expr_rec (depth + 1) operand))
                         operands (Value (VBool False))
                   | _ \<Rightarrow> Err (Bail ''operator $or must be used with an array, but got different type'' []))
                else if key = ''$not'' then r_map_ok NotExpr (to_expr_rec (depth + 1) val)
                else
                  r_bind (ensure (\<not> starts_with ''$'' key) (Bail ''found an unknown filter operator {field_name}'' [key])) (\<lambda>_.
                  filed_filter_to_expr key val))
               (\<lambda>e. Ok (expr_and expr e)))
             filter_obj (Value (VBool True))
       | _ \<Rightarrow> Err (Bail ''filter value is not an object'' []))"
  by pat_completeness auto
termination
proof (relation "measure (\<lambda>(depth, e). size e)", goal_cases)
  case 1
  show ?case by simp
next
  case 2
  then show ?case by (auto dest!: size_json_elem size_json_member)
next
  case 3
  then show ?case by (auto dest!: size_json_elem size_json_member)
next
  case 4
  then show ?case by (auto simp: size_json_member)
qed

declare to_expr_rec.simps [simp del]

definition to_expr :: "json \<Rightarrow> expr res" where
  "to_expr e = to_expr_rec 0 e"

subsection \<open>Meaning of a JSON filter\<close>

text \<open>
  What a filter document says about a row, without any expression in between: an object is the
  conjunction of its entries, \<open>$and\<close>/\<open>$or\<close> range over the operands of an array, \<open>$not\<close>
  negates, and a field entry compares the column under its path.
\<close>

function field_filter_sem :: "comparison \<Rightarrow> row_view \<Rightarrow> string list \<Rightarrow> json \<Rightarrow> bool option" where
  "field_filter_sem cmp row path val =
     (case val of
        JObject obj \<Rightarrow>
          k_all (map (\<lambda>(key, v).
            if starts_with ''$'' key then
              (case (comparison_operator key, value_try_from v) of
                 (Some op, Ok x) \<Rightarrow> cmp op (row path) x
               | _ \<Rightarrow> None)
            else field_filter_sem cmp row (path @ [key]) v) obj)
      | _ \<Rightarrow> (case value_try_from val of Ok x \<Rightarrow> cmp OpEq (row path) x | _ \<Rightarrow> None))"
  by pat_completeness auto
termination
  by (relation "measure (\<lambda>(cmp, row, path, val). size val)") (auto simp: size_json_member)

declare field_filter_sem.simps [simp del]

function filter_sem :: "comparison \<Rightarrow> row_view \<Rightarrow> json \<Rightarrow> bool option" where
  "filter_sem cmp row e =
     (case e of
        JObject filter_obj \<Rightarrow>
          k_all (map (\<lambda>(key, val).
            if key = ''$and'' then
              (case val of JArray operands \<Rightarrow> k_all (map (filter_sem cmp row) operands) | _ \<Rightarrow> None)
            else if key = ''$or'' then
              (case val of JArray operands \<Rightarrow> k_any (map (filter_sem cmp row) operands) | _ \<Rightarrow> None)
            else if key = ''$not'' then k_not (filter_sem cmp row val)
            else field_filter_sem cmp row [key] val) filter_obj)
      | _ \<Rightarrow> None)"
  by pat_completeness auto
termination
proof (relation "measure (\<lambda>(cmp, row, e). size e)", goal_cases)
  case 1
  show ?case by simp
next
  case 2
  then show ?case by (auto dest!: size_json_elem size_json_member)
next
  case 3
  then show ?case by (auto dest!: size_json_elem size_json_member)
next
  case 4
  then show ?case by (auto simp: size_json_member)
qed

declare filter_sem.simps [simp del]

text \<open>
  The loops fold a connective over the entries; a generic lemma turns such a loop into the
  meaning of the whole list.
\<close>

lemma k_loop:
  assumes "r_fold step xs acc = Ok acc'"
    and step: "\<And>x a b. x \<in> set xs \<Longrightarrow> step x a = Ok b \<Longrightarrow> t b = conn (t a) (s x)"
    and snoc: "\<And>ts x. agg (ts @ [x]) = conn (agg ts) x"
    and init: "t acc = agg ts0"
  shows "t acc' = agg (ts0 @ map s xs)"
  using assms(1) step init
proof (induction xs arbitrary: acc ts0)
  case (Cons x xs)
  then obtain b where b: "step x acc = Ok b" "r_fold step xs b = Ok acc'"
    by (auto simp: r_bind_Ok_iff)
  have "t b = agg (ts0 @ [s x])"
    using Cons.prems(2) [of x acc b] Cons.prems(3) b(1) by (simp add: snoc)
  then show ?case
    using Cons.IH [of b "ts0 @ [s x]"] b(2) Cons.prems(2) by simp
qed simp

lemma comparison_operator_cmp:
  "comparison_operator key = Some op \<Longrightarrow> op \<noteq> OpAnd \<and> op \<noteq> OpOr"
  by (auto simp: comparison_operator_def split: if_splits)

lemma eval_property_chain:
  "property_chain property = Some path \<Longrightarrow> path \<noteq> [] \<Longrightarrow> eval_expr cmp row property = row path"
  by (cases property) (auto split: option.splits)

lemma field_filter_to_expr_rec_sem:
  "field_filter_to_expr_rec depth property val = Ok e \<Longrightarrow>
   property_chain property = Some path \<Longrightarrow> path \<noteq> [] \<Longrightarrow>
   truth cmp row e = field_filter_sem cmp row path val"
proof (induction "size val" arbitrary: depth property val e path rule: less_induct)
  case (less val)
  from less.prems(1) have depth: "depth \<le> max_depth"
    by (subst (asm) field_filter_to_expr_rec.simps) (auto simp: r_bind_Ok_iff)
  show ?case
  proof (cases "as_object val")
    case None
    then have "\<nexists>obj. val = JObject obj" by (auto simp: as_object_def)
    with less.prems depth show ?thesis
      by (subst (asm) field_filter_to_expr_rec.simps, subst field_filter_sem.simps)
        (auto simp: r_map_ok_Ok_iff eval_property_chain split: json.splits)
  next
    case (Some obj)
    then have val: "val = JObject obj" by simp
    let ?step = "\<lambda>(key, v) expr.
             r_bind
               (if starts_with ''$'' key then
                  r_bind (ok_or (Bail ''encountered unknown comparison operator {op_name}'' [key]) (comparison_operator key)) (\<lambda>op.
                  r_bind (value_try_from v) (\<lambda>expr_value.
                  Ok (BinaryExpr_new op property (Value expr_value))))
                else field_filter_to_expr_rec (depth + 1) (Property key property) v)
               (\<lambda>field_filter. Ok (expr_and expr field_filter))"
    let ?s = "\<lambda>(key, v). if starts_with ''$'' key then
              (case (comparison_operator key, value_try_from v) of
                 (Some op, Ok x) \<Rightarrow> cmp op (row path) x
               | _ \<Rightarrow> None)
            else field_filter_sem cmp row (path @ [key]) v"
    have run: "r_fold ?step obj (Value (VBool True)) = Ok e"
      using less.prems(1) depth val by (subst (asm) field_filter_to_expr_rec.simps) simp
    have "truth cmp row b = k_and (truth cmp row a) (?s x)"
      if x: "x \<in> set obj" and ok: "?step x a = Ok b" for x a b
    proof -
      obtain key v where kv: "x = (key, v)" by (cases x)
      show ?thesis
      proof (cases "starts_with ''$'' key")
        case True
        with ok kv less.prems show ?thesis
          using comparison_operator_cmp [of key] by (auto simp: r_bind_Ok_iff eval_property_chain)
      next
        case False
        with ok kv obtain f where f: "field_filter_to_expr_rec (depth + 1) (Property key property) v = Ok f"
          and b: "b = expr_and a f"
          by (auto simp: r_bind_Ok_iff)
        have "truth cmp row f = field_filter_sem cmp row (path @ [key]) v"
          using less.prems(2) x kv val by (intro less.hyps [OF _ f]) (simp_all add: size_json_member)
        with False kv b show ?thesis by simp
      qed
    qed
    then have "truth cmp row e = k_all ([] @ map ?s obj)"
      by (rule k_loop [OF run]) (auto simp: k_all_snoc)
    with val show ?thesis by (subst field_filter_sem.simps) simp
  qed
qed

lemma filed_filter_to_expr_sem:
  "filed_filter_to_expr field_name val = Ok e \<Longrightarrow>
   truth cmp row e = field_filter_sem cmp row [field_name] val"
  unfolding filed_filter_to_expr_def by (erule field_filter_to_expr_rec_sem) simp_all

lemma k_all_loop:
  assumes "r_fold (\<lambda>operand expr. r_map_ok (expr_and expr) (f operand)) operands (Value (VBool True)) = Ok e"
    and "\<And>operand e. operand \<in> set operands \<Longrightarrow> f operand = Ok e \<Longrightarrow> truth cmp row e = s operand"
  shows "truth cmp row e = k_all (map s operands)"
proof -
  have "truth cmp row e = k_all ([] @ map s operands)"
    using assms(1)
    by (rule k_loop [where conn = k_and and agg = k_all]) (auto simp: k_all_snoc r_map_ok_Ok_iff assms(2))
  then show ?thesis by simp
qed

lemma k_any_loop:
  assumes "r_fold (\<lambda>operand expr. r_map_ok (expr_or expr) (f operand)) operands (Value (VBool False)) = Ok e"
    and "\<And>operand e. operand \<in> set operands \<Longrightarrow> f operand = Ok e \<Longrightarrow> truth cmp row e = s operand"
  shows "truth cmp row e = k_any (map s operands)"
proof -
  have "truth cmp row e = k_any ([] @ map s operands)"
    using assms(1)
    by (rule k_loop [where conn = k_or and agg = k_any]) (auto simp: k_any_snoc r_map_ok_Ok_iff assms(2))
  then show ?thesis by simp
qed

text \<open>One entry of a filter object, as compiled and as meant.\<close>

definition entry_to_expr :: "nat \<Rightarrow> string \<Rightarrow> json \<Rightarrow> expr res" where
  "entry_to_expr depth key val =
     (if key = ''$and'' then
        (case val of
           JArray operands \<Rightarrow>
             r_fold (\<lambda>operand expr. r_map_ok (expr_and expr) (to_expr_rec (depth + 1) operand))
               operands (Value (VBool True))
         | _ \<Rightarrow> Err (Bail ''operator $and must be used with an array, but got different type'' []))
      else if key = ''$or'' then
        (case val of
           JArray operands \<Rightarrow>
             r_fold (\<lambda>operand expr. r_map_ok (expr_or expr) (to_expr_rec (depth + 1) operand))
               operands (Value (VBool False))
         | _ \<Rightarrow> Err (Bail ''operator $or must be used with an array, but got different type'' []))
      else if key = ''$not'' then r_map_ok NotExpr (to_expr_rec (depth + 1) val)
      else
        r_bind (ensure (\<not> starts_with ''$'' key) (Bail ''found an unknown filter operator {field_name}'' [key])) (\<lambda>_.
        filed_filter_to_expr key val))"

definition entry_sem :: "comparison \<Rightarrow> row_view \<Rightarrow> string \<Rightarrow> json \<Rightarrow> bool option" where
  "entry_sem cmp row key val =
     (if key = ''$and'' then
        (case val of JArray operands \<Rightarrow> k_all (map (filter_sem cmp row) operands) | _ \<Rightarrow> None)
      else if key = ''$or'' then
        (case val of JArray operands \<Rightarrow> k_any (map (filter_sem cmp row) operands) | _ \<Rightarrow> None)
      else if key = ''$not'' then k_not (filter_sem cmp row val)
      else field_filter_sem cmp row [key] val)"

lemma to_expr_rec_object:
  "to_expr_rec depth (JObject m) =
     r_bind (ensure (depth \<le> max_depth) (Bail ''reached maximum expression filter recursion depth of 100'' [])) (\<lambda>_.
       r_fold (\<lambda>(key, val) expr. r_bind (entry_to_expr depth key val) (\<lambda>e. Ok (expr_and expr e)))
         m (Value (VBool True)))"
  by (subst to_expr_rec.simps) (simp add: entry_to_expr_def [abs_def])

lemma filter_sem_object:
  "filter_sem cmp row (JObject m) = k_all (map (\<lambda>(key, val). entry_sem cmp row key val) m)"
  by (subst filter_sem.simps) (simp add: entry_sem_def [abs_def])

lemma to_expr_rec_Ok_object:
  "to_expr_rec depth j = Ok e \<Longrightarrow> depth \<le> max_depth \<and> (\<exists>m. j = JObject m)"
  by (subst (asm) to_expr_rec.simps) (auto simp: r_bind_Ok_iff split: json.splits)

lemma entry_to_expr_sem:
  assumes "entry_to_expr depth key val = Ok e"
    and IH: "\<And>j e. size j < Suc (size val) \<Longrightarrow> to_expr_rec (depth + 1) j = Ok e \<Longrightarrow> truth cmp row e = filter_sem cmp row j"
  shows "truth cmp row e = entry_sem cmp row key val"
proof -
  consider (op) "key = ''$and'' \<or> key = ''$or''" | (neg) "key = ''$not''"
    | (field) "key \<noteq> ''$and''" "key \<noteq> ''$or''" "key \<noteq> ''$not''" by blast
  then show ?thesis
  proof cases
    case op
    with assms(1) obtain operands where val: "val = JArray operands"
      by (auto simp: entry_to_expr_def split: json.splits if_splits)
    have sem: "truth cmp row e' = filter_sem cmp row j"
      if "j \<in> set operands" and "to_expr_rec (depth + 1) j = Ok e'" for j e'
      using that val size_json_elem [of j operands] by (intro IH) simp_all
    show ?thesis
    proof (cases "key = ''$and''")
      case True
      with assms(1) val show ?thesis
        by (simp add: entry_to_expr_def entry_sem_def k_all_loop [OF _ sem])
    next
      case False
      with op assms(1) val show ?thesis
        by (simp add: entry_to_expr_def entry_sem_def k_any_loop [OF _ sem])
    qed
  next
    case neg
    with assms(1) IH [of val] show ?thesis
      by (auto simp: entry_to_expr_def entry_sem_def r_map_ok_Ok_iff)
  next
    case field
    with assms(1) show ?thesis
      by (auto simp: entry_to_expr_def entry_sem_def r_bind_Ok_iff intro: filed_filter_to_expr_sem)
  qed
qed

lemma to_expr_rec_sem:
  "to_expr_rec depth j = Ok e \<Longrightarrow> truth cmp row e = filter_sem cmp row j"
proof (induction "size j" arbitrary: depth j e rule: less_induct)
  case less
  obtain m where j: "j = JObject m" and depth: "depth \<le> max_depth"
    using to_expr_rec_Ok_object [OF less.prems] by blast
  have run: "r_fold (\<lambda>(key, val) expr. r_bind (entry_to_expr depth key val) (\<lambda>e. Ok (expr_and expr e)))
         m (Value (VBool True)) = Ok e"
    using less.prems j depth by (simp add: to_expr_rec_object)
  have entry: "truth cmp row f = entry_sem cmp row key val"
    if "(key, val) \<in> set m" and "entry_to_expr depth key val = Ok f" for key val f
    using that(2)
  proof (rule entry_to_expr_sem)
    fix j' e' assume "size j' < Suc (size val)" and ok: "to_expr_rec (depth + 1) j' = Ok e'"
    then have "size j' < size j"
      using j size_json_member [OF that(1)] by simp
    with ok show "truth cmp row e' = filter_sem cmp row j'"
      using less.hyps by blast
  qed
  have "truth cmp row e = k_all ([] @ map (\<lambda>(key, val). entry_sem cmp row key val) m)"
    by (rule k_loop [OF run, where t = "truth cmp row" and conn = k_and and agg = k_all])
      (auto simp: k_all_snoc r_bind_Ok_iff entry)
  with j show ?case by (simp add: filter_sem_object)
qed

subsection \<open>Depth bound and totality\<close>

function filter_depth :: "json \<Rightarrow> nat" where
  "filter_depth j =
     (case j of
        JObject m \<Rightarrow>
          foldr max (map (\<lambda>(key, val).
            if key = ''$and'' \<or> key = ''$or'' then
              (case val of JArray operands \<Rightarrow> foldr max (map (\<lambda>o'. Suc (filter_depth o')) operands) 0 | _ \<Rightarrow> 0)
            else if key = ''$not'' then Suc (filter_depth val)
            else 0) m) 0
      | _ \<Rightarrow> 0)"
  by pat_completeness auto
termination
proof (relation "measure size", goal_cases)
  case 1
  show ?case by simp
next
  case 2
  then show ?case by (auto dest!: size_json_elem size_json_member)
next
  case 3
  then show ?case by (auto simp: size_json_member)
qed

declare filter_depth.simps [simp del]

lemma foldr_max_le_iff: "foldr max xs (0 :: nat) \<le> n \<longleftrightarrow> (\<forall>x \<in> set xs. x \<le> n)"
  by (induction xs) auto

text \<open>If a loop succeeds then every one of its iterations did.\<close>

lemma r_fold_all_Ok:
  assumes "r_fold step xs acc = Ok acc'" and "x \<in> set xs"
  shows "\<exists>a b. step x a = Ok b"
  using assms by (induction xs arbitrary: acc) (auto simp: r_bind_Ok_iff)

lemma to_expr_rec_depth:
  "to_expr_rec depth j = Ok e \<Longrightarrow> depth + filter_depth j \<le> max_depth"
proof (induction "size j" arbitrary: depth j e rule: less_induct)
  case less
  obtain m where j: "j = JObject m" and depth: "depth \<le> max_depth"
    using to_expr_rec_Ok_object [OF less.prems] by blast
  have run: "r_fold (\<lambda>(key, val) expr. r_bind (entry_to_expr depth key val) (\<lambda>e. Ok (expr_and expr e)))
         m (Value (VBool True)) = Ok e"
    using less.prems j depth by (simp add: to_expr_rec_object)
  have sub: "Suc (filter_depth j') \<le> max_depth - depth"
    if "to_expr_rec (depth + 1) j' = Ok e'" and "size j' < size j" for j' e'
    using less.hyps [OF that(2,1)] by simp
  have entry: "(if key = ''$and'' \<or> key = ''$or'' then
              (case val of JArray operands \<Rightarrow> foldr max (map (\<lambda>o'. Suc (filter_depth o')) operands) 0 | _ \<Rightarrow> 0)
            else if key = ''$not'' then Suc (filter_depth val)
            else 0) \<le> max_depth - depth"
    if kv: "(key, val) \<in> set m" for key val
  proof -
    obtain f where f: "entry_to_expr depth key val = Ok f"
      using r_fold_all_Ok [OF run kv] by (auto simp: r_bind_Ok_iff)
    have size_val: "size val < size j"
      using j size_json_member [OF kv] by simp
    show ?thesis
    proof (cases "\<exists>operands. val = JArray operands \<and> (key = ''$and'' \<or> key = ''$or'')")
      case True
      then obtain operands where val: "val = JArray operands" and key: "key = ''$and'' \<or> key = ''$or''"
        by blast
      have "Suc (filter_depth o') \<le> max_depth - depth" if o': "o' \<in> set operands" for o'
      proof -
        have "\<exists>e'. to_expr_rec (depth + 1) o' = Ok e'"
          using f val key o' by (auto simp: entry_to_expr_def r_map_ok_Ok_iff dest!: r_fold_all_Ok split: if_splits)
        then show ?thesis
          using sub size_val val size_json_elem [OF o'] by auto
      qed
      with val key show ?thesis by (auto simp: foldr_max_le_iff)
    next
      case False
      with f size_val show ?thesis
        by (auto simp: entry_to_expr_def r_map_ok_Ok_iff intro: sub split: if_splits json.splits)
    qed
  qed
  have "filter_depth j \<le> max_depth - depth"
    by (subst filter_depth.simps) (use entry in \<open>auto simp: j foldr_max_le_iff\<close>)
  with depth show ?case by simp
qed

lemma value_try_from_no_panic [simp]: "no_panic (value_try_from j)"
  by (cases j) (auto simp: value_try_from_def)

lemma field_filter_to_expr_rec_no_panic: "no_panic (field_filter_to_expr_rec depth property val)"
proof (induction depth property val rule: field_filter_to_expr_rec.induct)
  case (1 depth property val)
  then show ?case
    by (subst field_filter_to_expr_rec.simps) (auto split: json.splits)
qed

lemma to_expr_rec_no_panic: "no_panic (to_expr_rec depth j)"
proof (induction depth j rule: to_expr_rec.induct)
  case (1 depth j)
  then show ?case
    by (subst to_expr_rec.simps)
      (auto intro!: no_panic_bind no_panic_fold simp: filed_filter_to_expr_def field_filter_to_expr_rec_no_panic split: json.splits)
qed



text \<open>
  C3. The compiler returns on every document and never panics, and a document it accepts nests
  its operators at most 100 deep.
\<close>

theorem to_expr_bounded:
  "no_panic (to_expr j) \<and> (\<forall>e. to_expr j = Ok e \<longrightarrow> filter_depth j \<le> 100)"
  using to_expr_rec_depth [of 0 j] to_expr_rec_no_panic [of 0 j]
  by (auto simp: to_expr_def max_depth_def)

theorem to_expr_bounded_witness:
  "no_panic (to_expr (JObject [(''$not'', JObject [])])) \<and> filter_depth (JObject [(''$not'', JObject [])]) \<le> 100"
proof -
  have "to_expr (JObject [(''$not'', JObject [])]) =
      Ok (expr_and (Value (VBool True)) (NotExpr (Value (VBool True))))"
    by (simp add: to_expr_def to_expr_rec_object max_depth_def entry_to_expr_def)
  then show ?thesis
    using to_expr_bounded [of "JObject [(''$not'', JObject [])]"] by blast
qed

end
