(* ===== verification/Types.thy ===== *)
theory Types
  imports Prelude
begin

text \<open>
  \<open>server/src/types/mod.rs\<close> and the identifier truncation of \<open>server/src/datastore/query.rs\<close>:
  entity types, their fields and indexes, the descriptors they are created from, and the names
  under which they are persisted.
\<close>

type_synonym i32 = "32 word"

subsection \<open>Truncated identifiers\<close>

text \<open>
  Postgres identifiers hold at most 63 bytes.  A byte position is a character boundary unless
  the byte there is a UTF-8 continuation byte (\<open>0b10xxxxxx\<close>).
\<close>

definition is_char_boundary :: "string \<Rightarrow> nat \<Rightarrow> bool" where
  "is_char_boundary s idx =
     (if idx = 0 then True
      else if length s \<le> idx then idx = length s
      else \<not> (128 \<le> (of_char (s ! idx) :: nat) \<and> (of_char (s ! idx) :: nat) < 192))"

lemma not_char_boundary_pos [termination_simp]: "\<not> is_char_boundary s idx \<Longrightarrow> idx - Suc 0 < idx"
  by (cases idx) (auto simp: is_char_boundary_def)

fun boundary_before :: "string \<Rightarrow> nat \<Rightarrow> nat" where
  "boundary_before s idx = (if is_char_boundary s idx then idx else boundary_before s (idx - 1))"

declare boundary_before.simps [simp del]

definition max_prefix :: "string \<Rightarrow> nat \<Rightarrow> string" where
  "max_prefix s max_len = (if length s \<le> max_len then s else take (boundary_before s max_len) s)"

definition truncate_identifier :: "string \<Rightarrow> string" where
  "truncate_identifier s = max_prefix s 63"

lemma boundary_before_spec:
  "boundary_before s n \<le> n \<and> is_char_boundary s (boundary_before s n) \<and>
   (\<forall>i. boundary_before s n < i \<and> i \<le> n \<longrightarrow> \<not> is_char_boundary s i)"
proof (induction n)
  case 0
  have "is_char_boundary s 0" by (simp add: is_char_boundary_def)
  moreover from this have "boundary_before s 0 = 0" by (subst boundary_before.simps) simp
  ultimately show ?case by auto
next
  case (Suc n)
  show ?case
  proof (cases "is_char_boundary s (Suc n)")
    case True
    moreover from this have "boundary_before s (Suc n) = Suc n" by (subst boundary_before.simps) simp
    ultimately show ?thesis by auto
  next
    case False
    then have eq: "boundary_before s (Suc n) = boundary_before s n"
      by (subst boundary_before.simps) simp
    with Suc False show ?thesis by (auto simp: le_Suc_eq)
  qed
qed

subsection \<open>Types, fields, indexes\<close>

datatype type_id =
    TIdString
  | TIdFloat
  | TIdInt64
  | TIdBoolean
  | TIdJsDate
  | TIdArrayBuffer
  | TIdId
  | TIdEntityId string
  | TIdEntity string string
  | TIdArray type_id

record field =
  f_id :: "i32 option"
  f_name :: string
  f_type_id :: type_id
  f_labels :: "string list"
  f_is_optional :: bool
  f_is_unique :: bool
  f_default :: "string option"
  f_effective_default :: "string option"
  f_version_id :: string

record db_index =
  di_meta_id :: "i32 option"
  di_backing_table :: "string option"
  di_fields :: "string list"

record object_type =
  ot_meta_id :: "i32 option"
  ot_name :: string
  ot_fields :: "field list"
  ot_indexes :: "db_index list"
  ot_chisel_id :: field
  ot_backing_table :: string
  ot_version_id :: string

datatype entity = Custom object_type | Auth object_type

datatype ty =
    TString
  | TFloat
  | TBoolean
  | TJsDate
  | TArrayBuffer
  | TEntity entity
  | TEntityId string
  | TArray ty

definition entity_object :: "entity \<Rightarrow> object_type" where
  "entity_object e = (case e of Custom obj \<Rightarrow> obj | Auth obj \<Rightarrow> obj)"

definition is_auth :: "entity \<Rightarrow> bool" where
  "is_auth e = (case e of Auth _ \<Rightarrow> True | Custom _ \<Rightarrow> False)"

abbreviation entity_name :: "entity \<Rightarrow> string" where
  "entity_name e \<equiv> ot_name (entity_object e)"

fun type_name :: "ty \<Rightarrow> string" where
  "type_name TFloat = ''number''"
| "type_name TString = ''string''"
| "type_name TBoolean = ''boolean''"
| "type_name TJsDate = ''jsDate''"
| "type_name TArrayBuffer = ''ArrayBuffer''"
| "type_name (TEntity e) = entity_name e"
| "type_name (TEntityId n) = ''Id<'' @ n @ ''>''"
| "type_name (TArray t) = ''Array<'' @ type_name t @ ''>''"

fun type_id_name :: "type_id \<Rightarrow> string" where
  "type_id_name TIdId = ''string''"
| "type_id_name TIdString = ''string''"
| "type_id_name TIdFloat = ''number''"
| "type_id_name TIdInt64 = ''int64''"
| "type_id_name TIdBoolean = ''boolean''"
| "type_id_name TIdJsDate = ''jsDate''"
| "type_id_name TIdArrayBuffer = ''ArrayBuffer''"
| "type_id_name (TIdEntityId n) = ''Id<'' @ n @ ''>''"
| "type_id_name (TIdEntity n v) = n"
| "type_id_name (TIdArray t) = ''Array<'' @ type_id_name t @ ''>''"

fun type_id_of :: "ty \<Rightarrow> type_id" where
  "type_id_of TString = TIdString"
| "type_id_of TFloat = TIdFloat"
| "type_id_of TBoolean = TIdBoolean"
| "type_id_of TJsDate = TIdJsDate"
| "type_id_of TArrayBuffer = TIdArrayBuffer"
| "type_id_of (TEntityId n) = TIdEntityId n"
| "type_id_of (TEntity e) = TIdEntity (entity_name e) (ot_version_id (entity_object e))"
| "type_id_of (TArray t) = TIdArray (type_id_of t)"

text \<open>\<open>ObjectType\<close> has its own \<open>PartialEq\<close>; the enums above it derive theirs.\<close>

definition object_type_eq :: "object_type \<Rightarrow> object_type \<Rightarrow> bool" where
  "object_type_eq a b = (ot_name a = ot_name b \<and> ot_version_id a = ot_version_id b)"

fun entity_eq :: "entity \<Rightarrow> entity \<Rightarrow> bool" where
  "entity_eq (Custom a) (Custom b) = object_type_eq a b"
| "entity_eq (Auth a) (Auth b) = object_type_eq a b"
| "entity_eq _ _ = False"

fun type_eq :: "ty \<Rightarrow> ty \<Rightarrow> bool" where
  "type_eq (TEntity a) (TEntity b) = entity_eq a b"
| "type_eq (TArray a) (TArray b) = type_eq a b"
| "type_eq a b = (a = b)"

subsection \<open>Descriptors\<close>

record object_descriptor =
  od_name :: string
  od_id :: "i32 option"
  od_backing_table :: string
  od_version_id :: string

record field_descriptor =
  fd_name :: string
  fd_id :: "i32 option"
  fd_ty :: ty
  fd_version_id :: string

definition InternalObject :: "string \<Rightarrow> string \<Rightarrow> object_descriptor" where
  "InternalObject name backing_table =
     \<lparr>od_name = name, od_id = None, od_backing_table = backing_table, od_version_id = ''__chiselstrike''\<rparr>"

definition ExistingObject_new :: "string \<Rightarrow> string \<Rightarrow> i32 \<Rightarrow> object_descriptor res" where
  "ExistingObject_new name backing_table meta_id =
     (let split = split_on CHR ''.'' name in
      r_bind (ensure (length split = 2)
        (Bail ''Expected version information as part of the type name. Got {}. Database corrupted?'' [name])) (\<lambda>_.
      Ok \<lparr>od_name = split ! 1, od_id = Some meta_id, od_backing_table = backing_table, od_version_id = split ! 0\<rparr>))"

text \<open>\<open>NewObject::new\<close>; the random UUID of the backing table is an argument.\<close>

definition NewObject_new :: "string \<Rightarrow> string \<Rightarrow> string \<Rightarrow> object_descriptor" where
  "NewObject_new uuid name version_id =
     \<lparr>od_name = name, od_id = None, od_backing_table = ''ty_'' @ name @ ''_'' @ uuid, od_version_id = version_id\<rparr>"

definition ExistingField_new :: "string \<Rightarrow> ty \<Rightarrow> i32 \<Rightarrow> string \<Rightarrow> field_descriptor" where
  "ExistingField_new name ty meta_id version_id =
     \<lparr>fd_name = name, fd_id = Some meta_id, fd_ty = ty, fd_version_id = version_id\<rparr>"

definition NewField_new :: "string \<Rightarrow> ty \<Rightarrow> string \<Rightarrow> field_descriptor res" where
  "NewField_new name ty version_id = Ok \<lparr>fd_name = name, fd_id = None, fd_ty = ty, fd_version_id = version_id\<rparr>"

definition Field_new :: "field_descriptor \<Rightarrow> string list \<Rightarrow> string option \<Rightarrow> bool \<Rightarrow> bool \<Rightarrow> field" where
  "Field_new desc labels dflt is_optional is_unique =
     \<lparr>f_id = fd_id desc, f_name = fd_name desc, f_type_id = type_id_of (fd_ty desc), f_labels = labels,
      f_is_optional = is_optional, f_is_unique = is_unique, f_default = dflt,
      f_effective_default =
        (if fd_ty desc = TBoolean
         then map_option (\<lambda>x. if x = ''false'' then ''false'' else ''true'') dflt
         else dflt),
      f_version_id = fd_version_id desc\<rparr>"

text \<open>\<open>Field::generate_value\<close>; the fresh UUID of an id column is an argument.\<close>

definition generate_value :: "string \<Rightarrow> field \<Rightarrow> string option" where
  "generate_value uuid f = (case f_type_id f of TIdId \<Rightarrow> Some uuid | _ \<Rightarrow> f_effective_default f)"

definition chisel_id_field :: field where
  "chisel_id_field =
     \<lparr>f_id = None, f_name = ''id'', f_type_id = TIdId, f_labels = [], f_is_optional = False,
      f_is_unique = True, f_default = None, f_effective_default = None, f_version_id = ''__chiselstrike''\<rparr>"

definition ObjectType_new :: "object_descriptor \<Rightarrow> field list \<Rightarrow> db_index list \<Rightarrow> object_type res" where
  "ObjectType_new desc flds indexes =
     r_bind (r_fold (\<lambda>field _.
         ensure (od_version_id desc = f_version_id field)
           (Bail ''Versions of fields do not match: Got {} and {}'' [od_version_id desc, f_version_id field])) flds ()) (\<lambda>_.
     r_bind (r_fold (\<lambda>index _. r_fold (\<lambda>field_name _.
           if field_name = ''id'' then Ok ()
           else ensure (\<exists>f \<in> set flds. f_name f = field_name)
             (Bail ''trying to create an index over field {} which is not present on type {}'' [field_name, od_name desc]))
           (di_fields index) ()) indexes ()) (\<lambda>_.
     Ok \<lparr>ot_meta_id = od_id desc, ot_name = od_name desc, ot_fields = flds, ot_indexes = indexes,
         ot_chisel_id = chisel_id_field, ot_backing_table = od_backing_table desc,
         ot_version_id = od_version_id desc\<rparr>))"

definition all_fields :: "object_type \<Rightarrow> field list" where
  "all_fields ot = ot_chisel_id ot # ot_fields ot"

definition has_field :: "object_type \<Rightarrow> string \<Rightarrow> bool" where
  "has_field ot field_name = (\<exists>f \<in> set (all_fields ot). f_name f = field_name)"

definition get_field :: "object_type \<Rightarrow> string \<Rightarrow> field option" where
  "get_field ot field_name = find (\<lambda>f. f_name f = field_name) (all_fields ot)"

definition persisted_name :: "object_type \<Rightarrow> string" where
  "persisted_name ot = ot_version_id ot @ ''.'' @ ot_name ot"

definition field_persisted_name :: "field \<Rightarrow> object_type \<Rightarrow> string" where
  "field_persisted_name f parent = f_version_id f @ ''.'' @ ot_name parent @ ''.'' @ f_name f"

definition DbIndex_new :: "i32 \<Rightarrow> string \<Rightarrow> string list \<Rightarrow> db_index" where
  "DbIndex_new meta_id backing_table flds =
     \<lparr>di_meta_id = Some meta_id, di_backing_table = Some backing_table, di_fields = flds\<rparr>"

definition DbIndex_new_from_fields :: "string list \<Rightarrow> db_index" where
  "DbIndex_new_from_fields flds = \<lparr>di_meta_id = None, di_backing_table = None, di_fields = flds\<rparr>"

definition show_i32 :: "i32 \<Rightarrow> string" where
  "show_i32 i = (if sint i < 0 then ''-'' @ show_nat (nat (- sint i)) else show_nat (nat (sint i)))"

definition DbIndex_name :: "db_index \<Rightarrow> (anyhow, string option) result" where
  "DbIndex_name idx =
     (case di_meta_id idx of
        None \<Rightarrow> Ok None
      | Some mid \<Rightarrow>
          r_bind (unwrap ''called Option::unwrap() on a None value'' (di_backing_table idx)) (\<lambda>backing_table.
          Ok (Some (truncate_identifier
            (''index_'' @ show_i32 mid @ ''_'' @ backing_table @ ''__'' @ join ''_'' (di_fields idx))))))"

subsection \<open>Field maps\<close>

definition FieldMap_from :: "object_type \<Rightarrow> field btree" where
  "FieldMap_from ty = fold (\<lambda>field m. bt_insert (f_name field) field m) (ot_fields ty) []"

definition check_populate_from :: "field btree \<Rightarrow> field btree \<Rightarrow> unit res" where
  "check_populate_from self source_type =
     r_fold (\<lambda>(name, field) _.
       case map_of source_type name of
         Some existing \<Rightarrow>
           ensure (type_id_name (f_type_id existing) = type_id_name (f_type_id field))
             (Bail ''Type name mismatch on field {} ({} -> {}).''
               [name, type_id_name (f_type_id existing), type_id_name (f_type_id field)])
       | None \<Rightarrow>
           ensure (f_default field = None)
             (Bail ''Adding field {} without a trivial default, which is not supported yet'' [name]))
       self ()"

definition check_if_safe_to_populate :: "object_type \<Rightarrow> object_type \<Rightarrow> unit res" where
  "check_if_safe_to_populate self source_type =
     check_populate_from (FieldMap_from self) (FieldMap_from source_type)"

subsection \<open>Lemmas\<close>

lemma entity_object_simps [simp]: "entity_object (Custom ot) = ot" "entity_object (Auth ot) = ot"
  by (simp_all add: entity_object_def)

lemma object_type_eq_refl [simp]: "object_type_eq a a"
  by (simp add: object_type_eq_def)

lemma entity_eq_refl [simp]: "entity_eq a a"
  by (cases a) auto

lemma type_eq_refl [simp]: "type_eq a a"
  by (induction a) auto

lemma type_eq_name: "type_eq a b \<Longrightarrow> type_name a = type_name b"
proof (induction a b rule: type_eq.induct)
  case (1 a b)
  then show ?case by (cases a; cases b) (auto simp: object_type_eq_def)
qed auto

lemma r_fold_ensure_Ok:
  "r_fold (\<lambda>x _. ensure (P x) (e x)) xs () = Ok () \<longleftrightarrow> (\<forall>x \<in> set xs. P x)"
  by (induction xs) (auto simp: ensure_def)

lemma ObjectType_new_fields:
  "ObjectType_new desc flds indexes = Ok ot \<Longrightarrow>
     all_fields ot = chisel_id_field # flds \<and> ot_name ot = od_name desc \<and>
     ot_version_id ot = od_version_id desc \<and> ot_backing_table ot = od_backing_table desc \<and>
     (\<forall>f \<in> set flds. f_version_id f = ot_version_id ot)"
  by (auto simp: ObjectType_new_def all_fields_def r_bind_Ok_iff r_fold_ensure_Ok)

text \<open>A field map holds, for every name, the last field declared under it.\<close>

lemma FieldMap_fold:
  "bt_inv m \<Longrightarrow> bt_inv (fold (\<lambda>field m. bt_insert (f_name field) field m) fs m) \<and>
   map_of (fold (\<lambda>field m. bt_insert (f_name field) field m) fs m) =
     map_of m ++ map_of (rev (map (\<lambda>f. (f_name f, f)) fs))"
proof (induction fs arbitrary: m)
  case (Cons f fs)
  from Cons.IH [of "bt_insert (f_name f) f m"] Cons.prems show ?case
    by (auto simp: map_add_def fun_eq_iff split: option.splits)
qed simp

lemma FieldMap_inv [simp]: "bt_inv (FieldMap_from ot)"
  using FieldMap_fold [of "[]" "ot_fields ot"] by (simp add: FieldMap_from_def)

lemma FieldMap_lookup: "map_of (FieldMap_from ot) = map_of (rev (map (\<lambda>f. (f_name f, f)) (ot_fields ot)))"
  using FieldMap_fold [of "[]" "ot_fields ot"] by (simp add: FieldMap_from_def)

lemma FieldMap_name: "map_of (FieldMap_from ot) name = Some f \<Longrightarrow> f_name f = name \<and> f \<in> set (ot_fields ot)"
  by (auto simp: FieldMap_lookup dest!: map_of_SomeD)

lemma FieldMap_dom: "dom (map_of (FieldMap_from ot)) = f_name ` set (ot_fields ot)"
  by (force simp: FieldMap_lookup dom_map_of_conv_image_fst)

subsection \<open>Properties\<close>

text \<open>
  Truncating an identifier keeps a prefix of at most 63 bytes that ends on a character
  boundary, and the longest such prefix: every other boundary within the limit is no later.
\<close>

theorem truncate_identifier_spec:
  "prefix (truncate_identifier s) s \<and> length (truncate_identifier s) \<le> 63 \<and>
   is_char_boundary s (length (truncate_identifier s)) \<and>
   (\<forall>n. n \<le> 63 \<and> n \<le> length s \<and> is_char_boundary s n \<longrightarrow> n \<le> length (truncate_identifier s))"
proof (cases "length s \<le> 63")
  case True
  then show ?thesis
    by (auto simp: truncate_identifier_def max_prefix_def is_char_boundary_def)
next
  case False
  let ?n = "boundary_before s 63"
  have bound: "?n \<le> 63" and boundary: "is_char_boundary s ?n"
    and last: "\<And>i. ?n < i \<Longrightarrow> i \<le> 63 \<Longrightarrow> \<not> is_char_boundary s i"
    using boundary_before_spec [of s 63] by auto
  have trunc: "truncate_identifier s = take ?n s" and len: "length (take ?n s) = ?n"
    using False bound by (simp_all add: truncate_identifier_def max_prefix_def)
  show ?thesis
    unfolding trunc len using bound boundary last
    by (auto simp: take_is_prefix not_less [symmetric])
qed

theorem truncate_identifier_spec_witness:
  "(2 :: nat) \<le> length (truncate_identifier ''JOIN0'')"
  using truncate_identifier_spec [of "''JOIN0''"] by (auto simp: is_char_boundary_def)

lemma ExistingObject_persisted:
  "ExistingObject_new (persisted_name ot) table meta_id =
     (if CHR ''.'' \<notin> set (ot_version_id ot) \<and> CHR ''.'' \<notin> set (ot_name ot)
      then Ok \<lparr>od_name = ot_name ot, od_id = Some meta_id, od_backing_table = table, od_version_id = ot_version_id ot\<rparr>
      else Err (Bail ''Expected version information as part of the type name. Got {}. Database corrupted?'' [persisted_name ot]))"
proof (cases "CHR ''.'' \<notin> set (ot_version_id ot) \<and> CHR ''.'' \<notin> set (ot_name ot)")
  case True
  then show ?thesis
    by (simp add: ExistingObject_new_def persisted_name_def split_on_append split_on_no_sep)
next
  case False
  then have "count_list (persisted_name ot) CHR ''.'' \<noteq> 1"
    by (auto simp: persisted_name_def count_list_0_iff)
  with False show ?thesis
    by (simp add: ExistingObject_new_def length_split_on)
qed

text \<open>
  Persisted names round-trip: the name under which a type is stored in the meta database is
  read back to the same version and type name whenever neither of them contains a dot; a version
  or a name with a dot in it makes the stored name unreadable.
\<close>

theorem persisted_name_roundtrip:
  "ExistingObject_new (persisted_name ot) table meta_id =
     (if CHR ''.'' \<notin> set (ot_version_id ot) \<and> CHR ''.'' \<notin> set (ot_name ot)
      then Ok \<lparr>od_name = ot_name ot, od_id = Some meta_id, od_backing_table = table, od_version_id = ot_version_id ot\<rparr>
      else Err (Bail ''Expected version information as part of the type name. Got {}. Database corrupted?'' [persisted_name ot]))"
  by (rule ExistingObject_persisted)

text \<open>
  What \<open>check_populate_from\<close> accepts: fields common to both versions must have the same
  type name, and a field that only the target version has must carry \<^emph>\<open>no\<close> default.  (The comment
  and the error message of the source ask for the opposite: an added field is to be accepted when
  it has a default value.)
\<close>

theorem check_populate_from_accepts:
  "check_populate_from self source_type = Ok () \<longleftrightarrow>
   (\<forall>(name, field) \<in> set self.
      case map_of source_type name of
        Some existing \<Rightarrow> type_id_name (f_type_id existing) = type_id_name (f_type_id field)
      | None \<Rightarrow> f_default field = None)"
proof -
  have "r_fold (\<lambda>(name, field) _. case map_of source_type name of
         Some existing \<Rightarrow> ensure (P name field existing) (e name field existing)
       | None \<Rightarrow> ensure (Q name field) (e' name field)) xs () = Ok ()
    \<longleftrightarrow> (\<forall>(name, field) \<in> set xs. case map_of source_type name of
        Some existing \<Rightarrow> P name field existing | None \<Rightarrow> Q name field)"
    for P Q e e' and xs :: "field btree"
    by (induction xs) (auto simp: ensure_def r_bind_Ok_iff split: option.splits if_splits)
  then show ?thesis unfolding check_populate_from_def by simp
qed

theorem check_populate_from_accepts_witness:
  "check_populate_from [(''n'', chisel_id_field\<lparr>f_name := ''n'', f_default := Some ''0''\<rparr>)] [] \<noteq> Ok ()
   \<and> check_populate_from [(''n'', chisel_id_field\<lparr>f_name := ''n''\<rparr>)] [] = Ok ()"
  unfolding check_populate_from_accepts by (simp add: chisel_id_field_def)

end
