(* ===== verification/Type_System.thy ===== *)
theory Type_System
  imports Types
begin

text \<open>
  \<open>server/src/types/type_system.rs\<close> and \<open>server/src/types/builtin.rs\<close>: the built-in types, the
  lookup of types by name and by id, and the delta that evolves a type to a new definition.
\<close>

datatype type_system_error =
    CustomTypeExists entity
  | NoSuchType string
  | NotABuiltinType string
  | NotACustomType string
  | UnsafeReplacement string string "string list"
  | InternalServerError string

type_synonym 'a ts_res = "(type_system_error, 'a) result"

record type_system =
  custom_types :: "(string \<times> entity) list"
  builtin :: "(string \<times> ty) list"
  ts_version_id :: string

subsection \<open>Built-in types\<close>

definition string_field :: "string \<Rightarrow> field" where
  "string_field name =
     \<lparr>f_id = None, f_name = name, f_type_id = TIdString, f_labels = [], f_is_optional = False,
      f_is_unique = False, f_default = None, f_effective_default = None, f_version_id = ''__chiselstrike''\<rparr>"

definition optional_string_field :: "string \<Rightarrow> field" where
  "optional_string_field name = (string_field name)\<lparr>f_is_optional := True\<rparr>"

definition number_field :: "string \<Rightarrow> field" where
  "number_field name =
     \<lparr>f_id = None, f_name = name, f_type_id = TIdFloat, f_labels = [], f_is_optional = False,
      f_is_unique = False, f_default = None, f_effective_default = None, f_version_id = ''__chiselstrike''\<rparr>"

definition optional_number_field :: "string \<Rightarrow> field" where
  "optional_number_field name =
     \<lparr>f_id = None, f_name = name, f_type_id = TIdFloat, f_labels = [], f_is_optional = True,
      f_is_unique = False, f_default = None, f_effective_default = None, f_version_id = ''__chiselstrike''\<rparr>"

definition date_field :: "string \<Rightarrow> field" where
  "date_field name =
     \<lparr>f_id = None, f_name = name, f_type_id = TIdJsDate, f_labels = [], f_is_optional = False,
      f_is_unique = False, f_default = None, f_effective_default = None, f_version_id = ''__chiselstrike''\<rparr>"

definition optional_array_buffer_field :: "string \<Rightarrow> field" where
  "optional_array_buffer_field name =
     \<lparr>f_id = None, f_name = name, f_type_id = TIdArrayBuffer, f_labels = [], f_is_optional = True,
      f_is_unique = False, f_default = None, f_effective_default = None, f_version_id = ''__chiselstrike''\<rparr>"

definition add_entity :: "(object_type \<Rightarrow> entity) \<Rightarrow> string \<Rightarrow> field list \<Rightarrow> string
    \<Rightarrow> (string \<times> ty) list \<Rightarrow> (string \<times> ty) list res" where
  "add_entity kind type_nm flds backing_table types =
     (case ObjectType_new (InternalObject type_nm backing_table) flds [] of
        Ok ot \<Rightarrow> Ok (al_insert type_nm (TEntity (kind ot)) types)
      | _ \<Rightarrow> Panic ''called Result::unwrap() on an Err value'')"

definition add_auth_entity :: "string \<Rightarrow> field list \<Rightarrow> string \<Rightarrow> (string \<times> ty) list \<Rightarrow> (string \<times> ty) list res" where
  "add_auth_entity = add_entity Auth"

definition add_custom_entity :: "string \<Rightarrow> field list \<Rightarrow> string \<Rightarrow> (string \<times> ty) list \<Rightarrow> (string \<times> ty) list res" where
  "add_custom_entity = add_entity Custom"

definition BuiltinTypes_new :: "(string \<times> ty) list res" where
  "BuiltinTypes_new =
     (let types = [(''string'', TString), (''number'', TFloat), (''boolean'', TBoolean),
                   (''jsDate'', TJsDate), (''ArrayBuffer'', TArrayBuffer)] in
      r_bind (add_auth_entity ''AuthUser''
        [optional_string_field ''emailVerified'', optional_string_field ''name'',
         optional_string_field ''email'', optional_string_field ''image''] ''auth_user'' types) (\<lambda>types.
      r_bind (add_auth_entity ''AuthSession''
        [string_field ''sessionToken'', string_field ''userId'', string_field ''expires''] ''auth_session'' types) (\<lambda>types.
      r_bind (add_auth_entity ''AuthToken''
        [string_field ''identifier'', string_field ''expires'', string_field ''token''] ''auth_token'' types) (\<lambda>types.
      r_bind (add_auth_entity ''AuthAccount''
        [string_field ''providerAccountId'', string_field ''userId'', string_field ''provider'',
         string_field ''type'', optional_string_field ''access_token'', optional_string_field ''token_type'',
         optional_string_field ''id_token'', optional_string_field ''refresh_token'',
         optional_string_field ''scope'', optional_string_field ''session_state'',
         optional_string_field ''oauth_token_secret'', optional_string_field ''oauth_token'',
         optional_number_field ''expires_at''] ''auth_account'' types) (\<lambda>types.
      add_custom_entity ''ChiselOutbox''
        [date_field ''timestamp'', number_field ''seqNo'', string_field ''topic'',
         optional_array_buffer_field ''key'', optional_array_buffer_field ''value''] ''outbox'' types)))))"

subsection \<open>Lookups\<close>

definition TypeSystem_new :: "(string \<times> ty) list \<Rightarrow> string \<Rightarrow> type_system" where
  "TypeSystem_new builtin_types version_id =
     \<lparr>custom_types = [], builtin = builtin_types, ts_version_id = version_id\<rparr>"

definition lookup_custom_type :: "type_system \<Rightarrow> string \<Rightarrow> entity ts_res" where
  "lookup_custom_type ts type_nm = ok_or (NoSuchType type_nm) (map_of (custom_types ts) type_nm)"

definition add_custom_type :: "type_system \<Rightarrow> entity \<Rightarrow> type_system ts_res" where
  "add_custom_type ts e =
     (case e of
        Auth _ \<Rightarrow> Err (NotACustomType (entity_name e))
      | Custom _ \<Rightarrow>
          (case lookup_custom_type ts (entity_name e) of
             Ok old \<Rightarrow> Err (CustomTypeExists old)
           | Err (NoSuchType _) \<Rightarrow> Ok (ts\<lparr>custom_types := al_insert (entity_name e) e (custom_types ts)\<rparr>)
           | Err x \<Rightarrow> Err x
           | Panic p \<Rightarrow> Panic p))"

definition extract_template :: "string \<Rightarrow> string \<Rightarrow> string option" where
  "extract_template typ type_nm =
     (case strip_prefix (typ @ ''<'') type_nm of
        Some template_type \<Rightarrow> strip_suffix_char CHR ''>'' template_type
      | None \<Rightarrow> None)"

lemma extract_template_Some: "extract_template typ s = Some t \<longleftrightarrow> s = typ @ ''<'' @ t @ ''>''"
  by (auto simp: extract_template_def strip_prefix_Some strip_suffix_char_Some split: option.splits)
    (metis append.assoc append_Cons append_Nil strip_prefix_append strip_prefix_Some option.distinct(1))

lemma extract_template_shorter [termination_simp]: "extract_template typ s = Some t \<Longrightarrow> length t < length s"
  by (simp add: extract_template_Some)

fun lookup_builtin_type :: "type_system \<Rightarrow> string \<Rightarrow> ty ts_res" where
  "lookup_builtin_type ts type_nm =
     (case extract_template ''Array'' type_nm of
        Some element_type_str \<Rightarrow> r_bind (lookup_builtin_type ts element_type_str) (\<lambda>t. Ok (TArray t))
      | None \<Rightarrow>
          (case extract_template ''Id'' type_nm of
             Some entity_nm \<Rightarrow> Ok (TEntityId entity_nm)
           | None \<Rightarrow> ok_or (NotABuiltinType type_nm) (map_of (builtin ts) type_nm)))"

declare lookup_builtin_type.simps [simp del]

definition lookup_type :: "type_system \<Rightarrow> string \<Rightarrow> ty ts_res" where
  "lookup_type ts type_nm =
     (case lookup_builtin_type ts type_nm of
        Ok t \<Rightarrow> Ok t
      | Panic p \<Rightarrow> Panic p
      | Err _ \<Rightarrow>
          (case lookup_custom_type ts type_nm of
             Ok e \<Rightarrow> Ok (TEntity e)
           | Panic p \<Rightarrow> Panic p
           | Err _ \<Rightarrow> Err (NoSuchType type_nm)))"

definition lookup_entity :: "type_system \<Rightarrow> string \<Rightarrow> entity ts_res" where
  "lookup_entity ts type_nm =
     (case lookup_builtin_type ts type_nm of
        Ok (TEntity e) \<Rightarrow> Ok e
      | Err (NotABuiltinType _) \<Rightarrow> lookup_custom_type ts type_nm
      | Panic p \<Rightarrow> Panic p
      | _ \<Rightarrow> Err (NoSuchType type_nm))"

definition ts_get :: "type_system \<Rightarrow> type_id \<Rightarrow> ty ts_res" where
  "ts_get ts t =
     (case t of
        TIdEntity name version_id \<Rightarrow>
          if version_id = ''__chiselstrike'' then lookup_builtin_type ts name
          else if version_id \<noteq> ts_version_id ts then Panic ''assertion failed: left == right''
          else r_map_ok TEntity (lookup_entity ts name)
      | TIdEntityId name \<Rightarrow> Ok (TEntityId name)
      | _ \<Rightarrow> lookup_builtin_type ts (type_id_name t))"

subsection \<open>Evolving a type\<close>

record field_attr_delta =
  fad_type_id :: type_id
  fad_default :: "string option"
  fad_is_optional :: bool
  fad_is_unique :: bool

record field_delta =
  fld_id :: i32
  fld_attrs :: "field_attr_delta option"
  fld_labels :: "string list option"

record object_delta =
  added_fields :: "field list"
  removed_fields :: "field list"
  updated_fields :: "field_delta list"
  added_indexes :: "db_index list"
  removed_indexes :: "db_index list"

definition index_diff :: "db_index list \<Rightarrow> db_index list \<Rightarrow> db_index list" where
  "index_diff lhs rhs = filter (\<lambda>l. \<not> (\<exists>r \<in> set rhs. di_fields l = di_fields r)) lhs"

definition find_added_indexes :: "object_type \<Rightarrow> object_type \<Rightarrow> db_index list" where
  "find_added_indexes old_type new_type = index_diff (ot_indexes new_type) (ot_indexes old_type)"

definition find_removed_indexes :: "object_type \<Rightarrow> object_type \<Rightarrow> db_index list" where
  "find_removed_indexes old_type new_type = index_diff (ot_indexes old_type) (ot_indexes new_type)"

definition field_delta_of :: "field \<Rightarrow> ty \<Rightarrow> field \<Rightarrow> ty \<Rightarrow> i32 \<Rightarrow> field_delta" where
  "field_delta_of old old_ty field field_ty fid =
     \<lparr>fld_id = fid,
      fld_attrs =
        (if f_default field \<noteq> f_default old \<or> \<not> type_eq field_ty old_ty \<or>
            f_is_optional field \<noteq> f_is_optional old \<or> f_is_unique field \<noteq> f_is_unique old
         then Some \<lparr>fad_type_id = f_type_id field, fad_default = f_default field,
                    fad_is_optional = f_is_optional field, fad_is_unique = f_is_unique field\<rparr>
         else None),
      fld_labels = (if sort (f_labels old) \<noteq> sort (f_labels field) then Some (sort (f_labels field)) else None)\<rparr>"

text \<open>The body of the loop over the fields of the new type; the state is the old fields not yet
  met, the added fields and the updated fields.\<close>

definition new_field_step :: "type_system \<Rightarrow> string \<Rightarrow> bool \<Rightarrow> string \<times> field
    \<Rightarrow> field btree \<times> field list \<times> field_delta list \<Rightarrow> (field btree \<times> field list \<times> field_delta list) ts_res" where
  "new_field_step ts new_name allow_unsafe_replacement = (\<lambda>(name, field) (old_fields, added, updated).
     case map_of old_fields name of
       None \<Rightarrow>
         if \<not> allow_unsafe_replacement \<and> f_default field = None \<and> \<not> f_is_optional field
         then Err (UnsafeReplacement new_name ''Trying to add a new non-optional field ({}) without a trivial default value.'' [f_name field])
         else Ok (old_fields, added @ [field], updated)
     | Some old \<Rightarrow>
         r_bind (ts_get ts (f_type_id field)) (\<lambda>field_ty.
         r_bind (ts_get ts (f_type_id old)) (\<lambda>old_ty.
         if \<not> allow_unsafe_replacement \<and> \<not> type_eq field_ty old_ty
         then Err (UnsafeReplacement new_name ''changing types from {} into {} for field {}. Incompatible change''
                     [type_name old_ty, type_name field_ty, f_name field])
         else if \<not> allow_unsafe_replacement \<and> f_is_unique field \<and> \<not> f_is_unique old
         then Err (UnsafeReplacement new_name ''adding uniqueness to field {}. Incompatible change'' [f_name field])
         else
           r_bind (ok_or (InternalServerError ''logical error! updating field without id'') (f_id old)) (\<lambda>fid.
           Ok (al_remove name old_fields, added, updated @ [field_delta_of old old_ty field field_ty fid])))))"

definition removed_field_step :: "string \<Rightarrow> bool \<Rightarrow> string \<times> field \<Rightarrow> field list \<Rightarrow> field list ts_res" where
  "removed_field_step new_name allow_unsafe_replacement = (\<lambda>(_, field) removed.
     if \<not> allow_unsafe_replacement \<and> f_default field = None \<and> \<not> f_is_optional field
     then Err (UnsafeReplacement new_name ''non-optional field {} does not have a default value, so it is unsafe to remove'' [f_name field])
     else Ok (removed @ [field]))"

definition generate_type_delta :: "type_system \<Rightarrow> object_type \<Rightarrow> object_type \<Rightarrow> bool \<Rightarrow> object_delta ts_res" where
  "generate_type_delta ts old_type new_type allow_unsafe_replacement =
     (if \<not> object_type_eq old_type new_type
      then Err (UnsafeReplacement (ot_name new_type) ''Types do not match. This is an internal ChiselStrike error.'' [])
      else
        r_bind (r_fold (new_field_step ts (ot_name new_type) allow_unsafe_replacement)
                  (FieldMap_from new_type) (FieldMap_from old_type, [], [])) (\<lambda>(old_fields, added, updated).
        r_bind (r_fold (removed_field_step (ot_name new_type) allow_unsafe_replacement) old_fields []) (\<lambda>removed.
        Ok \<lparr>added_fields = added, removed_fields = removed, updated_fields = updated,
            added_indexes = find_added_indexes old_type new_type,
            removed_indexes = find_removed_indexes old_type new_type\<rparr>)))"

subsection \<open>Lemmas on lookups\<close>

lemma add_entity_Ok:
  "add_entity kind nm flds table types = Ok types' \<Longrightarrow> \<exists>e. map_of types' = (map_of types)(nm \<mapsto> TEntity e)"
  by (auto simp: add_entity_def split: result.splits)

lemma BuiltinTypes_new_scalars:
  assumes "BuiltinTypes_new = Ok bt"
  shows "map_of bt ''string'' = Some TString" "map_of bt ''number'' = Some TFloat"
    "map_of bt ''boolean'' = Some TBoolean" "map_of bt ''jsDate'' = Some TJsDate"
    "map_of bt ''ArrayBuffer'' = Some TArrayBuffer"
  using assms
  by (auto simp: BuiltinTypes_new_def add_auth_entity_def add_custom_entity_def r_bind_Ok_iff Let_def
      dest!: add_entity_Ok)

lemma lookup_builtin_type_errors:
  "no_panic (lookup_builtin_type ts nm) \<and>
   (\<forall>e. lookup_builtin_type ts nm = Err e \<longrightarrow> (\<exists>n. e = NotABuiltinType n))"
proof (induction ts nm rule: lookup_builtin_type.induct)
  case (1 ts nm)
  show ?case
  proof (cases "extract_template ''Array'' nm")
    case None
    then show ?thesis
      by (subst (1 2) lookup_builtin_type.simps) (auto simp: ok_or_def split: option.splits)
  next
    case (Some t)
    with 1 show ?thesis
      by (subst (1 2) lookup_builtin_type.simps) (auto simp: r_bind_Err_iff)
  qed
qed

lemma lookup_builtin_type_cong:
  "builtin ts' = builtin ts \<Longrightarrow> lookup_builtin_type ts' nm = lookup_builtin_type ts nm"
proof (induction "length nm" arbitrary: nm rule: less_induct)
  case less
  show ?case
  proof (cases "extract_template ''Array'' nm")
    case None
    with less.prems show ?thesis
      by (subst (1 2) lookup_builtin_type.simps) (simp split: option.split)
  next
    case (Some t)
    with less.hyps [of t] less.prems show ?thesis
      by (subst (1 2) lookup_builtin_type.simps) (simp add: extract_template_shorter)
  qed
qed

lemma lookup_entity_custom:
  "\<not> is_ok (lookup_builtin_type ts nm) \<Longrightarrow> lookup_entity ts nm = lookup_custom_type ts nm"
  using lookup_builtin_type_errors [of ts nm]
  by (cases "lookup_builtin_type ts nm") (auto simp: lookup_entity_def)

text \<open>The types that have a name of their own: everything built without an entity.\<close>

fun entity_free :: "ty \<Rightarrow> bool" where
  "entity_free (TEntity _) = False"
| "entity_free (TArray t) = entity_free t"
| "entity_free _ = True"

lemma extract_template_simps [simp]:
  "extract_template typ (typ @ ''<'' @ t @ ''>'') = Some t"
  by (simp add: extract_template_Some)

lemma lookup_builtin_type_name:
  assumes "BuiltinTypes_new = Ok (builtin ts)"
  shows "entity_free t \<Longrightarrow> lookup_builtin_type ts (type_name t) = Ok t"
proof (induction t)
  case (TEntityId n)
  have "extract_template ''Array'' (''Id<'' @ n @ ''>'') = None"
    by (simp add: extract_template_def strip_prefix_def starts_with_def)
  moreover have "extract_template ''Id'' (''Id<'' @ n @ ''>'') = Some n"
    using extract_template_simps [of "''Id''" n] by simp
  ultimately show ?case by (subst lookup_builtin_type.simps) simp
next
  case (TArray t)
  have "extract_template ''Array'' (''Array<'' @ type_name t @ ''>'') = Some (type_name t)"
    using extract_template_simps [of "''Array''" "type_name t"] by simp
  with TArray show ?case by (subst lookup_builtin_type.simps) simp
qed (auto simp: lookup_builtin_type.simps extract_template_def strip_prefix_def starts_with_def
      BuiltinTypes_new_scalars [OF assms])

lemma type_id_name_of: "entity_free t \<Longrightarrow> type_id_name (type_id_of t) = type_name t"
  by (induction t) auto

lemma ts_get_type_id_of:
  assumes "BuiltinTypes_new = Ok (builtin ts)" and "entity_free t"
  shows "ts_get ts (type_id_of t) = Ok t"
  using lookup_builtin_type_name [OF assms] type_id_name_of [OF assms(2)] assms(2)
  by (cases t) (auto simp: ts_get_def)

subsection \<open>Lemmas on deltas\<close>

text \<open>What one successful iteration over a new field guarantees in the safe mode.\<close>

definition safe_new_field :: "type_system \<Rightarrow> field option \<Rightarrow> field \<Rightarrow> bool" where
  "safe_new_field ts old_field field =
     (case old_field of
        None \<Rightarrow> f_default field \<noteq> None \<or> f_is_optional field
      | Some old \<Rightarrow>
          (case (ts_get ts (f_type_id field), ts_get ts (f_type_id old)) of
             (Ok field_ty, Ok old_ty) \<Rightarrow> type_eq field_ty old_ty
           | _ \<Rightarrow> False) \<and> (f_is_unique field \<longrightarrow> f_is_unique old))"

lemma filter_al_remove:
  "filter (\<lambda>(k', _). k' \<notin> A) (al_remove k xs) = filter (\<lambda>(k', _). k' \<notin> insert k A) xs"
  by (induction xs) (auto simp: al_remove_def)

lemma new_fields_loop:
  assumes "r_fold (new_field_step ts nm allow) xs (old, added, updated) = Ok (old', added', updated')"
    and "distinct (map fst xs)"
  shows "old' = filter (\<lambda>(k, _). k \<notin> fst ` set xs) old \<and>
    added' = added @ map snd (filter (\<lambda>(k, _). map_of old k = None) xs) \<and>
    length updated' = length updated + length (filter (\<lambda>(k, _). map_of old k \<noteq> None) xs) \<and>
    (\<not> allow \<longrightarrow> (\<forall>(k, f) \<in> set xs. safe_new_field ts (map_of old k) f))"
  using assms
proof (induction xs arbitrary: old added updated)
  case Nil
  then show ?case by auto
next
  case (Cons x xs)
  obtain k f where x: "x = (k, f)" by (cases x)
  from Cons.prems obtain st where st: "new_field_step ts nm allow (k, f) (old, added, updated) = Ok st"
    and rest: "r_fold (new_field_step ts nm allow) xs st = Ok (old', added', updated')"
    by (auto simp: x r_bind_Ok_iff)
  have k: "k \<notin> fst ` set xs" using Cons.prems(2) x by auto
  show ?case
  proof (cases "map_of old k")
    case None
    with st have st': "st = (old, added @ [f], updated)"
      and safe: "allow \<or> f_default f \<noteq> None \<or> f_is_optional f"
      by (auto simp: new_field_step_def split: if_splits)
    have "k \<notin> fst ` set old" using None by (simp add: map_of_eq_None_iff)
    then have "filter (\<lambda>(k', _). k' \<noteq> k \<and> k' \<notin> fst ` set xs) old = filter (\<lambda>(k', _). k' \<notin> fst ` set xs) old"
      by (intro filter_cong) force+
    with Cons.IH [OF rest [unfolded st']] Cons.prems(2) None safe show ?thesis
      by (auto simp: x safe_new_field_def)
  next
    case (Some o')
    then obtain ty oty fid where get: "ts_get ts (f_type_id f) = Ok ty" "ts_get ts (f_type_id o') = Ok oty"
      and st': "st = (al_remove k old, added, updated @ [field_delta_of o' oty f ty fid])"
      and safe: "allow \<or> type_eq ty oty \<and> (f_is_unique f \<longrightarrow> f_is_unique o')"
      using st by (auto simp: new_field_step_def r_bind_Ok_iff split: if_splits)
    have others: "map_of (al_remove k old) k' = map_of old k'" if "k' \<in> fst ` set xs" for k'
      using that k by auto
    have "filter (\<lambda>(k', _). map_of (al_remove k old) k' = None) xs = filter (\<lambda>(k', _). map_of old k' = None) xs"
      "filter (\<lambda>(k', _). map_of (al_remove k old) k' \<noteq> None) xs = filter (\<lambda>(k', _). map_of old k' \<noteq> None) xs"
      using k by (auto intro!: filter_cong simp: rev_image_eqI split: if_splits)
    moreover have "safe_new_field ts (map_of old k') f'"
      if "(k', f') \<in> set xs" "safe_new_field ts (map_of (al_remove k old) k') f'" for k' f'
      using that others [of k'] by (simp add: rev_image_eqI)
    ultimately show ?thesis
      using Cons.IH [OF rest [unfolded st']] Cons.prems(2) Some safe get
      by (auto simp: x safe_new_field_def [of _ "Some o'"] filter_al_remove simp del: map_of_al_remove)
  qed
qed

lemma removed_fields_loop:
  assumes "r_fold (removed_field_step nm allow) xs removed = Ok removed'"
  shows "removed' = removed @ map snd xs \<and>
    (\<not> allow \<longrightarrow> (\<forall>f \<in> snd ` set xs. f_default f \<noteq> None \<or> f_is_optional f))"
  using assms
  by (induction xs arbitrary: removed) (fastforce simp: removed_field_step_def r_bind_Ok_iff split: if_splits)+

lemma filter_keys_image:
  "fst ` set (filter (\<lambda>(k, _). P k) xs) = {k \<in> fst ` set xs. P k}"
  by force

lemma generate_type_delta_Ok:
  assumes "generate_type_delta ts old_type new_type allow = Ok delta"
  shows "object_type_eq old_type new_type \<and>
    added_fields delta = map snd (filter (\<lambda>(k, _). map_of (FieldMap_from old_type) k = None) (FieldMap_from new_type)) \<and>
    removed_fields delta = map snd (filter (\<lambda>(k, _). k \<notin> fst ` set (FieldMap_from new_type)) (FieldMap_from old_type)) \<and>
    length (updated_fields delta) = length (filter (\<lambda>(k, _). map_of (FieldMap_from old_type) k \<noteq> None) (FieldMap_from new_type)) \<and>
    (\<not> allow \<longrightarrow>
       (\<forall>(k, f) \<in> set (FieldMap_from new_type). safe_new_field ts (map_of (FieldMap_from old_type) k) f) \<and>
       (\<forall>f \<in> set (removed_fields delta). f_default f \<noteq> None \<or> f_is_optional f))"
proof -
  have eq: "object_type_eq old_type new_type"
    using assms by (auto simp: generate_type_delta_def split: if_splits)
  obtain old' added updated removed where
    news: "r_fold (new_field_step ts (ot_name new_type) allow) (FieldMap_from new_type) (FieldMap_from old_type, [], [])
      = Ok (old', added, updated)"
    and olds: "r_fold (removed_field_step (ot_name new_type) allow) old' [] = Ok removed"
    and delta: "added_fields delta = added" "removed_fields delta = removed" "updated_fields delta = updated"
    using assms eq by (auto simp: generate_type_delta_def r_bind_Ok_iff)
  show ?thesis
    using new_fields_loop [OF news bt_inv_distinct [OF FieldMap_inv]] removed_fields_loop [OF olds] eq delta
    by auto
qed

lemma names_of_FieldMap: "(k, f) \<in> set (FieldMap_from ot) \<Longrightarrow> f_name f = k"
  by (metis FieldMap_inv FieldMap_name bt_lookup_iff)

lemma keys_FieldMap: "fst ` set (FieldMap_from ot) = f_name ` set (ot_fields ot)"
  by (metis FieldMap_dom dom_map_of_conv_image_fst)

lemma field_names_filter:
  "f_name ` set (map snd (filter (\<lambda>(k, _). P k) (FieldMap_from ot))) = {n \<in> f_name ` set (ot_fields ot). P n}"
proof -
  have "f_name ` set (map snd (filter (\<lambda>(k, _). P k) (FieldMap_from ot)))
      = fst ` set (filter (\<lambda>(k, _). P k) (FieldMap_from ot))"
    using names_of_FieldMap [of _ _ ot] by force
  then show ?thesis unfolding filter_keys_image keys_FieldMap .
qed

text \<open>A small evolution used by the witnesses: \<open>Post\<close> gains an optional field.\<close>

definition post_type :: "field list \<Rightarrow> object_type" where
  "post_type flds = \<lparr>ot_meta_id = Some 1, ot_name = ''Post'', ot_fields = flds, ot_indexes = [],
     ot_chisel_id = chisel_id_field, ot_backing_table = ''ty_Post'', ot_version_id = ''dev''\<rparr>"

definition text_field :: field where
  "text_field = (string_field ''text'')\<lparr>f_id := Some 7, f_version_id := ''dev''\<rparr>"

definition lang_field :: field where
  "lang_field = (optional_string_field ''lang'')\<lparr>f_version_id := ''dev''\<rparr>"

definition string_only :: type_system where
  "string_only = TypeSystem_new [(''string'', TString)] ''dev''"

lemma post_evolution:
  "generate_type_delta string_only (post_type [text_field]) (post_type [text_field, lang_field]) False =
     Ok \<lparr>added_fields = [lang_field], removed_fields = [],
         updated_fields = [\<lparr>fld_id = 7, fld_attrs = None, fld_labels = None\<rparr>],
         added_indexes = [], removed_indexes = []\<rparr>"
proof -
  have "FieldMap_from (post_type [text_field]) = [(''text'', text_field)]"
    by (simp add: FieldMap_from_def post_type_def text_field_def string_field_def)
  moreover have "FieldMap_from (post_type [text_field, lang_field]) = [(''lang'', lang_field), (''text'', text_field)]"
  proof -
    have "''lang'' < ''text''" by code_simp
    then show ?thesis
      by (simp add: FieldMap_from_def post_type_def text_field_def lang_field_def string_field_def optional_string_field_def)
  qed
  moreover have "ts_get string_only TIdString = Ok TString"
    by (simp add: ts_get_def lookup_builtin_type.simps extract_template_def strip_prefix_def starts_with_def
        string_only_def TypeSystem_new_def)
  ultimately show ?thesis
    by (simp add: generate_type_delta_def new_field_step_def removed_field_step_def field_delta_of_def al_remove_def
        find_added_indexes_def find_removed_indexes_def index_diff_def object_type_eq_def post_type_def
        text_field_def lang_field_def string_field_def optional_string_field_def)
qed

subsection \<open>Properties\<close>

text \<open>
  Type names round-trip: for every type without an entity in it (arrays nested to any depth
  included), looking its printed name up among the built-in types, and resolving its type id,
  both give the type back.
\<close>

theorem type_name_roundtrip:
  assumes "BuiltinTypes_new = Ok (builtin ts)" and "entity_free t"
  shows "lookup_builtin_type ts (type_name t) = Ok t \<and> ts_get ts (type_id_of t) = Ok t"
  using lookup_builtin_type_name [OF assms] ts_get_type_id_of [OF assms] by simp

text \<open>The built-in types are constructed without a panic, so the hypothesis can be met.\<close>

lemma BuiltinTypes_new_ok: "is_ok BuiltinTypes_new"
  by (simp add: BuiltinTypes_new_def add_auth_entity_def add_custom_entity_def add_entity_def
      ObjectType_new_def InternalObject_def string_field_def optional_string_field_def number_field_def
      optional_number_field_def date_field_def optional_array_buffer_field_def ensure_def)

theorem type_name_roundtrip_witness:
  "\<exists>ts. BuiltinTypes_new = Ok (builtin ts) \<and>
     lookup_builtin_type ts ''Array<Array<Id<Post>>>'' = Ok (TArray (TArray (TEntityId ''Post'')))"
proof -
  obtain bt where bt: "BuiltinTypes_new = Ok bt"
    using BuiltinTypes_new_ok by (auto simp: is_ok_iff)
  then have "BuiltinTypes_new = Ok (builtin (TypeSystem_new bt ''dev''))"
    by (simp add: TypeSystem_new_def)
  then show ?thesis
    using type_name_roundtrip [of "TypeSystem_new bt ''dev''" "TArray (TArray (TEntityId ''Post''))"]
    by auto
qed

text \<open>
  A custom type that was added is found again, by name and by type id, and adding it leaves
  every other custom type as it was.  The name must not be a built-in one, which is what the
  \<open>apply\<close> command checks before it adds a type.
\<close>

theorem add_custom_type_lookup:
  assumes "add_custom_type ts e = Ok ts'" and "\<not> is_ok (lookup_builtin_type ts (entity_name e))"
    and "ot_version_id (entity_object e) = ts_version_id ts" and "ts_version_id ts \<noteq> ''__chiselstrike''"
  shows "lookup_type ts' (entity_name e) = Ok (TEntity e) \<and>
    ts_get ts' (type_id_of (TEntity e)) = Ok (TEntity e) \<and>
    (\<forall>nm. nm \<noteq> entity_name e \<longrightarrow> lookup_custom_type ts' nm = lookup_custom_type ts nm)"
proof -
  have ts': "ts' = ts\<lparr>custom_types := al_insert (entity_name e) e (custom_types ts)\<rparr>"
    using assms(1) by (auto simp: add_custom_type_def lookup_custom_type_def ok_or_def split: entity.splits option.splits)
  have same: "lookup_builtin_type ts' nm = lookup_builtin_type ts nm" for nm
    by (rule lookup_builtin_type_cong) (simp add: ts')
  have found: "lookup_custom_type ts' (entity_name e) = Ok e"
    by (simp add: ts' lookup_custom_type_def)
  moreover have "lookup_type ts' (entity_name e) = Ok (TEntity e)"
    using assms(2) found lookup_builtin_type_errors [of ts "entity_name e"]
    by (cases "lookup_builtin_type ts (entity_name e)") (auto simp: lookup_type_def same)
  moreover have "ts_get ts' (type_id_of (TEntity e)) = Ok (TEntity e)"
    using assms(2-4) found lookup_entity_custom [of ts' "entity_name e"]
    by (simp add: ts_get_def same) (simp add: ts')
  ultimately show ?thesis
    by (auto simp: ts' lookup_custom_type_def)
qed

theorem add_custom_type_lookup_witness:
  "lookup_type \<lparr>custom_types = [(''Post'', Custom \<lparr>ot_meta_id = None, ot_name = ''Post'', ot_fields = [], ot_indexes = [],
       ot_chisel_id = chisel_id_field, ot_backing_table = ''t'', ot_version_id = ''dev''\<rparr>)], builtin = [], ts_version_id = ''dev''\<rparr> ''Post''
   = Ok (TEntity (Custom \<lparr>ot_meta_id = None, ot_name = ''Post'', ot_fields = [], ot_indexes = [],
       ot_chisel_id = chisel_id_field, ot_backing_table = ''t'', ot_version_id = ''dev''\<rparr>))"
proof -
  let ?post = "Custom \<lparr>ot_meta_id = None, ot_name = ''Post'', ot_fields = [], ot_indexes = [],
       ot_chisel_id = chisel_id_field, ot_backing_table = ''t'', ot_version_id = ''dev''\<rparr>"
  have "add_custom_type (TypeSystem_new [] ''dev'') ?post =
      Ok \<lparr>custom_types = [(''Post'', ?post)], builtin = [], ts_version_id = ''dev''\<rparr>"
    by (simp add: add_custom_type_def lookup_custom_type_def TypeSystem_new_def)
  moreover have "\<not> is_ok (lookup_builtin_type (TypeSystem_new [] ''dev'') ''Post'')"
    by (simp add: lookup_builtin_type.simps extract_template_def strip_prefix_def starts_with_def TypeSystem_new_def)
  ultimately show ?thesis
    using add_custom_type_lookup [of "TypeSystem_new [] ''dev''" ?post]
    by (simp add: TypeSystem_new_def)
qed





end
