(* ===== verification/Policy_Rules.thy ===== *)
theory Policy_Rules
  imports Json
begin

text \<open>
  \<open>chiselc/src/policies.rs\<close>: the static analysis of a policy function.  A policy is a
  JavaScript arrow function returning one of four actions; the compiler reads its control-flow
  regions, names every branch condition as a numbered predicate and derives for each action the
  condition under which the function returns it.  The negated condition of \<open>Skip\<close> becomes a
  filter the server pushes into its database queries.

  The first part holds the data types and the conversions between the compiler's conditions and
  the Boolean expressions of the minimiser (an external package, the parameter \<open>qmc\<close>); the
  second the rule inference; the third the meaning of both and the properties.
\<close>

subsection \<open>JavaScript syntax\<close>

text \<open>
  The part of the parser's syntax trees that the analysis inspects.  Constructors named
  \<open>Other\<close> stand for all the syntax the source sends to its catch-all branch; the flag of \<open>SDecl\<close>
  says whether the declaration is one of variables (\<open>Decl::Var\<close>).
\<close>

datatype js_lit = LStr string | LBool bool | LNull | LNum f64 | LBigInt | LRegex | LJSXText

datatype js_unary = Bang | OtherUnary string

datatype js_binary =
  EqEq | NotEq | JLt | JLtEq | JGt | JGtEq | LogicalOr | LogicalAnd | OtherBinary string

datatype js_expr =
    EUnary js_unary js_expr
  | EBin js_binary js_expr js_expr
  | ELit js_lit
  | EIdent string
  | EParen js_expr
  | EMember js_expr js_member
  | EOther
and js_member = MIdent string | MComputed js_expr | MPrivate

datatype js_stmt =
    SIf js_expr js_stmt "js_stmt option"
  | SReturn "js_expr option"
  | SBlock "js_stmt list"
  | SExpr js_expr
  | SDecl bool
  | SEmpty
  | SOther

type_synonym idx = nat
type_synonym stmt_map = "idx \<rightharpoonup> js_stmt"

text \<open>\<open>chiselc/src/tools/analysis/region.rs\<close>: the structured regions of a control-flow graph.\<close>

datatype region =
    BasicBlock "idx list"
  | Seq region region
  | CondRegion region region region
  | LoopRegion idx region

subsection \<open>Policies, conditions and predicates\<close>

datatype policy_name = PN_Read | PN_Create | PN_Update | PN_OnRead | PN_OnCreate | PN_OnUpdate | PN_GeoLoc

definition PolicyName_from_str :: "string \<Rightarrow> policy_name res" where
  "PolicyName_from_str s =
     (if s = ''read'' then Ok PN_Read
      else if s = ''create'' then Ok PN_Create
      else if s = ''update'' then Ok PN_Update
      else if s = ''onRead'' then Ok PN_OnRead
      else if s = ''onCreate'' then Ok PN_OnCreate
      else if s = ''onUpdate'' then Ok PN_OnUpdate
      else if s = ''geoLoc'' then Ok PN_GeoLoc
      else Err (Bail ''unknown policy `{other}`'' [s]))"

datatype logic_op = LEq | LNeq | LGt | LGte | LLt | LLte | LAnd | LOr

datatype cond =
    CAnd cond cond
  | COr cond cond
  | CNot cond
  | CPredicate nat
  | CTrue
  | CFalse

datatype var = Ident string | Member nat string

datatype predicate =
    PBin logic_op predicate predicate
  | PNot predicate
  | PLit json
  | PVar nat

definition pred_is_lit :: "predicate \<Rightarrow> bool" where
  "pred_is_lit p = (case p of PLit _ \<Rightarrow> True | _ \<Rightarrow> False)"

definition pred_as_lit :: "predicate \<Rightarrow> json option" where
  "pred_as_lit p = (case p of PLit l \<Rightarrow> Some l | _ \<Rightarrow> None)"

text \<open>The source matches \<open>Lit\<close> here as well.\<close>

definition pred_is_var :: "predicate \<Rightarrow> bool" where
  "pred_is_var p = (case p of PLit _ \<Rightarrow> True | _ \<Rightarrow> False)"

definition pred_as_var :: "predicate \<Rightarrow> nat option" where
  "pred_as_var p = (case p of PVar v \<Rightarrow> Some v | _ \<Rightarrow> None)"

fun is_reducible :: "predicate \<Rightarrow> bool" where
  "is_reducible (PBin op l r) = (is_reducible l \<and> is_reducible r)"
| "is_reducible (PNot p) = is_reducible p"
| "is_reducible (PLit _) = True"
| "is_reducible (PVar _) = False"

type_synonym predicates = "predicate list"

definition preds_insert :: "predicate \<Rightarrow> predicates \<Rightarrow> nat \<times> predicates" where
  "preds_insert p preds = (length preds, preds @ [p])"

definition preds_get :: "predicates \<Rightarrow> nat \<Rightarrow> predicate res" where
  "preds_get preds i = (if i < length preds then Ok (preds ! i) else Panic ''invalid predicate id!'')"

definition preds_map :: "(predicate \<Rightarrow> predicate res) \<Rightarrow> predicates \<Rightarrow> predicates res" where
  "preds_map f preds = r_map f preds"

subsection \<open>The variable environment\<close>

text \<open>
  A two-way map between variables and their ids.  Inserting a pair removes the pairs that
  share either side with it.
\<close>

type_synonym environment = "(var \<times> nat) list"

definition get_by_left :: "var \<Rightarrow> environment \<Rightarrow> nat option" where
  "get_by_left v env = map_of env v"

definition get_by_right :: "nat \<Rightarrow> environment \<Rightarrow> var option" where
  "get_by_right i env = map_option fst (find (\<lambda>(_, j). j = i) env)"

definition bimap_insert :: "var \<Rightarrow> nat \<Rightarrow> environment \<Rightarrow> environment" where
  "bimap_insert v i env = filter (\<lambda>(w, j). w \<noteq> v \<and> j \<noteq> i) env @ [(v, i)]"

definition env_insert :: "var \<Rightarrow> environment \<Rightarrow> nat \<times> environment" where
  "env_insert v env =
     (case get_by_left v env of
        Some i \<Rightarrow> (i, env)
      | None \<Rightarrow> (length env, bimap_insert v (length env) env))"

definition env_get :: "environment \<Rightarrow> nat \<Rightarrow> var res" where
  "env_get env i = unwrap ''called Option::unwrap() on a None value'' (get_by_right i env)"

subsection \<open>Parsing a branch condition\<close>

definition logic_op_of :: "js_binary \<Rightarrow> logic_op option" where
  "logic_op_of op =
     (case op of
        EqEq \<Rightarrow> Some LEq | NotEq \<Rightarrow> Some LNeq | JLt \<Rightarrow> Some LLt | JLtEq \<Rightarrow> Some LLte
      | JGt \<Rightarrow> Some LGt | JGtEq \<Rightarrow> Some LGte | LogicalOr \<Rightarrow> Some LOr | LogicalAnd \<Rightarrow> Some LAnd
      | OtherBinary _ \<Rightarrow> None)"

text \<open>\<open>f64\<close> into a JSON value: a number when finite, \<open>Null\<close> otherwise.\<close>

definition json_of_f64 :: "f64 \<Rightarrow> json" where
  "json_of_f64 x = (if f64_abs_bits x < 2047 * 2 ^ 52 then JNumber (FloatNum x) else JNull)"

definition lit_json :: "js_lit \<Rightarrow> json res" where
  "lit_json l =
     (case l of
        LStr s \<Rightarrow> Ok (JString s)
      | LBool b \<Rightarrow> Ok (JBool b)
      | LNull \<Rightarrow> Ok JNull
      | LNum n \<Rightarrow> Ok (json_of_f64 n)
      | _ \<Rightarrow> Panic ''not yet implemented'')"

definition member_name :: "js_member \<Rightarrow> string res" where
  "member_name m =
     (case m of
        MIdent s \<Rightarrow> Ok s
      | MComputed e \<Rightarrow> (case e of ELit (LStr s) \<Rightarrow> Ok s | _ \<Rightarrow> Panic ''unsupported computed property expression.'')
      | MPrivate \<Rightarrow> Panic ''invalid member expression'')"

fun parse_expr :: "js_expr \<Rightarrow> environment \<Rightarrow> (predicate \<times> environment) res" where
  "parse_expr (EUnary op arg) env =
     (case op of
        Bang \<Rightarrow> r_bind (parse_expr arg env) (\<lambda>(p, env). Ok (PNot p, env))
      | OtherUnary _ \<Rightarrow> Panic ''unsupported op'')"
| "parse_expr (EBin bop left right) env =
     (case logic_op_of bop of
        None \<Rightarrow> Panic ''unssuported binary operator''
      | Some op \<Rightarrow>
          r_bind (parse_expr left env) (\<lambda>(l, env).
          r_bind (parse_expr right env) (\<lambda>(r, env).
          Ok (PBin op l r, env))))"
| "parse_expr (ELit l) env = r_bind (lit_json l) (\<lambda>j. Ok (PLit j, env))"
| "parse_expr (EIdent s) env = (let (i, env) = env_insert (Ident s) env in Ok (PVar i, env))"
| "parse_expr (EParen e) env = parse_expr e env"
| "parse_expr (EMember obj m) env =
     r_bind (parse_expr obj env) (\<lambda>(p, env).
       case p of
         PVar v \<Rightarrow>
           r_bind (member_name m) (\<lambda>s.
             let (i, env) = env_insert (Member v s) env in Ok (PVar i, env))
       | _ \<Rightarrow> Panic ''invalid member expression'')"
| "parse_expr EOther env = Panic ''unsupported expr''"

subsection \<open>Conditions and Boolean expressions\<close>

text \<open>
  The minimiser's input and output type.  Its terms are bytes: the position of a predicate is
  truncated to eight bits.
\<close>

datatype qbool = BTrue | BFalse | BTerm "8 word" | BAnd "qbool list" | BOr "qbool list" | BNot qbool

fun position :: "nat \<Rightarrow> nat list \<Rightarrow> nat option" where
  "position x [] = None"
| "position x (y # ys) = (if x = y then Some 0 else map_option Suc (position x ys))"

fun to_bool :: "cond \<Rightarrow> predicates \<Rightarrow> nat list \<Rightarrow> (qbool \<times> nat list) res" where
  "to_bool (CAnd lhs rhs) preds mapping =
     r_bind (to_bool lhs preds mapping) (\<lambda>(l, mapping).
     r_bind (to_bool rhs preds mapping) (\<lambda>(r, mapping).
     Ok (BAnd [l, r], mapping)))"
| "to_bool (COr lhs rhs) preds mapping =
     r_bind (to_bool lhs preds mapping) (\<lambda>(l, mapping).
     r_bind (to_bool rhs preds mapping) (\<lambda>(r, mapping).
     Ok (BOr [l, r], mapping)))"
| "to_bool (CNot c) preds mapping =
     r_bind (to_bool c preds mapping) (\<lambda>(b, mapping). Ok (BNot b, mapping))"
| "to_bool (CPredicate i) preds mapping =
     r_bind (preds_get preds i) (\<lambda>p.
       case pred_as_lit p of
         Some (JBool True) \<Rightarrow> Ok (BTrue, mapping)
       | Some (JBool False) \<Rightarrow> Ok (BFalse, mapping)
       | _ \<Rightarrow>
         (case position i mapping of
            Some k \<Rightarrow> Ok (BTerm (of_nat k), mapping)
          | None \<Rightarrow> Ok (BTerm (of_nat (length (mapping @ [i])) - 1), mapping @ [i])))"
| "to_bool CTrue preds mapping = Ok (BTrue, mapping)"
| "to_bool CFalse preds mapping = Ok (BFalse, mapping)"

definition reduce :: "('a \<Rightarrow> 'a \<Rightarrow> 'a) \<Rightarrow> 'a list \<Rightarrow> 'a res" where
  "reduce f xs =
     (case xs of
        [] \<Rightarrow> Panic ''called Option::unwrap() on a None value''
      | y # ys \<Rightarrow> Ok (foldl f y ys))"

fun from_bool :: "qbool \<Rightarrow> nat list \<Rightarrow> cond res" where
  "from_bool BTrue mapping = Ok CTrue"
| "from_bool BFalse mapping = Ok CFalse"
| "from_bool (BTerm i) mapping =
     (if unat i < length mapping then Ok (CPredicate (mapping ! unat i)) else Panic ''index out of bounds'')"
| "from_bool (BAnd it) mapping = r_bind (r_map (\<lambda>b. from_bool b mapping) it) (reduce CAnd)"
| "from_bool (BOr it) mapping = r_bind (r_map (\<lambda>b. from_bool b mapping) it) (reduce COr)"
| "from_bool (BNot b) mapping = r_bind (from_bool b mapping) (\<lambda>c. Ok (CNot c))"

definition cond_simplify :: "(qbool \<Rightarrow> qbool list) \<Rightarrow> predicates \<Rightarrow> cond \<Rightarrow> cond res" where
  "cond_simplify qmc preds c =
     r_bind (to_bool c preds []) (\<lambda>(b, mapping).
       case qmc b of
         [] \<Rightarrow> Panic ''index out of bounds''
       | simp # _ \<Rightarrow> from_bool simp mapping)"

subsection \<open>Rule inference\<close>

datatype action = Allow | Log | Deny | Skip

definition ACTIONS :: "action list" where
  "ACTIONS = [Allow, Skip, Deny, Log]"

type_synonym actions = "(action \<times> cond) list"

definition merge_step :: "actions \<Rightarrow> actions \<Rightarrow> action \<Rightarrow> actions \<Rightarrow> actions" where
  "merge_step self other policy out =
     (case (map_of self policy, map_of other policy) of
        (Some lhs, Some rhs) \<Rightarrow> al_insert policy (COr lhs rhs) out
      | (Some c, None) \<Rightarrow> al_insert policy c out
      | (None, Some c) \<Rightarrow> al_insert policy c out
      | (None, None) \<Rightarrow> out)"

definition actions_merge :: "actions \<Rightarrow> actions \<Rightarrow> actions" where
  "actions_merge self other = fold (merge_step self other) ACTIONS []"

definition actions_simplify :: "(qbool \<Rightarrow> qbool list) \<Rightarrow> predicates \<Rightarrow> actions \<Rightarrow> actions res" where
  "actions_simplify qmc preds acts =
     r_map (\<lambda>(a, c). r_bind (cond_simplify qmc preds c) (\<lambda>c'. Ok (a, c'))) acts"

record rules_builder =
  rb_predicates :: predicates
  rb_env :: environment

definition RulesBuilder_new :: rules_builder where
  "RulesBuilder_new = \<lparr>rb_predicates = [], rb_env = []\<rparr>"

definition stmt_at :: "stmt_map \<Rightarrow> idx \<Rightarrow> js_stmt res" where
  "stmt_at sm i = unwrap ''key not present'' (sm i)"

definition extract_cond_from_test :: "stmt_map \<Rightarrow> region \<Rightarrow> rules_builder \<Rightarrow> (cond \<times> rules_builder) res" where
  "extract_cond_from_test sm r b =
     (case r of
        BasicBlock stmts \<Rightarrow>
          if length stmts \<noteq> 1 then Panic ''test region should contain a unique expression statement''
          else r_bind (stmt_at sm (hd stmts)) (\<lambda>stmt.
            case stmt of
              SIf test _ _ \<Rightarrow>
                r_bind (parse_expr test (rb_env b)) (\<lambda>(p, env).
                  let (i, preds) = preds_insert p (rb_predicates b)
                  in Ok (CPredicate i, b\<lparr>rb_predicates := preds, rb_env := env\<rparr>))
            | _ \<Rightarrow> Panic ''expected if statement'')
      | _ \<Rightarrow> Panic ''internal error: entered unreachable code'')"

definition action_of_return :: "js_expr option \<Rightarrow> action res" where
  "action_of_return arg =
     (case arg of
        None \<Rightarrow> Panic ''missing return arguments!''
      | Some e \<Rightarrow>
          (case e of
             EMember obj prop \<Rightarrow>
               (case obj of
                  EIdent s \<Rightarrow>
                    if s \<noteq> ''Action'' then Panic ''invalid return expression''
                    else (case prop of
                            MIdent name \<Rightarrow>
                              if name = ''Allow'' then Ok Allow
                              else if name = ''Skip'' then Ok Skip
                              else if name = ''Deny'' then Ok Deny
                              else if name = ''Log'' then Ok Log
                              else Panic ''invalid return expression''
                          | _ \<Rightarrow> Panic ''invalid return expression'')
                | _ \<Rightarrow> Panic ''invalid return expression'')
           | _ \<Rightarrow> Panic ''invalid return expression''))"

definition infer_basic_block :: "stmt_map \<Rightarrow> idx list \<Rightarrow> cond \<Rightarrow> actions res" where
  "infer_basic_block sm b c =
     (if b = [] then Ok (al_insert Deny c [])
      else if length b = 1 then
        r_bind (stmt_at sm (hd b)) (\<lambda>stmt.
          case stmt of
            SReturn arg \<Rightarrow> r_bind (action_of_return arg) (\<lambda>policy. Ok (al_insert policy c []))
          | _ \<Rightarrow> Panic ''expected return statement'')
      else Panic ''unsupported multiline basic block'')"

fun infer_rules_from_region ::
  "stmt_map \<Rightarrow> region \<Rightarrow> cond \<Rightarrow> rules_builder \<Rightarrow> (actions \<times> rules_builder) res" where
  "infer_rules_from_region sm (CondRegion test_region cons_region alt_region) c b =
     r_bind (extract_cond_from_test sm test_region b) (\<lambda>(test_cond, b).
     r_bind (infer_rules_from_region sm cons_region (CAnd test_cond c) b) (\<lambda>(cons_rules, b).
     r_bind (infer_rules_from_region sm alt_region (CAnd (CNot test_cond) c) b) (\<lambda>(alt_rules, b).
     Ok (actions_merge cons_rules alt_rules, b))))"
| "infer_rules_from_region sm (Seq _ _) c b = Panic ''not yet implemented''"
| "infer_rules_from_region sm (BasicBlock bb) c b =
     r_bind (infer_basic_block sm bb c) (\<lambda>acts. Ok (acts, b))"
| "infer_rules_from_region sm (LoopRegion _ _) c b =
     Err (Bail ''loops are not supported in the filter rules.'' [])"

definition generate_where_from_rules :: "actions \<Rightarrow> cond option" where
  "generate_where_from_rules acts = map_option CNot (map_of acts Skip)"

record filter_policy =
  where_conds :: "cond option"
  fp_predicates :: predicates
  fp_env :: environment
  fp_js_code :: string
  fp_params :: "string list"

text \<open>
  \<open>FilterPolicy::from_arrow\<close>: \<open>params\<close>, \<open>sm\<close> and \<open>r\<close> are the parts of the parsed arrow
  function, \<open>js_code\<close> what the code emitter prints for it.
\<close>

definition FilterPolicy_from_arrow ::
  "(qbool \<Rightarrow> qbool list) \<Rightarrow> string list \<Rightarrow> stmt_map \<Rightarrow> region \<Rightarrow> string res \<Rightarrow> filter_policy res" where
  "FilterPolicy_from_arrow qmc params sm r js_code =
     r_bind (infer_rules_from_region sm r CTrue RulesBuilder_new) (\<lambda>(acts, b).
     let preds = rb_predicates b in
     r_bind (actions_simplify qmc preds acts) (\<lambda>acts.
     r_bind (case generate_where_from_rules acts of
               None \<Rightarrow> Ok None
             | Some c \<Rightarrow> r_map_ok Some (cond_simplify qmc preds c)) (\<lambda>where.
     r_bind js_code (\<lambda>code.
     Ok \<lparr>where_conds = where, fp_predicates = preds, fp_env = rb_env b, fp_js_code = code, fp_params = params\<rparr>))))"

subsection \<open>Meaning\<close>

text \<open>
  A valuation gives every predicate id a truth value; a region is run by taking the branch the
  test's truth value selects.  \<open>region_tests\<close> lists the tested expressions in the order the
  inference numbers them; \<open>supported_region\<close> is the fragment it accepts.
\<close>

fun cond_eval :: "(nat \<Rightarrow> bool) \<Rightarrow> cond \<Rightarrow> bool" where
  "cond_eval s (CAnd a b) = (cond_eval s a \<and> cond_eval s b)"
| "cond_eval s (COr a b) = (cond_eval s a \<or> cond_eval s b)"
| "cond_eval s (CNot a) = (\<not> cond_eval s a)"
| "cond_eval s (CPredicate i) = s i"
| "cond_eval s CTrue = True"
| "cond_eval s CFalse = False"

fun cond_preds :: "cond \<Rightarrow> nat set" where
  "cond_preds (CAnd a b) = cond_preds a \<union> cond_preds b"
| "cond_preds (COr a b) = cond_preds a \<union> cond_preds b"
| "cond_preds (CNot a) = cond_preds a"
| "cond_preds (CPredicate i) = {i}"
| "cond_preds CTrue = {}"
| "cond_preds CFalse = {}"

fun bool_eval :: "(8 word \<Rightarrow> bool) \<Rightarrow> qbool \<Rightarrow> bool" where
  "bool_eval t BTrue = True"
| "bool_eval t BFalse = False"
| "bool_eval t (BTerm i) = t i"
| "bool_eval t (BAnd bs) = (\<forall>b \<in> set bs. bool_eval t b)"
| "bool_eval t (BOr bs) = (\<exists>b \<in> set bs. bool_eval t b)"
| "bool_eval t (BNot b) = (\<not> bool_eval t b)"

fun bool_terms :: "qbool \<Rightarrow> 8 word set" where
  "bool_terms BTrue = {}"
| "bool_terms BFalse = {}"
| "bool_terms (BTerm i) = {i}"
| "bool_terms (BAnd bs) = (\<Union>b \<in> set bs. bool_terms b)"
| "bool_terms (BOr bs) = (\<Union>b \<in> set bs. bool_terms b)"
| "bool_terms (BNot b) = bool_terms b"

text \<open>No connective is applied to an empty list.\<close>

fun bool_wf :: "qbool \<Rightarrow> bool" where
  "bool_wf (BAnd bs) = (bs \<noteq> [] \<and> (\<forall>b \<in> set bs. bool_wf b))"
| "bool_wf (BOr bs) = (bs \<noteq> [] \<and> (\<forall>b \<in> set bs. bool_wf b))"
| "bool_wf (BNot b) = bool_wf b"
| "bool_wf _ = True"

text \<open>
  What the minimiser documents: a non-empty list of simplifications, each equivalent to its
  argument and over its terms.
\<close>

definition minimises :: "(qbool \<Rightarrow> qbool list) \<Rightarrow> bool" where
  "minimises qmc = (\<forall>b. bool_wf b \<longrightarrow> qmc b \<noteq> [] \<and>
     (\<forall>s \<in> set (qmc b). bool_wf s \<and> bool_terms s \<subseteq> bool_terms b \<and> (\<forall>t. bool_eval t s = bool_eval t b)))"

definition bool_literal :: "predicates \<Rightarrow> nat \<Rightarrow> bool option" where
  "bool_literal preds i = (if i < length preds then
     (case preds ! i of PLit (JBool b) \<Rightarrow> Some b | _ \<Rightarrow> None) else None)"

text \<open>Valuations that give literal predicates their own value.\<close>

definition consistent_with :: "(nat \<Rightarrow> bool) \<Rightarrow> predicates \<Rightarrow> bool" where
  "consistent_with s preds = (\<forall>i b. bool_literal preds i = Some b \<longrightarrow> s i = b)"

definition test_of :: "stmt_map \<Rightarrow> region \<Rightarrow> js_expr option" where
  "test_of sm r = (case r of BasicBlock [i] \<Rightarrow> (case sm i of Some (SIf e _ _) \<Rightarrow> Some e | _ \<Rightarrow> None) | _ \<Rightarrow> None)"

fun region_tests :: "stmt_map \<Rightarrow> region \<Rightarrow> js_expr list" where
  "region_tests sm (CondRegion t c a) =
     (case test_of sm t of Some e \<Rightarrow> [e] | None \<Rightarrow> []) @ region_tests sm c @ region_tests sm a"
| "region_tests sm _ = []"

definition block_action :: "stmt_map \<Rightarrow> idx list \<Rightarrow> action option" where
  "block_action sm b =
     (case b of
        [] \<Rightarrow> Some Deny
      | [i] \<Rightarrow> (case sm i of
                 Some (SReturn arg) \<Rightarrow> (case action_of_return arg of Ok a \<Rightarrow> Some a | _ \<Rightarrow> None)
               | _ \<Rightarrow> None)
      | _ \<Rightarrow> None)"

fun run_region :: "stmt_map \<Rightarrow> (js_expr \<Rightarrow> bool) \<Rightarrow> region \<Rightarrow> action option" where
  "run_region sm test (CondRegion t c a) =
     (case test_of sm t of
        None \<Rightarrow> None
      | Some e \<Rightarrow> if test e then run_region sm test c else run_region sm test a)"
| "run_region sm test (BasicBlock b) = block_action sm b"
| "run_region sm test _ = None"

fun variable_like :: "js_expr \<Rightarrow> bool" where
  "variable_like (EIdent s) = True"
| "variable_like (EParen e) = variable_like e"
| "variable_like (EMember obj m) = True"
| "variable_like _ = False"

fun parseable :: "js_expr \<Rightarrow> bool" where
  "parseable (EUnary op e) = (op = Bang \<and> parseable e)"
| "parseable (EBin op l r) = (logic_op_of op \<noteq> None \<and> parseable l \<and> parseable r)"
| "parseable (ELit l) = (case lit_json l of Ok _ \<Rightarrow> True | _ \<Rightarrow> False)"
| "parseable (EIdent s) = True"
| "parseable (EParen e) = parseable e"
| "parseable (EMember obj m) = (parseable obj \<and> variable_like obj \<and> (case member_name m of Ok _ \<Rightarrow> True | _ \<Rightarrow> False))"
| "parseable EOther = False"

fun supported_region :: "stmt_map \<Rightarrow> region \<Rightarrow> bool" where
  "supported_region sm (CondRegion t c a) =
     ((case test_of sm t of Some e \<Rightarrow> parseable e | None \<Rightarrow> False) \<and> supported_region sm c \<and> supported_region sm a)"
| "supported_region sm (BasicBlock b) = (block_action sm b \<noteq> None)"
| "supported_region sm _ = False"

text \<open>
  The meaning of a tested expression, over any domain of JavaScript values: how literals,
  identifiers, member accesses and operators are interpreted is the algebra's choice.
  \<open>vars\<close> gives the value of every variable id; it fits an environment when every entry's
  value is that of the variable the entry names.
\<close>

record 'v js_algebra =
  alg_lit :: "json \<Rightarrow> 'v"
  alg_not :: "'v \<Rightarrow> 'v"
  alg_bin :: "logic_op \<Rightarrow> 'v \<Rightarrow> 'v \<Rightarrow> 'v"
  alg_ident :: "string \<Rightarrow> 'v"
  alg_member :: "'v \<Rightarrow> string \<Rightarrow> 'v"

fun eval_js :: "'v js_algebra \<Rightarrow> js_expr \<Rightarrow> 'v" where
  "eval_js alg (EUnary _ e) = alg_not alg (eval_js alg e)"
| "eval_js alg (EBin op l r) = alg_bin alg (the (logic_op_of op)) (eval_js alg l) (eval_js alg r)"
| "eval_js alg (ELit l) = alg_lit alg (case lit_json l of Ok j \<Rightarrow> j | _ \<Rightarrow> JNull)"
| "eval_js alg (EIdent s) = alg_ident alg s"
| "eval_js alg (EParen e) = eval_js alg e"
| "eval_js alg (EMember obj m) = alg_member alg (eval_js alg obj) (case member_name m of Ok s \<Rightarrow> s | _ \<Rightarrow> [])"
| "eval_js alg EOther = alg_lit alg JNull"

fun eval_pred :: "'v js_algebra \<Rightarrow> (nat \<Rightarrow> 'v) \<Rightarrow> predicate \<Rightarrow> 'v" where
  "eval_pred alg vars (PBin op l r) = alg_bin alg op (eval_pred alg vars l) (eval_pred alg vars r)"
| "eval_pred alg vars (PNot p) = alg_not alg (eval_pred alg vars p)"
| "eval_pred alg vars (PLit j) = alg_lit alg j"
| "eval_pred alg vars (PVar i) = vars i"

definition var_value :: "'v js_algebra \<Rightarrow> (nat \<Rightarrow> 'v) \<Rightarrow> var \<Rightarrow> 'v" where
  "var_value alg vars v = (case v of Ident s \<Rightarrow> alg_ident alg s | Member j s \<Rightarrow> alg_member alg (vars j) s)"

definition fits :: "'v js_algebra \<Rightarrow> environment \<Rightarrow> (nat \<Rightarrow> 'v) \<Rightarrow> bool" where
  "fits alg env vars = (\<forall>(v, i) \<in> set env. vars i = var_value alg vars v)"

text \<open>
  Ids are handed out in order, no variable has two, and a member refers to an earlier id.
\<close>

definition env_inv :: "environment \<Rightarrow> bool" where
  "env_inv env \<longleftrightarrow> map snd env = [0..<length env] \<and> distinct (map fst env) \<and>
     (\<forall>(v, i) \<in> set env. case v of Ident _ \<Rightarrow> True | Member j _ \<Rightarrow> j < i)"

fun pred_vars :: "predicate \<Rightarrow> nat set" where
  "pred_vars (PBin op l r) = pred_vars l \<union> pred_vars r"
| "pred_vars (PNot p) = pred_vars p"
| "pred_vars (PLit _) = {}"
| "pred_vars (PVar i) = {i}"

subsection \<open>Conversions\<close>

lemma position_Some: "position x xs = Some k \<Longrightarrow> k < length xs \<and> xs ! k = x"
  by (induction xs arbitrary: k) (auto split: if_splits)

lemma position_None: "position x xs = None \<longleftrightarrow> x \<notin> set xs"
  by (induction xs) auto

lemma unat_byte: "k < 256 \<Longrightarrow> unat (of_nat k :: 8 word) = k"
  by (simp add: unat_of_nat)

lemma byte_pred: "(of_nat (length (xs @ [x])) :: 8 word) - 1 = of_nat (length xs)"
  by simp

lemma cond_preds_finite [simp]: "finite (cond_preds c)"
  by (induction c) auto

definition to_bool_post :: "cond \<Rightarrow> predicates \<Rightarrow> nat list \<Rightarrow> qbool \<Rightarrow> nat list \<Rightarrow> bool" where
  "to_bool_post c preds mapping b m \<longleftrightarrow>
     (\<exists>ext. m = mapping @ ext) \<and> distinct m \<and> set m \<subseteq> set mapping \<union> cond_preds c \<and>
     bool_wf b \<and> (\<forall>i \<in> bool_terms b. unat i < length m) \<and>
     ((\<forall>i \<in> cond_preds c. bool_literal preds i = None) \<longrightarrow> (\<forall>more. from_bool b (m @ more) = Ok c)) \<and>
     (\<forall>s t. consistent_with s preds \<longrightarrow> (\<forall>k < length m. t (of_nat k) = s (m ! k)) \<longrightarrow> bool_eval t b = cond_eval s c)"

lemma to_bool_post_parts:
  assumes "to_bool_post c preds mapping b m"
  shows "\<exists>ext. m = mapping @ ext" "distinct m" "set m \<subseteq> set mapping \<union> cond_preds c" "bool_wf b"
    "\<forall>i \<in> bool_terms b. unat i < length m"
    "\<forall>i \<in> cond_preds c. bool_literal preds i = None \<Longrightarrow> from_bool b (m @ n) = Ok c"
    "consistent_with s preds \<Longrightarrow> \<forall>k < length m. t (of_nat k) = s (m ! k) \<Longrightarrow> bool_eval t b = cond_eval s c"
  using assms unfolding to_bool_post_def by blast+

lemma set_length_le: "distinct xs \<Longrightarrow> set xs \<subseteq> A \<Longrightarrow> finite A \<Longrightarrow> card A \<le> n \<Longrightarrow> length xs \<le> n"
  using card_mono [of A "set xs"] by (simp add: distinct_card)

lemma to_bool_post_seq:
  assumes l: "to_bool_post a preds mapping b1 m1" and r: "to_bool_post c preds m1 b2 m2"
    and b: "b = BAnd [b1, b2] \<and> e = CAnd a c \<or> b = BOr [b1, b2] \<and> e = COr a c"
  shows "to_bool_post e preds mapping b m2"
proof -
  obtain e1 e2 where m: "m1 = mapping @ e1" "m2 = m1 @ e2"
    using to_bool_post_parts(1) [OF l] to_bool_post_parts(1) [OF r] by blast
  have nth: "m2 ! k = m1 ! k" "k < length m2" if "k < length m1" for k
    using that m by (auto simp: nth_append)
  have b1: "from_bool b1 (m2 @ more) = Ok a" if "\<forall>i \<in> cond_preds a. bool_literal preds i = None" for more
    using to_bool_post_parts(6) [OF l that, of "e2 @ more"] m by simp
  have s1: "bool_eval t b1 = cond_eval s a"
    if "consistent_with s preds" "\<forall>k < length m2. t (of_nat k) = s (m2 ! k)" for s t
    using to_bool_post_parts(7) [OF l that(1)] that(2) nth by simp
  have t1: "unat i < length m2" if "i \<in> bool_terms b1" for i
    using to_bool_post_parts(5) [OF l] that m(2) by auto
  have s2: "set m2 \<subseteq> set mapping \<union> cond_preds a \<union> cond_preds c"
    using to_bool_post_parts(3) [OF l] to_bool_post_parts(3) [OF r] by blast
  have b2: "from_bool b2 (m2 @ more) = Ok c" if "\<forall>i \<in> cond_preds c. bool_literal preds i = None" for more
    using r that by (simp add: to_bool_post_def)
  have e: "cond_preds e = cond_preds a \<union> cond_preds c" "bool_terms b = bool_terms b1 \<union> bool_terms b2"
    "from_bool b1 n = Ok a \<Longrightarrow> from_bool b2 n = Ok c \<Longrightarrow> from_bool b n = Ok e"
    "bool_eval t b1 = cond_eval s a \<Longrightarrow> bool_eval t b2 = cond_eval s c \<Longrightarrow> bool_eval t b = cond_eval s e"
    "bool_wf b1 \<Longrightarrow> bool_wf b2 \<Longrightarrow> bool_wf b" for n s t
    using b by (auto simp: reduce_def)
  have "\<exists>ext. m2 = mapping @ ext" using m by simp
  then show ?thesis
    using e b1 b2 s1 t1 s2 to_bool_post_parts(2,5,7) [OF r] to_bool_post_parts(4) [OF l] to_bool_post_parts(4) [OF r]
    unfolding to_bool_post_def by (simp add: Un_assoc ball_Un)
qed

lemma to_bool_spec:
  assumes "cond_preds c \<subseteq> {..<length preds}" "distinct mapping" "card (set mapping \<union> cond_preds c) \<le> 256"
  shows "\<exists>b m. to_bool c preds mapping = Ok (b, m) \<and> to_bool_post c preds mapping b m"
  using assms
proof (induction c arbitrary: mapping)
  case (CPredicate i)
  show ?case
  proof (cases "bool_literal preds i")
    case (Some v)
    with CPredicate show ?thesis
      by (cases v) (auto simp: preds_get_def bool_literal_def to_bool_post_def pred_as_lit_def consistent_with_def
          split: predicate.splits json.splits if_splits)
  next
    case None
    then have step: "to_bool (CPredicate i) preds mapping =
        (case position i mapping of Some k \<Rightarrow> Ok (BTerm (of_nat k), mapping)
         | None \<Rightarrow> Ok (BTerm (of_nat (length mapping)), mapping @ [i]))"
      using CPredicate.prems
      by (auto simp: preds_get_def bool_literal_def pred_as_lit_def
          split: predicate.splits json.splits option.splits bool.splits if_splits)
    show ?thesis
    proof (cases "position i mapping")
      case None
      with CPredicate.prems have new: "i \<notin> set mapping" "Suc (length mapping) \<le> 256"
        by (simp_all add: position_None distinct_card)
      then have "to_bool_post (CPredicate i) preds mapping (BTerm (of_nat (length mapping))) (mapping @ [i])"
        using CPredicate.prems by (auto simp: to_bool_post_def unat_byte)
      with step None show ?thesis by auto
    next
      case (Some k)
      then have k: "k < length mapping" "mapping ! k = i" by (auto dest: position_Some)
      have "length mapping \<le> 256"
        using set_length_le [OF CPredicate.prems(2) Un_upper1 _ CPredicate.prems(3)] by simp
      with k have "k < 256" by simp
      with k have "to_bool_post (CPredicate i) preds mapping (BTerm (of_nat k)) mapping"
        using CPredicate.prems by (auto simp: to_bool_post_def unat_byte nth_append)
      with step Some show ?thesis by auto
    qed
  qed
next
  case (CAnd c1 c2)
  have "card (set mapping \<union> cond_preds c1) \<le> 256"
    using CAnd.prems(3) by (rule le_trans [rotated]) (auto intro: card_mono)
  then obtain b1 m1 where l: "to_bool c1 preds mapping = Ok (b1, m1)" "to_bool_post c1 preds mapping b1 m1"
    using CAnd.IH(1) [of mapping] CAnd.prems by auto
  note m1 = to_bool_post_parts(2,3) [OF l(2)]
  have "set m1 \<union> cond_preds c2 \<subseteq> set mapping \<union> cond_preds c1 \<union> cond_preds c2"
    using m1 by blast
  then have "card (set m1 \<union> cond_preds c2) \<le> 256"
    using CAnd.prems(3) card_mono [of "set mapping \<union> cond_preds c1 \<union> cond_preds c2" "set m1 \<union> cond_preds c2"]
    by (simp add: Un_assoc)
  then obtain b2 m2 where r: "to_bool c2 preds m1 = Ok (b2, m2)" "to_bool_post c2 preds m1 b2 m2"
    using CAnd.IH(2) [of m1] CAnd.prems m1 by auto
  from to_bool_post_seq [OF l(2) r(2)] l(1) r(1) show ?case by auto
next
  case (COr c1 c2)
  have "card (set mapping \<union> cond_preds c1) \<le> 256"
    using COr.prems(3) by (rule le_trans [rotated]) (auto intro: card_mono)
  then obtain b1 m1 where l: "to_bool c1 preds mapping = Ok (b1, m1)" "to_bool_post c1 preds mapping b1 m1"
    using COr.IH(1) [of mapping] COr.prems by auto
  note m1 = to_bool_post_parts(2,3) [OF l(2)]
  have "set m1 \<union> cond_preds c2 \<subseteq> set mapping \<union> cond_preds c1 \<union> cond_preds c2"
    using m1 by blast
  then have "card (set m1 \<union> cond_preds c2) \<le> 256"
    using COr.prems(3) card_mono [of "set mapping \<union> cond_preds c1 \<union> cond_preds c2" "set m1 \<union> cond_preds c2"]
    by (simp add: Un_assoc)
  then obtain b2 m2 where r: "to_bool c2 preds m1 = Ok (b2, m2)" "to_bool_post c2 preds m1 b2 m2"
    using COr.IH(2) [of m1] COr.prems m1 by auto
  from to_bool_post_seq [OF l(2) r(2)] l(1) r(1) show ?case by auto
next
  case (CNot c)
  then obtain b m where "to_bool c preds mapping = Ok (b, m)" "to_bool_post c preds mapping b m"
    by fastforce
  then show ?case by (auto simp: to_bool_post_def)
qed (auto simp: to_bool_post_def)

lemma foldl_cond_eval:
  "cond_eval s (foldl CAnd c cs) \<longleftrightarrow> (\<forall>x \<in> set (c # cs). cond_eval s x)"
  "cond_eval s (foldl COr c cs) \<longleftrightarrow> (\<exists>x \<in> set (c # cs). cond_eval s x)"
  by (induction cs arbitrary: c) auto

lemma foldl_cond_preds:
  "cond_preds (foldl CAnd c cs) = (\<Union>x \<in> set (c # cs). cond_preds x)"
  "cond_preds (foldl COr c cs) = (\<Union>x \<in> set (c # cs). cond_preds x)"
  by (induction cs arbitrary: c) auto

definition decodes :: "nat list \<Rightarrow> qbool \<Rightarrow> cond \<Rightarrow> bool" where
  "decodes m b c \<longleftrightarrow> from_bool b m = Ok c \<and> cond_preds c \<subseteq> set m \<and>
     (\<forall>s. cond_eval s c = bool_eval (\<lambda>i. s (m ! unat i)) b)"

lemma decodes_list:
  assumes "bs \<noteq> []" "\<And>b. b \<in> set bs \<Longrightarrow> \<exists>c. decodes m b c"
  shows "\<exists>c cs. r_map (\<lambda>b. from_bool b m) bs = Ok (c # cs) \<and> list_all2 (decodes m) bs (c # cs)"
proof -
  obtain f where f: "\<And>b. b \<in> set bs \<Longrightarrow> decodes m b (f b)" using assms(2) by metis
  obtain b bs' where bs: "bs = b # bs'" using assms(1) by (cases bs) auto
  have "r_map (\<lambda>b. from_bool b m) bs = Ok (map f bs)"
    using f by (intro r_map_Ok_map) (auto simp: decodes_def)
  moreover have "list_all2 (decodes m) bs (map f bs)"
    using f by (simp add: list_all2_map2 list_all2_same)
  ultimately show ?thesis using bs by auto
qed

lemma list_all2_decodes:
  assumes "list_all2 (decodes m) bs cs"
  shows "(\<Union>c \<in> set cs. cond_preds c) \<subseteq> set m"
    "(\<forall>c \<in> set cs. cond_eval s c) = (\<forall>b \<in> set bs. bool_eval (\<lambda>i. s (m ! unat i)) b)"
    "(\<exists>c \<in> set cs. cond_eval s c) = (\<exists>b \<in> set bs. bool_eval (\<lambda>i. s (m ! unat i)) b)"
  using assms by (induction rule: list_all2_induct) (auto simp: decodes_def)

lemma from_bool_decodes:
  "bool_wf b \<Longrightarrow> \<forall>i \<in> bool_terms b. unat i < length m \<Longrightarrow> \<exists>c. decodes m b c"
proof (induction b)
  case (BAnd bs)
  then obtain c cs where "r_map (\<lambda>b. from_bool b m) bs = Ok (c # cs)" "list_all2 (decodes m) bs (c # cs)"
    using decodes_list [of bs m] by force
  with list_all2_decodes [OF this(2)] have "decodes m (BAnd bs) (foldl CAnd c cs)"
    by (simp add: decodes_def reduce_def foldl_cond_eval foldl_cond_preds)
  then show ?case by blast
next
  case (BOr bs)
  then obtain c cs where "r_map (\<lambda>b. from_bool b m) bs = Ok (c # cs)" "list_all2 (decodes m) bs (c # cs)"
    using decodes_list [of bs m] by force
  with list_all2_decodes [OF this(2)] have "decodes m (BOr bs) (foldl COr c cs)"
    by (simp add: decodes_def reduce_def foldl_cond_eval foldl_cond_preds)
  then show ?case by blast
next
  case (BNot b)
  then obtain c where "decodes m b c" by auto
  then have "decodes m (BNot b) (CNot c)" by (simp add: decodes_def)
  then show ?case by blast
next
  case BTrue
  have "decodes m BTrue CTrue" by (simp add: decodes_def)
  then show ?case by blast
next
  case BFalse
  have "decodes m BFalse CFalse" by (simp add: decodes_def)
  then show ?case by blast
next
  case (BTerm i)
  then have "decodes m (BTerm i) (CPredicate (m ! unat i))" by (simp add: decodes_def)
  then show ?case by blast
qed

lemma cond_simplify_spec:
  assumes "minimises qmc" "cond_preds c \<subseteq> {..<length preds}" "card (cond_preds c) \<le> 256"
  shows "\<exists>c'. cond_simplify qmc preds c = Ok c' \<and> cond_preds c' \<subseteq> cond_preds c \<and>
    (\<forall>s. consistent_with s preds \<longrightarrow> cond_eval s c' = cond_eval s c)"
proof -
  obtain b m where b: "to_bool c preds [] = Ok (b, m)" "to_bool_post c preds [] b m"
    using to_bool_spec [of c preds "[]"] assms by auto
  then obtain x xs where x: "qmc b = x # xs"
    using assms(1) to_bool_post_parts(4) [OF b(2)] by (cases "qmc b") (auto simp: minimises_def)
  then have simp: "bool_wf x" "bool_terms x \<subseteq> bool_terms b" "bool_eval t x = bool_eval t b" for t
    using assms(1) to_bool_post_parts(4) [OF b(2)] by (auto simp: minimises_def)
  then obtain c' where c': "decodes m x c'"
    using from_bool_decodes [of x m] to_bool_post_parts(5) [OF b(2)] by blast
  have len: "length m \<le> 256"
    using set_length_le [OF _ _ cond_preds_finite assms(3)] to_bool_post_parts(2,3) [OF b(2)] by simp
  have "cond_eval s c' = cond_eval s c" if "consistent_with s preds" for s
  proof -
    have "\<forall>k < length m. (\<lambda>i. s (m ! unat i)) (of_nat k :: 8 word) = s (m ! k)"
      using len by (simp add: unat_byte)
    then have "bool_eval (\<lambda>i. s (m ! unat i)) b = cond_eval s c"
      by (rule to_bool_post_parts(7) [OF b(2) that])
    then show ?thesis using c' simp(3) by (simp add: decodes_def)
  qed
  moreover have "cond_preds c' \<subseteq> cond_preds c"
    using c' to_bool_post_parts(3) [OF b(2)] by (auto simp: decodes_def)
  ultimately show ?thesis
    using b(1) x c' by (auto simp: cond_simplify_def decodes_def)
qed

subsection \<open>Parsing conditions\<close>

lemma env_inv_ids: "env_inv env \<Longrightarrow> (v, i) \<in> set env \<Longrightarrow> i < length env"
  by (metis atLeastLessThan_iff env_inv_def image_eqI set_map set_upt snd_conv)

lemma env_insert_spec:
  assumes "env_inv env" "env_insert v env = (i, env')"
    "case v of Ident _ \<Rightarrow> True | Member j _ \<Rightarrow> j < length env"
  shows "env_inv env' \<and> prefix env env' \<and> (v, i) \<in> set env' \<and> i < length env'"
proof (cases "map_of env v")
  case None
  have "filter (\<lambda>(w, j). w \<noteq> v \<and> j \<noteq> length env) env = env"
    using None env_inv_ids [OF assms(1)] by (intro filter_True) (force simp: map_of_eq_None_iff)
  then have "i = length env" "env' = env @ [(v, length env)]"
    using assms(2) None by (auto simp: env_insert_def get_by_left_def bimap_insert_def)
  moreover have "v \<notin> fst ` set env" using None by (simp add: map_of_eq_None_iff)
  ultimately show ?thesis
    using assms by (auto simp: env_inv_def split: var.splits)
next
  case (Some k)
  with assms show ?thesis
    by (auto simp: env_insert_def get_by_left_def dest: map_of_SomeD intro: env_inv_ids)
qed

lemma fits_prefix: "prefix env env' \<Longrightarrow> fits alg env' vars \<Longrightarrow> fits alg env vars"
  by (auto simp: fits_def prefix_def)

definition parse_post :: "js_expr \<Rightarrow> environment \<Rightarrow> predicate \<Rightarrow> environment \<Rightarrow> bool" where
  "parse_post e env p env' \<longleftrightarrow> env_inv env' \<and> prefix env env' \<and> pred_vars p \<subseteq> {..<length env'} \<and>
     (variable_like e \<longrightarrow> (\<exists>v. p = PVar v))"

lemma prefix_lessThan: "prefix xs ys \<Longrightarrow> {..<length xs} \<subseteq> {..<length ys}"
  by (auto dest: prefix_length_le)

lemma parse_expr_total:
  "parseable e \<Longrightarrow> env_inv env \<Longrightarrow> \<exists>p env'. parse_expr e env = Ok (p, env') \<and> parse_post e env p env'"
proof (induction e arbitrary: env rule: parseable.induct)
  case (1 op e)
  then obtain p env' where "parse_expr e env = Ok (p, env')" "parse_post e env p env'" by fastforce
  with 1 show ?case by (auto simp: parse_post_def)
next
  case (2 op l r)
  then obtain p env1 where l: "parse_expr l env = Ok (p, env1)" "parse_post l env p env1" by fastforce
  then have "env_inv env1" by (simp add: parse_post_def)
  with 2 obtain q env2 where r: "parse_expr r env1 = Ok (q, env2)" "parse_post r env1 q env2"
    by fastforce
  have "prefix env env2" "{..<length env1} \<subseteq> {..<length env2}"
    using l r by (auto simp: parse_post_def intro: prefix_order.trans dest: prefix_lessThan)
  moreover have "pred_vars p \<subseteq> {..<length env2}"
    using calculation(2) l(2) by (auto simp: parse_post_def)
  ultimately show ?case using l r 2 by (auto simp: parse_post_def)
next
  case (4 s)
  obtain i env' where "env_insert (Ident s) env = (i, env')" by force
  with env_insert_spec [OF 4(2) this] show ?case by (auto simp: parse_post_def)
next
  case (6 obj m)
  then have obj: "parseable obj" "variable_like obj" by auto
  obtain p env1 where l: "parse_expr obj env = Ok (p, env1)" "parse_post obj env p env1"
    using 6(1) [OF obj(1) 6(3)] by blast
  with obj(2) obtain v where "p = PVar v" by (auto simp: parse_post_def)
  note l = l [unfolded this]
  obtain s where s: "member_name m = Ok s" using 6 by (auto split: result.splits)
  obtain i env' where i: "env_insert (Member v s) env1 = (i, env')" by force
  with env_insert_spec [OF _ this] l have "env_inv env' \<and> prefix env1 env' \<and> i < length env'"
    by (auto simp: parse_post_def)
  with l s i show ?case by (auto simp: parse_post_def intro: prefix_order.trans)
qed (auto simp: parse_post_def split: result.splits)

lemma parse_expr_meaning:
  "parse_expr e env = Ok (p, env') \<Longrightarrow> env_inv env \<Longrightarrow> parseable e \<Longrightarrow> fits alg env' vars \<Longrightarrow>
     eval_pred alg vars p = eval_js alg e"
proof (induction e arbitrary: env p env' rule: parseable.induct)
  case (1 op e)
  then show ?case by (auto simp: result_simps split: js_unary.splits)
next
  case (2 op l r)
  then obtain q env1 q' where parts: "parse_expr l env = Ok (q, env1)" "parse_expr r env1 = Ok (q', env')"
      "p = PBin (the (logic_op_of op)) q q'"
    by (auto simp: result_simps split: option.splits)
  from parse_expr_total [of l env] parts 2 have e1: "env_inv env1" by (auto simp: parse_post_def)
  from parse_expr_total [of r env1] parts 2 e1 have "prefix env1 env'" by (auto simp: parse_post_def)
  then have "eval_pred alg vars q = eval_js alg l"
    using 2 parts e1 fits_prefix [OF _ 2(6)] by auto
  with 2 parts e1 show ?case by auto
next
  case (4 s)
  obtain i env'' where i: "env_insert (Ident s) env = (i, env'')" by force
  with env_insert_spec [OF 4(2) this] 4 show ?case by (auto simp: fits_def var_value_def)
next
  case (6 obj m)
  then obtain v env1 where obj: "parse_expr obj env = Ok (PVar v, env1)" "parse_post obj env (PVar v) env1"
    using parse_expr_total [of obj env] by (fastforce simp: parse_post_def)
  then have e1: "env_inv env1" "v < length env1" by (auto simp: parse_post_def)
  obtain s where s: "member_name m = Ok s" using 6 by (auto split: result.splits)
  obtain i where parts: "p = PVar i" "env_insert (Member v s) env1 = (i, env')"
    using 6(2) obj(1) s by (auto split: prod.splits)
  from env_insert_spec [OF e1(1) parts(2)] e1 have pre: "prefix env1 env'" "(Member v s, i) \<in> set env'" by auto
  then have "vars v = eval_js alg obj"
    using 6(1) [OF obj(1) 6(3)] 6(4) fits_prefix [OF pre(1) 6(5)] by simp
  then show ?case using pre(2) parts s 6 by (auto simp: fits_def var_value_def)
qed (auto simp: result_simps)

subsection \<open>Inferred rules\<close>

text \<open>An action fires under a valuation when it has a rule and the rule's condition holds.\<close>

definition fires :: "actions \<Rightarrow> (nat \<Rightarrow> bool) \<Rightarrow> action \<Rightarrow> bool" where
  "fires acts s a = (case map_of acts a of Some c \<Rightarrow> cond_eval s c | None \<Rightarrow> False)"

definition rule_preds :: "actions \<Rightarrow> nat set" where
  "rule_preds acts = (\<Union>(a, c) \<in> set acts. cond_preds c)"

definition merged_rule :: "actions \<Rightarrow> actions \<Rightarrow> action \<Rightarrow> cond option" where
  "merged_rule self other a =
     (case (map_of self a, map_of other a) of
        (Some l, Some r) \<Rightarrow> Some (COr l r) | (Some c, None) \<Rightarrow> Some c | (None, Some c) \<Rightarrow> Some c | _ \<Rightarrow> None)"

lemma merge_step_rule:
  "merge_step self other a out = (case merged_rule self other a of None \<Rightarrow> out | Some c \<Rightarrow> al_insert a c out)"
  by (simp add: merge_step_def merged_rule_def split: option.splits)

lemma fold_merge_step:
  "map_of (fold (merge_step self other) as out) a =
     (if a \<in> set as then (case merged_rule self other a of None \<Rightarrow> map_of out a | c \<Rightarrow> c) else map_of out a)"
  "distinct (map fst out) \<Longrightarrow> distinct (map fst (fold (merge_step self other) as out))"
  by (induction as arbitrary: out) (auto simp: merge_step_rule split: option.splits)

lemma map_of_merge: "map_of (actions_merge self other) a = merged_rule self other a"
proof -
  have "a \<in> set ACTIONS" by (cases a) (simp_all add: ACTIONS_def)
  then show ?thesis by (simp add: actions_merge_def fold_merge_step split: option.splits)
qed

lemma distinct_merge: "distinct (map fst (actions_merge self other))"
  by (simp add: actions_merge_def fold_merge_step)

lemma fires_merge: "fires (actions_merge self other) s a \<longleftrightarrow> fires self s a \<or> fires other s a"
  by (auto simp: fires_def map_of_merge merged_rule_def split: option.splits)

lemma rule_preds_merge: "rule_preds (actions_merge self other) \<subseteq> rule_preds self \<union> rule_preds other"
proof
  fix i assume "i \<in> rule_preds (actions_merge self other)"
  then obtain a c where "map_of (actions_merge self other) a = Some c" "i \<in> cond_preds c"
    using distinct_merge by (fastforce simp: rule_preds_def)
  then show "i \<in> rule_preds self \<union> rule_preds other"
    by (fastforce simp: map_of_merge merged_rule_def rule_preds_def split: option.splits dest: map_of_SomeD)
qed

definition parsed :: "environment \<Rightarrow> js_expr \<Rightarrow> predicate \<Rightarrow> bool" where
  "parsed env e p \<longleftrightarrow> parseable e \<and> (\<exists>env0 env1. env_inv env0 \<and> parse_expr e env0 = Ok (p, env1) \<and> prefix env1 env)"

lemma parsed_mono: "parsed env e p \<Longrightarrow> prefix env env' \<Longrightarrow> parsed env' e p"
  unfolding parsed_def by (meson prefix_order.trans)

lemma parsed_meaning: "parsed env e p \<Longrightarrow> fits alg env vars \<Longrightarrow> eval_pred alg vars p = eval_js alg e"
  unfolding parsed_def by (meson fits_prefix parse_expr_meaning)

definition inferred :: "stmt_map \<Rightarrow> region \<Rightarrow> cond \<Rightarrow> rules_builder \<Rightarrow> actions \<Rightarrow> rules_builder \<Rightarrow> bool" where
  "inferred sm r c b acts b' \<longleftrightarrow> (let n = length (rb_predicates b); tests = region_tests sm r in
     env_inv (rb_env b') \<and> prefix (rb_env b) (rb_env b') \<and>
     (\<exists>ps. rb_predicates b' = rb_predicates b @ ps \<and> list_all2 (parsed (rb_env b')) tests ps) \<and>
     rule_preds acts \<subseteq> cond_preds c \<union> {n..<n + length tests} \<and>
     (\<forall>test s a. (\<forall>k < length tests. s (n + k) = test (tests ! k)) \<longrightarrow>
        fires acts s a = (cond_eval s c \<and> run_region sm test r = Some a)))"

lemma rule_preds_cond:
  assumes "rule_preds acts1 \<subseteq> insert n P \<union> {Suc n..<Suc n + k1}"
    "rule_preds acts2 \<subseteq> insert n P \<union> {Suc n + k1..<Suc n + k1 + k2}"
  shows "rule_preds (actions_merge acts1 acts2) \<subseteq> P \<union> {n..<n + Suc (k1 + k2)}"
proof -
  have "rule_preds acts1 \<union> rule_preds acts2 \<subseteq> P \<union> {n..<n + Suc (k1 + k2)}"
    using assms by (auto simp: subset_iff)
  with rule_preds_merge show ?thesis by (rule order_trans)
qed

lemma fires_cond:
  assumes cons: "\<And>test s a. \<forall>k < length ts1. s (Suc n + k) = test (ts1 ! k) \<Longrightarrow>
      fires acts1 s a = (s n \<and> cond_eval s c \<and> run1 test = Some a)"
    and alt: "\<And>test s a. \<forall>k < length ts2. s (Suc n + length ts1 + k) = test (ts2 ! k) \<Longrightarrow>
      fires acts2 s a = (\<not> s n \<and> cond_eval s c \<and> run2 test = Some a)"
    and val: "\<forall>k < length (e # ts1 @ ts2). s (n + k) = test ((e # ts1 @ ts2) ! k)"
  shows "fires (actions_merge acts1 acts2) s a =
    (cond_eval s c \<and> (if test e then run1 test else run2 test) = Some a)"
proof -
  have v0: "s n = test e" using val [rule_format, of 0] by simp
  have v1: "s (Suc n + k) = test (ts1 ! k)" if "k < length ts1" for k
    using val [rule_format, of "Suc k"] that by (simp add: nth_append)
  have v2: "s (Suc n + length ts1 + k) = test (ts2 ! k)" if "k < length ts2" for k
    using val [rule_format, of "Suc (length ts1 + k)"] that by (simp add: nth_append add.assoc)
  show ?thesis using cons [of s test] alt [of s test] v0 v1 v2 by (simp add: fires_merge)
qed

lemma inferred_cond:
  assumes test: "test_of sm t = Some e"
    and b1: "rb_predicates b1 = rb_predicates b @ [p]" "parsed (rb_env b1) e p" "prefix (rb_env b) (rb_env b1)"
    and cons: "inferred sm r1 (CAnd (CPredicate (length (rb_predicates b))) c) b1 acts1 b2"
    and alt: "inferred sm r2 (CAnd (CNot (CPredicate (length (rb_predicates b)))) c) b2 acts2 b3"
  shows "inferred sm (CondRegion t r1 r2) c b (actions_merge acts1 acts2) b3"
proof -
  let ?n = "length (rb_predicates b)"
  obtain ps1 where ps1: "rb_predicates b2 = rb_predicates b1 @ ps1" "list_all2 (parsed (rb_env b2)) (region_tests sm r1) ps1"
    using cons by (auto simp: inferred_def Let_def)
  obtain ps2 where ps2: "rb_predicates b3 = rb_predicates b2 @ ps2" "list_all2 (parsed (rb_env b3)) (region_tests sm r2) ps2"
    using alt by (auto simp: inferred_def Let_def)
  have env: "prefix (rb_env b1) (rb_env b2)" "prefix (rb_env b2) (rb_env b3)" "env_inv (rb_env b3)"
    using cons alt by (auto simp: inferred_def Let_def)
  have n2: "length (rb_predicates b2) = Suc ?n + length (region_tests sm r1)"
    using b1(1) ps1 list_all2_lengthD [OF ps1(2)] by simp
  have "list_all2 (parsed (rb_env b3)) (region_tests sm r1) ps1"
    by (rule list_all2_mono [OF ps1(2)]) (use env(2) parsed_mono in blast)
  moreover have "parsed (rb_env b3) e p"
    using b1(2) env by (meson parsed_mono prefix_order.trans)
  ultimately have parsed: "list_all2 (parsed (rb_env b3)) (region_tests sm (CondRegion t r1 r2)) (p # ps1 @ ps2)"
    using ps2(2) test by (auto intro: list_all2_appendI)
  have preds: "rule_preds (actions_merge acts1 acts2)
      \<subseteq> cond_preds c \<union> {?n..<?n + length (region_tests sm (CondRegion t r1 r2))}"
    using rule_preds_cond [of acts1 ?n "cond_preds c" "length (region_tests sm r1)" acts2 "length (region_tests sm r2)"]
      cons alt b1(1) n2 test by (simp add: inferred_def Let_def)
  have "fires (actions_merge acts1 acts2) s a = (cond_eval s c \<and> run_region sm tst (CondRegion t r1 r2) = Some a)"
    if "\<forall>k < length (region_tests sm (CondRegion t r1 r2)). s (?n + k) = tst (region_tests sm (CondRegion t r1 r2) ! k)"
    for tst s a
    using fires_cond [of "region_tests sm r1" ?n acts1 c "\<lambda>tst. run_region sm tst r1"
        "region_tests sm r2" acts2 "\<lambda>tst. run_region sm tst r2" e s tst a]
      cons alt b1(1) n2 test that by (simp add: inferred_def Let_def)
  with parsed preds env b1(1,3) ps1(1) ps2(1) show ?thesis
    unfolding inferred_def Let_def by (auto intro: prefix_order.trans)
qed

lemma inferred_block:
  assumes "block_action sm bb = Some a" "env_inv (rb_env b)"
  shows "\<exists>acts. infer_rules_from_region sm (BasicBlock bb) c b = Ok (acts, b) \<and> inferred sm (BasicBlock bb) c b acts b"
proof -
  have "infer_basic_block sm bb c = Ok [(a, c)]"
    using assms(1) by (auto simp: block_action_def infer_basic_block_def stmt_at_def
        split: list.splits option.splits js_stmt.splits result.splits)
  with assms show ?thesis
    by (auto simp: inferred_def fires_def rule_preds_def)
qed

lemma extract_cond_spec:
  assumes "test_of sm t = Some e" "parseable e" "env_inv (rb_env b)"
  shows "\<exists>p b1. extract_cond_from_test sm t b = Ok (CPredicate (length (rb_predicates b)), b1) \<and>
    rb_predicates b1 = rb_predicates b @ [p] \<and> parsed (rb_env b1) e p \<and> prefix (rb_env b) (rb_env b1) \<and> env_inv (rb_env b1)"
proof -
  obtain i cons alt where t: "t = BasicBlock [i]" "sm i = Some (SIf e cons alt)"
    using assms(1) by (auto simp: test_of_def split: region.splits list.splits option.splits js_stmt.splits)
  obtain p env' where "parse_expr e (rb_env b) = Ok (p, env')" "parse_post e (rb_env b) p env'"
    using parse_expr_total [OF assms(2,3)] by blast
  with t assms show ?thesis
    by (auto simp: extract_cond_from_test_def stmt_at_def preds_insert_def parsed_def parse_post_def)
qed

lemma infer_rules_inferred:
  "supported_region sm r \<Longrightarrow> env_inv (rb_env b) \<Longrightarrow>
     \<exists>acts b'. infer_rules_from_region sm r c b = Ok (acts, b') \<and> inferred sm r c b acts b'"
proof (induction r arbitrary: c b)
  case (BasicBlock bb)
  then show ?case using inferred_block by fastforce
next
  case (CondRegion t r1 r2)
  then obtain e where e: "test_of sm t = Some e" "parseable e" "supported_region sm r1" "supported_region sm r2"
    by (auto split: option.splits)
  from extract_cond_spec [OF e(1,2) CondRegion.prems(2)] obtain p b1 where
    b1: "extract_cond_from_test sm t b = Ok (CPredicate (length (rb_predicates b)), b1)"
      "rb_predicates b1 = rb_predicates b @ [p]" "parsed (rb_env b1) e p" "prefix (rb_env b) (rb_env b1)" "env_inv (rb_env b1)"
    by blast
  let ?n = "length (rb_predicates b)"
  obtain acts1 b2 where c: "infer_rules_from_region sm r1 (CAnd (CPredicate ?n) c) b1 = Ok (acts1, b2)"
    "inferred sm r1 (CAnd (CPredicate ?n) c) b1 acts1 b2"
    using CondRegion.IH(2) [OF e(3) b1(5)] by blast
  then have "env_inv (rb_env b2)" by (simp add: inferred_def Let_def)
  then obtain acts2 b3 where a: "infer_rules_from_region sm r2 (CAnd (CNot (CPredicate ?n)) c) b2 = Ok (acts2, b3)"
    "inferred sm r2 (CAnd (CNot (CPredicate ?n)) c) b2 acts2 b3"
    using CondRegion.IH(3) [OF e(4)] by blast
  from inferred_cond [OF e(1) b1(2,3,4) c(2) a(2)] b1(1) c(1) a(1) show ?case by simp
qed auto

lemma infer_rules_new:
  assumes "supported_region sm r"
  obtains acts b where "infer_rules_from_region sm r CTrue RulesBuilder_new = Ok (acts, b)"
    "list_all2 (parsed (rb_env b)) (region_tests sm r) (rb_predicates b)"
    "rule_preds acts \<subseteq> {..<length (rb_predicates b)}"
    "\<forall>test s a. (\<forall>k < length (region_tests sm r). s k = test (region_tests sm r ! k)) \<longrightarrow>
       fires acts s a = (run_region sm test r = Some a)"
proof -
  obtain acts b where i: "infer_rules_from_region sm r CTrue RulesBuilder_new = Ok (acts, b)"
    "inferred sm r CTrue RulesBuilder_new acts b"
    using infer_rules_inferred [OF assms, of RulesBuilder_new CTrue] by (auto simp: RulesBuilder_new_def env_inv_def)
  from i(2) have l: "list_all2 (parsed (rb_env b)) (region_tests sm r) (rb_predicates b)"
    "rule_preds acts \<subseteq> {..<length (region_tests sm r)}"
    by (auto simp: inferred_def RulesBuilder_new_def Let_def)
  show ?thesis
  proof (rule that [OF i(1) l(1)])
    show "rule_preds acts \<subseteq> {..<length (rb_predicates b)}"
      using l list_all2_lengthD by metis
  qed (use i(2) in \<open>simp add: inferred_def RulesBuilder_new_def Let_def\<close>)
qed

lemma card_bounded: "A \<subseteq> {..<n} \<Longrightarrow> n \<le> (m :: nat) \<Longrightarrow> card A \<le> m"
  by (metis card_lessThan card_mono finite_lessThan le_trans)

lemma actions_simplify_spec:
  assumes "minimises qmc" "length preds \<le> 256" "rule_preds acts \<subseteq> {..<length preds}"
  shows "\<exists>acts'. actions_simplify qmc preds acts = Ok acts' \<and> rule_preds acts' \<subseteq> {..<length preds} \<and>
    (\<forall>s a. consistent_with s preds \<longrightarrow> fires acts' s a = fires acts s a)"
  using assms(3)
proof (induction acts)
  case (Cons ac acts)
  obtain a c where ac: "ac = (a, c)" by force
  have c: "cond_preds c \<subseteq> {..<length preds}" using Cons.prems by (auto simp: rule_preds_def ac)
  then obtain c' where c': "cond_simplify qmc preds c = Ok c'" "cond_preds c' \<subseteq> {..<length preds}"
    "\<And>s. consistent_with s preds \<Longrightarrow> cond_eval s c' = cond_eval s c"
    using cond_simplify_spec [OF assms(1) c card_bounded [OF c assms(2)]] by blast
  obtain acts' where "actions_simplify qmc preds acts = Ok acts'" "rule_preds acts' \<subseteq> {..<length preds}"
    "\<And>s a. consistent_with s preds \<Longrightarrow> fires acts' s a = fires acts s a"
    using Cons by (auto simp: rule_preds_def)
  with c' ac show ?case
    by (intro exI [of _ "(a, c') # acts'"]) (auto simp: actions_simplify_def rule_preds_def fires_def)
qed (auto simp: actions_simplify_def)

lemma generate_where_spec:
  "(case generate_where_from_rules acts of None \<Rightarrow> True | Some c \<Rightarrow> cond_eval s c) \<longleftrightarrow> \<not> fires acts s Skip"
  by (auto simp: generate_where_from_rules_def fires_def split: option.splits)

lemma where_simplify_spec:
  assumes "minimises qmc" "length preds \<le> 256" "rule_preds acts \<subseteq> {..<length preds}"
  shows "\<exists>w. (case generate_where_from_rules acts of None \<Rightarrow> Ok None
      | Some c \<Rightarrow> r_map_ok Some (cond_simplify qmc preds c)) = Ok w \<and>
    (\<forall>s. consistent_with s preds \<longrightarrow>
      (case w of None \<Rightarrow> True | Some c \<Rightarrow> cond_eval s c) = (\<not> fires acts s Skip))"
proof (cases "map_of acts Skip")
  case None
  then show ?thesis by (simp add: generate_where_from_rules_def fires_def)
next
  case (Some c)
  then have c: "cond_preds (CNot c) \<subseteq> {..<length preds}"
    using assms(3) by (auto simp: rule_preds_def dest!: map_of_SomeD)
  from cond_simplify_spec [OF assms(1) c card_bounded [OF c assms(2)]] Some show ?thesis
    by (auto simp: generate_where_from_rules_def fires_def)
qed

text \<open>
  Converting a condition to the minimiser's Boolean expressions and back gives the same
  condition, as long as it mentions at most 256 different predicates (a term is one byte) and
  none of them is a literal.
\<close>

theorem bool_roundtrip:
  assumes "cond_preds c \<subseteq> {..<length preds}" "card (cond_preds c) \<le> 256"
    "\<forall>i \<in> cond_preds c. bool_literal preds i = None"
  shows "r_bind (to_bool c preds []) (\<lambda>(b, mapping). from_bool b mapping) = Ok c"
proof -
  obtain b m where b: "to_bool c preds [] = Ok (b, m)" "to_bool_post c preds [] b m"
    using to_bool_spec [of c preds "[]"] assms by auto
  with to_bool_post_parts(6) [OF b(2) assms(3), of "[]"] show ?thesis by simp
qed

theorem bool_roundtrip_witness:
  "r_bind (to_bool (CAnd (CPredicate 1) (CNot (CPredicate 0))) [PVar 0, PVar 1] [])
     (\<lambda>(b, mapping). from_bool b mapping) = Ok (CAnd (CPredicate 1) (CNot (CPredicate 0)))"
  by (rule bool_roundtrip) (auto simp: bool_literal_def)


definition person_age_test :: js_expr where
  "person_age_test = EBin JGt (EMember (EIdent ''person'') (MIdent ''age'')) (ELit (LNum 0))"


text \<open>
  C7: for every supported region the inference returns rules, and whatever values the tested
  expressions have, exactly the action that running the region returns has a rule whose
  condition holds.
\<close>

theorem infer_rules_correct:
  assumes "supported_region sm r"
  shows "\<exists>acts b. infer_rules_from_region sm r CTrue RulesBuilder_new = Ok (acts, b) \<and>
    length (rb_predicates b) = length (region_tests sm r) \<and>
    (\<forall>test a. fires acts (\<lambda>i. test (region_tests sm r ! i)) a = (run_region sm test r = Some a))"
proof -
  obtain acts b where i: "infer_rules_from_region sm r CTrue RulesBuilder_new = Ok (acts, b)"
    "list_all2 (parsed (rb_env b)) (region_tests sm r) (rb_predicates b)"
    "rule_preds acts \<subseteq> {..<length (rb_predicates b)}"
    "\<forall>test s a. (\<forall>k < length (region_tests sm r). s k = test (region_tests sm r ! k)) \<longrightarrow>
       fires acts s a = (run_region sm test r = Some a)"
    by (rule infer_rules_new [OF assms])
  show ?thesis
    using list_all2_lengthD [OF i(2)] i(4) by (intro exI [of _ acts] exI [of _ b] conjI i(1)) simp_all
qed

text \<open>A policy \<open>if (person.age > 0) { return Action.Skip } else { return Action.Allow }\<close>.\<close>

definition return_action :: "string \<Rightarrow> js_stmt" where
  "return_action a = SReturn (Some (EMember (EIdent ''Action'') (MIdent a)))"

definition sample_stmts :: stmt_map where
  "sample_stmts = [2 \<mapsto> SIf person_age_test (return_action ''Skip'') (Some (return_action ''Allow'')),
     3 \<mapsto> return_action ''Skip'', 4 \<mapsto> return_action ''Allow'']"

definition sample_region :: region where
  "sample_region = CondRegion (BasicBlock [2]) (BasicBlock [3]) (BasicBlock [4])"

lemma sample_supported: "supported_region sample_stmts sample_region"
  by (simp add: sample_region_def sample_stmts_def person_age_test_def return_action_def test_of_def
      block_action_def action_of_return_def logic_op_of_def lit_json_def member_name_def)

lemma sample_tests: "region_tests sample_stmts sample_region = [person_age_test]"
  by (simp add: sample_region_def sample_stmts_def test_of_def)

theorem infer_rules_correct_witness:
  "\<exists>acts b. infer_rules_from_region sample_stmts sample_region CTrue RulesBuilder_new = Ok (acts, b) \<and>
     fires acts (\<lambda>i. True) Skip"
proof -
  have "run_region sample_stmts (\<lambda>_. True) sample_region = Some Skip"
    by (simp add: sample_region_def sample_stmts_def test_of_def block_action_def return_action_def action_of_return_def)
  moreover obtain acts b where i: "infer_rules_from_region sample_stmts sample_region CTrue RulesBuilder_new = Ok (acts, b)"
    "\<And>test a. fires acts (\<lambda>i. test (region_tests sample_stmts sample_region ! i)) a =
       (run_region sample_stmts test sample_region = Some a)"
    using infer_rules_correct [OF sample_supported] by auto
  ultimately show ?thesis using i(2) [of "\<lambda>_. True" Skip] by blast
qed

text \<open>
  A compiled filter policy keeps exactly the rows its function does not skip.  For every sound
  minimiser and every supported policy with at most 256 branch conditions, compilation succeeds, and
  for every interpretation of the JavaScript values in which Boolean literals have their own truth
  value, the filter condition (or no filter at all) holds of the policy's predicates exactly when
  running the function does not return \<open>Skip\<close>.
\<close>

lemma where_conds_correct:
  assumes "minimises qmc" "supported_region sm r" "length (region_tests sm r) \<le> 256"
  shows "\<exists>p. FilterPolicy_from_arrow qmc params sm r (Ok code) = Ok p \<and>
    (\<forall>alg vars truthy. fits alg (fp_env p) vars \<and> (\<forall>b. truthy (alg_lit alg (JBool b)) = b) \<longrightarrow>
      (case where_conds p of None \<Rightarrow> True
       | Some c \<Rightarrow> cond_eval (\<lambda>i. truthy (eval_pred alg vars (fp_predicates p ! i))) c) =
      (run_region sm (\<lambda>e. truthy (eval_js alg e)) r \<noteq> Some Skip))"
proof -
  obtain acts b where i: "infer_rules_from_region sm r CTrue RulesBuilder_new = Ok (acts, b)"
    and b: "list_all2 (parsed (rb_env b)) (region_tests sm r) (rb_predicates b)"
      "rule_preds acts \<subseteq> {..<length (rb_predicates b)}"
    and run: "\<forall>test s a. (\<forall>k < length (region_tests sm r). s k = test (region_tests sm r ! k)) \<longrightarrow>
       fires acts s a = (run_region sm test r = Some a)"
    by (rule infer_rules_new [OF assms(2)])
  let ?preds = "rb_predicates b"
  note len = list_all2_lengthD [OF b(1)]
  obtain acts' where a: "actions_simplify qmc ?preds acts = Ok acts'" "rule_preds acts' \<subseteq> {..<length ?preds}"
    "\<And>s a. consistent_with s ?preds \<Longrightarrow> fires acts' s a = fires acts s a"
    using actions_simplify_spec [OF assms(1) _ b(2)] assms(3) len by auto
  obtain w where w: "(case generate_where_from_rules acts' of None \<Rightarrow> Ok None
      | Some c \<Rightarrow> r_map_ok Some (cond_simplify qmc ?preds c)) = Ok w"
    "\<And>s. consistent_with s ?preds \<Longrightarrow> (case w of None \<Rightarrow> True | Some c \<Rightarrow> cond_eval s c) = (\<not> fires acts' s Skip)"
    using where_simplify_spec [OF assms(1) _ a(2)] assms(3) len by auto
  have "(case w of None \<Rightarrow> True | Some c \<Rightarrow> cond_eval (\<lambda>i. truthy (eval_pred alg vars (?preds ! i))) c) =
      (run_region sm (\<lambda>e. truthy (eval_js alg e)) r \<noteq> Some Skip)"
    if "fits alg (rb_env b) vars" "\<forall>b. truthy (alg_lit alg (JBool b)) = b" for alg vars truthy
  proof -
    let ?s = "\<lambda>i. truthy (eval_pred alg vars (?preds ! i))"
    have "\<forall>k < length (region_tests sm r). ?s k = truthy (eval_js alg (region_tests sm r ! k))"
      using parsed_meaning [OF list_all2_nthD [OF b(1)] that(1)] by simp
    then have "fires acts ?s Skip = (run_region sm (\<lambda>e. truthy (eval_js alg e)) r = Some Skip)"
      using run by simp
    moreover have "consistent_with ?s ?preds"
      using that(2) by (auto simp: consistent_with_def bool_literal_def split: predicate.splits json.splits if_splits)
    ultimately show ?thesis using w(2) a(3) by simp
  qed
  moreover have "FilterPolicy_from_arrow qmc params sm r (Ok code) =
      Ok \<lparr>where_conds = w, fp_predicates = ?preds, fp_env = rb_env b, fp_js_code = code, fp_params = params\<rparr>"
    using i a(1) w(1) by (simp add: FilterPolicy_from_arrow_def Let_def)
  ultimately show ?thesis
    by (intro exI conjI) (assumption, unfold filter_policy.select_convs, blast)
qed

end
