(* ===== verification/Control_Flow.thy ===== *)
theory Control_Flow
  imports Policy_Rules "HOL-Library.Multiset"
begin

text \<open>
  \<open>chiselc/src/tools/analysis/control_flow.rs\<close>, \<open>region.rs\<close>, \<open>stmt_map.rs\<close> and \<open>tools/functions.rs\<close>: the
  body of a policy function becomes a control-flow graph, and the graph becomes the nested regions
  from which the rules of the policy are inferred.  The regions run exactly the statements the body
  runs, and a function made of conditions and returns always compiles to the filter it means.

  A graph is the list of its nodes and the list of its edges in the order they were added; a node is
  its index.  The dominators of the graph come from \<open>petgraph\<close> and are an argument.  The region
  builder recurses along the graph and need not end on a cyclic one: it has fuel, and running out of
  it stands for the overflow of the stack.
\<close>

subsection \<open>The control-flow graph\<close>

datatype cfg_edge = EdgeTrue | EdgeFalse | EdgeFlow

datatype cfg_node = NStmt | NStart | NEnd

type_synonym cfg_edges = "(idx \<times> idx \<times> cfg_edge) list"
type_synonym cfg_outs = "(idx \<times> cfg_edge) list"

record cfg_builder =
  cb_nodes :: "cfg_node list"
  cb_edges :: cfg_edges
  cb_previous :: idx
  cb_map :: stmt_map
  cb_end :: idx

definition cfg_add_edge :: "idx \<Rightarrow> idx \<Rightarrow> cfg_edge \<Rightarrow> cfg_builder \<Rightarrow> cfg_builder" where
  "cfg_add_edge a b w g = g\<lparr>cb_edges := cb_edges g @ [(a, b, w)]\<rparr>"

definition merge_out :: "cfg_outs \<Rightarrow> idx \<Rightarrow> cfg_builder \<Rightarrow> cfg_builder" where
  "merge_out from to g = fold (\<lambda>(root, edge). cfg_add_edge root to edge) from g"

definition add_stmt_node :: "js_stmt \<Rightarrow> cfg_builder \<Rightarrow> idx \<times> cfg_builder" where
  "add_stmt_node stmt g =
     (let idx = length (cb_nodes g)
      in (idx, g\<lparr>cb_nodes := cb_nodes g @ [NStmt], cb_map := (cb_map g)(idx \<mapsto> stmt), cb_previous := idx\<rparr>))"

text \<open>\<open>root\<close> and \<open>current\<close> of \<open>block\<close> are both there or both missing.\<close>

fun cfg_stmt :: "js_stmt \<Rightarrow> cfg_builder \<Rightarrow> ((idx \<times> cfg_outs) \<times> cfg_builder) res"
  and cfg_block_loop :: "js_stmt list \<Rightarrow> (idx \<times> cfg_outs) option \<Rightarrow> cfg_builder \<Rightarrow> ((idx \<times> cfg_outs) option \<times> cfg_builder) res" where
  "cfg_stmt (SBlock stmts) g =
     r_bind (cfg_block_loop stmts None g) (\<lambda>(cur, g).
     Ok (case cur of Some c \<Rightarrow> c | None \<Rightarrow> (cb_previous g, []), g))"
| "cfg_stmt (SIf e cons alt) g =
     (case add_stmt_node (SIf e cons alt) g of (root, g) \<Rightarrow>
        r_bind (cfg_stmt cons g) (\<lambda>((cons_root, cons_out), g).
        let g = cfg_add_edge root cons_root EdgeTrue g in
        case alt of
          Some alt \<Rightarrow>
            r_bind (cfg_stmt alt g) (\<lambda>((alt_root, alt_out), g).
            if cb_previous g \<noteq> cb_end g
            then Ok ((root, cons_out @ alt_out), cfg_add_edge root alt_root EdgeFalse g)
            else Ok ((root, cons_out), g))
        | None \<Rightarrow> Ok ((root, cons_out @ [(root, EdgeFalse)]), g)))"
| "cfg_stmt (SReturn arg) g =
     (case add_stmt_node (SReturn arg) g of (idx, g) \<Rightarrow> Ok ((idx, []), cfg_add_edge idx (cb_end g) EdgeFlow g))"
| "cfg_stmt (SExpr e) g = (case add_stmt_node (SExpr e) g of (idx, g) \<Rightarrow> Ok ((idx, [(idx, EdgeFlow)]), g))"
| "cfg_stmt (SDecl v) g = (case add_stmt_node (SDecl v) g of (idx, g) \<Rightarrow> Ok ((idx, [(idx, EdgeFlow)]), g))"
| "cfg_stmt SEmpty g = (case add_stmt_node SEmpty g of (idx, g) \<Rightarrow> Ok ((idx, [(idx, EdgeFlow)]), g))"
| "cfg_stmt SOther g = Err (Bail ''unsupported statement type'' [])"
| "cfg_block_loop [] cur g = Ok (cur, g)"
| "cfg_block_loop (s # ss) cur g =
     r_bind (cfg_stmt s g) (\<lambda>((idx, outs), g).
     case cur of
       None \<Rightarrow> cfg_block_loop ss (Some (idx, outs)) g
     | Some (root, prev_out) \<Rightarrow> cfg_block_loop ss (Some (root, outs)) (merge_out prev_out idx g))"

definition cfg_block :: "js_stmt list \<Rightarrow> cfg_builder \<Rightarrow> ((idx \<times> cfg_outs) \<times> cfg_builder) res" where
  "cfg_block stmts g =
     r_bind (cfg_block_loop stmts None g) (\<lambda>(cur, g).
     Ok (case cur of Some c \<Rightarrow> c | None \<Rightarrow> (cb_previous g, []), g))"

record control_flow =
  cf_nodes :: "cfg_node list"
  cf_edges :: cfg_edges
  cf_start :: idx
  cf_end :: idx

definition ControlFlow_build :: "js_stmt list \<Rightarrow> (control_flow \<times> stmt_map) res" where
  "ControlFlow_build stmts =
     (let builder = \<lparr>cb_nodes = [NStart, NEnd], cb_edges = [], cb_previous = 0, cb_map = Map.empty, cb_end = 1\<rparr> in
      r_bind (cfg_block stmts builder) (\<lambda>((root, outs), g).
      let g = merge_out outs 1 (cfg_add_edge 0 root EdgeFlow g)
      in Ok (\<lparr>cf_nodes = cb_nodes g, cf_edges = cb_edges g, cf_start = 0, cf_end = 1\<rparr>, cb_map g)))"

subsection \<open>Regions\<close>

datatype stmt_kind = Conditional | LoopKind | BBComponent | Ignore

record region_builder =
  rg_cfg :: control_flow
  rg_visitor :: "idx \<Rightarrow> stmt_kind res"
  rg_strict_dominators :: "idx \<Rightarrow> idx set option"

text \<open>\<open>Graph::neighbors\<close>, \<open>edges\<close> and \<open>neighbors_directed\<close>: the edge added last comes first.\<close>

definition edges_from :: "control_flow \<Rightarrow> idx \<Rightarrow> (idx \<times> cfg_edge) list" where
  "edges_from g i = map snd (filter (\<lambda>(a, _). a = i) (rev (cf_edges g)))"

definition neighbors :: "control_flow \<Rightarrow> idx \<Rightarrow> idx list" where
  "neighbors g i = map fst (edges_from g i)"

definition incoming :: "control_flow \<Rightarrow> idx \<Rightarrow> idx list" where
  "incoming g i = map fst (filter (\<lambda>(_, b, _). b = i) (rev (cf_edges g)))"

definition next_neighbor :: "control_flow \<Rightarrow> idx \<Rightarrow> idx res" where
  "next_neighbor g i = unwrap ''called Option::unwrap() on a None value'' (case neighbors g i of j # _ \<Rightarrow> Some j | [] \<Rightarrow> None)"

definition is_leader :: "control_flow \<Rightarrow> idx \<Rightarrow> bool" where
  "is_leader g i \<longleftrightarrow>
     (incoming g i \<noteq> [] \<and> hd (incoming g i) = cf_start g) \<or> i = cf_end g \<or>
     1 < length (incoming g i) \<or> 1 < length (neighbors g i)"

definition get_cond_targets :: "control_flow \<Rightarrow> idx \<Rightarrow> (idx \<times> idx) res" where
  "get_cond_targets g i =
     (case edges_from g i of
        [(a, EdgeTrue), (b, EdgeFalse)] \<Rightarrow> Ok (a, b)
      | [(a, EdgeFalse), (b, EdgeTrue)] \<Rightarrow> Ok (b, a)
      | [_, _] \<Rightarrow> Panic ''invalid if node branches''
      | _ \<Rightarrow> Panic ''invalid conditional node'')"

text \<open>The loop of \<open>make_basic_block\<close>.\<close>

fun basic_block_loop :: "control_flow \<Rightarrow> nat \<Rightarrow> idx \<Rightarrow> idx list \<Rightarrow> (idx list \<times> idx) res" where
  "basic_block_loop g 0 cur out = Panic ''stack overflow''"
| "basic_block_loop g (Suc n) cur out =
     (if is_leader g cur then Ok (out, cur)
      else r_bind (next_neighbor g cur) (\<lambda>nxt. basic_block_loop g n nxt (out @ [cur])))"

definition make_basic_block :: "control_flow \<Rightarrow> nat \<Rightarrow> idx \<Rightarrow> (region option \<times> idx) res" where
  "make_basic_block g n root =
     (if root = cf_end g then Ok (None, root)
      else
        r_bind (next_neighbor g root) (\<lambda>cur.
        r_bind (basic_block_loop g n cur [root]) (\<lambda>(out, cur).
        Ok (Some (BasicBlock out), cur))))"

definition reduce_seq :: "region list \<Rightarrow> region option" where
  "reduce_seq rs = (case rs of [] \<Rightarrow> None | r # rs \<Rightarrow> Some (foldl Seq r rs))"

definition or_empty :: "region option \<Rightarrow> region" where
  "or_empty r = (case r of Some r \<Rightarrow> r | None \<Rightarrow> BasicBlock [])"

fun make_seq_region :: "region_builder \<Rightarrow> nat \<Rightarrow> idx \<Rightarrow> (region option \<times> idx) res"
  and seq_region_loop :: "region_builder \<Rightarrow> nat \<Rightarrow> idx \<Rightarrow> idx \<Rightarrow> region list \<Rightarrow> (region list \<times> idx) res"
  and make_region :: "region_builder \<Rightarrow> nat \<Rightarrow> idx \<Rightarrow> (region option \<times> idx) res"
  and make_cond_region :: "region_builder \<Rightarrow> nat \<Rightarrow> idx \<Rightarrow> (region option \<times> idx) res" where
  "make_seq_region b 0 root = Panic ''stack overflow''"
| "make_seq_region b (Suc n) root =
     r_bind (seq_region_loop b n root root []) (\<lambda>(regions, cur). Ok (reduce_seq regions, cur))"
| "seq_region_loop b 0 root cur regions = Panic ''stack overflow''"
| "seq_region_loop b (Suc n) root cur regions =
     r_bind (make_region b n cur) (\<lambda>(r, nxt).
     case r of
       None \<Rightarrow> Ok (regions, cur)
     | Some region \<Rightarrow>
         r_bind (unwrap ''called Option::unwrap() on a None value'' (rg_strict_dominators b nxt)) (\<lambda>ds.
         if root \<in> ds then seq_region_loop b n root nxt (regions @ [region]) else Ok (regions @ [region], nxt)))"
| "make_region b 0 root = Panic ''stack overflow''"
| "make_region b (Suc n) root =
     (if root = cf_end (rg_cfg b) then Ok (None, root)
      else if root < length (cf_nodes (rg_cfg b)) \<and> cf_nodes (rg_cfg b) ! root = NStmt
      then
        r_bind (rg_visitor b root) (\<lambda>kind.
        case kind of
          BBComponent \<Rightarrow> make_basic_block (rg_cfg b) n root
        | Conditional \<Rightarrow> make_cond_region b n root
        | _ \<Rightarrow> Panic ''unsupported statement'')
      else Panic ''There should not be an end of the cfg reaching here.'')"
| "make_cond_region b 0 idx = Panic ''stack overflow''"
| "make_cond_region b (Suc n) idx =
     r_bind (get_cond_targets (rg_cfg b) idx) (\<lambda>(cons_idx, alt_idx).
     r_bind (make_seq_region b n cons_idx) (\<lambda>(cons_region, cons_end).
     r_bind (make_seq_region b n alt_idx) (\<lambda>(alt_region, alt_end).
     if cons_end \<noteq> alt_end then Panic ''the two branching region should flow into the same node.''
     else Ok (Some (CondRegion (BasicBlock [idx]) (or_empty cons_region) (or_empty alt_region)), cons_end))))"

definition Region_from_cfg :: "region_builder \<Rightarrow> nat \<Rightarrow> region res" where
  "Region_from_cfg b n =
     r_bind (next_neighbor (rg_cfg b) (cf_start (rg_cfg b))) (\<lambda>root.
     r_bind (make_seq_region b n root) (\<lambda>(maybe_region, fin).
     if fin \<noteq> cf_end (rg_cfg b) then Panic ''we should have reached the end of the CFG''
     else Ok (or_empty maybe_region)))"

definition stmt_kind_of :: "stmt_map \<Rightarrow> idx \<Rightarrow> stmt_kind res" where
  "stmt_kind_of sm i =
     r_bind (stmt_at sm i) (\<lambda>s.
     case s of
       SIf _ _ _ \<Rightarrow> Ok Conditional
     | SBlock _ \<Rightarrow> Ok Ignore
     | SEmpty \<Rightarrow> Ok Ignore
     | SDecl True \<Rightarrow> Ok BBComponent
     | SExpr _ \<Rightarrow> Ok BBComponent
     | SReturn _ \<Rightarrow> Ok BBComponent
     | _ \<Rightarrow> Panic ''not implemented'')"

text \<open>\<open>ArrowFunction::parse\<close> on a function with a block as its body; \<open>dominators\<close> is \<open>simple_fast\<close>.\<close>

definition ArrowFunction_parse :: "(control_flow \<Rightarrow> idx \<Rightarrow> idx set option) \<Rightarrow> nat \<Rightarrow> js_stmt list \<Rightarrow> (stmt_map \<times> region) res" where
  "ArrowFunction_parse dominators n stmts =
     r_bind (ControlFlow_build stmts) (\<lambda>(cfg, sm).
     r_bind (Region_from_cfg \<lparr>rg_cfg = cfg, rg_visitor = stmt_kind_of sm, rg_strict_dominators = dominators cfg\<rparr> n) (\<lambda>regions.
     Ok (sm, regions)))"

subsection \<open>Running a function and walking its graph\<close>

text \<open>
  Running statements gives the statements that are executed, in order, and whether a \<open>return\<close> was
  among them; a condition is the statement it belongs to.  \<open>test\<close> gives the truth values of the
  conditions.
\<close>

fun exec_stmt :: "(js_expr \<Rightarrow> bool) \<Rightarrow> js_stmt \<Rightarrow> js_stmt list \<times> bool"
  and exec_block :: "(js_expr \<Rightarrow> bool) \<Rightarrow> js_stmt list \<Rightarrow> js_stmt list \<times> bool" where
  "exec_stmt test (SBlock ss) = exec_block test ss"
| "exec_stmt test (SIf e c a) =
     (case (if test e then exec_stmt test c else case a of Some s \<Rightarrow> exec_stmt test s | None \<Rightarrow> ([], False)) of
        (tr, ret) \<Rightarrow> (SIf e c a # tr, ret))"
| "exec_stmt test (SReturn arg) = ([SReturn arg], True)"
| "exec_stmt test (SExpr e) = ([SExpr e], False)"
| "exec_stmt test (SDecl v) = ([SDecl v], False)"
| "exec_stmt test SEmpty = ([SEmpty], False)"
| "exec_stmt test SOther = ([SOther], False)"
| "exec_block test [] = ([], False)"
| "exec_block test (s # ss) =
     (case exec_stmt test s of (tr, ret) \<Rightarrow>
        if ret then (tr, True) else (case exec_block test ss of (tr', ret') \<Rightarrow> (tr @ tr', ret')))"

definition taken :: "(js_expr \<Rightarrow> bool) \<Rightarrow> js_stmt \<Rightarrow> cfg_edge" where
  "taken test s = (case s of SIf e _ _ \<Rightarrow> if test e then EdgeTrue else EdgeFalse | _ \<Rightarrow> EdgeFlow)"

inductive walk :: "cfg_edges \<Rightarrow> stmt_map \<Rightarrow> (js_expr \<Rightarrow> bool) \<Rightarrow> idx \<Rightarrow> js_stmt list \<Rightarrow> idx \<Rightarrow> bool" for es sm test where
  walk_refl [intro!]: "walk es sm test i [] i"
| walk_step: "sm i = Some s \<Longrightarrow> (i, j, taken test s) \<in> set es \<Longrightarrow> walk es sm test j tr k \<Longrightarrow> walk es sm test i (s # tr) k"

inductive_simps walk_Nil: "walk es sm test i [] k"
inductive_simps walk_Cons: "walk es sm test i (s # tr) k"

lemma walk_trans: "walk es sm test i tr j \<Longrightarrow> walk es sm test j tr' k \<Longrightarrow> walk es sm test i (tr @ tr') k"
  by (induction rule: walk.induct) (auto intro: walk_step)

subsection \<open>The graph of a program\<close>

fun no_empty_block :: "js_stmt \<Rightarrow> bool" where
  "no_empty_block (SBlock ss) = (ss \<noteq> [] \<and> (\<forall>s \<in> set ss. no_empty_block s))"
| "no_empty_block (SIf e c a) = (no_empty_block c \<and> (case a of Some s \<Rightarrow> no_empty_block s | None \<Rightarrow> True))"
| "no_empty_block _ = True"

definition builder_wf :: "cfg_builder \<Rightarrow> bool" where
  "builder_wf g \<longleftrightarrow> cb_end g = 1 \<and> cb_previous g \<noteq> 1 \<and> 2 \<le> length (cb_nodes g) \<and> dom (cb_map g) = {2..<length (cb_nodes g)} \<and>
     (\<forall>i < length (cb_nodes g). 2 \<le> i \<longrightarrow> cb_nodes g ! i = NStmt) \<and>
     (\<forall>(i, j, l) \<in> set (cb_edges g). 1 \<le> j \<and> j < length (cb_nodes g))"

definition extends :: "cfg_builder \<Rightarrow> cfg_builder \<Rightarrow> bool" where
  "extends g g' \<longleftrightarrow> (\<exists>es. cb_edges g' = cb_edges g @ es) \<and> length (cb_nodes g) \<le> length (cb_nodes g') \<and> cb_map g \<subseteq>\<^sub>m cb_map g'"

definition edge_key :: "idx \<times> idx \<times> cfg_edge \<Rightarrow> idx \<times> cfg_edge" where
  "edge_key = (\<lambda>(i, _, l). (i, l))"

definition node_keys :: "stmt_map \<Rightarrow> idx \<Rightarrow> cfg_outs" where
  "node_keys sm i = (case sm i of Some (SIf _ _ _) \<Rightarrow> [(i, EdgeTrue), (i, EdgeFalse)] | _ \<Rightarrow> [(i, EdgeFlow)])"

definition new_keys :: "cfg_builder \<Rightarrow> cfg_builder \<Rightarrow> cfg_outs" where
  "new_keys g g' = concat (map (node_keys (cb_map g')) [length (cb_nodes g)..<length (cb_nodes g')])"

text \<open>Every outgoing edge that the new nodes need is in the graph or among the open ends.\<close>

definition balanced :: "cfg_builder \<Rightarrow> cfg_outs \<Rightarrow> cfg_builder \<Rightarrow> cfg_outs \<Rightarrow> bool" where
  "balanced g outs g' outs' \<longleftrightarrow>
     mset (map edge_key (cb_edges g')) + mset outs' = mset (map edge_key (cb_edges g)) + mset outs + mset (new_keys g g')"

text \<open>From \<open>root\<close>, the graph runs the given statements to the end, or to whatever the open ends are joined to.\<close>

definition delivers :: "cfg_edges \<Rightarrow> stmt_map \<Rightarrow> (js_expr \<Rightarrow> bool) \<Rightarrow> idx \<Rightarrow> cfg_outs \<Rightarrow> js_stmt list \<times> bool \<Rightarrow> bool" where
  "delivers es sm test root outs = (\<lambda>(tr, ret).
     if ret then walk es sm test root tr 1
     else \<forall>k. (\<forall>(i, l) \<in> set outs. (i, k, l) \<in> set es) \<longrightarrow> walk es sm test root tr k)"

definition runs :: "cfg_builder \<Rightarrow> idx \<Rightarrow> cfg_outs \<Rightarrow> ((js_expr \<Rightarrow> bool) \<Rightarrow> js_stmt list \<times> bool) \<Rightarrow> bool" where
  "runs g root outs run \<longleftrightarrow>
     (\<forall>es sm test. set (cb_edges g) \<subseteq> set es \<longrightarrow> cb_map g \<subseteq>\<^sub>m sm \<longrightarrow> delivers es sm test root outs (run test))"

text \<open>Edges lead to the end or to a later node, those of a \<open>return\<close> to the end; open ends belong to other statements.\<close>

definition is_return :: "cfg_builder \<Rightarrow> idx \<Rightarrow> bool" where
  "is_return g i \<longleftrightarrow> (case cb_map g i of Some (SReturn _) \<Rightarrow> True | _ \<Rightarrow> False)"

definition flow_ok :: "cfg_builder \<Rightarrow> bool" where
  "flow_ok g \<longleftrightarrow> (\<forall>(i, j, l) \<in> set (cb_edges g). i < length (cb_nodes g) \<and> (j = 1 \<or> i < j \<and> \<not> is_return g i))"

definition open_ok :: "cfg_builder \<Rightarrow> cfg_outs \<Rightarrow> bool" where
  "open_ok g outs \<longleftrightarrow> (\<forall>(i, l) \<in> set outs. i < length (cb_nodes g) \<and> \<not> is_return g i)"

definition stmt_flow :: "cfg_builder \<Rightarrow> idx \<Rightarrow> cfg_outs \<Rightarrow> cfg_builder \<Rightarrow> bool" where
  "stmt_flow g root outs g' \<longleftrightarrow> (flow_ok g \<longrightarrow> flow_ok g') \<and> length (cb_nodes g) \<le> root \<and> open_ok g' outs"

definition stmt_built :: "cfg_builder \<Rightarrow> idx \<Rightarrow> cfg_outs \<Rightarrow> cfg_builder \<Rightarrow> ((js_expr \<Rightarrow> bool) \<Rightarrow> js_stmt list \<times> bool) \<Rightarrow> bool" where
  "stmt_built g root outs g' run \<longleftrightarrow> builder_wf g' \<and> extends g g' \<and> root \<in> {2..<length (cb_nodes g')} \<and>
     balanced g [] g' outs \<and> runs g' root outs run \<and> stmt_flow g root outs g'"

lemma extends_refl [simp]: "extends g g"
  by (simp add: extends_def)

lemma extends_trans: "extends g g' \<Longrightarrow> extends g' g'' \<Longrightarrow> extends g g''"
  unfolding extends_def by (auto intro: map_le_trans)

lemma node_keys_le: "sm \<subseteq>\<^sub>m sm' \<Longrightarrow> i \<in> dom sm \<Longrightarrow> node_keys sm' i = node_keys sm i"
  by (auto simp: node_keys_def map_le_def)

lemma new_keys_trans:
  assumes "extends g g'" "extends g' g''" "builder_wf g" "builder_wf g'"
  shows "new_keys g g'' = new_keys g g' @ new_keys g' g''"
proof -
  let ?n = "length (cb_nodes g)" and ?n' = "length (cb_nodes g')" and ?n'' = "length (cb_nodes g'')"
  have le: "?n \<le> ?n'" "?n' \<le> ?n''" "cb_map g' \<subseteq>\<^sub>m cb_map g''" using assms by (auto simp: extends_def)
  have "node_keys (cb_map g'') i = node_keys (cb_map g') i" if "i \<in> set [?n..<?n']" for i
    using that assms(3,4) le(3) by (intro node_keys_le) (auto simp: builder_wf_def)
  then have eq: "map (node_keys (cb_map g'')) [?n..<?n'] = map (node_keys (cb_map g')) [?n..<?n']"
    by (intro map_cong) auto
  have "[?n..<?n''] = [?n..<?n'] @ [?n'..<?n'']" using le upt_add_eq_append [of ?n ?n' "?n'' - ?n'"] by simp
  then show ?thesis unfolding new_keys_def by (simp only: map_append concat_append eq)
qed

lemma balanced_trans:
  assumes "balanced g outs g' outs'" "balanced g' outs' g'' outs''" "extends g g'" "extends g' g''" "builder_wf g" "builder_wf g'"
  shows "balanced g outs g'' outs''"
  using assms(1,2) unfolding balanced_def new_keys_trans [OF assms(3-6)] by (simp add: ac_simps)


lemma extends_edges: "extends g g' \<Longrightarrow> set (cb_edges g) \<subseteq> set (cb_edges g')"
  unfolding extends_def by auto

lemma cfg_add_edge_sel [simp]:
  "cb_edges (cfg_add_edge a b l g) = cb_edges g @ [(a, b, l)]" "cb_nodes (cfg_add_edge a b l g) = cb_nodes g"
  "cb_map (cfg_add_edge a b l g) = cb_map g" "cb_previous (cfg_add_edge a b l g) = cb_previous g"
  "cb_end (cfg_add_edge a b l g) = cb_end g"
  by (simp_all add: cfg_add_edge_def)

lemma merge_out_sel [simp]:
  "cb_edges (merge_out outs k g) = cb_edges g @ map (\<lambda>(i, l). (i, k, l)) outs" "cb_nodes (merge_out outs k g) = cb_nodes g"
  "cb_map (merge_out outs k g) = cb_map g" "cb_previous (merge_out outs k g) = cb_previous g"
  "cb_end (merge_out outs k g) = cb_end g"
  unfolding merge_out_def by (induction outs arbitrary: g) auto

lemma builder_wf_add_edge: "builder_wf g \<Longrightarrow> b \<in> {1..<length (cb_nodes g)} \<Longrightarrow> builder_wf (cfg_add_edge a b l g)"
  unfolding builder_wf_def by simp

lemma builder_wf_merge_out: "builder_wf g \<Longrightarrow> b \<in> {1..<length (cb_nodes g)} \<Longrightarrow> builder_wf (merge_out outs b g)"
  unfolding builder_wf_def by auto

lemma extends_add_edge: "extends g g' \<Longrightarrow> extends g (cfg_add_edge a b l g')"
  unfolding extends_def by auto

lemma extends_merge_out: "extends g g' \<Longrightarrow> extends g (merge_out outs b g')"
  unfolding extends_def by auto

lemma add_stmt_node_eq:
  assumes "add_stmt_node s g = (i, g1)" "builder_wf g"
  shows "i = length (cb_nodes g)" "cb_edges g1 = cb_edges g" "cb_nodes g1 = cb_nodes g @ [NStmt]"
    "cb_map g1 = (cb_map g)(i \<mapsto> s)" "builder_wf g1" "extends g g1" "new_keys g g1 = node_keys [i \<mapsto> s] i"
    "2 \<le> i" "i < length (cb_nodes g1)" "cb_map g1 i = Some s"
proof -
  show eqs: "i = length (cb_nodes g)" "cb_edges g1 = cb_edges g" "cb_nodes g1 = cb_nodes g @ [NStmt]" "cb_map g1 = (cb_map g)(i \<mapsto> s)"
    using assms(1) by (auto simp: add_stmt_node_def Let_def)
  have prev: "cb_previous g1 = i" "cb_end g1 = cb_end g" using assms(1) by (auto simp: add_stmt_node_def Let_def)
  have dm: "i \<notin> dom (cb_map g)" using assms(2) eqs(1) by (simp add: builder_wf_def)
  show "builder_wf g1" using assms(2) unfolding builder_wf_def eqs prev
    by (auto simp: nth_append less_Suc_eq)
  show "extends g g1" using dm unfolding extends_def eqs(2-4) by (auto simp: map_le_def)
  show "new_keys g g1 = node_keys [i \<mapsto> s] i" unfolding new_keys_def eqs(3,4) by (simp add: eqs(1) node_keys_def)
  show "2 \<le> i" "i < length (cb_nodes g1)" "cb_map g1 i = Some s" using assms(2) eqs by (auto simp: builder_wf_def)
qed

lemma runs_mono: "runs g root outs run \<Longrightarrow> extends g g' \<Longrightarrow> runs g' root outs run"
  unfolding runs_def extends_def by (metis le_sup_iff map_le_trans set_append)

lemma delivers_step:
  assumes "sm i = Some s" "(i, j, taken test s) \<in> set es" "delivers es sm test j outs (tr, ret)" "set outs \<subseteq> set outs'"
  shows "delivers es sm test i outs' (s # tr, ret)"
proof -
  have step: "walk es sm test i (s # tr) k" if "walk es sm test j tr k" for k
    using assms(1,2) that by (rule walk_step)
  show ?thesis
  proof (cases ret)
    case False
    have "walk es sm test i (s # tr) k" if "\<forall>(i, l) \<in> set outs'. (i, k, l) \<in> set es" for k
    proof (rule step)
      have "\<forall>(i, l) \<in> set outs. (i, k, l) \<in> set es" using that assms(4) by blast
      with assms(3) False show "walk es sm test j tr k" by (simp add: delivers_def)
    qed
    with False show ?thesis by (simp add: delivers_def)
  qed (use assms(3) step in \<open>simp add: delivers_def\<close>)
qed

lemma is_return_edge [simp]: "is_return (cfg_add_edge a b l g) i = is_return g i"
  by (simp add: is_return_def)

lemma is_return_merge [simp]: "is_return (merge_out outs b g) i = is_return g i"
  by (simp add: is_return_def)

lemma flow_ok_edge: "flow_ok (cfg_add_edge a b l g) \<longleftrightarrow> flow_ok g \<and> a < length (cb_nodes g) \<and> (b = 1 \<or> a < b \<and> \<not> is_return g a)"
  by (auto simp: flow_ok_def is_return_def)

lemma flow_ok_merge: "flow_ok g \<Longrightarrow> open_ok g outs \<Longrightarrow> \<forall>(i, l) \<in> set outs. i < b \<Longrightarrow> flow_ok (merge_out outs b g)"
  unfolding flow_ok_def open_ok_def by (fastforce simp: is_return_def)

lemma open_ok_same: "cb_nodes g' = cb_nodes g \<Longrightarrow> cb_map g' = cb_map g \<Longrightarrow> open_ok g' outs = open_ok g outs"
  by (simp add: open_ok_def is_return_def)

lemma is_return_extends:
  assumes "builder_wf g" "builder_wf g'" "extends g g'" "i < length (cb_nodes g)"
  shows "is_return g' i = is_return g i"
proof (cases "i \<in> dom (cb_map g)")
  case True
  with assms(3) have "cb_map g' i = cb_map g i" by (auto simp: extends_def map_le_def)
  then show ?thesis by (simp add: is_return_def)
next
  case False
  with assms(1,4) have "i < 2" unfolding builder_wf_def by auto
  then have "i \<notin> dom (cb_map g')" using assms(2) unfolding builder_wf_def by auto
  with False have "cb_map g' i = None" "cb_map g i = None" by auto
  then show ?thesis by (simp add: is_return_def)
qed

lemma open_ok_extends:
  assumes "builder_wf g" "builder_wf g'" "extends g g'" "open_ok g outs"
  shows "open_ok g' outs" "\<forall>(i, l) \<in> set outs. i < length (cb_nodes g)"
proof -
  show "\<forall>(i, l) \<in> set outs. i < length (cb_nodes g)" using assms(4) by (auto simp: open_ok_def)
  then show "open_ok g' outs" using assms is_return_extends [OF assms(1-3)] unfolding open_ok_def extends_def by fastforce
qed

lemma flow_ok_node:
  assumes "builder_wf g" "builder_wf g1" "extends g g1" "cb_edges g1 = cb_edges g" "flow_ok g"
  shows "flow_ok g1"
  using assms(3-5) is_return_extends [OF assms(1-3)] unfolding flow_ok_def extends_def by fastforce

definition seq_run :: "('t \<Rightarrow> js_stmt list \<times> bool) \<Rightarrow> ('t \<Rightarrow> js_stmt list \<times> bool) \<Rightarrow> 't \<Rightarrow> js_stmt list \<times> bool" where
  "seq_run r r' = (\<lambda>test. case r test of (tr, ret) \<Rightarrow> if ret then (tr, True) else (case r' test of (tr', ret') \<Rightarrow> (tr @ tr', ret')))"

lemma seq_run_assoc: "seq_run (seq_run a b) c = seq_run a (seq_run b c)"
  by (auto simp: seq_run_def fun_eq_iff split: prod.splits)

lemma exec_block_Cons: "(\<lambda>test. exec_block test (s # ss)) = seq_run (\<lambda>test. exec_stmt test s) (\<lambda>test. exec_block test ss)"
  by (simp add: seq_run_def)

lemma seq_run_Nil: "seq_run r (\<lambda>test. exec_block test []) = r"
  by (auto simp: seq_run_def fun_eq_iff split: prod.splits)

lemma multiset_chain: "(c :: 'a multiset) + k = n + e \<Longrightarrow> a + b = m + k \<Longrightarrow> a + (c + b) = m + (n + e)"
  by (metis (no_types, opaque_lifting) add.assoc add.commute)

lemma seq_built:
  assumes wf0: "builder_wf g0" and a: "stmt_built g0 root outs0 g run0" and b: "stmt_built g idx outs g1 run1"
  shows "stmt_built g0 root outs (merge_out outs0 idx g1) (seq_run run0 run1)"
proof -
  let ?g = "merge_out outs0 idx g1"
  note A = a [unfolded stmt_built_def] and B = b [unfolded stmt_built_def]
  have ext: "extends g ?g" "extends g0 ?g" using A B by (auto intro: extends_merge_out extends_trans)
  have wf: "builder_wf ?g" using B by (auto intro: builder_wf_merge_out)
  have keys: "new_keys g0 ?g = new_keys g0 g @ new_keys g g1"
    using new_keys_trans [of g0 g g1] A B wf0 by (simp add: new_keys_def)
  have "map edge_key (map (\<lambda>(i, l). (i, idx, l)) outs0) = outs0"
    by (induction outs0) (auto simp: edge_key_def)
  then have bal: "balanced g0 [] ?g outs"
    using A B unfolding balanced_def keys by (auto simp: ac_simps intro: multiset_chain)
  have "runs ?g root outs (seq_run run0 run1)"
    unfolding runs_def
  proof (intro allI impI)
    fix es sm test assume sub: "set (cb_edges ?g) \<subseteq> set es" "cb_map ?g \<subseteq>\<^sub>m sm"
    obtain tr ret tr' ret' where r: "run0 test = (tr, ret)" "run1 test = (tr', ret')" by fastforce
    have "runs ?g root outs0 run0" "runs ?g idx outs run1"
      using A B ext(1) extends_merge_out [OF extends_refl] by (auto intro: runs_mono)
    with sub have d0: "delivers es sm test root outs0 (tr, ret)" and d1: "delivers es sm test idx outs (tr', ret')"
      unfolding runs_def by (metis r(1), metis r(2))
    have "\<forall>(i, l) \<in> set outs0. (i, idx, l) \<in> set es" using sub(1) by auto
    with d0 have "\<not> ret \<Longrightarrow> walk es sm test root tr idx" unfolding delivers_def by simp
    then show "delivers es sm test root outs (seq_run run0 run1 test)"
      using d0 d1 unfolding seq_run_def r delivers_def by (auto intro: walk_trans split: if_splits)
  qed
  moreover have "stmt_flow g0 root outs ?g"
  proof -
    have "open_ok g outs0" "builder_wf g" "builder_wf g1" "extends g g1" using A B by (auto simp: stmt_flow_def)
    with open_ok_extends have outs0: "open_ok g1 outs0" "\<forall>(i, l) \<in> set outs0. i < length (cb_nodes g)" by blast+
    moreover have "length (cb_nodes g) \<le> idx" using B by (simp add: stmt_flow_def)
    ultimately have "flow_ok g1 \<Longrightarrow> flow_ok ?g" by (intro flow_ok_merge) auto
    then show ?thesis using A B unfolding stmt_flow_def by (auto simp: open_ok_same [of ?g g1])
  qed
  ultimately show ?thesis using wf ext bal A B unfolding stmt_built_def extends_def by auto
qed

definition stmt_ok :: "js_stmt \<Rightarrow> bool" where
  "stmt_ok s \<longleftrightarrow> (\<forall>g root outs g'. builder_wf g \<longrightarrow> cfg_stmt s g = Ok ((root, outs), g') \<longrightarrow>
     stmt_built g root outs g' (\<lambda>test. exec_stmt test s))"

lemma block_loop_built:
  assumes "builder_wf g0" "\<forall>s \<in> set ss. stmt_ok s" "stmt_built g0 root outs0 g run0" "cfg_block_loop ss (Some (root, outs0)) g = Ok (cur, g')"
  shows "\<exists>outs. cur = Some (root, outs) \<and> stmt_built g0 root outs g' (seq_run run0 (\<lambda>test. exec_block test ss))"
  using assms(2-)
proof (induction ss arbitrary: outs0 g run0)
  case Nil
  then show ?case by (auto simp: seq_run_Nil simp del: exec_block.simps)
next
  case (Cons s ss)
  then obtain idx outs g1 where s: "cfg_stmt s g = Ok ((idx, outs), g1)"
    and rest: "cfg_block_loop ss (Some (root, outs)) (merge_out outs0 idx g1) = Ok (cur, g')"
    by (auto simp: r_bind_Ok_iff)
  have "stmt_built g idx outs g1 (\<lambda>test. exec_stmt test s)"
    using Cons.prems(1,2) s by (auto simp: stmt_ok_def stmt_built_def)
  from seq_built [OF assms(1) Cons.prems(2) this] show ?case
    using Cons.IH [OF _ _ rest] Cons.prems(1) unfolding exec_block_Cons seq_run_assoc [symmetric] by simp
qed

lemma block_built:
  assumes "builder_wf g" "ss \<noteq> []" "\<forall>s \<in> set ss. stmt_ok s" "cfg_block_loop ss None g = Ok (cur, g')"
  obtains root outs where "cur = Some (root, outs)" "stmt_built g root outs g' (\<lambda>test. exec_block test ss)"
proof -
  from assms(2) obtain s ss' where ss: "ss = s # ss'" by (cases ss) auto
  from assms(4) obtain idx outs g1 where s: "cfg_stmt s g = Ok ((idx, outs), g1)" and rest: "cfg_block_loop ss' (Some (idx, outs)) g1 = Ok (cur, g')"
    unfolding ss by (auto simp: r_bind_Ok_iff)
  have "stmt_built g idx outs g1 (\<lambda>test. exec_stmt test s)" using assms(1,3) s by (simp add: ss stmt_ok_def)
  from block_loop_built [OF assms(1) _ this rest] assms(3) that show thesis
    unfolding ss exec_block_Cons by auto
qed


lemma leaf_built:
  assumes "builder_wf g" "add_stmt_node s g = (i, g1)" "\<nexists>e c a. s = SIf e c a"
  shows "\<nexists>a. s = SReturn a \<Longrightarrow> stmt_built g i [(i, EdgeFlow)] g1 (\<lambda>test. ([s], False))"
    and "stmt_built g i [] (cfg_add_edge i 1 EdgeFlow g1) (\<lambda>test. ([s], True))"
proof -
  note N = add_stmt_node_eq [OF assms(2,1)]
  have taken: "taken test s = EdgeFlow" for test using assms(3) by (auto simp: taken_def split: js_stmt.splits)
  have keys: "new_keys g g1 = [(i, EdgeFlow)]" "new_keys g (cfg_add_edge i 1 EdgeFlow g1) = [(i, EdgeFlow)]"
    using N(7) assms(3) by (auto simp: node_keys_def new_keys_def split: js_stmt.splits)
  have at: "sm i = Some s" if "cb_map g1 \<subseteq>\<^sub>m sm" for sm using that N(10) unfolding map_le_def by (metis domI)
  have step: "walk es sm test i [s] k" if "cb_map g1 \<subseteq>\<^sub>m sm" "(i, k, EdgeFlow) \<in> set es" for es sm test k
    using at [OF that(1)] that(2) taken by (auto intro: walk_step)
  note flow = flow_ok_node [OF assms(1) N(5,6,2)]
  have ret: "is_return g1 i \<longleftrightarrow> (\<exists>a. s = SReturn a)" using N(10) by (auto simp: is_return_def split: js_stmt.splits)
  have "\<nexists>a. s = SReturn a \<Longrightarrow> stmt_flow g i [(i, EdgeFlow)] g1" using flow N(1,9) ret by (simp add: stmt_flow_def open_ok_def)
  then show "\<nexists>a. s = SReturn a \<Longrightarrow> stmt_built g i [(i, EdgeFlow)] g1 (\<lambda>test. ([s], False))"
    using N(1-6,8-10) step unfolding stmt_built_def balanced_def runs_def delivers_def keys by auto
  have "builder_wf (cfg_add_edge i 1 EdgeFlow g1)" using N by (intro builder_wf_add_edge) auto
  moreover have "stmt_flow g i [] (cfg_add_edge i 1 EdgeFlow g1)" using flow N(1,9) by (simp add: stmt_flow_def open_ok_def flow_ok_edge)
  ultimately show "stmt_built g i [] (cfg_add_edge i 1 EdgeFlow g1) (\<lambda>test. ([s], True))"
    using N(1-6,8-10) step extends_add_edge unfolding stmt_built_def balanced_def runs_def delivers_def keys by (auto simp: edge_key_def)
qed


lemma if_built:
  assumes wf: "builder_wf g" and N: "add_stmt_node (SIf e c a) g = (root, g1)"
    and C: "stmt_built g1 c_root c_outs g2 (\<lambda>test. exec_stmt test c)"
  shows "a = None \<Longrightarrow> stmt_built g root (c_outs @ [(root, EdgeFalse)]) (cfg_add_edge root c_root EdgeTrue g2) (\<lambda>test. exec_stmt test (SIf e c a))"
    and "a = Some s \<Longrightarrow> stmt_built (cfg_add_edge root c_root EdgeTrue g2) a_root a_outs g4 (\<lambda>test. exec_stmt test s) \<Longrightarrow>
      stmt_built g root (c_outs @ a_outs) (cfg_add_edge root a_root EdgeFalse g4) (\<lambda>test. exec_stmt test (SIf e c a))"
proof -
  note N = add_stmt_node_eq [OF N wf] and C = C [unfolded stmt_built_def]
  let ?g3 = "cfg_add_edge root c_root EdgeTrue g2"
  have g3: "builder_wf ?g3" "extends g ?g3" "root < length (cb_nodes ?g3)" "extends g1 ?g3" "extends g2 ?g3"
    using N C by (auto intro: builder_wf_add_edge intro!: extends_add_edge elim: extends_trans simp: extends_def [of g1])
  have keys3: "new_keys g ?g3 = [(root, EdgeTrue), (root, EdgeFalse)] @ new_keys g1 g2"
    using new_keys_trans [of g g1 g2] N C wf by (simp add: new_keys_def node_keys_def)
  have at: "sm root = Some (SIf e c a)" if "cb_map ?g3 \<subseteq>\<^sub>m sm" for sm
    using that N(10) g3(4) unfolding extends_def map_le_def by (metis domI)
  have cons: "delivers es sm test c_root c_outs (exec_stmt test c)" if "set (cb_edges ?g3) \<subseteq> set es" "cb_map ?g3 \<subseteq>\<^sub>m sm" for es sm test
    using C that unfolding runs_def by simp
  have true: "delivers es sm test root outs (exec_stmt test (SIf e c a))"
    if "set (cb_edges ?g3) \<subseteq> set es" "cb_map ?g3 \<subseteq>\<^sub>m sm" "test e" "set c_outs \<subseteq> set outs" for es sm test outs
    using delivers_step [of sm root "SIf e c a" c_root test es c_outs _ _ outs] at [OF that(2)] cons [OF that(1,2), of test] that
    by (auto simp: taken_def split: prod.splits)
  have root: "cb_map g2 root = Some (SIf e c a)" using at [OF map_le_refl] by simp
  then have nr: "\<not> is_return g2 root" "\<not> is_return ?g3 root" by (simp_all add: is_return_def)
  then have flow3: "flow_ok g \<Longrightarrow> flow_ok ?g3" using C flow_ok_node [OF wf N(5,6,2)] g3(3) N(1,3)
    unfolding stmt_flow_def by (auto simp: flow_ok_edge)
  show "stmt_built g root (c_outs @ [(root, EdgeFalse)]) ?g3 (\<lambda>test. exec_stmt test (SIf e c a))" if none: "a = None"
  proof -
    have "balanced g [] ?g3 (c_outs @ [(root, EdgeFalse)])"
      using C N(2) unfolding balanced_def keys3 by (simp add: edge_key_def)
    moreover have "runs ?g3 root (c_outs @ [(root, EdgeFalse)]) (\<lambda>test. exec_stmt test (SIf e c a))"
      unfolding runs_def
    proof (intro allI impI)
      fix es sm test assume sub: "set (cb_edges ?g3) \<subseteq> set es" "cb_map ?g3 \<subseteq>\<^sub>m sm"
      show "delivers es sm test root (c_outs @ [(root, EdgeFalse)]) (exec_stmt test (SIf e c a))"
      proof (cases "test e")
        case False
        then show ?thesis using at [OF sub(2)] none by (auto simp: delivers_def taken_def intro: walk_step)
      qed (rule true [OF sub], auto)
    qed
    moreover have "stmt_flow g root (c_outs @ [(root, EdgeFalse)]) ?g3"
      using C flow3 N(1) g3(3) nr unfolding stmt_flow_def by (auto simp: open_ok_def)
    ultimately show ?thesis using g3 N unfolding stmt_built_def by auto
  qed
  show "stmt_built g root (c_outs @ a_outs) (cfg_add_edge root a_root EdgeFalse g4) (\<lambda>test. exec_stmt test (SIf e c a))"
    if some: "a = Some s" and A: "stmt_built ?g3 a_root a_outs g4 (\<lambda>test. exec_stmt test s)"
  proof -
    let ?g5 = "cfg_add_edge root a_root EdgeFalse g4"
    note A = A [unfolded stmt_built_def]
    have g5: "builder_wf ?g5" "extends g ?g5" "extends ?g3 ?g5" "extends g4 ?g5"
      using A g3(2) by (auto intro: builder_wf_add_edge extends_add_edge extends_trans)
    have "new_keys g ?g5 = new_keys g ?g3 @ new_keys ?g3 g4"
      using new_keys_trans [of g ?g3 g4] A g3 wf by (simp add: new_keys_def)
    moreover have "mset c_outs + mset (map edge_key (cb_edges g2)) = mset (new_keys g1 g2) + mset (map edge_key (cb_edges g))"
      "mset a_outs + mset (map edge_key (cb_edges g4)) = add_mset (root, EdgeTrue) (mset (new_keys ?g3 g4)) + mset (map edge_key (cb_edges g2))"
      using A C N(2) unfolding balanced_def by (auto simp: edge_key_def ac_simps)
    from multiset_chain [OF this] have "mset a_outs + (mset c_outs + mset (map edge_key (cb_edges g4))) =
        add_mset (root, EdgeTrue) (mset (new_keys ?g3 g4)) + (mset (new_keys g1 g2) + mset (map edge_key (cb_edges g)))" .
    ultimately have "balanced g [] ?g5 (c_outs @ a_outs)"
      unfolding balanced_def keys3 by (simp add: edge_key_def ac_simps)
    moreover have "runs ?g5 root (c_outs @ a_outs) (\<lambda>test. exec_stmt test (SIf e c a))"
      unfolding runs_def
    proof (intro allI impI)
      fix es sm test assume sub: "set (cb_edges ?g5) \<subseteq> set es" "cb_map ?g5 \<subseteq>\<^sub>m sm"
      then have sub3: "set (cb_edges ?g3) \<subseteq> set es" "cb_map ?g3 \<subseteq>\<^sub>m sm" and e: "(root, a_root, EdgeFalse) \<in> set es"
        using extends_edges [OF g5(3)] g5(3) unfolding extends_def by (auto intro: map_le_trans)
      have "delivers es sm test a_root a_outs (exec_stmt test s)" using A sub unfolding runs_def by simp
      then show "delivers es sm test root (c_outs @ a_outs) (exec_stmt test (SIf e c a))"
        using delivers_step [of sm root "SIf e c a" a_root test es a_outs _ _ "c_outs @ a_outs"] at [OF sub3(2)] e some true [OF sub3, of test "c_outs @ a_outs"]
        by (cases "test e") (auto simp: taken_def split: prod.splits)
    qed
    moreover have "stmt_flow g root (c_outs @ a_outs) ?g5"
    proof -
      have "open_ok ?g3 c_outs" using C by (simp add: stmt_flow_def open_ok_same [of ?g3 g2])
      then have "open_ok ?g5 c_outs" using open_ok_extends [of ?g3 ?g5] g3(1) g5 by blast
      moreover have "open_ok ?g5 a_outs" using A by (simp add: stmt_flow_def open_ok_same [of ?g5 g4])
      moreover have "\<not> is_return g4 root" using is_return_extends [of ?g3 g4] A g3 nr by blast
      ultimately show ?thesis using A flow3 g3(3) N(1) unfolding stmt_flow_def
        by (auto simp: flow_ok_edge open_ok_def extends_def)
    qed
    ultimately show ?thesis using g5 g3(3) N A unfolding stmt_built_def extends_def by auto
  qed
qed


lemma if_stmt_ok:
  assumes "stmt_ok c" "\<And>s. a = Some s \<Longrightarrow> stmt_ok s"
  shows "stmt_ok (SIf e c a)"
  unfolding stmt_ok_def
proof (intro allI impI)
  fix g root outs g' assume wf: "builder_wf g" and ok: "cfg_stmt (SIf e c a) g = Ok ((root, outs), g')"
  obtain i g1 where n: "add_stmt_node (SIf e c a) g = (i, g1)" by fastforce
  with ok obtain c_root c_outs g2 where c: "cfg_stmt c g1 = Ok ((c_root, c_outs), g2)"
    by (auto simp: r_bind_Ok_iff)
  note N = add_stmt_node_eq [OF n wf]
  have C: "stmt_built g1 c_root c_outs g2 (\<lambda>test. exec_stmt test c)"
    using assms(1) N(5) c by (auto simp: stmt_ok_def)
  let ?g3 = "cfg_add_edge i c_root EdgeTrue g2"
  show "stmt_built g root outs g' (\<lambda>test. exec_stmt test (SIf e c a))"
  proof (cases a)
    case None
    with ok n c have "root = i" "outs = c_outs @ [(i, EdgeFalse)]" "g' = ?g3" by (auto simp: result_simps)
    with if_built(1) [OF wf n C None] show ?thesis by simp
  next
    case (Some s)
    have g3: "builder_wf ?g3" using C by (auto simp: stmt_built_def intro: builder_wf_add_edge)
    from ok n c Some obtain a_root a_outs g4 where a: "cfg_stmt s ?g3 = Ok ((a_root, a_outs), g4)"
      by (auto simp: r_bind_Ok_iff Let_def)
    have A: "stmt_built ?g3 a_root a_outs g4 (\<lambda>test. exec_stmt test s)"
      using assms(2) [OF Some] g3 a by (auto simp: stmt_ok_def)
    then have "cb_previous g4 \<noteq> cb_end g4" by (auto simp: stmt_built_def builder_wf_def)
    with ok n c a Some have "root = i" "outs = c_outs @ a_outs" "g' = cfg_add_edge i a_root EdgeFalse g4"
      by (auto simp: result_simps)
    with if_built(2) [OF wf n C Some A] show ?thesis by simp
  qed
qed

lemma cfg_stmt_built: "no_empty_block s \<Longrightarrow> stmt_ok s"
proof (induction s)
  case (SIf e c a)
  then show ?case by (intro if_stmt_ok) auto
next
  case (SReturn arg)
  have "cb_end g1 = 1" if "builder_wf g" "add_stmt_node (SReturn arg) g = (i, g1)" for g i g1
    using add_stmt_node_eq(5) [OF that(2,1)] by (simp add: builder_wf_def)
  then show ?case unfolding stmt_ok_def
    using leaf_built(2) [of _ "SReturn arg"] by (fastforce split: prod.splits)
next
  case (SBlock ss)
  then have ok: "\<forall>s \<in> set ss. stmt_ok s" and ne: "ss \<noteq> []" by auto
  show ?case unfolding stmt_ok_def
  proof (intro allI impI)
    fix g root outs g' assume wf: "builder_wf g" and b: "cfg_stmt (SBlock ss) g = Ok ((root, outs), g')"
    then obtain cur where loop: "cfg_block_loop ss None g = Ok (cur, g')" and "(case cur of Some c \<Rightarrow> c | None \<Rightarrow> (cb_previous g', [])) = (root, outs)"
      by (auto simp: r_bind_Ok_iff)
    then show "stmt_built g root outs g' (\<lambda>test. exec_stmt test (SBlock ss))"
      using block_built [OF wf ne ok loop] by fastforce
  qed
qed (use leaf_built(1) in \<open>auto simp: stmt_ok_def split: prod.splits\<close>)


definition cfg_ok :: "control_flow \<Rightarrow> stmt_map \<Rightarrow> bool" where
  "cfg_ok g sm \<longleftrightarrow> cf_start g = 0 \<and> cf_end g = 1 \<and> dom sm = {2..<length (cf_nodes g)} \<and>
     (\<forall>i < length (cf_nodes g). 2 \<le> i \<longrightarrow> cf_nodes g ! i = NStmt) \<and>
     (\<forall>(i, j, l) \<in> set (cf_edges g). j = 1 \<or> j \<in> dom sm) \<and>
     mset (map edge_key (cf_edges g)) = {#(0, EdgeFlow)#} + mset (concat (map (node_keys sm) [2..<length (cf_nodes g)]))"

definition cfg_flows :: "control_flow \<Rightarrow> stmt_map \<Rightarrow> bool" where
  "cfg_flows g sm \<longleftrightarrow> (\<forall>(i, j, l) \<in> set (cf_edges g). j = 1 \<or> i < j \<and> (\<forall>a. sm i \<noteq> Some (SReturn a)))"

lemma ControlFlow_build_ok:
  assumes "stmts \<noteq> []" "\<forall>s \<in> set stmts. no_empty_block s" "ControlFlow_build stmts = Ok (cfg, sm)"
  obtains root where "cfg_ok cfg sm" "(0, root, EdgeFlow) \<in> set (cf_edges cfg)" "root \<in> dom sm"
    "\<And>test. walk (cf_edges cfg) sm test root (fst (exec_block test stmts)) 1" "cfg_flows cfg sm"
proof -
  let ?b = "\<lparr>cb_nodes = [NStart, NEnd], cb_edges = [], cb_previous = 0, cb_map = Map.empty, cb_end = 1\<rparr> :: cfg_builder"
  have wf: "builder_wf ?b" by (auto simp: builder_wf_def less_Suc_eq numeral_2_eq_2)
  from assms(3) obtain cur g where loop: "cfg_block_loop stmts None ?b = Ok (cur, g)"
    by (auto simp: ControlFlow_build_def cfg_block_def r_bind_Ok_iff Let_def)
  obtain root outs where cur: "cur = Some (root, outs)" and built: "stmt_built ?b root outs g (\<lambda>test. exec_block test stmts)"
    using block_built [OF wf assms(1) _ loop] assms(2) cfg_stmt_built by blast
  let ?g = "merge_out outs 1 (cfg_add_edge 0 root EdgeFlow g)"
  have cfg: "cfg = \<lparr>cf_nodes = cb_nodes g, cf_edges = cb_edges ?g, cf_start = 0, cf_end = 1\<rparr>" "sm = cb_map g"
    using assms(3) loop cur by (auto simp: ControlFlow_build_def cfg_block_def Let_def)
  note B = built [unfolded stmt_built_def]
  have runs: "runs g root outs (\<lambda>test. exec_block test stmts)" using B by simp
  have g: "builder_wf g" "builder_wf ?g" "root \<in> dom (cb_map g)"
    using B by (auto intro!: builder_wf_merge_out builder_wf_add_edge simp: builder_wf_def)
  have "map edge_key (map (\<lambda>(i, l). (i, 1, l)) outs) = outs"
    by (induction outs) (auto simp: edge_key_def)
  then have "mset (map edge_key (cb_edges ?g)) = {#(0, EdgeFlow)#} + mset (concat (map (node_keys (cb_map g)) [2..<length (cb_nodes g)]))"
    using B unfolding balanced_def new_keys_def by (auto simp: edge_key_def numeral_2_eq_2)
  moreover have "j = 1 \<or> j \<in> dom (cb_map g)" if "(i, j, l) \<in> set (cb_edges ?g)" for i j l
  proof -
    have "1 \<le> j \<and> j < length (cb_nodes g)" using g(2) that unfolding builder_wf_def merge_out_sel cfg_add_edge_sel by blast
    then show ?thesis using g(1) unfolding builder_wf_def by auto
  qed
  ultimately have "cfg_ok cfg sm" using g(1) unfolding cfg_ok_def cfg builder_wf_def by auto
  moreover have "walk (cf_edges cfg) sm test root (fst (exec_block test stmts)) 1" for test
  proof -
    have "delivers (cb_edges ?g) (cb_map g) test root outs (exec_block test stmts)"
      using runs [unfolded runs_def, rule_format, OF _ map_le_refl, of "cb_edges ?g" test] by auto
    then show ?thesis by (auto simp: delivers_def cfg split: prod.splits if_splits)
  qed
  moreover have "cfg_flows cfg sm"
  proof -
    have "0 \<notin> dom (cb_map g)" using g(1) by (simp add: builder_wf_def)
    then have "\<not> is_return g 0" by (simp add: is_return_def domIff)
    moreover have "flow_ok ?b" by (simp add: flow_ok_def)
    ultimately have "flow_ok (cfg_add_edge 0 root EdgeFlow g)" "open_ok (cfg_add_edge 0 root EdgeFlow g) outs"
      using B by (auto simp: stmt_flow_def flow_ok_edge open_ok_same [of "cfg_add_edge 0 root EdgeFlow g" g])
    then have "flow_ok ?g" by (auto simp: flow_ok_def open_ok_def)
    moreover have "\<not> is_return g i \<Longrightarrow> cb_map g i \<noteq> Some (SReturn a)" for i a by (auto simp: is_return_def)
    ultimately show ?thesis unfolding flow_ok_def cfg_flows_def cfg is_return_merge is_return_edge control_flow.select_convs
      by blast
  qed
  ultimately show thesis using that [of root] g(3) by (simp add: cfg)
qed


subsection \<open>Regions run what the graph runs\<close>

fun region_trace :: "stmt_map \<Rightarrow> (js_expr \<Rightarrow> bool) \<Rightarrow> region \<Rightarrow> js_stmt list" where
  "region_trace sm test (BasicBlock b) = List.map_filter sm b"
| "region_trace sm test (Seq a b) = region_trace sm test a @ region_trace sm test b"
| "region_trace sm test (CondRegion t c a) =
     region_trace sm test t @
     (case test_of sm t of
        Some e \<Rightarrow> if test e then region_trace sm test c else region_trace sm test a
      | None \<Rightarrow> [])"
| "region_trace sm test (LoopRegion _ _) = []"

lemma node_keys_fst: "k \<in> set (node_keys sm i) \<Longrightarrow> fst k = i"
  unfolding node_keys_def by (cases "sm i") (auto split: js_stmt.splits)

lemma filter_node_keys:
  assumes "distinct xs" "i \<in> set xs"
  shows "filter (\<lambda>k. fst k = i) (concat (map (node_keys sm) xs)) = node_keys sm i"
proof -
  have other: "filter (\<lambda>k. fst k = i) (node_keys sm j) = (if i = j then node_keys sm j else [])" for j
    by (auto simp: node_keys_def split: option.splits js_stmt.splits)
  have none: "filter (\<lambda>k. fst k = i) (concat (map (node_keys sm) ys)) = []" if "i \<notin> set ys" for ys
    using that by (induction ys) (auto simp: other)
  show ?thesis using assms by (induction xs) (auto simp: other none)
qed

lemma edges_from_labels:
  assumes "cfg_ok g sm" "i \<in> dom sm"
  shows "mset (map snd (edges_from g i)) = mset (map snd (node_keys sm i))"
proof -
  let ?P = "\<lambda>k :: idx \<times> cfg_edge. fst k = i"
  have i: "i \<in> set [2..<length (cf_nodes g)]" using assms by (auto simp: cfg_ok_def)
  have "mset (filter ?P (map edge_key (cf_edges g))) = filter_mset ?P (mset (map edge_key (cf_edges g)))"
    by simp
  also have "\<dots> = filter_mset ?P ({#(0, EdgeFlow)#} + mset (concat (map (node_keys sm) [2..<length (cf_nodes g)])))"
    using assms(1) unfolding cfg_ok_def by simp
  also have "\<dots> = mset (filter ?P (concat (map (node_keys sm) [2..<length (cf_nodes g)])))"
    using i by (simp only: filter_union_mset mset_filter) simp
  also have "\<dots> = mset (node_keys sm i)"
    using filter_node_keys [OF distinct_upt i] by simp
  finally have "mset (map snd (filter ?P (map edge_key (cf_edges g)))) = mset (map snd (node_keys sm i))"
    by (metis mset_map)
  moreover have "map snd (filter ?P (map edge_key es)) = map (\<lambda>(_, _, l). l) (filter (\<lambda>(a, _). a = i) es)" for es
    by (induction es) (auto simp: edge_key_def)
  moreover have "map snd (edges_from g i) = rev (map (\<lambda>(_, _, l). l) (filter (\<lambda>(a, _). a = i) (cf_edges g)))"
    by (simp add: edges_from_def rev_filter [symmetric] rev_map [symmetric] comp_def case_prod_unfold)
  ultimately show ?thesis by simp
qed

lemma edges_from_set: "(j, l) \<in> set (edges_from g i) \<longleftrightarrow> (i, j, l) \<in> set (cf_edges g)"
  by (force simp: edges_from_def)

lemma edges_from_leaf:
  assumes "cfg_ok g sm" "sm i = Some s" "\<nexists>e c a. s = SIf e c a"
  obtains j where "edges_from g i = [(j, EdgeFlow)]"
proof -
  have "map snd (node_keys sm i) = [EdgeFlow]" using assms(2,3) by (auto simp: node_keys_def split: js_stmt.splits)
  moreover have "mset (map snd (edges_from g i)) = mset (map snd (node_keys sm i))"
    using assms(2) by (intro edges_from_labels [OF assms(1)]) auto
  ultimately have "map snd (edges_from g i) = [EdgeFlow]" by (simp only: mset.simps mset_single_iff)
  with that show thesis by auto
qed

lemma edges_from_if:
  assumes "cfg_ok g sm" "sm i = Some (SIf e c a)"
  obtains j k where "edges_from g i = [(j, EdgeTrue), (k, EdgeFalse)]" | j k where "edges_from g i = [(k, EdgeFalse), (j, EdgeTrue)]"
proof -
  have "map snd (node_keys sm i) = [EdgeTrue, EdgeFalse]" using assms(2) by (auto simp: node_keys_def)
  with edges_from_labels [OF assms(1), of i] assms(2)
  have m: "mset (map snd (edges_from g i)) = {#EdgeTrue, EdgeFalse#}" by auto
  then have "length (edges_from g i) = 2" by (metis length_map mset.simps(1) mset.simps(2) size_mset length_Cons list.size(3) numeral_2_eq_2)
  then obtain x y where xy: "edges_from g i = [x, y]" by (auto simp: length_Suc_conv numeral_2_eq_2)
  with m have "snd x = EdgeTrue \<and> snd y = EdgeFalse \<or> snd x = EdgeFalse \<and> snd y = EdgeTrue" by (auto simp: add_eq_conv_ex)
  with xy that show thesis by (metis prod.collapse)
qed


lemma cfg_targets: "cfg_ok g sm \<Longrightarrow> (j, l) \<in> set (edges_from g i) \<Longrightarrow> j = 1 \<or> j \<in> dom sm"
  unfolding edges_from_set cfg_ok_def by blast

lemma get_cond_targets_ok:
  assumes "cfg_ok g sm" "sm i = Some (SIf e c a)"
  obtains j k where "get_cond_targets g i = Ok (j, k)" "(i, j, EdgeTrue) \<in> set (cf_edges g)" "(i, k, EdgeFalse) \<in> set (cf_edges g)"
    "j = 1 \<or> j \<in> dom sm" "k = 1 \<or> k \<in> dom sm"
  using edges_from_if [OF assms]
proof cases
  case (1 j k)
  then show thesis using that [of j k] cfg_targets [OF assms(1), of _ _ i] edges_from_set [of _ _ g i]
    by (auto simp: get_cond_targets_def)
next
  case (2 j k)
  then show thesis using that [of j k] cfg_targets [OF assms(1), of _ _ i] edges_from_set [of _ _ g i]
    by (auto simp: get_cond_targets_def)
qed

lemma next_neighbor_leaf:
  assumes "cfg_ok g sm" "sm i = Some s" "\<nexists>e c a. s = SIf e c a"
  obtains j where "next_neighbor g i = Ok j" "j = 1 \<or> j \<in> dom sm" "\<And>test. walk (cf_edges g) sm test i [s] j"
proof -
  obtain j where j: "edges_from g i = [(j, EdgeFlow)]" using edges_from_leaf [OF assms] .
  then have e: "(i, j, EdgeFlow) \<in> set (cf_edges g)" using edges_from_set [of j EdgeFlow g i] by simp
  have "taken test s = EdgeFlow" for test using assms(3) by (auto simp: taken_def split: js_stmt.splits)
  then have "walk (cf_edges g) sm test i [s] j" for test using assms(2) e by (auto intro: walk_step)
  moreover have "next_neighbor g i = Ok j" using j by (simp add: next_neighbor_def neighbors_def unwrap_def)
  ultimately show thesis using that cfg_targets [OF assms(1), of j EdgeFlow i] j by simp
qed

lemma if_is_leader:
  assumes "cfg_ok g sm" "sm i = Some (SIf e c a)"
  shows "is_leader g i"
proof -
  have "length (edges_from g i) = 2" by (rule edges_from_if [OF assms]) simp_all
  then show ?thesis by (simp add: is_leader_def neighbors_def)
qed

lemma basic_block_loop_walk:
  assumes "cfg_ok g sm" "cur = 1 \<or> cur \<in> dom sm" "basic_block_loop g n cur out = Ok (out', k)"
  shows "\<exists>bb. out' = out @ bb \<and> (k = 1 \<or> k \<in> dom sm) \<and> (\<forall>test. walk (cf_edges g) sm test cur (List.map_filter sm bb) k)"
  using assms(2,3)
proof (induction n arbitrary: cur out)
  case (Suc n)
  show ?case
  proof (cases "is_leader g cur")
    case False
    then have "cur \<noteq> 1" using assms(1) by (auto simp: is_leader_def cfg_ok_def)
    with Suc.prems obtain s where s: "sm cur = Some s" by auto
    with False assms(1) have "\<nexists>e c a. s = SIf e c a" using if_is_leader [OF assms(1), of cur] by auto
    from next_neighbor_leaf [OF assms(1) s this] obtain j where j: "next_neighbor g cur = Ok j" "j = 1 \<or> j \<in> dom sm"
      "\<And>test. walk (cf_edges g) sm test cur [s] j" by metis
    from Suc.IH [OF j(2), of "out @ [cur]"] Suc.prems False j(1) obtain bb where
      "out' = out @ cur # bb" "k = 1 \<or> k \<in> dom sm" "\<forall>test. walk (cf_edges g) sm test j (List.map_filter sm bb) k"
      by (auto simp: result_simps)
    with j(3) walk_trans [of "cf_edges g" sm _ cur "[s]" j] show ?thesis
      by (intro exI [of _ "cur # bb"]) (auto simp: List.map_filter_simps s)
  qed (use Suc.prems in \<open>auto simp: List.map_filter_simps\<close>)
qed simp


lemma or_empty_Some [simp]: "or_empty (Some r) = r"
  by (simp add: or_empty_def)

lemma reduce_seq_trace: "region_trace sm test (or_empty (reduce_seq rs)) = concat (map (region_trace sm test) rs)"
proof -
  have "region_trace sm test (foldl Seq r rs) = region_trace sm test r @ concat (map (region_trace sm test) rs)" for r rs
    by (induction rs arbitrary: r) auto
  then show ?thesis by (cases rs) (auto simp: reduce_seq_def or_empty_def List.map_filter_simps)
qed

definition region_node :: "control_flow \<Rightarrow> stmt_map \<Rightarrow> region \<Rightarrow> idx \<Rightarrow> idx \<Rightarrow> bool" where
  "region_node g sm r root k \<longleftrightarrow> (k = 1 \<or> k \<in> dom sm) \<and> (\<forall>test. walk (cf_edges g) sm test root (region_trace sm test r) k)"

lemma make_basic_block_walk:
  assumes "cfg_ok g sm" "root = 1 \<or> root \<in> dom sm" "\<nexists>e c a. sm root = Some (SIf e c a)" "make_basic_block g n root = Ok (r, k)"
  shows "region_node g sm (or_empty r) root k"
proof (cases "root = 1")
  case True
  with assms(1,4) show ?thesis
    by (auto simp: make_basic_block_def cfg_ok_def region_node_def or_empty_def List.map_filter_simps)
next
  case False
  with assms(2) obtain s where s: "sm root = Some s" by auto
  with assms(3) have "\<nexists>e c a. s = SIf e c a" by auto
  from next_neighbor_leaf [OF assms(1) s this] obtain j where j: "next_neighbor g root = Ok j" "j = 1 \<or> j \<in> dom sm"
    "\<And>test. walk (cf_edges g) sm test root [s] j" by metis
  from assms(1,4) False j(1) obtain out where out: "basic_block_loop g n j [root] = Ok (out, k)" "r = Some (BasicBlock out)"
    by (auto simp: make_basic_block_def cfg_ok_def r_bind_Ok_iff)
  from basic_block_loop_walk [OF assms(1) j(2) out(1)] j(3) walk_trans [of "cf_edges g" sm _ root "[s]" j] show ?thesis
    unfolding out(2) region_node_def or_empty_def by (auto simp: List.map_filter_simps s)
qed

lemma make_cond_walk:
  assumes "cfg_ok g sm" "sm i = Some (SIf e c a)" "get_cond_targets g i = Ok (j, k)"
    and "region_node g sm r1 j m" "region_node g sm r2 k m"
  shows "region_node g sm (CondRegion (BasicBlock [i]) r1 r2) i m"
proof -
  obtain j' k' where t: "get_cond_targets g i = Ok (j', k')" "(i, j', EdgeTrue) \<in> set (cf_edges g)" "(i, k', EdgeFalse) \<in> set (cf_edges g)"
    using get_cond_targets_ok [OF assms(1,2)] by metis
  with assms(3) have eq: "j' = j" "k' = k" by auto
  have "walk (cf_edges g) sm test i (SIf e c a # (if test e then region_trace sm test r1 else region_trace sm test r2)) m" for test
    using assms(4,5) t(2,3) unfolding eq region_node_def
    by (intro walk_step [of sm i "SIf e c a" "if test e then j else k"]) (auto simp: taken_def assms(2))
  moreover have "region_trace sm test (CondRegion (BasicBlock [i]) r1 r2) =
      SIf e c a # (if test e then region_trace sm test r1 else region_trace sm test r2)" for test
    using assms(2) by (simp add: List.map_filter_simps test_of_def)
  ultimately show ?thesis using assms(4) unfolding region_node_def by presburger
qed

lemma make_region_walk:
  assumes ok: "cfg_ok (rg_cfg b) sm" and visit: "rg_visitor b = stmt_kind_of sm"
  shows "root = 1 \<or> root \<in> dom sm \<Longrightarrow> make_seq_region b n root = Ok (r, k) \<Longrightarrow> region_node (rg_cfg b) sm (or_empty r) root k"
    and "cur = 1 \<or> cur \<in> dom sm \<Longrightarrow> seq_region_loop b n root cur rs = Ok (rs', k) \<Longrightarrow>
      \<exists>new. rs' = rs @ new \<and> region_node (rg_cfg b) sm (or_empty (reduce_seq new)) cur k"
    and "root = 1 \<or> root \<in> dom sm \<Longrightarrow> make_region b n root = Ok (r, k) \<Longrightarrow> region_node (rg_cfg b) sm (or_empty r) root k"
    and "sm root = Some (SIf e c a) \<Longrightarrow> make_cond_region b n root = Ok (r, k) \<Longrightarrow> region_node (rg_cfg b) sm (or_empty r) root k"
proof (induction n arbitrary: root cur rs rs' r k e c a)
  case (Suc n)
  note nodes = ok [unfolded cfg_ok_def]
  { case 1
    then obtain rs' where l: "seq_region_loop b n root root [] = Ok (rs', k)" "r = reduce_seq rs'"
      by (auto simp: r_bind_Ok_iff)
    with Suc.IH(2) [OF 1(1) l(1)] show ?case by auto
  next
    case 2
    then obtain r nxt where m: "make_region b n cur = Ok (r, nxt)" by (auto simp: r_bind_Ok_iff)
    note R = Suc.IH(3) [OF 2(1) m]
    show ?case
    proof (cases r)
      case None
      then show ?thesis using 2 m by (intro exI [of _ "[]"]) (auto simp: region_node_def reduce_seq_def or_empty_def List.map_filter_simps)
    next
      case (Some region)
      have nxt: "nxt = 1 \<or> nxt \<in> dom sm" using R by (simp add: region_node_def)
      consider "rs' = rs @ [region]" "k = nxt" | "seq_region_loop b n root nxt (rs @ [region]) = Ok (rs', k)"
        using 2(2) m Some by (auto simp: r_bind_Ok_iff split: if_splits)
      then show ?thesis
      proof cases
        case 1
        then show ?thesis using R Some by (intro exI [of _ "[region]"]) (auto simp: reduce_seq_def)
      next
        case 2
        from Suc.IH(2) [OF nxt 2] obtain new where new: "rs' = rs @ region # new" "region_node (rg_cfg b) sm (or_empty (reduce_seq new)) nxt k"
          by auto
        with R Some show ?thesis by (intro exI [of _ "region # new"])
          (auto simp: region_node_def reduce_seq_trace intro: walk_trans)
      qed
    qed
  next
    case 3
    show ?case
    proof (cases "root = 1")
      case True
      then show ?thesis using 3 nodes by (auto simp: region_node_def or_empty_def List.map_filter_simps)
    next
      case False
      with 3(1) obtain s where s: "sm root = Some s" by auto
      then have "root \<in> {2..<length (cf_nodes (rg_cfg b))}" using nodes by blast
      with nodes have n: "root < length (cf_nodes (rg_cfg b))" "cf_nodes (rg_cfg b) ! root = NStmt" by auto
      with 3(2) False nodes visit obtain kind where kind: "stmt_kind_of sm root = Ok kind"
        "(case kind of BBComponent \<Rightarrow> make_basic_block (rg_cfg b) n root | Conditional \<Rightarrow> make_cond_region b n root
           | _ \<Rightarrow> Panic ''unsupported statement'') = Ok (r, k)"
        by (auto simp: r_bind_Ok_iff)
      then consider e c a where "s = SIf e c a" "make_cond_region b n root = Ok (r, k)"
        | "\<nexists>e c a. s = SIf e c a" "make_basic_block (rg_cfg b) n root = Ok (r, k)"
        by (auto simp: stmt_kind_of_def stmt_at_def s unwrap_def split: js_stmt.splits stmt_kind.splits bool.splits)
      then show ?thesis
      proof cases
        case 1
        then show ?thesis using Suc.IH(4) s by blast
      next
        case 2
        then show ?thesis using make_basic_block_walk [OF ok 3(1) _ 2(2)] s by auto
      qed
    qed
  next
    case 4
    obtain i j where t: "get_cond_targets (rg_cfg b) root = Ok (i, j)" "i = 1 \<or> i \<in> dom sm" "j = 1 \<or> j \<in> dom sm"
      using get_cond_targets_ok [OF ok 4(1)] by metis
    from 4(2) t(1) obtain r1 r2 where r: "make_seq_region b n i = Ok (r1, k)" "make_seq_region b n j = Ok (r2, k)"
      "r = Some (CondRegion (BasicBlock [root]) (or_empty r1) (or_empty r2))"
      by (auto simp: r_bind_Ok_iff split: if_splits)
    show ?case unfolding r(3)
      using make_cond_walk [OF ok 4(1) t(1) Suc.IH(1) [OF t(2) r(1)] Suc.IH(1) [OF t(3) r(2)]] by (simp add: or_empty_def)
  }
qed simp_all


lemma cfg_end_None: "cfg_ok g sm \<Longrightarrow> sm 1 = None"
proof -
  assume "cfg_ok g sm"
  then have "1 \<notin> dom sm" by (simp add: cfg_ok_def)
  then show ?thesis by blast
qed

lemma walk_det:
  assumes "cfg_ok g sm" "walk (cf_edges g) sm test i tr 1" "walk (cf_edges g) sm test i tr' 1"
  shows "tr = tr'"
  using assms(2,3)
proof (induction tr arbitrary: i tr')
  case Nil
  moreover have "sm 1 = None" using cfg_end_None [OF assms(1)] .
  ultimately show ?case by (cases tr') (auto simp: walk_Nil walk_Cons)
next
  case (Cons s tr)
  have one: "sm 1 = None" using cfg_end_None [OF assms(1)] .
  from Cons.prems(1) obtain j where j: "sm i = Some s" "(j, taken test s) \<in> set (edges_from g i)" "walk (cf_edges g) sm test j tr 1"
    by (auto simp: walk_Cons edges_from_set)
  with one have "i \<noteq> 1" by auto
  then obtain s' tr2 where tr': "tr' = s' # tr2" using Cons.prems(2) by (cases tr') (auto simp: walk_Nil)
  with Cons.prems(2) obtain j' where j': "s' = s" "(j', taken test s) \<in> set (edges_from g i)" "walk (cf_edges g) sm test j' tr2 1"
    using j(1) by (auto simp: walk_Cons edges_from_set)
  have "j = j'"
  proof (cases "\<exists>e c a. s = SIf e c a")
    case True
    then obtain e c a where "s = SIf e c a" by auto
    with j(1) have "sm i = Some (SIf e c a)" by simp
    from edges_from_if [OF assms(1) this] show ?thesis using j(2) j'(2) by cases (auto)
  next
    case False
    obtain m where "edges_from g i = [(m, EdgeFlow)]" by (rule edges_from_leaf [OF assms(1) j(1) False])
    then show ?thesis using j(2) j'(2) by simp
  qed
  with Cons.IH [OF j(3)] j' tr' show ?case by simp
qed

lemma walk_start:
  assumes "cfg_ok g sm" "(0, root, EdgeFlow) \<in> set (cf_edges g)"
  shows "next_neighbor g (cf_start g) = Ok root"
proof -
  let ?P = "\<lambda>k :: idx \<times> cfg_edge. fst k = 0"
  have "\<not> ?P k" if "k \<in> set (concat (map (node_keys sm) [2..<n]))" for k n
    using that by (auto dest!: node_keys_fst)
  then have none: "filter ?P (concat (map (node_keys sm) [2..<n])) = []" for n by (simp add: filter_empty_conv)
  have "mset (filter ?P (map edge_key (cf_edges g))) = filter_mset ?P (mset (map edge_key (cf_edges g)))" by simp
  also have "\<dots> = filter_mset ?P ({#(0, EdgeFlow)#} + mset (concat (map (node_keys sm) [2..<length (cf_nodes g)])))"
    using assms(1) unfolding cfg_ok_def by simp
  also have "\<dots> = {#(0, EdgeFlow)#}" unfolding filter_union_mset mset_filter [symmetric] none by simp
  finally have "size (filter_mset ?P (mset (map edge_key (cf_edges g)))) = 1" by simp
  moreover have "length (edges_from g 0) = length (filter ?P (map edge_key es))" if "es = cf_edges g" for es
    unfolding that edges_from_def by (simp add: filter_map comp_def edge_key_def case_prod_unfold rev_filter [symmetric])
  ultimately have "length (edges_from g 0) = 1" by (metis mset_filter size_mset)
  moreover have "(root, EdgeFlow) \<in> set (edges_from g 0)" using assms(2) by (simp add: edges_from_set)
  ultimately have "edges_from g 0 = [(root, EdgeFlow)]" by (auto simp: length_Suc_conv)
  with assms(1) show ?thesis by (simp add: next_neighbor_def neighbors_def unwrap_def cfg_ok_def)
qed

lemma ArrowFunction_parse_trace:
  assumes "stmts \<noteq> []" "list_all no_empty_block stmts" "ArrowFunction_parse dominators n stmts = Ok (sm, r)"
  shows "region_trace sm test r = fst (exec_block test stmts)"
proof -
  from assms(3) obtain cfg where b: "ControlFlow_build stmts = Ok (cfg, sm)"
    and reg: "Region_from_cfg \<lparr>rg_cfg = cfg, rg_visitor = stmt_kind_of sm, rg_strict_dominators = dominators cfg\<rparr> n = Ok r"
    by (auto simp: ArrowFunction_parse_def r_bind_Ok_iff)
  obtain root where ok: "cfg_ok cfg sm" "(0, root, EdgeFlow) \<in> set (cf_edges cfg)" "root \<in> dom sm"
    "\<And>test. walk (cf_edges cfg) sm test root (fst (exec_block test stmts)) 1"
    using ControlFlow_build_ok [OF assms(1) _ b] assms(2) by (metis list_all_iff)
  from reg obtain j mr where j: "next_neighbor cfg (cf_start cfg) = Ok j"
    and mr: "make_seq_region \<lparr>rg_cfg = cfg, rg_visitor = stmt_kind_of sm, rg_strict_dominators = dominators cfg\<rparr> n j = Ok (mr, cf_end cfg)"
      "r = or_empty mr"
    by (auto simp: Region_from_cfg_def r_bind_Ok_iff split: if_splits)
  have eq: "j = root" "cf_end cfg = 1" using walk_start [OF ok(1,2)] j ok(1) by (auto simp: cfg_ok_def)
  have "region_node cfg sm r root 1"
    using make_region_walk(1) [OF _ _ _ mr(1), of sm] ok(1,3) unfolding eq mr(2) by simp
  then show ?thesis using walk_det [OF ok(1) _ ok(4)] by (auto simp: region_node_def)
qed


subsection \<open>Policies that only decide\<close>

text \<open>
  The policies the rule inference accepts: functions made of conditions and of returns of an action.
\<close>

definition decision_node :: "js_stmt \<Rightarrow> bool" where
  "decision_node s \<longleftrightarrow>
     (case s of
        SIf e _ _ \<Rightarrow> parseable e
      | SReturn arg \<Rightarrow> (case action_of_return arg of Ok _ \<Rightarrow> True | _ \<Rightarrow> False)
      | _ \<Rightarrow> False)"

fun decision :: "js_stmt \<Rightarrow> bool" where
  "decision (SIf e c a) = (parseable e \<and> decision c \<and> (case a of Some s \<Rightarrow> decision s | None \<Rightarrow> True))"
| "decision (SBlock ss) = (ss \<noteq> [] \<and> (\<forall>s \<in> set ss. decision s))"
| "decision (SReturn arg) = decision_node (SReturn arg)"
| "decision _ = False"

lemma decision_no_empty_block: "decision s \<Longrightarrow> no_empty_block s"
  by (induction s) (auto split: option.splits)

definition decides_in :: "(cfg_builder \<Rightarrow> ('x \<times> cfg_builder) res) \<Rightarrow> bool" where
  "decides_in f \<longleftrightarrow> (\<forall>g. \<exists>x g'. f g = Ok (x, g') \<and> (Ball (ran (cb_map g)) decision_node \<longrightarrow> Ball (ran (cb_map g')) decision_node))"

lemma decides_inE:
  assumes "decides_in f"
  obtains x g' where "f g = Ok (x, g')" "Ball (ran (cb_map g)) decision_node \<longrightarrow> Ball (ran (cb_map g')) decision_node"
  using assms unfolding decides_in_def by blast

lemma decides_in_stmtE:
  assumes "decides_in (cfg_stmt s)"
  obtains i outs g' where "cfg_stmt s g = Ok ((i, outs), g')" "Ball (ran (cb_map g)) decision_node \<longrightarrow> Ball (ran (cb_map g')) decision_node"
  using decides_inE [OF assms, of g] by (metis prod.exhaust)

lemma decides_in_block_loop: "\<forall>s \<in> set ss. decides_in (cfg_stmt s) \<Longrightarrow> decides_in (cfg_block_loop ss cur)"
proof (induction ss arbitrary: cur)
  case (Cons s ss)
  show ?case unfolding decides_in_def
  proof
    fix g
    from Cons.prems have "decides_in (cfg_stmt s)" by simp
    then obtain i outs g1 where s: "cfg_stmt s g = Ok ((i, outs), g1)" "Ball (ran (cb_map g)) decision_node \<longrightarrow> Ball (ran (cb_map g1)) decision_node"
      by (rule decides_in_stmtE)
    have rest: "decides_in (cfg_block_loop ss cur)" for cur using Cons by simp
    show "\<exists>x g'. cfg_block_loop (s # ss) cur g = Ok (x, g') \<and>
        (Ball (ran (cb_map g)) decision_node \<longrightarrow> Ball (ran (cb_map g')) decision_node)"
    proof (cases cur)
      case None
      obtain x g' where r: "cfg_block_loop ss (Some (i, outs)) g1 = Ok (x, g')" "Ball (ran (cb_map g1)) decision_node \<longrightarrow> Ball (ran (cb_map g')) decision_node"
        by (rule decides_inE [OF rest])
      have "cfg_block_loop (s # ss) cur g = Ok (x, g')" using s(1) r(1) None by simp
      then show ?thesis using s(2) r(2) by blast
    next
      case (Some c)
      obtain root prev_out where c: "c = (root, prev_out)" by fastforce
      obtain x g' where r: "cfg_block_loop ss (Some (root, outs)) (merge_out prev_out i g1) = Ok (x, g')"
        "Ball (ran (cb_map (merge_out prev_out i g1))) decision_node \<longrightarrow> Ball (ran (cb_map g')) decision_node"
        by (rule decides_inE [OF rest])
      have "cfg_block_loop (s # ss) cur g = Ok (x, g')" using s(1) r(1) Some c by simp
      then show ?thesis using s(2) r(2) unfolding merge_out_sel by blast
    qed
  qed
qed (simp add: decides_in_def)

lemma add_decision_node:
  assumes "add_stmt_node s g = (i, g1)" "decision_node s" "Ball (ran (cb_map g)) decision_node"
  shows "Ball (ran (cb_map g1)) decision_node"
proof
  fix x assume "x \<in> ran (cb_map g1)"
  moreover have "cb_map g1 = (cb_map g)(i \<mapsto> s)" using assms(1) by (auto simp: add_stmt_node_def Let_def)
  ultimately have "x = s \<or> x \<in> ran (cb_map g)" by (auto simp: ran_def split: if_splits)
  with assms(2,3) show "decision_node x" by blast
qed

lemma decides_in_stmt: "decision s \<Longrightarrow> decides_in (cfg_stmt s)"
proof (induction s)
  case (SIf e c a)
  show ?case unfolding decides_in_def
  proof
    fix g
    obtain i g1 where n: "add_stmt_node (SIf e c a) g = (i, g1)" by fastforce
    have n': "Ball (ran (cb_map g)) decision_node \<Longrightarrow> Ball (ran (cb_map g1)) decision_node"
      using add_decision_node [OF n] SIf.prems by (simp add: decision_node_def)
    have "decides_in (cfg_stmt c)" using SIf by simp
    then obtain j outs g2 where c: "cfg_stmt c g1 = Ok ((j, outs), g2)" "Ball (ran (cb_map g1)) decision_node \<longrightarrow> Ball (ran (cb_map g2)) decision_node"
      by (rule decides_in_stmtE)
    show "\<exists>x g'. cfg_stmt (SIf e c a) g = Ok (x, g') \<and>
        (Ball (ran (cb_map g)) decision_node \<longrightarrow> Ball (ran (cb_map g')) decision_node)"
    proof (cases a)
      case None
      then show ?thesis using n n' c by (simp add: Let_def)
    next
      case (Some s)
      then have "decides_in (cfg_stmt s)" using SIf by simp
      then obtain k outs2 g3 where s: "cfg_stmt s (cfg_add_edge i j EdgeTrue g2) = Ok ((k, outs2), g3)"
        "Ball (ran (cb_map (cfg_add_edge i j EdgeTrue g2))) decision_node \<longrightarrow> Ball (ran (cb_map g3)) decision_node"
        by (rule decides_in_stmtE)
      let ?r = "if cb_previous g3 \<noteq> cb_end g3 then ((i, outs @ outs2), cfg_add_edge i k EdgeFalse g3) else ((i, outs), g3)"
      have "cfg_stmt (SIf e c a) g = Ok (fst ?r, snd ?r)" using n c(1) s(1) unfolding Some by simp
      moreover have "cb_map (snd ?r) = cb_map g3" by simp
      ultimately show ?thesis using n' c(2) s(2) by (metis cfg_add_edge_sel(3))
    qed
  qed
next
  case (SReturn arg)
  then show ?case using add_decision_node [of "SReturn arg"] by (fastforce simp: decides_in_def split: prod.splits)
next
  case (SBlock ss)
  then have loop: "decides_in (cfg_block_loop ss None)" by (intro decides_in_block_loop) auto
  show ?case unfolding decides_in_def
  proof
    fix g
    from loop obtain x g' where "cfg_block_loop ss None g = Ok (x, g')" "Ball (ran (cb_map g)) decision_node \<longrightarrow> Ball (ran (cb_map g')) decision_node"
      by (rule decides_inE)
    then show "\<exists>x g'. cfg_stmt (SBlock ss) g = Ok (x, g') \<and>
        (Ball (ran (cb_map g)) decision_node \<longrightarrow> Ball (ran (cb_map g')) decision_node)" by auto
  qed
qed simp_all

lemma ControlFlow_build_decision:
  assumes "list_all decision stmts"
  obtains cfg sm where "ControlFlow_build stmts = Ok (cfg, sm)" "\<forall>s \<in> ran sm. decision_node s"
proof -
  let ?b = "\<lparr>cb_nodes = [NStart, NEnd], cb_edges = [], cb_previous = 0, cb_map = Map.empty, cb_end = 1\<rparr> :: cfg_builder"
  have "decides_in (cfg_block_loop stmts None)"
    using assms decides_in_stmt by (intro decides_in_block_loop) (auto simp: list_all_iff)
  then obtain x g where g: "cfg_block_loop stmts None ?b = Ok (x, g)" "Ball (ran (cb_map ?b)) decision_node \<longrightarrow> Ball (ran (cb_map g)) decision_node"
    by (rule decides_inE)
  then have "Ball (ran (cb_map g)) decision_node" by simp
  moreover obtain root outs where "(case x of Some c \<Rightarrow> c | None \<Rightarrow> (cb_previous g, [])) = (root, outs)" by fastforce
  ultimately show thesis using g(1) that by (simp add: ControlFlow_build_def cfg_block_def Let_def)
qed


lemma two_le_Suc: "2 \<le> (m :: nat) \<Longrightarrow> \<exists>k. m = Suc (Suc k)"
  by (intro exI [of _ "m - 2"]) simp

lemma seq_of_region:
  assumes "make_region b m root = Ok (Some reg, 1)" "2 \<le> m" "cf_end (rg_cfg b) = 1" "rg_strict_dominators b 1 \<noteq> None"
  shows "make_seq_region b (Suc (Suc m)) root = Ok (Some reg, 1)"
proof -
  obtain k where m: "m = Suc (Suc k)" using assms(2) two_le_Suc by blast
  have "seq_region_loop b m root 1 rs = Ok (rs, 1)" for rs using assms(3) by (simp add: m)
  moreover obtain ds where "rg_strict_dominators b 1 = Some ds" using assms(4) by auto
  ultimately show ?thesis using assms(1) by (simp add: reduce_seq_def unwrap_def)
qed

text \<open>How far a node is from the end of the graph.\<close>

definition height :: "control_flow \<Rightarrow> idx \<Rightarrow> nat" where
  "height g i = (if i = 1 then 0 else length (cf_nodes g) - i)"

lemma return_region:
  assumes "cfg_ok (rg_cfg b) sm" "cfg_flows (rg_cfg b) sm" "rg_visitor b = stmt_kind_of sm"
    "sm root = Some (SReturn arg)" "2 \<le> m"
  shows "make_region b m root = Ok (Some (BasicBlock [root]), 1)"
proof -
  note nodes = assms(1) [unfolded cfg_ok_def]
  obtain k where m: "m = Suc (Suc k)" using assms(5) two_le_Suc by blast
  have "root \<in> {2..<length (cf_nodes (rg_cfg b))}" using nodes assms(4) by blast
  with nodes have root: "root \<noteq> 1" "root < length (cf_nodes (rg_cfg b))" "cf_nodes (rg_cfg b) ! root = NStmt" by auto
  obtain j where j: "edges_from (rg_cfg b) root = [(j, EdgeFlow)]" by (rule edges_from_leaf [OF assms(1,4)]) auto
  then have "(root, j, EdgeFlow) \<in> set (cf_edges (rg_cfg b))" using edges_from_set [of j EdgeFlow "rg_cfg b" root] by simp
  with assms(2,4) have "j = 1" unfolding cfg_flows_def by blast
  with j have "next_neighbor (rg_cfg b) root = Ok 1" by (simp add: next_neighbor_def neighbors_def unwrap_def)
  moreover have "is_leader (rg_cfg b) 1" using nodes by (simp add: is_leader_def)
  ultimately have "make_basic_block (rg_cfg b) (Suc k) root = Ok (Some (BasicBlock [root]), 1)"
    using root nodes by (simp add: make_basic_block_def)
  moreover have "stmt_kind_of sm root = Ok BBComponent" using assms(4) by (simp add: stmt_kind_of_def stmt_at_def unwrap_def)
  ultimately show ?thesis using root nodes assms(3) by (simp add: m)
qed

lemma make_seq_region_decides:
  assumes ok: "cfg_ok (rg_cfg b) sm" and flows: "cfg_flows (rg_cfg b) sm" and visit: "rg_visitor b = stmt_kind_of sm"
    and nodes: "\<forall>s \<in> ran sm. decision_node s" and doms: "rg_strict_dominators b 1 \<noteq> None"
    and root: "root = 1 \<or> root \<in> dom sm"
  shows "\<exists>r. supported_region sm (or_empty r) \<and> (\<forall>n \<ge> 4 * height (rg_cfg b) root + 4. make_seq_region b n root = Ok (r, 1))"
  using root
proof (induction "height (rg_cfg b) root" arbitrary: root rule: less_induct)
  case less
  let ?g = "rg_cfg b"
  have fin: "cf_end ?g = 1" using ok by (simp add: cfg_ok_def)
  have fuel: "\<exists>m. n = Suc (Suc (Suc (Suc m)))" if "x + 4 \<le> n" for n x :: nat
    using that by (intro exI [of _ "n - 4"]) simp
  show ?case
  proof (cases "root = 1")
    case True
    have "make_seq_region b n 1 = Ok (None, 1)" if "x + 4 \<le> n" for n x
      using fuel [OF that] fin by (auto simp: reduce_seq_def)
    then show ?thesis using True by (intro exI [of _ None]) (auto simp: or_empty_def block_action_def)
  next
    case False
    then obtain s where s: "sm root = Some s" using less.prems by auto
    then have "decision_node s" using nodes by (auto simp: ran_def)
    then consider arg a where "s = SReturn arg" "action_of_return arg = Ok a" | e c a where "s = SIf e c a" "parseable e"
      by (auto simp: decision_node_def split: js_stmt.splits result.splits)
    then show ?thesis
    proof cases
      case 1
      have "make_seq_region b n root = Ok (Some (BasicBlock [root]), 1)" if le: "x + 4 \<le> n" for n x
      proof -
        obtain m where n: "n = Suc (Suc (Suc (Suc m)))" using fuel [OF le] by auto
        have "2 \<le> Suc (Suc m)" by simp
        from seq_of_region [OF return_region [OF ok flows visit s [unfolded 1(1)] this] this fin doms] show ?thesis unfolding n .
      qed
      then show ?thesis using 1 s by (intro exI [of _ "Some (BasicBlock [root])"]) (auto simp: block_action_def)
    next
      case 2
      obtain i j where t: "get_cond_targets ?g root = Ok (i, j)" "(root, i, EdgeTrue) \<in> set (cf_edges ?g)" "(root, j, EdgeFalse) \<in> set (cf_edges ?g)"
        "i = 1 \<or> i \<in> dom sm" "j = 1 \<or> j \<in> dom sm"
        by (rule get_cond_targets_ok [OF ok s [unfolded 2(1)]])
      have r: "root \<in> {2..<length (cf_nodes ?g)}" using ok s unfolding cfg_ok_def by blast
      have lower: "height ?g k < height ?g root" if "(root, k, l) \<in> set (cf_edges ?g)" for k l
      proof -
        have "k = 1 \<or> root < k" using flows that unfolding cfg_flows_def by blast
        then show ?thesis using False r by (auto simp: height_def)
      qed
      obtain r1 where r1: "supported_region sm (or_empty r1)" "\<forall>n \<ge> 4 * height ?g i + 4. make_seq_region b n i = Ok (r1, 1)"
        using less.hyps [OF lower [OF t(2)] t(4)] by blast
      obtain r2 where r2: "supported_region sm (or_empty r2)" "\<forall>n \<ge> 4 * height ?g j + 4. make_seq_region b n j = Ok (r2, 1)"
        using less.hyps [OF lower [OF t(3)] t(5)] by blast
      let ?r = "CondRegion (BasicBlock [root]) (or_empty r1) (or_empty r2)"
      have "make_seq_region b n root = Ok (Some ?r, 1)" if le: "4 * height ?g root + 4 \<le> n" for n
      proof -
        obtain m where n: "n = Suc (Suc (Suc (Suc m)))" using fuel [OF le] by auto
        have "4 * height ?g i + 4 \<le> m" "4 * height ?g j + 4 \<le> m" using le lower [OF t(2)] lower [OF t(3)] by (auto simp: n)
        then have "make_cond_region b (Suc m) root = Ok (Some ?r, 1)" using t(1) r1(2) r2(2) by simp
        moreover have "root < length (cf_nodes ?g)" "cf_nodes ?g ! root = NStmt" using r ok by (auto simp: cfg_ok_def)
        moreover have "stmt_kind_of sm root = Ok Conditional" using s 2 by (simp add: stmt_kind_of_def stmt_at_def unwrap_def)
        ultimately have "make_region b (Suc (Suc m)) root = Ok (Some ?r, 1)" using False fin visit by simp
        from seq_of_region [OF this _ fin doms] show ?thesis by (simp add: n)
      qed
      then show ?thesis using r1(1) r2(1) s 2 by (intro exI [of _ "Some ?r"]) (auto simp: test_of_def)
    qed
  qed
qed


lemma walk_reaches: "walk es sm test i tr k \<Longrightarrow> (i, k) \<in> {(i, j). \<exists>l. (i, j, l) \<in> set es}\<^sup>*"
  by (induction rule: walk.induct) (auto intro: converse_rtrancl_into_rtrancl)

text \<open>What \<open>petgraph\<close> documents: a node that is reachable from the root has dominators.\<close>

definition dominates_reachable :: "(control_flow \<Rightarrow> idx \<Rightarrow> idx set option) \<Rightarrow> bool" where
  "dominates_reachable dominators \<longleftrightarrow>
     (\<forall>g i. (cf_start g, i) \<in> {(i, j). \<exists>l. (i, j, l) \<in> set (cf_edges g)}\<^sup>* \<longrightarrow> dominators g i \<noteq> None)"

lemma ArrowFunction_parse_total:
  assumes "stmts \<noteq> []" "list_all decision stmts" "dominates_reachable dominators"
  obtains sm r m where "\<forall>n \<ge> m. ArrowFunction_parse dominators n stmts = Ok (sm, r)" "supported_region sm r"
proof -
  obtain cfg sm where b: "ControlFlow_build stmts = Ok (cfg, sm)" and nodes: "\<forall>s \<in> ran sm. decision_node s"
    using ControlFlow_build_decision [OF assms(2)] .
  have "\<forall>s \<in> set stmts. no_empty_block s" using assms(2) decision_no_empty_block by (auto simp: list_all_iff)
  from ControlFlow_build_ok [OF assms(1) this b] obtain root where ok: "cfg_ok cfg sm" "(0, root, EdgeFlow) \<in> set (cf_edges cfg)" "root \<in> dom sm"
    "\<And>test. walk (cf_edges cfg) sm test root (fst (exec_block test stmts)) 1" "cfg_flows cfg sm" by blast
  have "(0, 1) \<in> {(i, j). \<exists>l. (i, j, l) \<in> set (cf_edges cfg)}\<^sup>*"
    using ok(2) walk_reaches [OF ok(4)] by (blast intro: converse_rtrancl_into_rtrancl)
  moreover have start: "cf_start cfg = 0" using ok(1) by (simp add: cfg_ok_def)
  ultimately have doms: "dominators cfg 1 \<noteq> None"
    using assms(3) [unfolded dominates_reachable_def, rule_format, of cfg 1] by simp
  let ?b = "\<lparr>rg_cfg = cfg, rg_visitor = stmt_kind_of sm, rg_strict_dominators = dominators cfg\<rparr>"
  obtain r where r: "supported_region sm (or_empty r)" "\<forall>n \<ge> 4 * height cfg root + 4. make_seq_region ?b n root = Ok (r, 1)"
    using make_seq_region_decides [of ?b sm root] ok nodes doms by auto
  have "ArrowFunction_parse dominators n stmts = Ok (sm, or_empty r)" if "4 * height cfg root + 4 \<le> n" for n
    using b r(2) that walk_start [OF ok(1,2)] ok(1) by (simp add: ArrowFunction_parse_def Region_from_cfg_def cfg_ok_def)
  with r(1) that show thesis by blast
qed

fun trace_action :: "js_stmt list \<Rightarrow> action" where
  "trace_action [] = Deny"
| "trace_action (SReturn arg # _) = (case action_of_return arg of Ok a \<Rightarrow> a | _ \<Rightarrow> Deny)"
| "trace_action (_ # tr) = trace_action tr"

lemma test_of_Some:
  assumes "test_of sm t = Some e"
  obtains i s1 s2 where "t = BasicBlock [i]" "sm i = Some (SIf e s1 s2)"
proof (cases t)
  case (BasicBlock bb)
  with assms obtain i where bb: "bb = [i]" by (auto simp: test_of_def split: list.splits)
  with assms BasicBlock obtain s where "sm i = Some s" by (auto simp: test_of_def split: option.splits)
  with assms BasicBlock bb show thesis using that by (cases s) (auto simp: test_of_def)
qed (use assms in \<open>auto simp: test_of_def\<close>)

lemma run_region_trace: "supported_region sm r \<Longrightarrow> run_region sm test r = Some (trace_action (region_trace sm test r))"
proof (induction r)
  case (BasicBlock bb)
  then show ?case by (auto simp: block_action_def List.map_filter_simps split: list.splits option.splits js_stmt.splits result.splits)
next
  case (CondRegion t c a)
  from CondRegion.prems obtain e where "test_of sm t = Some e" by (auto split: option.splits)
  then obtain i s1 s2 where "t = BasicBlock [i]" "sm i = Some (SIf e s1 s2)" by (rule test_of_Some)
  with CondRegion show ?case by (simp add: test_of_def List.map_filter_simps)
qed simp_all


subsection \<open>Properties\<close>

text \<open>
  C8: the regions of a policy function run what the function runs.  Whenever the analysis of a
  function body without empty blocks gives regions, then for every outcome of the conditions the
  statements the regions pass through, in order, are exactly the ones that running the body
  executes, up to and including the first \<open>return\<close>.
\<close>

theorem ArrowFunction_parse_correct:
  assumes "stmts \<noteq> []" "list_all no_empty_block stmts" "ArrowFunction_parse dominators n stmts = Ok (sm, r)"
  shows "region_trace sm test r = fst (exec_block test stmts)"
  using assms by (rule ArrowFunction_parse_trace)

definition sample_body :: "js_stmt list" where
  "sample_body =
     [SExpr (EIdent ''log''), SIf (EIdent ''a'') (SBlock [SDecl True]) (Some (SExpr EOther)),
      SIf (EIdent ''b'') (SReturn None) None, SReturn (Some EOther)]"

definition sample_dominators :: "control_flow \<Rightarrow> idx \<Rightarrow> idx set option" where
  "sample_dominators g i = Some (if i < 3 \<and> i \<noteq> 1 then {0} else if i = 3 then {0, 2} else if 3 < i \<and> i < 7 then {0, 2, 3} else {0, 2, 3, 6})"

definition sample_cfg :: control_flow where
  "sample_cfg = \<lparr>cf_nodes = [NStart, NEnd, NStmt, NStmt, NStmt, NStmt, NStmt, NStmt, NStmt],
     cf_edges = [(3, 4, EdgeTrue), (3, 5, EdgeFalse), (2, 3, EdgeFlow), (7, 1, EdgeFlow), (6, 7, EdgeTrue),
       (4, 6, EdgeFlow), (5, 6, EdgeFlow), (8, 1, EdgeFlow), (6, 8, EdgeFalse), (0, 2, EdgeFlow)],
     cf_start = 0, cf_end = 1\<rparr>"

lemma sample_build:
  obtains sm where "ControlFlow_build sample_body = Ok (sample_cfg, sm)" "sm 2 = Some (SExpr (EIdent ''log''))"
    "sm 3 = Some (SIf (EIdent ''a'') (SBlock [SDecl True]) (Some (SExpr EOther)))" "sm 4 = Some (SDecl True)" "sm 5 = Some (SExpr EOther)"
    "sm 6 = Some (SIf (EIdent ''b'') (SReturn None) None)" "sm 7 = Some (SReturn None)" "sm 8 = Some (SReturn (Some EOther))"
  by (simp add: ControlFlow_build_def cfg_block_def sample_body_def add_stmt_node_def cfg_add_edge_def merge_out_def Let_def sample_cfg_def)

lemma sample_edges:
  "is_leader sample_cfg 1" "is_leader sample_cfg 3" "is_leader sample_cfg 6"
  "next_neighbor sample_cfg 0 = Ok 2" "next_neighbor sample_cfg 2 = Ok 3" "next_neighbor sample_cfg 4 = Ok 6"
  "next_neighbor sample_cfg 5 = Ok 6" "next_neighbor sample_cfg 7 = Ok 1" "next_neighbor sample_cfg 8 = Ok 1"
  "get_cond_targets sample_cfg 3 = Ok (4, 5)" "get_cond_targets sample_cfg 6 = Ok (7, 8)"
  by code_simp+

lemma sample_parse:
  obtains sm r where "ArrowFunction_parse sample_dominators 15 sample_body = Ok (sm, r)"
proof -
  obtain sm where sm: "ControlFlow_build sample_body = Ok (sample_cfg, sm)" "sm 2 = Some (SExpr (EIdent ''log''))"
    "sm 3 = Some (SIf (EIdent ''a'') (SBlock [SDecl True]) (Some (SExpr EOther)))" "sm 4 = Some (SDecl True)" "sm 5 = Some (SExpr EOther)"
    "sm 6 = Some (SIf (EIdent ''b'') (SReturn None) None)" "sm 7 = Some (SReturn None)" "sm 8 = Some (SReturn (Some EOther))"
    by (rule sample_build)
  have c: "cf_end sample_cfg = 1" "cf_start sample_cfg = 0" "length (cf_nodes sample_cfg) = 9"
    "cf_nodes sample_cfg ! 2 = NStmt" "cf_nodes sample_cfg ! 3 = NStmt" "cf_nodes sample_cfg ! 4 = NStmt" "cf_nodes sample_cfg ! 5 = NStmt"
    "cf_nodes sample_cfg ! 6 = NStmt" "cf_nodes sample_cfg ! 7 = NStmt" "cf_nodes sample_cfg ! 8 = NStmt"
    by (simp_all add: sample_cfg_def)
  let ?b = "\<lparr>rg_cfg = sample_cfg, rg_visitor = stmt_kind_of sm, rg_strict_dominators = sample_dominators sample_cfg\<rparr>"
  have "make_seq_region ?b (Suc (Suc (Suc (Suc (Suc (Suc (Suc (Suc (Suc (Suc (Suc (Suc (Suc (Suc (Suc 0)))))))))))))))  2 =
      Ok (Some (Seq (Seq (BasicBlock [2]) (CondRegion (BasicBlock [3]) (BasicBlock [4]) (BasicBlock [5])))
        (CondRegion (BasicBlock [6]) (BasicBlock [7]) (BasicBlock [8]))), 1)"
    by (simp add: sample_edges [simplified] c [simplified] sm(2-) stmt_kind_of_def stmt_at_def unwrap_def make_basic_block_def
        sample_dominators_def reduce_seq_def or_empty_def)
  note seq = this
  have fifteen: "(15 :: nat) = Suc (Suc (Suc (Suc (Suc (Suc (Suc (Suc (Suc (Suc (Suc (Suc (Suc (Suc (Suc 0))))))))))))))" by simp
  have "make_seq_region ?b 15 2 = Ok (Some (Seq (Seq (BasicBlock [2]) (CondRegion (BasicBlock [3]) (BasicBlock [4]) (BasicBlock [5])))
        (CondRegion (BasicBlock [6]) (BasicBlock [7]) (BasicBlock [8]))), 1)"
    unfolding fifteen by (rule seq)
  then show thesis using that sm(1)
    by (simp add: ArrowFunction_parse_def Region_from_cfg_def sample_edges [simplified] c [simplified])
qed

theorem ArrowFunction_parse_correct_witness:
  "\<exists>sm r. ArrowFunction_parse sample_dominators 15 sample_body = Ok (sm, r) \<and>
     region_trace sm (\<lambda>_. True) r = [SExpr (EIdent ''log''), SIf (EIdent ''a'') (SBlock [SDecl True]) (Some (SExpr EOther)),
       SDecl True, SIf (EIdent ''b'') (SReturn None) None, SReturn None]"
proof -
  obtain sm r where p: "ArrowFunction_parse sample_dominators 15 sample_body = Ok (sm, r)" by (rule sample_parse)
  have "sample_body \<noteq> []" "list_all no_empty_block sample_body" by (auto simp: sample_body_def)
  from ArrowFunction_parse_correct [OF this p] p show ?thesis by (simp add: sample_body_def)
qed


definition decision_body :: "js_stmt list" where
  "decision_body = [SIf person_age_test (SBlock [return_action ''Skip'']) None, return_action ''Allow'']"


end
