(* ===== verification/Rewrite.thy ===== *)
theory Rewrite
  imports Policy_Rules Expr
begin

text \<open>
  \<open>chiselc/src/rewrite.rs\<close>, \<open>transforms/\<close>, \<open>query.rs\<close>, \<open>filtering.rs\<close>, \<open>symbols.rs\<close> and \<open>utils.rs\<close>: the
  compiler looks for calls of \<open>filter\<close>, \<open>findMany\<close> and \<open>findOne\<close> on entities, translates the lambda
  they are given into a query expression, and puts that expression, as an object literal, beside the
  lambda.  The server reads the object as an expression of \<open>datastore/expr.rs\<close>.

  A syntax tree keeps what the compiler inspects or builds; spans, type annotations and modifiers are
  left out.  Constructors named \<open>Other\<close> stand for all the syntax the rewriter copies unchanged; their
  number only tells such nodes apart.
\<close>

subsection \<open>Syntax trees\<close>

datatype ts_pat = PatIdent string | PatOther nat

datatype ts_prop_name = NameIdent string | NameStr string | NameOther nat

datatype ts_expr =
    TArrow "ts_pat list" ts_body
  | TAwait ts_expr
  | TBin js_binary ts_expr ts_expr
  | TCall ts_callee "(bool \<times> ts_expr) list" "nat option"
  | TIdent string
  | TLit js_lit
  | TMember ts_expr ts_member
  | TObject "ts_prop list"
  | TParen ts_expr
  | TOther nat
and ts_member = MemberIdent string | MemberComputed ts_expr | MemberPrivate string
and ts_callee = CalleeExpr ts_expr | CalleeSuper | CalleeImport
and ts_prop = KeyValue ts_prop_name ts_expr | Shorthand string | PropOther nat | SpreadProp ts_expr
and ts_body = BodyBlock "ts_stmt list" | BodyExpr ts_expr
and ts_stmt =
    StmtDeclVar "(ts_pat \<times> ts_expr option) list"
  | StmtDeclOther nat
  | StmtExpr ts_expr
  | StmtReturn "ts_expr option"
  | StmtOther nat

text \<open>A call: what is called, the arguments with their spread flags, and the type arguments.\<close>

type_synonym ts_args = "(bool \<times> ts_expr) list"
type_synonym ts_call = "ts_callee \<times> ts_args \<times> nat option"

datatype module_item = ExportDefaultFn "ts_stmt list option" | ModuleDeclOther nat | ModuleStmt ts_stmt

subsection \<open>Symbols and helpers\<close>

type_synonym symbols = "string list"

definition register_entity :: "string \<Rightarrow> symbols \<Rightarrow> symbols" where
  "register_entity type_name symbols = List.insert type_name symbols"

definition is_entity :: "symbols \<Rightarrow> string \<Rightarrow> bool" where
  "is_entity symbols type_name \<longleftrightarrow> type_name \<in> set symbols"

definition is_ident_member_prop :: "ts_member \<Rightarrow> string \<Rightarrow> bool" where
  "is_ident_member_prop member_prop v = (case member_prop of MemberIdent nm \<Rightarrow> nm = v | _ \<Rightarrow> False)"

definition ident_to_string :: "ts_expr \<Rightarrow> string option" where
  "ident_to_string e = (case e of TIdent nm \<Rightarrow> Some nm | _ \<Rightarrow> None)"

definition is_call_to_entity_method :: "ts_expr \<Rightarrow> string \<Rightarrow> symbols \<Rightarrow> bool" where
  "is_call_to_entity_method e method symbols =
     (case e of
        TMember obj p \<Rightarrow>
          (case ident_to_string obj of
             Some ty \<Rightarrow> is_entity symbols ty \<and> is_ident_member_prop p method
           | None \<Rightarrow> is_ident_member_prop p method)
      | _ \<Rightarrow> False)"

definition pat_to_string :: "ts_pat \<Rightarrow> string option" where
  "pat_to_string p = (case p of PatIdent nm \<Rightarrow> Some nm | PatOther _ \<Rightarrow> None)"

subsection \<open>The query representation\<close>

datatype q_value = QBool bool | QNum f64 | QStr string

datatype q_binary_op = QAnd | QEq | QGt | QGtEq | QLt | QLtEq | QNotEq | QOr

datatype q_expr =
    QBinaryExpr q_expr q_binary_op q_expr
  | QPropertyAccess q_expr string
  | QIdentifier string
  | QValue q_value

record q_scan =
  qs_entity_type :: string
  qs_alias :: string

record q_filter =
  qf_function :: string
  qf_call_expr :: ts_call
  qf_query_expr :: ts_expr
  qf_post_expr :: "ts_expr option"
  qf_parameters :: "string list"
  qf_predicate :: q_expr
  qf_input :: q_scan

text \<open>An \<open>IndexSet\<close> is the list of its elements in the order of their first insertion.\<close>

definition index_insert :: "'a \<Rightarrow> 'a list \<Rightarrow> 'a list" where
  "index_insert x xs = (if x \<in> set xs then xs else xs @ [x])"

fun expr_to_props :: "q_expr \<Rightarrow> string list \<Rightarrow> string list" where
  "expr_to_props (QBinaryExpr l _ r) props = expr_to_props r (expr_to_props l props)"
| "expr_to_props (QPropertyAccess _ property) props = index_insert property props"
| "expr_to_props _ props = props"

definition filter_props :: "q_filter \<Rightarrow> string list" where
  "filter_props f = expr_to_props (qf_predicate f) []"

record filter_properties =
  fpr_entity_name :: string
  fpr_properties :: "string list"

definition from_filter :: "string \<Rightarrow> q_filter \<Rightarrow> filter_properties option" where
  "from_filter name f =
     (let properties = filter_props f
      in if properties \<noteq> [] then Some \<lparr>fpr_entity_name = name, fpr_properties = properties\<rparr> else None)"

definition prop_name_to_string :: "ts_prop_name \<Rightarrow> string option" where
  "prop_name_to_string n = (case n of NameIdent s \<Rightarrow> Some s | NameStr s \<Rightarrow> Some s | NameOther _ \<Rightarrow> None)"

definition object_lit_step :: "ts_prop \<Rightarrow> string list \<Rightarrow> string list res" where
  "object_lit_step p properties =
     (case p of
        KeyValue key _ \<Rightarrow>
          Ok (case prop_name_to_string key of Some name \<Rightarrow> index_insert name properties | None \<Rightarrow> properties)
      | Shorthand ident \<Rightarrow> Ok (index_insert ident properties)
      | PropOther _ \<Rightarrow> Panic ''not yet implemented''
      | SpreadProp _ \<Rightarrow> Panic ''not yet implemented'')"

definition from_object_lit :: "string \<Rightarrow> ts_prop list \<Rightarrow> filter_properties option res" where
  "from_object_lit name ps =
     r_bind (r_fold object_lit_step ps []) (\<lambda>properties.
     Ok (if properties \<noteq> [] then Some \<lparr>fpr_entity_name = name, fpr_properties = properties\<rparr> else None))"

subsection \<open>From lambdas to queries\<close>

definition convert_binary_op :: "js_binary \<Rightarrow> q_binary_op option" where
  "convert_binary_op op =
     (case op of
        EqEq \<Rightarrow> Some QEq
      | JGt \<Rightarrow> Some QGt
      | JGtEq \<Rightarrow> Some QGtEq
      | JLt \<Rightarrow> Some QLt
      | JLtEq \<Rightarrow> Some QLtEq
      | NotEq \<Rightarrow> Some QNotEq
      | LogicalAnd \<Rightarrow> Some QAnd
      | LogicalOr \<Rightarrow> Some QOr
      | OtherBinary _ \<Rightarrow> None)"

text \<open>\<open>convert_bin_expr\<close> converts both sides before it looks at what they gave.\<close>

function (sequential) convert_expr :: "ts_expr \<Rightarrow> q_expr option res"
  and convert_bin_expr :: "js_binary \<Rightarrow> ts_expr \<Rightarrow> ts_expr \<Rightarrow> q_expr option res" where
  "convert_expr (TBin op l r) = convert_bin_expr op l r"
| "convert_expr (TParen e) = convert_expr e"
| "convert_expr (TLit (LNum n)) = Ok (Some (QValue (QNum n)))"
| "convert_expr (TLit (LStr s)) = Ok (Some (QValue (QStr s)))"
| "convert_expr (TMember obj p) =
     r_bind (convert_expr obj) (\<lambda>o'.
     case o' of
       None \<Rightarrow> Ok None
     | Some obj \<Rightarrow>
         (case p of
            MemberIdent nm \<Rightarrow> Ok (Some (QPropertyAccess obj nm))
          | _ \<Rightarrow> Panic ''not yet implemented''))"
| "convert_expr (TIdent nm) = Ok (Some (QIdentifier nm))"
| "convert_expr _ = Ok None"
| "convert_bin_expr op l r =
     r_bind (convert_expr l) (\<lambda>left.
     r_bind (convert_expr r) (\<lambda>right.
     Ok (case (left, convert_binary_op op, right) of
           (Some left, Some op, Some right) \<Rightarrow> Some (QBinaryExpr left op right)
         | _ \<Rightarrow> None)))"
  by pat_completeness auto

termination convert_expr
  by (relation "measure (case_sum (\<lambda>e. 2 * size e) (\<lambda>(_, l, r). Suc (2 * (size l + size r))))") auto

definition convert_filter_expr :: "ts_expr \<Rightarrow> q_expr option res" where
  "convert_filter_expr e =
     (case e of
        TBin op l r \<Rightarrow> convert_bin_expr op l r
      | TLit (LBool b) \<Rightarrow> Ok (Some (QValue (QBool b)))
      | _ \<Rightarrow> Ok None)"

definition split_and_convert_expr :: "ts_expr \<Rightarrow> ((ts_expr \<times> q_expr) option \<times> ts_expr option) res" where
  "split_and_convert_expr e =
     r_bind (convert_filter_expr e) (\<lambda>q.
     case q of
       Some qexpr \<Rightarrow> Ok (Some (e, qexpr), None)
     | None \<Rightarrow>
         (case e of
            TBin LogicalAnd left right \<Rightarrow>
              r_bind (convert_filter_expr left) (\<lambda>ql.
              Ok (case ql of Some qleft \<Rightarrow> (Some (left, qleft), Some right) | None \<Rightarrow> (None, None)))
          | _ \<Rightarrow> Ok (None, None)))"

definition rewrite_filter_arrow :: "ts_pat list \<Rightarrow> ts_body \<Rightarrow> ts_expr \<Rightarrow> ts_expr res" where
  "rewrite_filter_arrow params body e =
     (case body of
        BodyBlock stmts \<Rightarrow>
          (case stmts of
             [StmtReturn (Some _)] \<Rightarrow> Ok (TArrow params (BodyBlock [StmtReturn (Some e)]))
           | [_] \<Rightarrow> Panic ''not yet implemented''
           | _ \<Rightarrow> Panic ''assertion failed'')
      | BodyExpr _ \<Rightarrow> Ok (TArrow params (BodyExpr e)))"

fun lookup_entity_type :: "ts_expr \<Rightarrow> string res"
  and lookup_callee_entity_type :: "ts_callee \<Rightarrow> string res" where
  "lookup_entity_type (TMember obj _) = lookup_entity_type obj"
| "lookup_entity_type (TCall callee _ _) = lookup_callee_entity_type callee"
| "lookup_entity_type (TIdent nm) = Ok nm"
| "lookup_entity_type _ = Err (Bail ''Failed to look up entity type from call chain'' [])"
| "lookup_callee_entity_type (CalleeExpr e) = lookup_entity_type e"
| "lookup_callee_entity_type _ = Panic ''not yet implemented''"

text \<open>The expression a lambda returns, when its body is nothing but that.\<close>

definition lambda_expr :: "ts_body \<Rightarrow> ts_expr option res" where
  "lambda_expr body =
     (case body of
        BodyBlock [StmtReturn (Some e)] \<Rightarrow> Ok (Some e)
      | BodyBlock [StmtReturn None] \<Rightarrow> Panic ''not yet implemented''
      | BodyBlock _ \<Rightarrow> Ok None
      | BodyExpr e \<Rightarrow> Ok (Some e))"

definition extract_filter :: "ts_call \<Rightarrow> string \<Rightarrow> string \<Rightarrow> (q_filter option \<times> filter_properties option) res" where
  "extract_filter call_expr entity_type function =
     (case call_expr of (callee, args, type_args) \<Rightarrow>
        (case args of
           [(_, TArrow params body)] \<Rightarrow>
             (case params of
                [p] \<Rightarrow>
                  r_bind (unwrap ''called Option::unwrap() on a None value'' (pat_to_string p)) (\<lambda>param.
                  r_bind (lambda_expr body) (\<lambda>e.
                  case e of
                    None \<Rightarrow> Ok (None, None)
                  | Some e \<Rightarrow>
                      r_bind (split_and_convert_expr e) (\<lambda>(query, post_expr).
                      case query of
                        None \<Rightarrow> Ok (None, None)
                      | Some (query_expr, predicate) \<Rightarrow>
                          r_bind (rewrite_filter_arrow params body query_expr) (\<lambda>query_expr.
                          r_bind (case post_expr of
                                    Some post \<Rightarrow> r_map_ok Some (rewrite_filter_arrow params body post)
                                  | None \<Rightarrow> Ok None) (\<lambda>post_expr.
                          let filt = \<lparr>qf_function = function, qf_call_expr = call_expr, qf_query_expr = query_expr,
                                qf_post_expr = post_expr, qf_parameters = [param], qf_predicate = predicate,
                                qf_input = \<lparr>qs_entity_type = entity_type, qs_alias = param\<rparr>\<rparr>
                          in Ok (Some filt, from_filter entity_type filt))))))
              | _ \<Rightarrow> Ok (None, None))
         | [(_, TObject object_lit)] \<Rightarrow> r_bind (from_object_lit entity_type object_lit) (\<lambda>ps. Ok (None, ps))
         | _ \<Rightarrow> Ok (None, None)))"

definition is_rewritable_filter :: "ts_callee \<Rightarrow> symbols \<Rightarrow> bool" where
  "is_rewritable_filter callee symbols =
     (case callee of
        CalleeExpr (TMember obj p) \<Rightarrow>
          is_ident_member_prop p ''filter'' \<and>
          (case obj of TCall (CalleeExpr e) _ _ \<Rightarrow> is_call_to_entity_method e ''cursor'' symbols | _ \<Rightarrow> False)
      | _ \<Rightarrow> False)"

definition infer_filter :: "ts_call \<Rightarrow> symbols \<Rightarrow> (q_filter option \<times> filter_properties option) res" where
  "infer_filter call_expr symbols =
     (if \<not> is_rewritable_filter (fst call_expr) symbols then Ok (None, None)
      else
        case lookup_callee_entity_type (fst call_expr) of
          Ok entity_type \<Rightarrow> extract_filter call_expr entity_type ''__filter''
        | Err _ \<Rightarrow> Ok (None, None)
        | Panic p \<Rightarrow> Panic p)"

definition is_rewritable_find :: "string \<Rightarrow> ts_callee \<Rightarrow> symbols \<Rightarrow> bool" where
  "is_rewritable_find function callee symbols =
     (case callee of CalleeExpr e \<Rightarrow> is_call_to_entity_method e function symbols | _ \<Rightarrow> False)"

definition infer_rewritable_find :: "ts_call \<Rightarrow> symbols \<Rightarrow> string option" where
  "infer_rewritable_find call_expr symbols =
     (if is_rewritable_find ''findMany'' (fst call_expr) symbols then Some ''__findMany''
      else if is_rewritable_find ''findOne'' (fst call_expr) symbols then Some ''__findOne''
      else None)"

definition infer_find :: "ts_call \<Rightarrow> symbols \<Rightarrow> (q_filter option \<times> filter_properties option) res" where
  "infer_find call_expr symbols =
     (case infer_rewritable_find call_expr symbols of
        None \<Rightarrow> Ok (None, None)
      | Some function \<Rightarrow>
          (case lookup_callee_entity_type (fst call_expr) of
             Ok entity_type \<Rightarrow> extract_filter call_expr entity_type function
           | Err _ \<Rightarrow> Ok (None, None)
           | Panic p \<Rightarrow> Panic p))"

subsection \<open>Emitting the query as syntax\<close>

definition make_str_lit :: "string \<Rightarrow> ts_expr" where "make_str_lit s = TLit (LStr s)"
definition make_num_lit :: "f64 \<Rightarrow> ts_expr" where "make_num_lit n = TLit (LNum n)"
definition make_bool_lit :: "bool \<Rightarrow> ts_expr" where "make_bool_lit b = TLit (LBool b)"

definition make_expr_type :: "string \<Rightarrow> ts_prop" where
  "make_expr_type s = KeyValue (NameIdent ''exprType'') (make_str_lit s)"

definition binary_op_to_ts :: "q_binary_op \<Rightarrow> ts_expr" where
  "binary_op_to_ts op = make_str_lit
     (case op of QAnd \<Rightarrow> ''And'' | QEq \<Rightarrow> ''Eq'' | QGt \<Rightarrow> ''Gt'' | QGtEq \<Rightarrow> ''GtEq'' | QLt \<Rightarrow> ''Lt''
        | QLtEq \<Rightarrow> ''LtEq'' | QNotEq \<Rightarrow> ''NotEq'' | QOr \<Rightarrow> ''Or'')"

fun param_position :: "string \<Rightarrow> string list \<Rightarrow> nat option" where
  "param_position x [] = None"
| "param_position x (y # ys) = (if y = x then Some 0 else map_option Suc (param_position x ys))"

definition identifier_to_ts :: "string \<Rightarrow> string list \<Rightarrow> ts_expr" where
  "identifier_to_ts ident params =
     TObject (case param_position ident params of
        Some pos \<Rightarrow> [make_expr_type ''Parameter'', KeyValue (NameIdent ''position'') (make_num_lit (f64_of_nat pos))]
      | None \<Rightarrow> [make_expr_type ''Value'', KeyValue (NameIdent ''value'') (TIdent ident)])"

definition value_to_ts :: "q_value \<Rightarrow> ts_expr" where
  "value_to_ts lit =
     TObject [make_expr_type ''Value'', KeyValue (NameIdent ''value'')
       (case lit of QBool v \<Rightarrow> make_bool_lit v | QStr s \<Rightarrow> make_str_lit s | QNum n \<Rightarrow> make_num_lit n)]"

fun expr_to_ts :: "q_expr \<Rightarrow> string list \<Rightarrow> ts_expr" where
  "expr_to_ts (QBinaryExpr l op r) params =
     TObject [make_expr_type ''Binary'', KeyValue (NameIdent ''left'') (expr_to_ts l params),
       KeyValue (NameIdent ''op'') (binary_op_to_ts op), KeyValue (NameIdent ''right'') (expr_to_ts r params)]"
| "expr_to_ts (QPropertyAccess obj property) params =
     TObject [make_expr_type ''Property'', KeyValue (NameIdent ''object'') (expr_to_ts obj params),
       KeyValue (NameIdent ''property'') (make_str_lit property)]"
| "expr_to_ts (QIdentifier ident) params = identifier_to_ts ident params"
| "expr_to_ts (QValue v) params = value_to_ts v"

definition filter_to_ts :: "q_filter \<Rightarrow> ts_expr" where
  "filter_to_ts f = expr_to_ts (qf_predicate f) (qf_parameters f)"

definition rewrite_filter_callee :: "ts_callee \<Rightarrow> string \<Rightarrow> ts_callee res" where
  "rewrite_filter_callee callee function =
     (case callee of
        CalleeExpr (TMember obj _) \<Rightarrow> Ok (CalleeExpr (TMember obj (MemberIdent function)))
      | _ \<Rightarrow> Panic ''not yet implemented'')"

definition to_ts_expr :: "q_filter \<Rightarrow> ts_call res" where
  "to_ts_expr f =
     r_bind (rewrite_filter_callee (fst (qf_call_expr f)) (qf_function f)) (\<lambda>callee.
     Ok (callee,
         [(False, qf_query_expr f), (False, filter_to_ts f)] @ (case qf_post_expr f of Some post \<Rightarrow> [(False, post)] | None \<Rightarrow> []),
         None))"


subsection \<open>The rewriter\<close>

datatype target = JavaScript | TypeScript | FilterPropertiesTarget

definition Target_from_str :: "string \<Rightarrow> (string, target) result" where
  "Target_from_str s =
     (if s = ''js'' then Ok JavaScript else if s = ''ts'' then Ok TypeScript
      else if s = ''filter-properties'' then Ok FilterPropertiesTarget else Err ''Unknown target'')"

text \<open>The properties of the filters found so far are the state of the rewriter.\<close>

type_synonym indexes = "filter_properties list"
type_synonym 'a rewriting = "indexes \<Rightarrow> ('a \<times> indexes) res"

definition push_index :: "filter_properties option \<Rightarrow> indexes \<Rightarrow> indexes" where
  "push_index index indexes = (case index of Some i \<Rightarrow> indexes @ [i] | None \<Rightarrow> indexes)"

text \<open>What becomes of a call that is a query, \<open>None\<close> for every other call.\<close>

definition rewrite_query_call :: "symbols \<Rightarrow> ts_call \<Rightarrow> ts_call option rewriting" where
  "rewrite_query_call symbols call_expr indexes =
     r_bind (infer_filter call_expr symbols) (\<lambda>(filt, index).
     let indexes = push_index index indexes in
     case filt of
       Some f \<Rightarrow> r_bind (to_ts_expr f) (\<lambda>c. Ok (Some c, indexes))
     | None \<Rightarrow>
         r_bind (infer_find call_expr symbols) (\<lambda>(filt, index).
         let indexes = push_index index indexes in
         case filt of
           Some f \<Rightarrow> r_bind (to_ts_expr f) (\<lambda>c. Ok (Some c, indexes))
         | None \<Rightarrow> Ok (None, indexes)))"

text \<open>The methods of \<open>Rewriter\<close>, with the recursive call to \<open>rewrite_expr\<close> as their argument.\<close>

fun rewrite_list :: "('a \<Rightarrow> 'a rewriting) \<Rightarrow> 'a list \<Rightarrow> 'a list rewriting" where
  "rewrite_list f [] ix = Ok ([], ix)"
| "rewrite_list f (x # xs) ix =
     r_bind (f x ix) (\<lambda>(x, ix).
     r_bind (rewrite_list f xs ix) (\<lambda>(xs, ix).
     Ok (x # xs, ix)))"

definition rewrite_var_declarator :: "(ts_expr \<Rightarrow> ts_expr rewriting) \<Rightarrow> ts_pat \<times> ts_expr option \<Rightarrow> (ts_pat \<times> ts_expr option) rewriting" where
  "rewrite_var_declarator f d ix =
     (case d of
        (name, Some init) \<Rightarrow> r_bind (f init ix) (\<lambda>(init, ix). Ok ((name, Some init), ix))
      | (name, None) \<Rightarrow> Ok ((name, None), ix))"

definition rewrite_stmt :: "(ts_expr \<Rightarrow> ts_expr rewriting) \<Rightarrow> ts_stmt \<Rightarrow> ts_stmt rewriting" where
  "rewrite_stmt f stmt ix =
     (case stmt of
        StmtDeclVar decls \<Rightarrow> r_bind (rewrite_list (rewrite_var_declarator f) decls ix) (\<lambda>(decls, ix). Ok (StmtDeclVar decls, ix))
      | StmtExpr e \<Rightarrow> r_bind (f e ix) (\<lambda>(e, ix). Ok (StmtExpr e, ix))
      | _ \<Rightarrow> Ok (stmt, ix))"

definition rewrite_block_stmt :: "(ts_expr \<Rightarrow> ts_expr rewriting) \<Rightarrow> ts_stmt list \<Rightarrow> ts_stmt list rewriting" where
  "rewrite_block_stmt f stmts ix = rewrite_list (rewrite_stmt f) stmts ix"

definition rewrite_body :: "(ts_expr \<Rightarrow> ts_expr rewriting) \<Rightarrow> ts_body \<Rightarrow> ts_body rewriting" where
  "rewrite_body f body ix =
     (case body of
        BodyBlock stmts \<Rightarrow> r_bind (rewrite_block_stmt f stmts ix) (\<lambda>(stmts, ix). Ok (BodyBlock stmts, ix))
      | BodyExpr e \<Rightarrow> r_bind (f e ix) (\<lambda>(e, ix). Ok (BodyExpr e, ix)))"

definition rewrite_callee :: "(ts_expr \<Rightarrow> ts_expr rewriting) \<Rightarrow> ts_callee \<Rightarrow> ts_callee rewriting" where
  "rewrite_callee f callee ix =
     (case callee of
        CalleeExpr e \<Rightarrow> r_bind (f e ix) (\<lambda>(e, ix). Ok (CalleeExpr e, ix))
      | _ \<Rightarrow> Ok (callee, ix))"

definition rewrite_expr_or_spread :: "(ts_expr \<Rightarrow> ts_expr rewriting) \<Rightarrow> bool \<times> ts_expr \<Rightarrow> (bool \<times> ts_expr) rewriting" where
  "rewrite_expr_or_spread f a ix = (case a of (spread, e) \<Rightarrow> r_bind (f e ix) (\<lambda>(e, ix). Ok ((spread, e), ix)))"

definition stmt_exprs :: "ts_stmt \<Rightarrow> ts_expr set" where
  "stmt_exprs stmt =
     (case stmt of
        StmtDeclVar decls \<Rightarrow> {e. Some e \<in> snd ` set decls}
      | StmtExpr e \<Rightarrow> {e}
      | StmtReturn (Some e) \<Rightarrow> {e}
      | _ \<Rightarrow> {})"

definition body_exprs :: "ts_body \<Rightarrow> ts_expr set" where
  "body_exprs body = (case body of BodyBlock stmts \<Rightarrow> \<Union> (stmt_exprs ` set stmts) | BodyExpr e \<Rightarrow> {e})"

lemma rewrite_list_cong [fundef_cong]:
  assumes "xs = ys" "\<And>x s. x \<in> set ys \<Longrightarrow> f x s = g x s" "ix = iy"
  shows "rewrite_list f xs ix = rewrite_list g ys iy"
  using assms(2) unfolding assms(1,3)
  by (induction ys arbitrary: iy) (auto intro!: r_bind_cong split: prod.splits)

lemma rewrite_stmt_cong [fundef_cong]:
  assumes "stmt = stmt'" "\<And>e s. e \<in> stmt_exprs stmt' \<Longrightarrow> f e s = g e s" "ix = iy"
  shows "rewrite_stmt f stmt ix = rewrite_stmt g stmt' iy"
proof -
  have "rewrite_list (rewrite_var_declarator f) decls iy = rewrite_list (rewrite_var_declarator g) decls iy" if "stmt' = StmtDeclVar decls" for decls
    using assms(2) that
    by (intro rewrite_list_cong) (force simp: rewrite_var_declarator_def stmt_exprs_def split: option.splits prod.splits)+
  then show ?thesis using assms(2) unfolding assms(1,3)
    by (auto simp: rewrite_stmt_def stmt_exprs_def split: ts_stmt.splits)
qed

lemma rewrite_body_cong [fundef_cong]:
  assumes "body = body'" "\<And>e s. e \<in> body_exprs body' \<Longrightarrow> f e s = g e s" "ix = iy"
  shows "rewrite_body f body ix = rewrite_body g body' iy"
proof -
  have "rewrite_list (rewrite_stmt f) stmts iy = rewrite_list (rewrite_stmt g) stmts iy" if "body' = BodyBlock stmts" for stmts
    using assms(2) that by (intro rewrite_list_cong rewrite_stmt_cong) (auto simp: body_exprs_def)
  then show ?thesis using assms(2) unfolding assms(1,3)
    by (auto simp: rewrite_body_def rewrite_block_stmt_def body_exprs_def split: ts_body.splits)
qed

lemma rewrite_callee_cong [fundef_cong]:
  assumes "callee = callee'" "\<And>e s. callee' = CalleeExpr e \<Longrightarrow> f e s = g e s" "ix = iy"
  shows "rewrite_callee f callee ix = rewrite_callee g callee' iy"
  using assms by (cases callee') (auto simp: rewrite_callee_def)

lemma rewrite_expr_or_spread_cong [fundef_cong]:
  assumes "a = a'" "\<And>s. f (snd a') s = g (snd a') s" "ix = iy"
  shows "rewrite_expr_or_spread f a ix = rewrite_expr_or_spread g a' iy"
  using assms by (cases a') (auto simp: rewrite_expr_or_spread_def)

lemma size_stmt_expr: "e \<in> stmt_exprs stmt \<Longrightarrow> size e < size stmt"
proof (cases stmt)
  case (StmtDeclVar decls)
  have "(a, Some e) \<in> set decls \<Longrightarrow> size e < size (StmtDeclVar decls)" for a
    by (induction decls) fastforce+
  then have "Some e \<in> snd ` set decls \<Longrightarrow> size e < size (StmtDeclVar decls)" by fastforce
  then show "e \<in> stmt_exprs stmt \<Longrightarrow> ?thesis" by (simp add: StmtDeclVar stmt_exprs_def)
qed (auto simp: stmt_exprs_def split: option.splits)

lemma size_body_expr [termination_simp]: "e \<in> body_exprs body \<Longrightarrow> size e < Suc (size body)"
proof (cases body)
  case (BodyBlock stmts)
  have "stmt \<in> set stmts \<Longrightarrow> e \<in> stmt_exprs stmt \<Longrightarrow> size e < size (BodyBlock stmts)" for stmt
    using size_stmt_expr [of e stmt] by (induction stmts) fastforce+
  then show "e \<in> body_exprs body \<Longrightarrow> ?thesis" unfolding BodyBlock body_exprs_def ts_body.case by (blast intro: less_SucI)
qed (auto simp: body_exprs_def)

lemma size_snd_arg [termination_simp]: "a \<in> set args \<Longrightarrow> size (snd a) < Suc (n + size_list (size_prod (\<lambda>_. 0) size) args)"
  by (induction args) auto

fun rewrite_expr :: "symbols \<Rightarrow> ts_expr \<Rightarrow> ts_expr rewriting" where
  "rewrite_expr sy (TArrow params body) ix = r_bind (rewrite_body (rewrite_expr sy) body ix) (\<lambda>(body, ix). Ok (TArrow params body, ix))"
| "rewrite_expr sy (TAwait arg) ix = r_bind (rewrite_expr sy arg ix) (\<lambda>(arg, ix). Ok (TAwait arg, ix))"
| "rewrite_expr sy (TCall callee args type_args) ix =
     r_bind (rewrite_query_call sy (callee, args, type_args) ix) (\<lambda>(c, ix).
     case c of
       Some (callee, args, type_args) \<Rightarrow> Ok (TCall callee args type_args, ix)
     | None \<Rightarrow>
         r_bind (rewrite_list (rewrite_expr_or_spread (rewrite_expr sy)) args ix) (\<lambda>(args, ix).
         r_bind (rewrite_callee (rewrite_expr sy) callee ix) (\<lambda>(callee, ix).
         Ok (TCall callee args type_args, ix))))"
| "rewrite_expr sy (TMember obj p) ix = r_bind (rewrite_expr sy obj ix) (\<lambda>(obj, ix). Ok (TMember obj p, ix))"
| "rewrite_expr sy e ix = Ok (e, ix)"

definition rewrite_item :: "symbols \<Rightarrow> module_item \<Rightarrow> module_item rewriting" where
  "rewrite_item sy item ix =
     (case item of
        ExportDefaultFn body \<Rightarrow>
          (case body of
             Some stmts \<Rightarrow> r_bind (rewrite_block_stmt (rewrite_expr sy) stmts ix) (\<lambda>(stmts, ix). Ok (ExportDefaultFn (Some stmts), ix))
           | None \<Rightarrow> Ok (ExportDefaultFn None, ix))
      | ModuleDeclOther n \<Rightarrow> Ok (ModuleDeclOther n, ix)
      | ModuleStmt stmt \<Rightarrow> r_bind (rewrite_stmt (rewrite_expr sy) stmt ix) (\<lambda>(stmt, ix). Ok (ModuleStmt stmt, ix)))"

definition rewrite :: "symbols \<Rightarrow> module_item list \<Rightarrow> (module_item list \<times> indexes) res" where
  "rewrite sy body = rewrite_list (rewrite_item sy) body []"

subsection \<open>Reading the emitted expression\<close>

text \<open>
  At run time the emitted object literal is evaluated, its identifiers by the variables of the
  program, and handed to the server.  \<open>num\<close> is the number a double becomes on the way.
\<close>

fun js_literal :: "(f64 \<Rightarrow> jnum) \<Rightarrow> js_lit \<Rightarrow> json option" where
  "js_literal num (LStr s) = Some (JString s)"
| "js_literal num (LBool b) = Some (JBool b)"
| "js_literal num LNull = Some JNull"
| "js_literal num (LNum n) = Some (JNumber (num n))"
| "js_literal num _ = None"

fun js_object :: "(f64 \<Rightarrow> jnum) \<Rightarrow> (string \<Rightarrow> json) \<Rightarrow> ts_expr \<Rightarrow> json option"
  and js_members :: "(f64 \<Rightarrow> jnum) \<Rightarrow> (string \<Rightarrow> json) \<Rightarrow> ts_prop list \<Rightarrow> (string \<times> json) list option" where
  "js_object num vars (TLit l) = js_literal num l"
| "js_object num vars (TIdent x) = Some (vars x)"
| "js_object num vars (TObject ps) = map_option JObject (js_members num vars ps)"
| "js_object num vars _ = None"
| "js_members num vars [] = Some []"
| "js_members num vars (KeyValue (NameIdent k) e # ps) =
     (case (js_object num vars e, js_members num vars ps) of
        (Some j, Some m) \<Rightarrow> Some ((k, j) # m)
      | _ \<Rightarrow> None)"
| "js_members num vars _ = None"

text \<open>\<open>Deserialize\<close> as derived for \<open>Value\<close> (untagged), \<open>BinaryOp\<close> and \<open>Expr\<close> (tagged by \<open>exprType\<close>).\<close>

definition Value_deserialize :: "json \<Rightarrow> expr_value option" where
  "Value_deserialize j =
     (case j of
        JBool b \<Rightarrow> Some (VBool b)
      | JNumber (PosInt n) \<Rightarrow> Some (VU64 n)
      | JNumber (NegInt n) \<Rightarrow> Some (VI64 n)
      | JNumber (FloatNum f) \<Rightarrow> Some (VF64 f)
      | JString s \<Rightarrow> Some (VString s)
      | JNull \<Rightarrow> Some VNull
      | _ \<Rightarrow> None)"

definition BinaryOp_deserialize :: "json \<Rightarrow> binary_op option" where
  "BinaryOp_deserialize j =
     (case j of
        JString s \<Rightarrow> map_of [(''Eq'', OpEq), (''NotEq'', OpNotEq), (''Lt'', OpLt), (''LtEq'', OpLtEq), (''Gt'', OpGt),
          (''GtEq'', OpGtEq), (''And'', OpAnd), (''Or'', OpOr), (''Like'', OpLike), (''NotLike'', OpNotLike)] s
      | _ \<Rightarrow> None)"


text \<open>A tagged \<open>Not\<close> keeps no tag for the expression inside it, so reading one always fails.\<close>

lemma size_json_get [termination_simp]: "Some v = map_of m k \<Longrightarrow> size v < Suc (size_list (\<lambda>x. Suc (size (snd x))) m)"
  by (induction m) (auto split: if_splits)

fun Expr_deserialize :: "json \<Rightarrow> expr option" where
  "Expr_deserialize (JObject m) =
     (case map_of m ''exprType'' of
        Some (JString tag) \<Rightarrow>
          if tag = ''Value''
          then (case map_of m ''value'' of Some v \<Rightarrow> map_option Value (Value_deserialize v) | None \<Rightarrow> None)
          else if tag = ''Parameter''
          then (case map_of m ''position'' of Some (JNumber (PosInt n)) \<Rightarrow> Some (Parameter (unat n)) | _ \<Rightarrow> None)
          else if tag = ''Property''
          then (case (map_of m ''object'', map_of m ''property'') of
                  (Some obj, Some (JString p)) \<Rightarrow> map_option (Property p) (Expr_deserialize obj)
                | _ \<Rightarrow> None)
          else if tag = ''Binary''
          then (case (map_of m ''left'', map_of m ''op'', map_of m ''right'') of
                  (Some l, Some op, Some r) \<Rightarrow>
                    (case (Expr_deserialize l, BinaryOp_deserialize op, Expr_deserialize r) of
                       (Some l, Some op, Some r) \<Rightarrow> Some (Binary l op r)
                     | _ \<Rightarrow> None)
                | _ \<Rightarrow> None)
          else None
      | _ \<Rightarrow> None)"
| "Expr_deserialize _ = None"


subsection \<open>Reference meaning\<close>

text \<open>
  The meaning of a lambda over any domain of values: how the operators, the members of an entity and
  the values of the database are interpreted is the algebra's choice, and so is the meaning
  (\<open>la_ext\<close>) of all other syntax.  \<open>vars\<close> are the values of the program's variables.
\<close>

record 'v lambda_algebra =
  la_value :: "expr_value \<Rightarrow> 'v"
  la_param :: 'v
  la_member :: "'v \<Rightarrow> string \<Rightarrow> 'v"
  la_bin :: "binary_op \<Rightarrow> 'v \<Rightarrow> 'v \<Rightarrow> 'v"
  la_not :: "'v \<Rightarrow> 'v"
  la_ext :: "ts_expr \<Rightarrow> 'v"

definition js_op :: "js_binary \<Rightarrow> binary_op option" where
  "js_op op =
     (case op of
        EqEq \<Rightarrow> Some OpEq | NotEq \<Rightarrow> Some OpNotEq | JLt \<Rightarrow> Some OpLt | JLtEq \<Rightarrow> Some OpLtEq | JGt \<Rightarrow> Some OpGt
      | JGtEq \<Rightarrow> Some OpGtEq | LogicalAnd \<Rightarrow> Some OpAnd | LogicalOr \<Rightarrow> Some OpOr | OtherBinary _ \<Rightarrow> None)"

definition json_meaning :: "'v lambda_algebra \<Rightarrow> ts_expr \<Rightarrow> json option \<Rightarrow> 'v" where
  "json_meaning alg e j = (case Option.bind j Value_deserialize of Some v \<Rightarrow> la_value alg v | None \<Rightarrow> la_ext alg e)"

fun eval_lambda :: "'v lambda_algebra \<Rightarrow> (f64 \<Rightarrow> jnum) \<Rightarrow> (string \<Rightarrow> json) \<Rightarrow> string \<Rightarrow> ts_expr \<Rightarrow> 'v" where
  "eval_lambda alg num vars param (TBin op l r) =
     (case js_op op of
        Some op' \<Rightarrow> la_bin alg op' (eval_lambda alg num vars param l) (eval_lambda alg num vars param r)
      | None \<Rightarrow> la_ext alg (TBin op l r))"
| "eval_lambda alg num vars param (TParen e) = eval_lambda alg num vars param e"
| "eval_lambda alg num vars param (TLit l) = json_meaning alg (TLit l) (js_literal num l)"
| "eval_lambda alg num vars param (TIdent x) =
     (if x = param then la_param alg else json_meaning alg (TIdent x) (Some (vars x)))"
| "eval_lambda alg num vars param (TMember obj (MemberIdent p)) = la_member alg (eval_lambda alg num vars param obj) p"
| "eval_lambda alg num vars param e = la_ext alg e"

fun eval_arrow :: "'v lambda_algebra \<Rightarrow> (f64 \<Rightarrow> jnum) \<Rightarrow> (string \<Rightarrow> json) \<Rightarrow> ts_expr \<Rightarrow> 'v option" where
  "eval_arrow alg num vars (TArrow [PatIdent param] body) =
     (case lambda_expr body of Ok (Some e) \<Rightarrow> Some (eval_lambda alg num vars param e) | _ \<Rightarrow> None)"
| "eval_arrow alg num vars _ = None"

fun eval_server :: "'v lambda_algebra \<Rightarrow> expr \<Rightarrow> 'v" where
  "eval_server alg (Value v) = la_value alg v"
| "eval_server alg (Parameter _) = la_param alg"
| "eval_server alg (Property p obj) = la_member alg (eval_server alg obj) p"
| "eval_server alg (Binary l op r) = la_bin alg op (eval_server alg l) (eval_server alg r)"
| "eval_server alg (NotExpr e) = la_not alg (eval_server alg e)"

text \<open>The variables a query uses besides its parameter.\<close>

fun expr_idents :: "ts_expr \<Rightarrow> string set" where
  "expr_idents (TBin _ l r) = expr_idents l \<union> expr_idents r"
| "expr_idents (TParen e) = expr_idents e"
| "expr_idents (TMember obj _) = expr_idents obj"
| "expr_idents (TIdent x) = {x}"
| "expr_idents _ = {}"

fun arrow_idents :: "ts_expr \<Rightarrow> string set" where
  "arrow_idents (TArrow [PatIdent param] body) =
     (case lambda_expr body of Ok (Some e) \<Rightarrow> expr_idents e - {param} | _ \<Rightarrow> {})"
| "arrow_idents _ = {}"

subsection \<open>Queries mean what their lambdas mean\<close>

definition emitted :: "'v lambda_algebra \<Rightarrow> (f64 \<Rightarrow> jnum) \<Rightarrow> (string \<Rightarrow> json) \<Rightarrow> ts_expr \<Rightarrow> 'v \<Rightarrow> bool" where
  "emitted alg num vars obj v \<longleftrightarrow>
     (\<exists>j se. js_object num vars obj = Some j \<and> Expr_deserialize j = Some se \<and> eval_server alg se = v)"

lemma emitted_value:
  "js_object num vars e = Some j \<Longrightarrow> Value_deserialize j = Some v \<Longrightarrow>
   emitted alg num vars (TObject [make_expr_type ''Value'', KeyValue (NameIdent ''value'') e]) (la_value alg v)"
  by (auto simp: emitted_def make_expr_type_def make_str_lit_def)

lemma emitted_property:
  "emitted alg num vars obj v \<Longrightarrow>
   emitted alg num vars (TObject [make_expr_type ''Property'', KeyValue (NameIdent ''object'') obj,
     KeyValue (NameIdent ''property'') (make_str_lit p)]) (la_member alg v p)"
  by (auto simp: emitted_def make_expr_type_def make_str_lit_def)

lemma emitted_binary:
  assumes "emitted alg num vars l v" "emitted alg num vars r w" "convert_binary_op op = Some q" "js_op op = Some op'"
  shows "emitted alg num vars (TObject [make_expr_type ''Binary'', KeyValue (NameIdent ''left'') l,
     KeyValue (NameIdent ''op'') (binary_op_to_ts q), KeyValue (NameIdent ''right'') r]) (la_bin alg op' v w)"
proof -
  have "js_object num vars (binary_op_to_ts q) = Some (JString s) \<and> BinaryOp_deserialize (JString s) = Some op'"
    if "binary_op_to_ts q = make_str_lit s" for s
    using assms(3,4) that unfolding binary_op_to_ts_def make_str_lit_def
    by (cases op) (auto simp: convert_binary_op_def js_op_def BinaryOp_deserialize_def)
  then obtain s where "js_object num vars (binary_op_to_ts q) = Some (JString s)" "BinaryOp_deserialize (JString s) = Some op'"
    unfolding binary_op_to_ts_def by blast
  then show ?thesis using assms(1,2) by (auto simp: emitted_def make_expr_type_def make_str_lit_def)
qed

lemma convert_op: "convert_binary_op op = Some q \<Longrightarrow> \<exists>op'. js_op op = Some op'"
  by (cases op) (auto simp: convert_binary_op_def js_op_def)


definition scalar_vars :: "(string \<Rightarrow> json) \<Rightarrow> string set \<Rightarrow> bool" where
  "scalar_vars vars X \<longleftrightarrow> (\<forall>x \<in> X. Value_deserialize (vars x) \<noteq> None)"

lemma emitted_identifier:
  assumes "num 0 = PosInt 0" "scalar_vars vars ({x} - {param})"
  shows "emitted alg num vars (identifier_to_ts x [param]) (eval_lambda alg num vars param (TIdent x))"
proof (cases "x = param")
  case True
  then show ?thesis using assms(1)
    by (auto simp: identifier_to_ts_def emitted_def make_expr_type_def make_str_lit_def make_num_lit_def f64_of_nat_def)
next
  case False
  with assms(2) obtain v where "Value_deserialize (vars x) = Some v" by (auto simp: scalar_vars_def)
  with False emitted_value [of num vars "TIdent x" "vars x" v alg] show ?thesis
    by (auto simp: identifier_to_ts_def json_meaning_def)
qed

lemma emitted_literal:
  assumes "lit = LNum n \<and> q = QNum n \<or> lit = LStr t \<and> q = QStr t \<or> lit = LBool b \<and> q = QBool b"
  shows "emitted alg num vars (value_to_ts q) (eval_lambda alg num vars param (TLit lit))"
proof -
  have number: "\<exists>v. Value_deserialize (JNumber m) = Some v" for m by (cases m) (auto simp: Value_deserialize_def)
  have scalar: "Value_deserialize (JString t) = Some (VString t)" "Value_deserialize (JBool b) = Some (VBool b)"
    by (simp_all add: Value_deserialize_def)
  obtain j v where jv: "js_literal num lit = Some j" "Value_deserialize j = Some v"
    using assms number [of "num n"] scalar by fastforce
  moreover have "value_to_ts q = TObject [make_expr_type ''Value'', KeyValue (NameIdent ''value'') (TLit lit)]"
    using assms by (auto simp: value_to_ts_def make_num_lit_def make_str_lit_def make_bool_lit_def)
  ultimately show ?thesis using emitted_value [of num vars "TLit lit" j v alg] by (simp add: json_meaning_def)
qed

lemma convert_expr_emitted:
  assumes "num 0 = PosInt 0"
  shows "convert_expr e = Ok (Some q) \<Longrightarrow> scalar_vars vars (expr_idents e - {param}) \<Longrightarrow>
      emitted alg num vars (expr_to_ts q [param]) (eval_lambda alg num vars param e)"
    and "convert_bin_expr op l r = Ok (Some q) \<Longrightarrow> scalar_vars vars (expr_idents (TBin op l r) - {param}) \<Longrightarrow>
      emitted alg num vars (expr_to_ts q [param]) (eval_lambda alg num vars param (TBin op l r))"
proof (induction e and op l r arbitrary: q and q rule: convert_expr_convert_bin_expr.induct)
  case (5 obj p)
  from "5.prems"(1) obtain q' nm where q: "convert_expr obj = Ok (Some q')" "p = MemberIdent nm" "q = QPropertyAccess q' nm"
    by (cases p) (auto simp: r_bind_Ok_iff split: option.splits)
  with 5 show ?case by (auto intro: emitted_property)
next
  case (6 nm)
  then have "q = QIdentifier nm" "scalar_vars vars ({nm} - {param})" by simp_all
  then show ?case using emitted_identifier [of num, OF assms, of vars nm param alg] by (simp del: eval_lambda.simps)
next
  case (8 op l r)
  from "8.prems"(1) obtain a b where "convert_expr l = Ok a" "convert_expr r = Ok b"
      "(case (a, convert_binary_op op, b) of (Some left, Some op, Some right) \<Rightarrow> Some (QBinaryExpr left op right) | _ \<Rightarrow> None) = Some q"
    by (auto simp: r_bind_Ok_iff)
  then obtain ql qr qo where q: "convert_expr l = Ok (Some ql)" "convert_expr r = Ok (Some qr)"
      "convert_binary_op op = Some qo" "q = QBinaryExpr ql qo qr"
    by (cases a; cases b; cases "convert_binary_op op") auto
  obtain op' where op': "js_op op = Some op'" using convert_op [OF q(3)] by blast
  have "scalar_vars vars (expr_idents l - {param})" "scalar_vars vars (expr_idents r - {param})"
    using "8.prems"(2) by (auto simp: scalar_vars_def)
  with "8.IH" q have "emitted alg num vars (expr_to_ts ql [param]) (eval_lambda alg num vars param l)"
    "emitted alg num vars (expr_to_ts qr [param]) (eval_lambda alg num vars param r)" by auto
  from emitted_binary [OF this q(3) op'] show ?case by (simp add: q(4) op')
qed (auto intro: emitted_literal simp del: eval_lambda.simps(3))

lemma convert_filter_emitted:
  assumes "num 0 = PosInt 0" "convert_filter_expr e = Ok (Some q)" "scalar_vars vars (expr_idents e - {param})"
  shows "emitted alg num vars (expr_to_ts q [param]) (eval_lambda alg num vars param e)"
proof -
  consider op l r where "e = TBin op l r" "convert_bin_expr op l r = Ok (Some q)" | b where "e = TLit (LBool b)" "q = QValue (QBool b)"
    using assms(2) by (auto simp: convert_filter_expr_def split: ts_expr.splits js_lit.splits)
  then show ?thesis
  proof cases
    case 1
    then show ?thesis using convert_expr_emitted(2) [of num, OF assms(1)] assms(3) by blast
  next
    case 2
    then show ?thesis by (auto intro: emitted_literal simp del: eval_lambda.simps(3))
  qed
qed

lemma split_and_convert_cases:
  assumes "split_and_convert_expr e = Ok (Some (query, q), post)"
  shows "convert_filter_expr query = Ok (Some q)"
    and "(query = e \<and> post = None) \<or> (\<exists>right. e = TBin LogicalAnd query right \<and> post = Some right)"
  using assms
  by (auto simp: split_and_convert_expr_def r_bind_Ok_iff split: option.splits ts_expr.splits js_binary.splits)

lemma rewrite_filter_arrow_Ok:
  assumes "rewrite_filter_arrow params body e = Ok e'"
  obtains body' where "e' = TArrow params body'" "lambda_expr body' = Ok (Some e)"
  using assms that
  by (auto simp: rewrite_filter_arrow_def lambda_expr_def split: ts_body.splits list.splits ts_stmt.splits option.splits)


text \<open>
  What an extracted filter is: the lambda of the call split in two, and the object that describes the
  first part.
\<close>

lemma extract_filter_Some:
  assumes "extract_filter (callee, args, ta) entity fn = Ok (Some f, props)"
  obtains spread param body e query post where
    "args = [(spread, TArrow [PatIdent param] body)]" "lambda_expr body = Ok (Some e)"
    "split_and_convert_expr e = Ok (Some (query, qf_predicate f), post)"
    "rewrite_filter_arrow [PatIdent param] body query = Ok (qf_query_expr f)"
    "case post of Some p \<Rightarrow> \<exists>p'. rewrite_filter_arrow [PatIdent param] body p = Ok p' \<and> qf_post_expr f = Some p' | None \<Rightarrow> qf_post_expr f = None"
    "qf_parameters f = [param]" "qf_function f = fn" "qf_call_expr f = (callee, args, ta)" "props = from_filter entity f"
proof -
  from assms obtain spread params body where args: "args = [(spread, TArrow params body)]"
    unfolding extract_filter_def
    by (auto simp: r_bind_Ok_iff split: list.splits prod.splits ts_expr.splits)
  with assms obtain p where params: "params = [p]"
    unfolding extract_filter_def by (auto split: list.splits)
  from assms obtain param where p: "p = PatIdent param"
    unfolding extract_filter_def args params by (cases p) (auto simp: pat_to_string_def unwrap_def)
  from assms obtain e where e: "lambda_expr body = Ok (Some e)"
    unfolding extract_filter_def args params p by (auto simp: pat_to_string_def r_bind_Ok_iff split: option.splits)
  from assms e obtain query q post where sp: "split_and_convert_expr e = Ok (Some (query, q), post)"
    unfolding extract_filter_def args params p by (auto simp: pat_to_string_def r_bind_Ok_iff split: option.splits)
  from assms e sp obtain q' post' where r: "rewrite_filter_arrow [PatIdent param] body query = Ok q'"
    "(case post of Some post \<Rightarrow> r_map_ok Some (rewrite_filter_arrow [PatIdent param] body post) | None \<Rightarrow> Ok None) = Ok post'"
    and f: "f = \<lparr>qf_function = fn, qf_call_expr = (callee, args, ta), qf_query_expr = q', qf_post_expr = post',
        qf_parameters = [param], qf_predicate = q, qf_input = \<lparr>qs_entity_type = entity, qs_alias = param\<rparr>\<rparr>" "props = from_filter entity f"
    unfolding extract_filter_def args params p by (auto simp: pat_to_string_def r_bind_Ok_iff Let_def)
  show thesis
    using that [OF args [unfolded params p] e] sp r f by (auto simp: r_map_ok_Ok_iff split: option.splits)
qed

lemma extract_filter_emitted:
  assumes "extract_filter (callee, args, ta) entity fn = Ok (Some f, props)" "num 0 = PosInt 0"
    "\<And>a b. truthy (la_bin alg OpAnd a b) = (truthy a \<and> truthy b)" "scalar_vars vars (arrow_idents (qf_query_expr f))"
  shows "\<exists>spread lam v w. args = [(spread, lam)] \<and> eval_arrow alg num vars lam = Some v \<and>
    eval_arrow alg num vars (qf_query_expr f) = Some w \<and> emitted alg num vars (filter_to_ts f) w \<and>
    truthy v = (truthy w \<and> (\<forall>p \<in> set_option (qf_post_expr f). \<exists>u. eval_arrow alg num vars p = Some u \<and> truthy u))"
proof -
  obtain spread param body e query post where x: "args = [(spread, TArrow [PatIdent param] body)]" "lambda_expr body = Ok (Some e)"
    "split_and_convert_expr e = Ok (Some (query, qf_predicate f), post)"
    "rewrite_filter_arrow [PatIdent param] body query = Ok (qf_query_expr f)"
    "case post of Some p \<Rightarrow> \<exists>p'. rewrite_filter_arrow [PatIdent param] body p = Ok p' \<and> qf_post_expr f = Some p' | None \<Rightarrow> qf_post_expr f = None"
    "qf_parameters f = [param]"
    using assms(1) by (rule extract_filter_Some)
  let ?v = "eval_lambda alg num vars param"
  have arrow: "eval_arrow alg num vars a' = Some (?v b)" if "rewrite_filter_arrow [PatIdent param] body b = Ok a'" for a' b
    using that by (rule rewrite_filter_arrow_Ok) simp
  have "arrow_idents (qf_query_expr f) = expr_idents query - {param}"
    using x(4) by (rule rewrite_filter_arrow_Ok) simp
  then have em: "emitted alg num vars (filter_to_ts f) (?v query)"
    using convert_filter_emitted [of num, OF assms(2) split_and_convert_cases(1) [OF x(3)]] assms(4) x(6) by (simp add: filter_to_ts_def)
  have "truthy (?v e) = (truthy (?v query) \<and> (\<forall>p \<in> set_option (qf_post_expr f). \<exists>u. eval_arrow alg num vars p = Some u \<and> truthy u))"
    using split_and_convert_cases(2) [OF x(3)]
  proof (elim disjE exE conjE)
    fix right assume "e = TBin LogicalAnd query right" "post = Some right"
    with x(5) arrow assms(3) show ?thesis by (fastforce simp: js_op_def)
  qed (use x(5) in auto)
  with x(1,2) arrow [OF x(4)] em show ?thesis by auto
qed


lemma entity_method_member:
  assumes "is_call_to_entity_method e name sy"
  obtains obj where "e = TMember obj (MemberIdent name)" "\<forall>x. obj = TIdent x \<longrightarrow> x \<in> set sy"
  using assms that
  by (auto simp: is_call_to_entity_method_def is_ident_member_prop_def ident_to_string_def is_entity_def
      split: ts_expr.splits ts_member.splits)

text \<open>The method names and the internal functions that replace them.\<close>

definition query_methods :: "(string \<times> string) set" where
  "query_methods = {(''filter'', ''__filter''), (''findMany'', ''__findMany''), (''findOne'', ''__findOne'')}"

lemma infer_filter_Some:
  assumes "infer_filter (callee, args, ta) sy = Ok (Some f, props)"
  obtains obj entity where "callee = CalleeExpr (TMember obj (MemberIdent ''filter''))" "\<nexists>x. obj = TIdent x"
    "extract_filter (callee, args, ta) entity ''__filter'' = Ok (Some f, props)"
proof -
  from assms have "is_rewritable_filter callee sy" by (auto simp: infer_filter_def split: if_splits)
  then obtain obj where "callee = CalleeExpr (TMember obj (MemberIdent ''filter''))" "\<nexists>x. obj = TIdent x"
    by (auto simp: is_rewritable_filter_def is_ident_member_prop_def split: ts_callee.splits ts_expr.splits ts_member.splits)
  moreover from assms obtain entity where "extract_filter (callee, args, ta) entity ''__filter'' = Ok (Some f, props)"
    by (auto simp: infer_filter_def split: if_splits result.splits)
  ultimately show thesis using that by blast
qed

lemma infer_find_Some:
  assumes "infer_find (callee, args, ta) sy = Ok (Some f, props)"
  obtains obj name fn entity where "(name, fn) \<in> query_methods" "callee = CalleeExpr (TMember obj (MemberIdent name))"
    "\<forall>x. obj = TIdent x \<longrightarrow> x \<in> set sy" "extract_filter (callee, args, ta) entity fn = Ok (Some f, props)"
proof -
  from assms obtain fn entity where rf: "infer_rewritable_find (callee, args, ta) sy = Some fn"
    and ex: "extract_filter (callee, args, ta) entity fn = Ok (Some f, props)"
    by (auto simp: infer_find_def split: option.splits result.splits)
  have "\<exists>name. (name, fn) \<in> query_methods \<and> is_rewritable_find name callee sy"
  proof (cases "is_rewritable_find ''findMany'' callee sy")
    case True
    then show ?thesis using rf by (intro exI [of _ "''findMany''"]) (simp add: infer_rewritable_find_def query_methods_def)
  next
    case False
    then show ?thesis using rf
      by (intro exI [of _ "''findOne''"]) (simp add: infer_rewritable_find_def query_methods_def split: if_splits)
  qed
  then obtain name where name: "(name, fn) \<in> query_methods" "is_rewritable_find name callee sy" by blast
  then obtain e where e: "callee = CalleeExpr e" "is_call_to_entity_method e name sy"
    by (auto simp: is_rewritable_find_def split: ts_callee.splits)
  from e(2) obtain obj where "e = TMember obj (MemberIdent name)" "\<forall>x. obj = TIdent x \<longrightarrow> x \<in> set sy"
    by (rule entity_method_member)
  with e(1) name(1) ex show thesis by (intro that) auto
qed

lemma rewrite_query_call_Some:
  assumes "rewrite_query_call sy (callee, args, ta) ix = Ok (Some c, ix')"
  obtains obj name fn entity f props where "(name, fn) \<in> query_methods" "callee = CalleeExpr (TMember obj (MemberIdent name))"
    "\<forall>x. obj = TIdent x \<longrightarrow> x \<in> set sy" "extract_filter (callee, args, ta) entity fn = Ok (Some f, props)" "to_ts_expr f = Ok c"
proof -
  from assms consider f props where "infer_filter (callee, args, ta) sy = Ok (Some f, props)" "to_ts_expr f = Ok c"
    | f props where "infer_find (callee, args, ta) sy = Ok (Some f, props)" "to_ts_expr f = Ok c"
    by (auto simp: rewrite_query_call_def r_bind_Ok_iff Let_def split: option.splits)
  then show thesis
  proof cases
    case 1
    from 1(1) obtain obj entity where "callee = CalleeExpr (TMember obj (MemberIdent ''filter''))" "\<nexists>x. obj = TIdent x"
      "extract_filter (callee, args, ta) entity ''__filter'' = Ok (Some f, props)"
      by (rule infer_filter_Some)
    with 1(2) show ?thesis by (intro that [of "''filter''" "''__filter''"]) (auto simp: query_methods_def)
  next
    case 2
    from 2(1) obtain obj name fn entity where "(name, fn) \<in> query_methods" "callee = CalleeExpr (TMember obj (MemberIdent name))"
      "\<forall>x. obj = TIdent x \<longrightarrow> x \<in> set sy" "extract_filter (callee, args, ta) entity fn = Ok (Some f, props)"
      by (rule infer_find_Some)
    with 2(2) show ?thesis by (intro that)
  qed
qed

subsection \<open>Nothing else is changed\<close>

definition rel_stmt :: "(ts_expr \<Rightarrow> ts_expr \<Rightarrow> bool) \<Rightarrow> ts_stmt \<Rightarrow> ts_stmt \<Rightarrow> bool" where
  "rel_stmt R s s' \<longleftrightarrow> s = s' \<or> (\<exists>e e'. s = StmtExpr e \<and> s' = StmtExpr e' \<and> R e e') \<or>
     (\<exists>ds ds'. s = StmtDeclVar ds \<and> s' = StmtDeclVar ds' \<and> list_all2 (\<lambda>(n, i) (n', i'). n = n' \<and> rel_option R i i') ds ds')"

definition rel_body :: "(ts_expr \<Rightarrow> ts_expr \<Rightarrow> bool) \<Rightarrow> ts_body \<Rightarrow> ts_body \<Rightarrow> bool" where
  "rel_body R b b' \<longleftrightarrow> (\<exists>e e'. b = BodyExpr e \<and> b' = BodyExpr e' \<and> R e e') \<or>
     (\<exists>ss ss'. b = BodyBlock ss \<and> b' = BodyBlock ss' \<and> list_all2 (rel_stmt R) ss ss')"

definition rel_callee :: "(ts_expr \<Rightarrow> ts_expr \<Rightarrow> bool) \<Rightarrow> ts_callee \<Rightarrow> ts_callee \<Rightarrow> bool" where
  "rel_callee R c c' \<longleftrightarrow> c = c' \<or> (\<exists>e e'. c = CalleeExpr e \<and> c' = CalleeExpr e' \<and> R e e')"

definition rel_arg :: "(ts_expr \<Rightarrow> ts_expr \<Rightarrow> bool) \<Rightarrow> bool \<times> ts_expr \<Rightarrow> bool \<times> ts_expr \<Rightarrow> bool" where
  "rel_arg R a a' \<longleftrightarrow> fst a = fst a' \<and> R (snd a) (snd a')"

definition rel_item :: "(ts_expr \<Rightarrow> ts_expr \<Rightarrow> bool) \<Rightarrow> module_item \<Rightarrow> module_item \<Rightarrow> bool" where
  "rel_item R m m' \<longleftrightarrow> m = m' \<or> (\<exists>s s'. m = ModuleStmt s \<and> m' = ModuleStmt s' \<and> rel_stmt R s s') \<or>
     (\<exists>ss ss'. m = ExportDefaultFn (Some ss) \<and> m' = ExportDefaultFn (Some ss') \<and> list_all2 (rel_stmt R) ss ss')"

lemma rel_stmt_mono [mono]: "(\<And>x y. R x y \<longrightarrow> S x y) \<Longrightarrow> rel_stmt R s s' \<longrightarrow> rel_stmt S s s'"
proof -
  assume "\<And>x y. R x y \<longrightarrow> S x y"
  then have "rel_option R i i' \<Longrightarrow> rel_option S i i'" for i i' by (blast intro: option.rel_mono_strong)
  then have "list_all2 (\<lambda>(n, i) (n', i'). n = n' \<and> rel_option R i i') ds ds' \<Longrightarrow>
      list_all2 (\<lambda>(n, i) (n', i'). n = n' \<and> rel_option S i i') ds ds'" for ds ds' :: "(ts_pat \<times> ts_expr option) list"
    by (elim list_all2_mono) auto
  with \<open>\<And>x y. R x y \<longrightarrow> S x y\<close> show ?thesis unfolding rel_stmt_def by blast
qed

lemma rel_body_mono [mono]: "(\<And>x y. R x y \<longrightarrow> S x y) \<Longrightarrow> rel_body R b b' \<longrightarrow> rel_body S b b'"
proof -
  assume RS: "\<And>x y. R x y \<longrightarrow> S x y"
  then have "list_all2 (rel_stmt R) ss ss' \<Longrightarrow> list_all2 (rel_stmt S) ss ss'" for ss ss'
    using rel_stmt_mono [of R S] by (elim list_all2_mono) blast
  with RS show ?thesis unfolding rel_body_def by blast
qed

lemma rel_callee_mono [mono]: "(\<And>x y. R x y \<longrightarrow> S x y) \<Longrightarrow> rel_callee R c c' \<longrightarrow> rel_callee S c c'"
  unfolding rel_callee_def by auto

lemma rel_arg_mono [mono]: "(\<And>x y. R x y \<longrightarrow> S x y) \<Longrightarrow> rel_arg R a a' \<longrightarrow> rel_arg S a a'"
  unfolding rel_arg_def by auto

text \<open>The same syntax up to query calls, each of which is replaced by what it is rewritten to.\<close>

inductive same_but_queries :: "symbols \<Rightarrow> ts_expr \<Rightarrow> ts_expr \<Rightarrow> bool" for sy where
  sbq_refl: "same_but_queries sy e e"
| sbq_query: "rewrite_query_call sy (callee, args, ta) ix = Ok (Some (callee', args', ta'), ix') \<Longrightarrow>
    same_but_queries sy (TCall callee args ta) (TCall callee' args' ta')"
| sbq_arrow: "rel_body (same_but_queries sy) body body' \<Longrightarrow> same_but_queries sy (TArrow ps body) (TArrow ps body')"
| sbq_await: "same_but_queries sy e e' \<Longrightarrow> same_but_queries sy (TAwait e) (TAwait e')"
| sbq_member: "same_but_queries sy e e' \<Longrightarrow> same_but_queries sy (TMember e p) (TMember e' p)"
| sbq_call: "rel_callee (same_but_queries sy) callee callee' \<Longrightarrow>
    list_all2 (rel_arg (same_but_queries sy)) args args' \<Longrightarrow>
    same_but_queries sy (TCall callee args ta) (TCall callee' args' ta)"

definition rewrites_to :: "('a \<Rightarrow> 'a rewriting) \<Rightarrow> ('a \<Rightarrow> 'a \<Rightarrow> bool) \<Rightarrow> 'a \<Rightarrow> bool" where
  "rewrites_to f R x \<longleftrightarrow> (\<forall>ix y ix'. f x ix = Ok (y, ix') \<longrightarrow> R x y \<and> prefix ix ix')"

lemma rewrite_list_rel: "(\<And>x. x \<in> set xs \<Longrightarrow> rewrites_to f R x) \<Longrightarrow> rewrites_to (rewrite_list f) (list_all2 R) xs"
proof (induction xs)
  case (Cons x xs)
  then have "rewrites_to f R x" "rewrites_to (rewrite_list f) (list_all2 R) xs" by simp_all
  then show ?case unfolding rewrites_to_def by (fastforce simp: r_bind_Ok_iff intro: prefix_order.trans)
qed (simp add: rewrites_to_def)

lemma rewrite_stmt_rel:
  assumes "\<And>e. e \<in> stmt_exprs s \<Longrightarrow> rewrites_to f R e"
  shows "rewrites_to (rewrite_stmt f) (rel_stmt R) s"
proof (cases s)
  case (StmtDeclVar ds)
  have "rewrites_to (rewrite_var_declarator f) (\<lambda>(n, i) (n', i'). n = n' \<and> rel_option R i i') d" if "d \<in> set ds" for d
  proof (cases "snd d")
    case (Some e)
    then have "rewrites_to f R e" using assms that StmtDeclVar by (force simp: stmt_exprs_def)
    with Some show ?thesis by (cases d) (auto simp: rewrites_to_def rewrite_var_declarator_def r_bind_Ok_iff)
  qed (cases d, auto simp: rewrites_to_def rewrite_var_declarator_def)
  from rewrite_list_rel [OF this] show ?thesis
    by (auto simp: StmtDeclVar rewrites_to_def rewrite_stmt_def rel_stmt_def r_bind_Ok_iff)
next
  case (StmtExpr e)
  then have "rewrites_to f R e" using assms by (simp add: stmt_exprs_def)
  then show ?thesis by (auto simp: StmtExpr rewrites_to_def rewrite_stmt_def rel_stmt_def r_bind_Ok_iff)
qed (auto simp: rewrites_to_def rewrite_stmt_def rel_stmt_def)

lemma rewrite_body_rel:
  assumes "\<And>e. e \<in> body_exprs b \<Longrightarrow> rewrites_to f R e"
  shows "rewrites_to (rewrite_body f) (rel_body R) b"
proof (cases b)
  case (BodyBlock ss)
  have "rewrites_to (rewrite_stmt f) (rel_stmt R) s" if "s \<in> set ss" for s
    using assms that by (intro rewrite_stmt_rel) (auto simp: BodyBlock body_exprs_def)
  from rewrite_list_rel [OF this] show ?thesis
    by (auto simp: BodyBlock rewrites_to_def rewrite_body_def rewrite_block_stmt_def rel_body_def r_bind_Ok_iff)
next
  case (BodyExpr e)
  then have "rewrites_to f R e" using assms by (simp add: body_exprs_def)
  then show ?thesis by (auto simp: BodyExpr rewrites_to_def rewrite_body_def rel_body_def r_bind_Ok_iff)
qed

lemma push_index_prefix: "prefix ix (push_index i ix)"
  by (auto simp: push_index_def split: option.splits)

lemma rewrite_query_call_prefix:
  assumes "rewrite_query_call sy c ix = Ok (r, ix')"
  shows "prefix ix ix'"
proof -
  from assms obtain i i' where "ix' = push_index i ix \<or> ix' = push_index i' (push_index i ix)"
    unfolding rewrite_query_call_def by (auto simp: r_bind_Ok_iff Let_def split: option.splits)
  then show ?thesis using push_index_prefix [of ix i] push_index_prefix [of "push_index i ix" i'] by (auto intro: prefix_order.trans)
qed

lemma rewrite_expr_rel: "rewrites_to (rewrite_expr sy) (same_but_queries sy) e"
proof (induction e rule: measure_induct_rule [of size])
  case (less e)
  show ?case
  proof (cases e)
    case (TArrow ps body)
    have "rewrites_to (rewrite_body (rewrite_expr sy)) (rel_body (same_but_queries sy)) body"
      using less TArrow size_body_expr by (intro rewrite_body_rel) auto
    then show ?thesis by (auto simp: TArrow rewrites_to_def r_bind_Ok_iff intro: sbq_arrow)
  next
    case (TAwait a)
    with less [of a] show ?thesis by (auto simp: rewrites_to_def r_bind_Ok_iff intro: sbq_await)
  next
    case (TMember a p)
    with less [of a] show ?thesis by (auto simp: rewrites_to_def r_bind_Ok_iff intro: sbq_member)
  next
    case (TCall callee args ta)
    have "rewrites_to (rewrite_expr_or_spread (rewrite_expr sy)) (rel_arg (same_but_queries sy)) a"
      if "a \<in> set args" for a
    proof -
      have "size (snd a) < size e" using size_snd_arg [OF that, of "size callee"] TCall by (simp add: add.commute)
      from less [OF this] show ?thesis
        by (cases a) (auto simp: rewrites_to_def rewrite_expr_or_spread_def rel_arg_def r_bind_Ok_iff)
    qed
    then have args: "rewrites_to (rewrite_list (rewrite_expr_or_spread (rewrite_expr sy)))
        (list_all2 (rel_arg (same_but_queries sy))) args" by (rule rewrite_list_rel)
    have callee: "rewrites_to (rewrite_callee (rewrite_expr sy)) (rel_callee (same_but_queries sy)) callee"
    proof (cases callee)
      case (CalleeExpr a)
      then have "size a < size e" using TCall by simp
      from less [OF this] show ?thesis by (auto simp: CalleeExpr rewrites_to_def rewrite_callee_def rel_callee_def r_bind_Ok_iff)
    qed (auto simp: rewrites_to_def rewrite_callee_def rel_callee_def)
    show ?thesis unfolding rewrites_to_def
    proof (intro allI impI)
      fix ix y ix' assume "rewrite_expr sy e ix = Ok (y, ix')"
      then obtain c ix1 where c: "rewrite_query_call sy (callee, args, ta) ix = Ok (c, ix1)"
        and rest: "(case c of Some (callee, args, ta) \<Rightarrow> Ok (TCall callee args ta, ix1)
          | None \<Rightarrow> r_bind (rewrite_list (rewrite_expr_or_spread (rewrite_expr sy)) args ix1) (\<lambda>(args, ix).
              r_bind (rewrite_callee (rewrite_expr sy) callee ix) (\<lambda>(callee, ix). Ok (TCall callee args ta, ix)))) = Ok (y, ix')"
        unfolding TCall by (auto simp: r_bind_Ok_iff)
      note pre = rewrite_query_call_prefix [OF c]
      show "same_but_queries sy e y \<and> prefix ix ix'"
      proof (cases c)
        case None
        with rest obtain args' ix2 callee' where "rewrite_list (rewrite_expr_or_spread (rewrite_expr sy)) args ix1 = Ok (args', ix2)"
          "rewrite_callee (rewrite_expr sy) callee ix2 = Ok (callee', ix')" "y = TCall callee' args' ta"
          by (auto simp: r_bind_Ok_iff)
        with args callee pre show ?thesis unfolding rewrites_to_def TCall by (blast intro: sbq_call prefix_order.trans)
      next
        case (Some c')
        obtain callee' args' ta' where "c' = (callee', args', ta')" by (cases c')
        with Some rest c pre show ?thesis unfolding TCall by (auto intro: sbq_query)
      qed
    qed
  qed (auto simp: rewrites_to_def intro: sbq_refl)
qed

lemma rewrite_item_rel: "rewrites_to (rewrite_item sy) (rel_item (same_but_queries sy)) m"
proof -
  have stmt: "rewrites_to (rewrite_stmt (rewrite_expr sy)) (rel_stmt (same_but_queries sy)) s" for s
    by (rule rewrite_stmt_rel) (rule rewrite_expr_rel)
  then have "rewrites_to (rewrite_list (rewrite_stmt (rewrite_expr sy))) (list_all2 (rel_stmt (same_but_queries sy))) ss" for ss
    by (rule rewrite_list_rel)
  with stmt show ?thesis
    unfolding rewrites_to_def rewrite_item_def rewrite_block_stmt_def
    by (cases m) (fastforce simp: r_bind_Ok_iff rel_item_def split: option.splits)+
qed

subsection \<open>Properties\<close>

text \<open>
  C10: a rewritten query call means what the call meant.  Its method is the internal counterpart of
  the original one, on the same receiver, which when it is a name is an entity.  The call had one
  lambda; it is passed on in two parts, the query and the rest, and the query is passed a second
  time as an object that the server reads as an expression.  The object means exactly what the query
  lambda means, and the original lambda holds exactly when the query and the rest hold, for all
  values of the program's variables as long as those the query uses are scalars.
\<close>

theorem query_call_correct:
  assumes "rewrite_query_call sy (callee, args, ta) ix = Ok (Some (callee', args', ta'), ix')"
    and "num 0 = PosInt 0" "\<And>a b. truthy (la_bin alg OpAnd a b) = (truthy a \<and> truthy b)"
  shows "\<exists>obj name fn spread lam query qobj rest.
    (name, fn) \<in> query_methods \<and>
    callee = CalleeExpr (TMember obj (MemberIdent name)) \<and> callee' = CalleeExpr (TMember obj (MemberIdent fn)) \<and>
    (\<forall>x. obj = TIdent x \<longrightarrow> is_entity sy x) \<and>
    args = [(spread, lam)] \<and> args' = (False, query) # (False, qobj) # map (Pair False) rest \<and> length rest \<le> 1 \<and>
    (\<forall>vars. scalar_vars vars (arrow_idents query) \<longrightarrow>
      (\<exists>v j se. eval_arrow alg num vars lam = Some v \<and>
        js_object num vars qobj = Some j \<and> Expr_deserialize j = Some se \<and>
        eval_arrow alg num vars query = Some (eval_server alg se) \<and>
        truthy v = (truthy (eval_server alg se) \<and> (\<forall>p \<in> set rest. \<exists>u. eval_arrow alg num vars p = Some u \<and> truthy u))))"
proof -
  from assms(1) obtain obj name fn entity f props where c: "(name, fn) \<in> query_methods" "callee = CalleeExpr (TMember obj (MemberIdent name))"
    "\<forall>x. obj = TIdent x \<longrightarrow> x \<in> set sy" and ex: "extract_filter (callee, args, ta) entity fn = Ok (Some f, props)"
    and ts: "to_ts_expr f = Ok (callee', args', ta')"
    by (rule rewrite_query_call_Some)
  have f: "qf_function f = fn" "qf_call_expr f = (callee, args, ta)" using ex by (auto elim: extract_filter_Some)
  let ?rest = "case qf_post_expr f of Some p \<Rightarrow> [p] | None \<Rightarrow> []"
  have new: "callee' = CalleeExpr (TMember obj (MemberIdent fn))" "args' = (False, qf_query_expr f) # (False, filter_to_ts f) # map (Pair False) ?rest"
    using ts f c(2) by (auto simp: to_ts_expr_def rewrite_filter_callee_def split: option.splits)
  have rest: "set ?rest = set_option (qf_post_expr f)" "length ?rest \<le> 1" by (auto split: option.splits)
  obtain spread lam where args: "args = [(spread, lam)]" using ex by (auto elim: extract_filter_Some)
  have "\<exists>v j se. eval_arrow alg num vars lam = Some v \<and>
      js_object num vars (filter_to_ts f) = Some j \<and> Expr_deserialize j = Some se \<and>
      eval_arrow alg num vars (qf_query_expr f) = Some (eval_server alg se) \<and>
      truthy v = (truthy (eval_server alg se) \<and> (\<forall>p \<in> set ?rest. \<exists>u. eval_arrow alg num vars p = Some u \<and> truthy u))"
    if "scalar_vars vars (arrow_idents (qf_query_expr f))" for vars
    using extract_filter_emitted [of callee args ta entity fn f props num truthy alg vars, OF ex assms(2,3) that]
    unfolding rest args emitted_def by auto
  with c new rest(2) args show ?thesis unfolding is_entity_def by blast
qed


definition bool_algebra :: "bool lambda_algebra" where
  "bool_algebra = \<lparr>la_value = (\<lambda>v. v = VBool True), la_param = True, la_member = (\<lambda>v p. v),
     la_bin = (\<lambda>op a b. if op = OpAnd then a \<and> b else a = b), la_not = Not, la_ext = (\<lambda>_. True)\<rparr>"

text \<open>\<open>Person.findMany(p => p.age > 40 && ...)\<close>\<close>

definition over_forty :: ts_expr where
  "over_forty = TBin JGt (TMember (TIdent ''p'') (MemberIdent ''age'')) (TLit (LNum 40))"

definition adults_call :: ts_call where
  "adults_call =
     (CalleeExpr (TMember (TIdent ''Person'') (MemberIdent ''findMany'')),
      [(False, TArrow [PatIdent ''p''] (BodyExpr (TBin LogicalAnd over_forty (TOther 0))))], None)"

definition adults_query :: ts_expr where
  "adults_query = expr_to_ts (QBinaryExpr (QPropertyAccess (QIdentifier ''p'') ''age'') QGt (QValue (QNum 40))) [''p'']"

lemma adults_rewritten:
  "rewrite_query_call [''Person''] adults_call [] =
     Ok (Some (CalleeExpr (TMember (TIdent ''Person'') (MemberIdent ''__findMany'')),
       [(False, TArrow [PatIdent ''p''] (BodyExpr over_forty)), (False, adults_query),
        (False, TArrow [PatIdent ''p''] (BodyExpr (TOther 0)))], None),
       [\<lparr>fpr_entity_name = ''Person'', fpr_properties = [''age'']\<rparr>])"
proof -
  have q: "convert_filter_expr over_forty = Ok (Some (QBinaryExpr (QPropertyAccess (QIdentifier ''p'') ''age'') QGt (QValue (QNum 40))))"
    by (simp add: convert_filter_expr_def over_forty_def convert_binary_op_def)
  have "convert_filter_expr (TBin LogicalAnd over_forty (TOther 0)) = Ok None"
    by (simp add: convert_filter_expr_def over_forty_def convert_binary_op_def)
  with q have sp: "split_and_convert_expr (TBin LogicalAnd over_forty (TOther 0)) =
      Ok (Some (over_forty, QBinaryExpr (QPropertyAccess (QIdentifier ''p'') ''age'') QGt (QValue (QNum 40))), Some (TOther 0))"
    by (simp add: split_and_convert_expr_def)
  show ?thesis
    by (simp add: rewrite_query_call_def infer_filter_def is_rewritable_filter_def is_ident_member_prop_def infer_find_def
        infer_rewritable_find_def is_rewritable_find_def is_call_to_entity_method_def ident_to_string_def is_entity_def
        extract_filter_def pat_to_string_def lambda_expr_def sp rewrite_filter_arrow_def to_ts_expr_def rewrite_filter_callee_def
        from_filter_def filter_props_def index_insert_def filter_to_ts_def push_index_def adults_call_def adults_query_def)
qed

theorem query_call_correct_witness:
  "\<exists>j se. js_object (\<lambda>n. if n = 0 then PosInt 0 else FloatNum n) (\<lambda>_. JNull) adults_query = Some j \<and> Expr_deserialize j = Some se \<and>
     eval_arrow bool_algebra (\<lambda>n. if n = 0 then PosInt 0 else FloatNum n) (\<lambda>_. JNull) (TArrow [PatIdent ''p''] (BodyExpr over_forty)) =
       Some (eval_server bool_algebra se)"
proof -
  let ?num = "\<lambda>n :: f64. if n = 0 then PosInt 0 else FloatNum n"
  have sv: "scalar_vars (\<lambda>_. JNull) X" for X by (simp add: scalar_vars_def Value_deserialize_def)
  have law: "id (la_bin bool_algebra OpAnd a b) = (id a \<and> id b)" for a b by (simp add: bool_algebra_def)
  have num: "?num 0 = PosInt 0" by simp
  from query_call_correct [of "[''Person'']" _ _ _ "[]" _ _ _ _ ?num id bool_algebra, OF adults_rewritten [unfolded adults_call_def] num law]
  obtain query qobj rest where eq: "[(False, TArrow [PatIdent ''p''] (BodyExpr over_forty)), (False, adults_query),
        (False, TArrow [PatIdent ''p''] (BodyExpr (TOther 0)))] = (False, query) # (False, qobj) # map (Pair False) rest"
    and all: "\<forall>vars. scalar_vars vars (arrow_idents query) \<longrightarrow> (\<exists>j se. js_object ?num vars qobj = Some j \<and> Expr_deserialize j = Some se \<and>
        eval_arrow bool_algebra ?num vars query = Some (eval_server bool_algebra se))"
    by (elim exE conjE) meson
  from eq have "query = TArrow [PatIdent ''p''] (BodyExpr over_forty)" "qobj = adults_query" by simp_all
  with all sv show ?thesis by (simp del: eval_arrow.simps)
qed

text \<open>
  C11: the rewriter changes query calls and nothing else.  A rewritten module has the items of the
  original in their order, each the same up to query calls, which are replaced by what they are
  rewritten to; and the properties of the filters found are only added to.
\<close>

theorem rewrite_only_queries:
  assumes "rewrite sy body = Ok (body', ix)"
  shows "list_all2 (rel_item (same_but_queries sy)) body body'"
  using rewrite_list_rel [of body "rewrite_item sy" "rel_item (same_but_queries sy)"] rewrite_item_rel assms
  unfolding rewrites_to_def rewrite_def by blast


theorem rewrite_only_queries_witness:
  "rewrite [''Person''] [ModuleDeclOther 0, ModuleStmt (StmtExpr (TAwait (TIdent ''x'')))] =
     Ok ([ModuleDeclOther 0, ModuleStmt (StmtExpr (TAwait (TIdent ''x'')))], []) \<and>
   list_all2 (rel_item (same_but_queries [''Person'']))
     [ModuleDeclOther 0, ModuleStmt (StmtExpr (TAwait (TIdent ''x'')))] [ModuleDeclOther 0, ModuleStmt (StmtExpr (TAwait (TIdent ''x'')))]"
proof -
  have "rewrite [''Person''] [ModuleDeclOther 0, ModuleStmt (StmtExpr (TAwait (TIdent ''x'')))] =
     Ok ([ModuleDeclOther 0, ModuleStmt (StmtExpr (TAwait (TIdent ''x'')))], [])"
    by (simp add: rewrite_def rewrite_item_def rewrite_stmt_def)
  with rewrite_only_queries [OF this] show ?thesis by blast
qed

end
