(* ===== verification/Entity_Value.thy ===== *)
theory Entity_Value
  imports Json
begin

text \<open>
  \<open>server/src/datastore/value.rs\<close>: the values entities hold between the JavaScript runtime,
  the JSON interfaces and the database.  A JavaScript value is modelled as the kind the engine's
  API reports for it together with its contents (\<open>v8_value\<close>); whether the engine can allocate a
  string or a date is a parameter.
\<close>

type_synonym bytes = "8 word list"

datatype entity_value =
    ENull
  | EString string
  | EFloat64 f64
  | EInt64 i64
  | EBoolean bool
  | EJsDate f64
  | EBytes bytes
  | EArray "entity_value list"
  | EMap "(string \<times> entity_value) list"

type_synonym entity_map = "(string \<times> entity_value) list"

text \<open>A property name is a string or, for an integer index, a number.\<close>

datatype v8_key = KString string | KIndex nat

datatype v8_value =
    V8Undefined
  | V8Null
  | V8String string
  | V8Number f64
  | V8Boolean bool
  | V8Date f64
  | V8View bytes nat nat
  | V8ArrayBuffer bytes
  | V8Array "v8_value list"
  | V8Object "(v8_key \<times> v8_value) list"
  | V8Other

definition collect_map :: "(string \<times> 'v) list \<Rightarrow> (string \<times> 'v) list" where
  "collect_map kvs = fold (\<lambda>(k, v). al_insert k v) kvs []"

lemma size_v8_member [termination_simp]:
  "(k, v) \<in> set m \<Longrightarrow> size v < Suc (size_list (size_prod (\<lambda>_. 0) size) m)"
  for v :: v8_value
  by (induction m) auto

lemma size_entity_member [termination_simp]:
  "(k, v) \<in> set m \<Longrightarrow> size v < Suc (size_list (size_prod (\<lambda>_. 0) size) m)"
  for v :: entity_value
  by (induction m) auto

text \<open>A view is read from its offset to the end of the buffer; its own length is not used.\<close>

fun from_v8 :: "v8_value \<Rightarrow> entity_value res" where
  "from_v8 V8Null = Ok ENull"
| "from_v8 (V8String s) = Ok (EString s)"
| "from_v8 (V8Number x) = Ok (EFloat64 x)"
| "from_v8 (V8Boolean b) = Ok (EBoolean b)"
| "from_v8 (V8Date d) = Ok (EJsDate d)"
| "from_v8 (V8View buff byte_offset byte_length) =
     (if buff = [] then Ok (EBytes [])
      else if length buff < byte_offset then Panic ''range start index out of range''
      else Ok (EBytes (drop byte_offset buff)))"
| "from_v8 (V8ArrayBuffer buff) = Ok (EBytes buff)"
| "from_v8 (V8Array xs) = r_bind (r_map from_v8 xs) (\<lambda>vs. Ok (EArray vs))"
| "from_v8 (V8Object props) =
     r_bind (r_fold (\<lambda>(raw_key, prop_value) acc.
         if prop_value = V8Undefined then Ok acc
         else case raw_key of
                KIndex _ \<Rightarrow> Panic ''called Result::unwrap() on an Err value''
              | KString key \<Rightarrow> r_bind (from_v8 prop_value) (\<lambda>v. Ok (al_insert key v acc))) props [])
       (\<lambda>m. Ok (EMap m))"
| "from_v8 V8Undefined = Err (Bail ''trying to decode unsupported v8 value'' [])"
| "from_v8 V8Other = Err (Bail ''trying to decode unsupported v8 value'' [])"

fun ev_from_json :: "json \<Rightarrow> entity_value res" where
  "ev_from_json JNull = Ok ENull"
| "ev_from_json (JBool b) = Ok (EBoolean b)"
| "ev_from_json (JNumber n) = Ok (EFloat64 (num_as_f64 n))"
| "ev_from_json (JString s) = Ok (EString s)"
| "ev_from_json (JArray xs) = r_bind (r_map ev_from_json xs) (\<lambda>vs. Ok (EArray vs))"
| "ev_from_json (JObject m) =
     r_bind (r_map (\<lambda>(k, v). r_bind (ev_from_json v) (\<lambda>v. Ok (k, v))) m) (\<lambda>kvs. Ok (EMap (collect_map kvs)))"

fun to_v8 :: "(string \<Rightarrow> bool) \<Rightarrow> (f64 \<Rightarrow> bool) \<Rightarrow> entity_value \<Rightarrow> v8_value res" where
  "to_v8 str_fits date_fits ENull = Ok V8Null"
| "to_v8 str_fits date_fits (EString s) =
     (if str_fits s then Ok (V8String s)
      else Err (Bail ''failed to create v8 string when converting EntityValue to v8'' []))"
| "to_v8 str_fits date_fits (EFloat64 x) = Ok (V8Number x)"
| "to_v8 str_fits date_fits (EInt64 i) = Ok (V8Number (f64_of_int (sint i)))"
| "to_v8 str_fits date_fits (EBoolean b) = Ok (V8Boolean b)"
| "to_v8 str_fits date_fits (EJsDate d) =
     (if date_fits d then Ok (V8Date d)
      else Err (Bail ''failed to create v8 Date when converting EntityValue to v8'' []))"
| "to_v8 str_fits date_fits (EBytes bs) = Ok (V8ArrayBuffer bs)"
| "to_v8 str_fits date_fits (EArray xs) =
     r_bind (r_map (to_v8 str_fits date_fits) xs) (\<lambda>vs. Ok (V8Array vs))"
| "to_v8 str_fits date_fits (EMap m) =
     r_bind (r_map (\<lambda>(k, v).
         r_bind (ensure (str_fits k) (Bail ''unable to create map key v8 string'' [])) (\<lambda>_.
         r_bind (to_v8 str_fits date_fits v) (\<lambda>v. Ok (KString k, v)))) m)
       (\<lambda>kvs. Ok (V8Object kvs))"

fun kind_str :: "entity_value \<Rightarrow> string" where
  "kind_str ENull = ''Null''"
| "kind_str (EString _) = ''String''"
| "kind_str (EFloat64 _) = ''Float64''"
| "kind_str (EInt64 _) = ''Int64''"
| "kind_str (EBoolean _) = ''Boolean''"
| "kind_str (EJsDate _) = ''JsDate''"
| "kind_str (EBytes _) = ''Bytes''"
| "kind_str (EArray _) = ''Array''"
| "kind_str (EMap _) = ''Record''"

definition ev_is_null :: "entity_value \<Rightarrow> bool" where
  "ev_is_null v = (v = ENull)"

text \<open>The \<open>as_copy!\<close>, \<open>as_ref!\<close> and \<open>try_into!\<close> accessors.\<close>

definition wrong_kind :: "string \<Rightarrow> entity_value \<Rightarrow> 'a res" where
  "wrong_kind target v = Err (Bail ''tried to convert entity value to {}, but it is of type {}'' [target, kind_str v])"

definition ev_as_str :: "entity_value \<Rightarrow> string res" where
  "ev_as_str v = (case v of EString s \<Rightarrow> Ok s | _ \<Rightarrow> wrong_kind ''str'' v)"

definition ev_as_f64 :: "entity_value \<Rightarrow> f64 res" where
  "ev_as_f64 v = (case v of EFloat64 x \<Rightarrow> Ok x | _ \<Rightarrow> wrong_kind ''f64'' v)"

definition ev_as_i64 :: "entity_value \<Rightarrow> i64 res" where
  "ev_as_i64 v = (case v of EInt64 x \<Rightarrow> Ok x | _ \<Rightarrow> wrong_kind ''i64'' v)"

definition ev_as_bool :: "entity_value \<Rightarrow> bool res" where
  "ev_as_bool v = (case v of EBoolean b \<Rightarrow> Ok b | _ \<Rightarrow> wrong_kind ''bool'' v)"

definition ev_as_date :: "entity_value \<Rightarrow> f64 res" where
  "ev_as_date v = (case v of EJsDate d \<Rightarrow> Ok d | _ \<Rightarrow> wrong_kind ''f64'' v)"

definition ev_as_bytes :: "entity_value \<Rightarrow> bytes res" where
  "ev_as_bytes v = (case v of EBytes b \<Rightarrow> Ok b | _ \<Rightarrow> wrong_kind ''[u8]'' v)"

definition ev_as_array :: "entity_value \<Rightarrow> entity_value list res" where
  "ev_as_array v = (case v of EArray xs \<Rightarrow> Ok xs | _ \<Rightarrow> wrong_kind ''EntityArray'' v)"

definition ev_as_map :: "entity_value \<Rightarrow> entity_map res" where
  "ev_as_map v = (case v of EMap m \<Rightarrow> Ok m | _ \<Rightarrow> wrong_kind ''EntityMap'' v)"

definition eq_f64 :: "entity_value \<Rightarrow> f64 \<Rightarrow> bool" where
  "eq_f64 v other = (case ev_as_f64 v of Ok i \<Rightarrow> f64_eq i other | _ \<Rightarrow> False)"

definition eq_bool :: "entity_value \<Rightarrow> bool \<Rightarrow> bool" where
  "eq_bool v other = (case ev_as_bool v of Ok i \<Rightarrow> i = other | _ \<Rightarrow> False)"

definition eq_str :: "entity_value \<Rightarrow> string \<Rightarrow> bool" where
  "eq_str v other = (case ev_as_str v of Ok i \<Rightarrow> i = other | _ \<Rightarrow> False)"

text \<open>
  \<open>#[serde(untagged)]\<close> serialisation: every variant as its bare contents, a non-finite double
  as \<open>null\<close>, bytes in base64 (a parameter).
\<close>

definition json_of_double :: "f64 \<Rightarrow> json" where
  "json_of_double x = (if f64_abs_bits x < 2047 * 2 ^ 52 then JNumber (FloatNum x) else JNull)"

definition json_of_i64 :: "i64 \<Rightarrow> json" where
  "json_of_i64 i = JNumber (if 0 \<le> sint i then PosInt i else NegInt i)"

fun ev_to_json :: "(bytes \<Rightarrow> string) \<Rightarrow> entity_value \<Rightarrow> json" where
  "ev_to_json base64 ENull = JNull"
| "ev_to_json base64 (EString s) = JString s"
| "ev_to_json base64 (EFloat64 x) = json_of_double x"
| "ev_to_json base64 (EInt64 i) = json_of_i64 i"
| "ev_to_json base64 (EBoolean b) = JBool b"
| "ev_to_json base64 (EJsDate d) = json_of_double d"
| "ev_to_json base64 (EBytes bs) = JString (base64 bs)"
| "ev_to_json base64 (EArray xs) = JArray (map (ev_to_json base64) xs)"
| "ev_to_json base64 (EMap m) = JObject (map (\<lambda>(k, v). (k, ev_to_json base64 v)) m)"

subsection \<open>Round trips\<close>

text \<open>Every object has distinct keys, at every depth.\<close>

fun ev_wf :: "entity_value \<Rightarrow> bool" where
  "ev_wf (EArray xs) = (\<forall>x \<in> set xs. ev_wf x)"
| "ev_wf (EMap m) = (distinct (map fst m) \<and> (\<forall>(k, v) \<in> set m. ev_wf v))"
| "ev_wf _ = True"

text \<open>JavaScript has one number type: a 64-bit integer comes back as a double.\<close>

fun widen :: "entity_value \<Rightarrow> entity_value" where
  "widen (EInt64 i) = EFloat64 (f64_of_int (sint i))"
| "widen (EArray xs) = EArray (map widen xs)"
| "widen (EMap m) = EMap (map (\<lambda>(k, v). (k, widen v)) m)"
| "widen v = v"

fun json_wf :: "json \<Rightarrow> bool" where
  "json_wf (JArray xs) = (\<forall>x \<in> set xs. json_wf x)"
| "json_wf (JObject m) = (distinct (map fst m) \<and> (\<forall>(k, v) \<in> set m. json_wf v))"
| "json_wf _ = True"

text \<open>Every number of a document as a double.\<close>

fun as_doubles :: "json \<Rightarrow> json" where
  "as_doubles (JNumber n) = json_of_double (num_as_f64 n)"
| "as_doubles (JArray xs) = JArray (map as_doubles xs)"
| "as_doubles (JObject m) = JObject (map (\<lambda>(k, v). (k, as_doubles v)) m)"
| "as_doubles j = j"

lemma al_insert_new: "k \<notin> fst ` set xs \<Longrightarrow> al_insert k v xs = xs @ [(k, v)]"
  by (induction xs) auto

lemma fold_al_insert_distinct:
  "distinct (map fst (acc @ kvs)) \<Longrightarrow> fold (\<lambda>(k, v). al_insert k v) kvs acc = acc @ kvs"
proof (induction kvs arbitrary: acc)
  case (Cons kv kvs)
  obtain k v where kv: "kv = (k, v)" by force
  with Cons.prems have "k \<notin> fst ` set acc" by auto
  with Cons kv show ?case by (simp add: al_insert_new)
qed simp

lemma collect_map_distinct: "distinct (map fst kvs) \<Longrightarrow> collect_map kvs = kvs"
  using fold_al_insert_distinct [of "[]" kvs] by (simp add: collect_map_def)

definition v8_prop_step :: "v8_key \<times> v8_value \<Rightarrow> entity_map \<Rightarrow> entity_map res" where
  "v8_prop_step = (\<lambda>(raw_key, prop_value) acc.
     if prop_value = V8Undefined then Ok acc
     else case raw_key of
            KIndex _ \<Rightarrow> Panic ''called Result::unwrap() on an Err value''
          | KString key \<Rightarrow> r_bind (from_v8 prop_value) (\<lambda>v. Ok (al_insert key v acc)))"

lemma from_v8_props:
  assumes "\<And>k w. (k, w) \<in> set m \<Longrightarrow> g w \<noteq> V8Undefined \<and> from_v8 (g w) = Ok (h w)"
    and "distinct (map fst acc @ map fst m)"
  shows "r_fold v8_prop_step (map (\<lambda>(k, w). (KString k, g w)) m) acc = Ok (acc @ map (\<lambda>(k, w). (k, h w)) m)"
  using assms
proof (induction m arbitrary: acc)
  case (Cons kw m)
  obtain k w where kw: "kw = (k, w)" by force
  with Cons.prems(2) have new: "k \<notin> fst ` set acc" by auto
  have "r_fold v8_prop_step (map (\<lambda>(k, w). (KString k, g w)) m) (acc @ [(k, h w)]) =
      Ok ((acc @ [(k, h w)]) @ map (\<lambda>(k, w). (k, h w)) m)"
    using Cons.prems kw by (intro Cons.IH) auto
  moreover have "from_v8 (g w) = Ok (h w)" "g w \<noteq> V8Undefined" using Cons.prems(1) kw by auto
  ultimately show ?case using kw new by (simp add: v8_prop_step_def al_insert_new)
qed simp

lemma v8_roundtrip_aux:
  "to_v8 sf df v = Ok x \<Longrightarrow> ev_wf v \<Longrightarrow> x \<noteq> V8Undefined \<and> from_v8 x = Ok (widen v)"
proof (induction v arbitrary: x)
  case (EArray xs)
  then obtain ys where ys: "x = V8Array ys" "list_all2 (\<lambda>v y. to_v8 sf df v = Ok y) xs ys"
    by (auto simp: r_bind_Ok_iff r_map_Ok_iff)
  have "list_all2 (\<lambda>y w. from_v8 y = Ok w) ys (map widen xs)"
    unfolding list_all2_conv_all_nth
  proof (intro conjI allI impI)
    show len: "length ys = length (map widen xs)" using list_all2_lengthD [OF ys(2)] by simp
    show "from_v8 (ys ! i) = Ok (map widen xs ! i)" if "i < length ys" for i
      using EArray.IH [of "xs ! i"] list_all2_nthD2 [OF ys(2) that] EArray.prems(2) that len by simp
  qed
  then have "r_map from_v8 ys = Ok (map widen xs)" by (simp add: r_map_Ok_iff)
  then show ?case using ys(1) by simp
next
  case (EMap m)
  let ?g = "\<lambda>v. case to_v8 sf df v of Ok y \<Rightarrow> y | _ \<Rightarrow> V8Null"
  let ?step = "\<lambda>(k, v). r_bind (ensure (sf k) (Bail ''unable to create map key v8 string'' [])) (\<lambda>_.
         r_bind (to_v8 sf df v) (\<lambda>v. Ok (KString k, v)))"
  obtain kvs where raw: "x = V8Object kvs" "list_all2 (\<lambda>kv y. ?step kv = Ok y) m kvs"
    using EMap.prems(1) unfolding to_v8.simps r_bind_Ok_iff r_map_Ok_iff by blast
  have "list_all2 (\<lambda>(k, v) (k', y). k' = KString k \<and> to_v8 sf df v = Ok y) m kvs"
    using raw(2) by (rule list_all2_mono) (auto simp: r_bind_Ok_iff)
  note kvs = raw(1) this
  have "kvs = map (\<lambda>(k, w). (KString k, ?g w)) m"
    using kvs(2) by (induction rule: list_all2_induct) auto
  moreover have "?g w \<noteq> V8Undefined \<and> from_v8 (?g w) = Ok (widen w)" if "(k, w) \<in> set m" for k w
  proof -
    have "\<exists>y. to_v8 sf df w = Ok y"
      using kvs(2) that by (induction rule: list_all2_induct) auto
    moreover have "ev_wf w" using EMap.prems(2) that by auto
    ultimately show ?thesis using EMap.IH [OF that, of w] by auto
  qed
  then have "r_fold v8_prop_step (map (\<lambda>(k, w). (KString k, ?g w)) m) [] = Ok (map (\<lambda>(k, w). (k, widen w)) m)"
    using from_v8_props [of m ?g widen "[]"] EMap.prems(2) by simp
  ultimately show ?case using kvs(1) by (simp add: v8_prop_step_def)
qed (auto split: if_splits)

text \<open>
  A value handed to JavaScript and read back is the same value, 64-bit integers becoming
  doubles: bytes, dates, arrays and objects keep their kind, contents and key order.
\<close>

theorem v8_roundtrip:
  assumes "ev_wf v" "to_v8 str_fits date_fits v = Ok x"
  shows "from_v8 x = Ok (widen v)"
  using v8_roundtrip_aux [OF assms(2,1)] by simp

theorem v8_roundtrip_witness:
  "from_v8 (V8Object [(KString ''a'', V8Array [V8Date 7, V8ArrayBuffer [1, 2]])]) =
     Ok (widen (EMap [(''a'', EArray [EJsDate 7, EBytes [1, 2]])]))"
  by (rule v8_roundtrip [where str_fits = "\<lambda>_. True" and date_fits = "\<lambda>_. True"]) simp_all

text \<open>
  The value of a typed view is the buffer from the view's offset on: a view that ends
  before its buffer does yields the bytes after its end as well.
\<close>

theorem from_v8_view:
  assumes "byte_offset + byte_length \<le> length buff"
  shows "from_v8 (V8View buff byte_offset byte_length) =
    Ok (EBytes (take byte_length (drop byte_offset buff) @ drop (byte_offset + byte_length) buff))"
proof -
  have "drop byte_offset buff = take byte_length (drop byte_offset buff) @ drop (byte_offset + byte_length) buff"
    by (metis add.commute append_take_drop_id drop_drop)
  with assms show ?thesis by (cases "buff = []") auto
qed

theorem from_v8_view_witness:
  "from_v8 (V8View [1, 2, 3, 4] 1 2) = Ok (EBytes [2, 3, 4])"
  using from_v8_view [of 1 2 "[1, 2, 3, 4]"] by simp

lemma ev_json_aux: "json_wf j \<Longrightarrow> \<exists>v. ev_from_json j = Ok v \<and> ev_to_json base64 v = as_doubles j"
proof (induction j)
  case (JArray xs)
  then obtain f where f: "\<And>x. x \<in> set xs \<Longrightarrow> ev_from_json x = Ok (f x) \<and> ev_to_json base64 (f x) = as_doubles x"
    using bchoice [of "set xs"] by (metis json_wf.simps(1))
  then have "r_map ev_from_json xs = Ok (map f xs)" by (intro r_map_Ok_map) auto
  with f show ?case by simp
next
  case (JObject m)
  have "\<exists>v. ev_from_json x = Ok v \<and> ev_to_json base64 v = as_doubles x" if "(k, x) \<in> set m" for k x
    using JObject.IH [OF that, of x] JObject.prems that by auto
  then have ex: "\<forall>x \<in> snd ` set m. \<exists>v. ev_from_json x = Ok v \<and> ev_to_json base64 v = as_doubles x"
    by auto
  obtain f where "\<forall>x \<in> snd ` set m. ev_from_json x = Ok (f x) \<and> ev_to_json base64 (f x) = as_doubles x"
    using bchoice [OF ex] by blast
  then have f: "ev_from_json x = Ok (f x) \<and> ev_to_json base64 (f x) = as_doubles x" if "(k, x) \<in> set m" for k x
    using that by (auto simp: image_iff)
  then have "r_map (\<lambda>(k, v). r_bind (ev_from_json v) (\<lambda>v. Ok (k, v))) m = Ok (map (\<lambda>(k, v). (k, f v)) m)"
    by (intro r_map_Ok_map) auto
  moreover have "collect_map (map (\<lambda>(k, v). (k, f v)) m) = map (\<lambda>(k, v). (k, f v)) m"
    using JObject.prems by (intro collect_map_distinct) (simp add: comp_def case_prod_unfold)
  moreover have "map (\<lambda>(k, v). (k, ev_to_json base64 v)) (map (\<lambda>(k, v). (k, f v)) m) = map (\<lambda>(k, v). (k, as_doubles v)) m"
    using f by auto
  ultimately show ?case by simp
qed auto

text \<open>
  Reading a JSON document into an entity value always succeeds, and writing the value back
  gives the document with every number as a double.
\<close>

theorem ev_json_roundtrip:
  assumes "json_wf j"
  shows "r_map_ok (ev_to_json base64) (ev_from_json j) = Ok (as_doubles j)"
  using ev_json_aux [OF assms, of base64] by auto

theorem ev_json_roundtrip_witness:
  "r_map_ok (ev_to_json (\<lambda>_. [])) (ev_from_json (JObject [(''a'', JArray [JBool True, JNull])])) =
     Ok (as_doubles (JObject [(''a'', JArray [JBool True, JNull])]))"
  by (rule ev_json_roundtrip) simp

end
