(* ===== verification/Authorization.thy ===== *)
theory Authorization
  imports Prefix_Map Entity_Value Type_System
begin

text \<open>
  \<open>server/src/error.rs\<close>, \<open>server/src/policies.rs\<close>, \<open>server/src/authentication.rs\<close> and
  \<open>server/src/authorization.rs\<close>: who a request comes from, which endpoints it may call, and which
  restrictions labels put on entity fields.  Regular expressions, the YAML reader, HTTP method
  names, JWT decoding and the user table are external: they are the parameters \<open>is_match\<close>,
  \<open>regex_new\<close>, \<open>method_from_str\<close>, \<open>jwt_decode\<close>, \<open>pem_key\<close> and \<open>fetch_email\<close>.  The tables of
  routes are prefix maps; the lemmas on them use the facts of the interpretation \<open>pm\<close>.
\<close>

subsection \<open>Errors with an HTTP class\<close>

datatype error_kind = Forbbiden | BadRequest | Internal

record chisel_error =
  ce_inner :: anyhow
  ce_kind :: error_kind

type_synonym 'a chisel_res = "(chisel_error, 'a) result"

definition error_internal :: "anyhow \<Rightarrow> chisel_error" where
  "error_internal e = \<lparr>ce_inner = e, ce_kind = Internal\<rparr>"

definition error_forbidden :: "anyhow \<Rightarrow> chisel_error" where
  "error_forbidden e = \<lparr>ce_inner = e, ce_kind = Forbbiden\<rparr>"

definition error_bad_request :: "anyhow \<Rightarrow> chisel_error" where
  "error_bad_request e = \<lparr>ce_inner = e, ce_kind = BadRequest\<rparr>"

subsection \<open>Requests\<close>

text \<open>
  The parts of a request the checks read.  Header names are matched case-insensitively: the
  header table is kept under lower-case names.  A header value converts to a string when all its
  bytes are visible ASCII or tabs.
\<close>

record req_parts =
  rp_method :: string
  rp_headers :: "(string \<times> string) list"

definition ascii_lower :: "char \<Rightarrow> char" where
  "ascii_lower c = (if 65 \<le> (of_char c :: nat) \<and> (of_char c :: nat) \<le> 90 then char_of (of_char c + 32 :: nat) else c)"

definition header_get :: "req_parts \<Rightarrow> string \<Rightarrow> string option" where
  "header_get req name = map_of (rp_headers req) (map ascii_lower name)"

definition header_to_str :: "string \<Rightarrow> string res" where
  "header_to_str v =
     (if \<forall>c \<in> set v. (32 \<le> (of_char c :: nat) \<and> (of_char c :: nat) < 127) \<or> (of_char c :: nat) = 9
      then Ok v else Err (Bail ''failed to convert header to a str'' []))"

subsection \<open>Field policies\<close>

datatype kind = Transform "entity_value \<Rightarrow> entity_value" | MatchLogin | Omit

record 'r label_policy =
  lp_kind :: kind
  lp_except_uri :: 'r

record field_policies =
  fp_transforms :: "(string \<times> (entity_value \<Rightarrow> entity_value)) list"
  fp_match_login :: "string set"
  fp_current_userid :: "string option"
  fp_omit :: "string set"

record required_header =
  rh_header_name :: string
  rh_secret_name :: string
  rh_methods :: "string list option"

record 'r policy_system =
  ps_labels :: "(string \<times> 'r label_policy) list"
  ps_users :: "'r prefix_map"
  ps_secrets :: "required_header prefix_map"

definition PolicySystem_default :: "'r policy_system" where
  "PolicySystem_default = \<lparr>ps_labels = [], ps_users = pm_default, ps_secrets = pm_default\<rparr>"

definition label_step ::
  "('r \<Rightarrow> string \<Rightarrow> bool) \<Rightarrow> 'r policy_system \<Rightarrow> string \<Rightarrow> field \<Rightarrow> string \<Rightarrow> field_policies \<Rightarrow> field_policies" where
  "label_step is_match ps current_path fld lbl fp =
     (case map_of (ps_labels ps) lbl of
        None \<Rightarrow> fp
      | Some p \<Rightarrow>
          if is_match (lp_except_uri p) current_path then fp
          else (case lp_kind p of
                  Transform f \<Rightarrow> fp\<lparr>fp_transforms := al_insert (f_name fld) f (fp_transforms fp)\<rparr>
                | MatchLogin \<Rightarrow> fp\<lparr>fp_match_login := insert (f_name fld) (fp_match_login fp)\<rparr>
                | Omit \<Rightarrow> fp\<lparr>fp_omit := insert (f_name fld) (fp_omit fp)\<rparr>))"

definition make_field_policies ::
  "('r \<Rightarrow> string \<Rightarrow> bool) \<Rightarrow> 'r policy_system \<Rightarrow> string option \<Rightarrow> string \<Rightarrow> object_type \<Rightarrow> field_policies" where
  "make_field_policies is_match ps user_id current_path ot =
     fold (\<lambda>fld fp. fold (label_step is_match ps current_path fld) (f_labels fld) fp) (ot_fields ot)
       \<lparr>fp_transforms = [], fp_match_login = {}, fp_current_userid = user_id, fp_omit = {}\<rparr>"

definition anonymize :: "entity_value \<Rightarrow> entity_value" where
  "anonymize v = EString ''xxxxx''"

subsection \<open>Authorization tables\<close>

definition user_is_allowed :: "('r \<Rightarrow> string \<Rightarrow> bool) \<Rightarrow> 'r prefix_map \<Rightarrow> string option \<Rightarrow> string \<Rightarrow> bool" where
  "user_is_allowed is_match paths username path =
     (case longest_prefix paths path of
        None \<Rightarrow> True
      | Some (_, u) \<Rightarrow> (case username of None \<Rightarrow> False | Some name \<Rightarrow> is_match u name))"

text \<open>Both \<open>add\<close> methods insert first and report the repetition afterwards.\<close>

definition user_add :: "string \<Rightarrow> 'r \<Rightarrow> 'r prefix_map \<Rightarrow> 'r prefix_map \<times> unit res" where
  "user_add path users paths =
     (let (paths, old) = pm_insert path users paths
      in (paths, if old \<noteq> None then Err (Bail ''Repeated path in user authorization: {:?}'' [path]) else Ok ()))"

definition secret_is_allowed ::
  "required_header prefix_map \<Rightarrow> req_parts \<Rightarrow> (string \<times> json) list \<Rightarrow> string \<Rightarrow> bool" where
  "secret_is_allowed paths req secrets path =
     (case longest_prefix paths path of
        None \<Rightarrow> True
      | Some (_, h) \<Rightarrow>
          if (case rh_methods h of Some v \<Rightarrow> rp_method req \<notin> set v | None \<Rightarrow> False) then True
          else (case map_of secrets (rh_secret_name h) of
                  Some (JString secret_value) \<Rightarrow>
                    (case map_option header_to_str (header_get req (rh_header_name h)) of
                       Some (Ok header_value) \<Rightarrow> header_value = secret_value
                     | _ \<Rightarrow> False)
                | _ \<Rightarrow> False))"

definition secret_add ::
  "string \<Rightarrow> required_header \<Rightarrow> required_header prefix_map \<Rightarrow> required_header prefix_map \<times> unit res" where
  "secret_add path header paths =
     (let (paths, old) = pm_insert path header paths
      in (paths, if old \<noteq> None then Err (Bail ''Repeated path in header authorization: {path}'' [path]) else Ok ()))"

subsection \<open>Reading the policy file\<close>

record mandatory_header =
  mh_name :: string
  mh_secret_value_ref :: string
  mh_only_for_methods :: "string list option"

record route =
  r_path :: string
  r_users :: "string option"
  r_mandatory_header :: "mandatory_header option"

record label =
  l_name :: string
  l_transform :: "string option"
  l_except_uri :: "string option"

record yaml_policies =
  y_routes :: "route list option"
  y_endpoints :: "route list option"
  y_labels :: "label list option"

definition parse_methods :: "(string \<Rightarrow> string res) \<Rightarrow> string list \<Rightarrow> string list res" where
  "parse_methods method_from_str v = r_map (\<lambda>s. with_context ''Error parsing method {s}'' (method_from_str s)) v"

definition yaml_label_step ::
  "(string \<Rightarrow> 'r res) \<Rightarrow> label \<Rightarrow> 'r policy_system \<Rightarrow> 'r policy_system res" where
  "yaml_label_step regex_new lbl ps =
     r_bind (regex_new (case l_except_uri lbl of Some u \<Rightarrow> u | None \<Rightarrow> ''^'' @ [CHR 0x5C] @ ''b$'')) (\<lambda>except_uri.
       let add = (\<lambda>k. Ok (ps\<lparr>ps_labels := al_insert (l_name lbl) \<lparr>lp_kind = k, lp_except_uri = except_uri\<rparr> (ps_labels ps)\<rparr>))
       in case l_transform lbl of
            None \<Rightarrow> Ok ps
          | Some x \<Rightarrow>
              if x = ''anonymize'' then add (Transform anonymize)
              else if x = ''omit'' then add Omit
              else if x = ''match_login'' then add MatchLogin
              else Err (Bail ''unknown transform: {x} for label {}'' [x, l_name lbl]))"

definition yaml_route_step ::
  "(string \<Rightarrow> 'r res) \<Rightarrow> (string \<Rightarrow> string res) \<Rightarrow> route \<Rightarrow> 'r policy_system \<Rightarrow> 'r policy_system res" where
  "yaml_route_step regex_new method_from_str route ps =
     r_bind (case r_users route of
         None \<Rightarrow> Ok ps
       | Some users \<Rightarrow>
           r_bind (regex_new users) (\<lambda>r.
             let (paths, res) = user_add (r_path route) r (ps_users ps)
             in r_bind res (\<lambda>_. Ok (ps\<lparr>ps_users := paths\<rparr>)))) (\<lambda>ps.
     case r_mandatory_header route of
       None \<Rightarrow> Ok ps
     | Some header \<Rightarrow>
         r_bind (case mh_only_for_methods header of
             None \<Rightarrow> Ok None
           | Some v \<Rightarrow> r_map_ok Some (parse_methods method_from_str v)) (\<lambda>methods.
           let (paths, res) = secret_add (r_path route)
                 \<lparr>rh_header_name = mh_name header, rh_secret_name = mh_secret_value_ref header, rh_methods = methods\<rparr>
                 (ps_secrets ps)
           in r_bind res (\<lambda>_. Ok (ps\<lparr>ps_secrets := paths\<rparr>))))"

definition yaml_routes :: "yaml_policies \<Rightarrow> route list" where
  "yaml_routes y =
     (case y_routes y of Some rs \<Rightarrow> rs | None \<Rightarrow> (case y_endpoints y of Some rs \<Rightarrow> rs | None \<Rightarrow> []))"

text \<open>\<open>PolicySystem::from_yaml\<close>, after the YAML reader has produced the document.\<close>

definition from_yaml ::
  "(string \<Rightarrow> 'r res) \<Rightarrow> (string \<Rightarrow> string res) \<Rightarrow> yaml_policies res \<Rightarrow> 'r policy_system res" where
  "from_yaml regex_new method_from_str parsed =
     r_bind parsed (\<lambda>y.
     r_bind (r_fold (yaml_label_step regex_new) (case y_labels y of Some ls \<Rightarrow> ls | None \<Rightarrow> []) PolicySystem_default) (\<lambda>ps.
     r_fold (yaml_route_step regex_new method_from_str) (yaml_routes y) ps))"

subsection \<open>Authentication\<close>

datatype authentication = Jwt json | UserId string | NoAuth

definition auth_user_id :: "authentication \<Rightarrow> string option" where
  "auth_user_id a = (case a of UserId uid \<Rightarrow> Some uid | _ \<Rightarrow> None)"

text \<open>
  \<open>decoding_key_from_pem\<close>.  A chunk of 64 bytes that splits a multi-byte character is not
  valid UTF-8; \<open>is_utf8\<close> decides it, \<open>pem_key\<close> is the key parser.
\<close>

fun chunks64 :: "string \<Rightarrow> string list" where
  "chunks64 s = (if s = [] then [] else take 64 s # chunks64 (drop 64 s))"

declare chunks64.simps [simp del]

definition decoding_key_from_pem :: "(string \<Rightarrow> bool) \<Rightarrow> (string \<Rightarrow> 'k res) \<Rightarrow> string \<Rightarrow> 'k chisel_res" where
  "decoding_key_from_pem is_utf8 pem_key key =
     r_bind (r_fold (\<lambda>s buf.
         r_bind (ensure (is_utf8 s) (error_internal (Bail ''JWT signing key is not valid UTF-8'' []))) (\<lambda>_.
         Ok (buf @ s @ [CHR 0x0A]))) (chunks64 key) (''-----BEGIN PUBLIC KEY-----'' @ [CHR 0x0A])) (\<lambda>key.
     map_err error_internal (pem_key (key @ ''-----END PUBLIC KEY-----'')))"

definition authenticate_jwt ::
  "(string \<Rightarrow> bool) \<Rightarrow> (string \<Rightarrow> 'k res) \<Rightarrow> ('k \<Rightarrow> string \<Rightarrow> json res) \<Rightarrow> (string \<times> json) list \<Rightarrow> string
     \<Rightarrow> authentication chisel_res" where
  "authenticate_jwt is_utf8 pem_key jwt_decode secrets token =
     (case map_of secrets ''CHISEL_JWT_VALIDATION_KEY'' of
        None \<Rightarrow> Err (error_internal (Bail ''Missing jwt validation key: please set `CHISEL_JWT_VALIDATION_KEY` in your secrets'' []))
      | Some dkey_json \<Rightarrow>
          (case json_as_str dkey_json of
             Some pem_str \<Rightarrow>
               r_bind (decoding_key_from_pem is_utf8 pem_key pem_str) (\<lambda>dkey.
               r_bind (map_err error_forbidden (jwt_decode dkey token)) (\<lambda>json. Ok (Jwt json)))
           | None \<Rightarrow> Err (error_internal (Bail ''CHISEL_JWT_VALIDATION_KEY should be a valid UTF-8 string.'' []))))"

text \<open>\<open>split_whitespace\<close> on a header value, whose only white space is blanks and tabs.\<close>

lemma length_dropWhile_less [termination_simp]: "length (dropWhile P xs) < Suc (length xs)"
  by (simp add: length_dropWhile_le le_imp_less_Suc)

fun split_whitespace :: "string \<Rightarrow> string list" where
  "split_whitespace [] = []"
| "split_whitespace (c # cs) =
     (if c = CHR '' '' \<or> c = CHR 0x09 then split_whitespace cs
      else (c # takeWhile (\<lambda>d. d \<noteq> CHR '' '' \<and> d \<noteq> CHR 0x09) cs)
             # split_whitespace (dropWhile (\<lambda>d. d \<noteq> CHR '' '' \<and> d \<noteq> CHR 0x09) cs))"

definition authenticate_from_auth_header ::
  "(string \<Rightarrow> bool) \<Rightarrow> (string \<Rightarrow> 'k res) \<Rightarrow> ('k \<Rightarrow> string \<Rightarrow> json res) \<Rightarrow> (string \<times> json) list \<Rightarrow> string
     \<Rightarrow> authentication chisel_res" where
  "authenticate_from_auth_header is_utf8 pem_key jwt_decode secrets header_value =
     (case split_whitespace header_value of
        scheme # rest \<Rightarrow>
          if scheme = ''Bearer'' then
            (case rest of
               token # _ \<Rightarrow> authenticate_jwt is_utf8 pem_key jwt_decode secrets token
             | [] \<Rightarrow> Err (error_bad_request (Bail ''missing token after Bearer'' [])))
          else Err (error_bad_request (Bail ''Could not recognize authentication token type: expected `Bearer` token.'' []))
      | [] \<Rightarrow> Err (error_bad_request (Bail ''Could not recognize authentication token type: expected `Bearer` token.'' [])))"

definition header_str :: "req_parts \<Rightarrow> string \<Rightarrow> string option" where
  "header_str req name =
     (case header_get req name of Some h \<Rightarrow> (case header_to_str h of Ok s \<Rightarrow> Some s | _ \<Rightarrow> None) | None \<Rightarrow> None)"

definition authenticate ::
  "(string \<Rightarrow> bool) \<Rightarrow> (string \<Rightarrow> 'k res) \<Rightarrow> ('k \<Rightarrow> string \<Rightarrow> json res) \<Rightarrow> req_parts \<Rightarrow> (string \<times> json) list
     \<Rightarrow> authentication chisel_res" where
  "authenticate is_utf8 pem_key jwt_decode req secrets =
     (case header_str req ''Authorization'' of
        Some auth_header \<Rightarrow> authenticate_from_auth_header is_utf8 pem_key jwt_decode secrets auth_header
      | None \<Rightarrow> (case header_str req ''ChiselUID'' of Some uid \<Rightarrow> Ok (UserId uid) | None \<Rightarrow> Ok NoAuth))"

subsection \<open>Authorization of a request\<close>

definition AUTH_ENTITY_NAMES :: "string list" where
  "AUTH_ENTITY_NAMES = [''AuthUser'', ''AuthSession'', ''AuthToken'', ''AuthAccount'']"

definition is_auth_entity_name :: "string \<Rightarrow> bool" where
  "is_auth_entity_name n = (n \<in> set AUTH_ENTITY_NAMES)"

text \<open>\<open>version.rs\<close>: what a running version consists of.\<close>

record version_info =
  vi_name :: string
  vi_tag :: string

type_synonym policy_sources = "(string \<times> 8 word list) list"

record 'r version =
  v_version_id :: string
  v_info :: version_info
  v_type_system :: type_system
  v_policy_system :: "'r policy_system"
  v_policy_sources :: policy_sources

definition get_auth_user_type :: "'r version \<Rightarrow> entity chisel_res" where
  "get_auth_user_type v =
     (case lookup_builtin_type (v_type_system v) ''AuthUser'' of
        Ok (TEntity t) \<Rightarrow> Ok t
      | Panic p \<Rightarrow> Panic p
      | _ \<Rightarrow> Err (error_internal (Bail ''type AuthUser not found'' [])))"

text \<open>\<open>fetch_email table id\<close> is the database's answer to the user query (none when it fails).\<close>

definition get_username_from_id ::
  "(string \<Rightarrow> string \<Rightarrow> string option) \<Rightarrow> 'r version \<Rightarrow> string option \<Rightarrow> string option" where
  "get_username_from_id fetch_email v user_id =
     (case (user_id, get_auth_user_type v) of
        (Some uid, Ok user_type) \<Rightarrow> fetch_email (ot_backing_table (entity_object user_type)) uid
      | _ \<Rightarrow> None)"

definition authorize_user_id ::
  "('r \<Rightarrow> string \<Rightarrow> bool) \<Rightarrow> (string \<Rightarrow> string \<Rightarrow> string option) \<Rightarrow> 'r version \<Rightarrow> authentication \<Rightarrow> string
     \<Rightarrow> unit chisel_res" where
  "authorize_user_id is_match fetch_email v auth routing_path =
     (let username = get_username_from_id fetch_email v (auth_user_id auth)
      in if user_is_allowed is_match (ps_users (v_policy_system v)) username routing_path then Ok ()
         else Err (error_forbidden (Bail ''Unauthorized user'' [])))"

definition authorize ::
  "('r \<Rightarrow> string \<Rightarrow> bool) \<Rightarrow> (string \<Rightarrow> string \<Rightarrow> string option) \<Rightarrow> 'r version \<Rightarrow> authentication \<Rightarrow> string
     \<Rightarrow> req_parts \<Rightarrow> (string \<times> json) list \<Rightarrow> unit chisel_res" where
  "authorize is_match fetch_email v auth routing_path req secrets =
     r_bind (authorize_user_id is_match fetch_email v auth routing_path) (\<lambda>_.
       if secret_is_allowed (ps_secrets (v_policy_system v)) req secrets routing_path then Ok ()
       else Err (error_forbidden (Bail ''Invalid header authentication'' [])))"

subsection \<open>Field policies by label\<close>

abbreviation is_transform :: "kind \<Rightarrow> bool" where
  "is_transform k \<equiv> (case k of Transform _ \<Rightarrow> True | _ \<Rightarrow> False)"

definition label_applies :: "('r \<Rightarrow> string \<Rightarrow> bool) \<Rightarrow> 'r policy_system \<Rightarrow> string \<Rightarrow> string \<Rightarrow> (kind \<Rightarrow> bool) \<Rightarrow> bool" where
  "label_applies is_match ps path lbl k \<longleftrightarrow>
     (\<exists>p. map_of (ps_labels ps) lbl = Some p \<and> \<not> is_match (lp_except_uri p) path \<and> k (lp_kind p))"

definition applies :: "('r \<Rightarrow> string \<Rightarrow> bool) \<Rightarrow> 'r policy_system \<Rightarrow> string \<Rightarrow> field \<Rightarrow> (kind \<Rightarrow> bool) \<Rightarrow> bool" where
  "applies is_match ps path fld k \<longleftrightarrow> (\<exists>lbl \<in> set (f_labels fld). label_applies is_match ps path lbl k)"

lemma label_step_fields:
  "fp_match_login (label_step is_match ps path fld lbl fp) =
     (if label_applies is_match ps path lbl (\<lambda>k. k = MatchLogin) then insert (f_name fld) (fp_match_login fp) else fp_match_login fp)"
  "fp_omit (label_step is_match ps path fld lbl fp) =
     (if label_applies is_match ps path lbl (\<lambda>k. k = Omit) then insert (f_name fld) (fp_omit fp) else fp_omit fp)"
  "dom (map_of (fp_transforms (label_step is_match ps path fld lbl fp))) =
     (if label_applies is_match ps path lbl is_transform then insert (f_name fld) (dom (map_of (fp_transforms fp)))
      else dom (map_of (fp_transforms fp)))"
  "fp_current_userid (label_step is_match ps path fld lbl fp) = fp_current_userid fp"
  by (auto simp: label_step_def label_applies_def split: option.splits kind.splits)

lemma fold_labels_fields:
  "fp_match_login (fold (label_step is_match ps path fld) lbls fp) = fp_match_login fp \<union>
     {n. n = f_name fld \<and> (\<exists>lbl \<in> set lbls. label_applies is_match ps path lbl (\<lambda>k. k = MatchLogin))}"
  "fp_omit (fold (label_step is_match ps path fld) lbls fp) = fp_omit fp \<union>
     {n. n = f_name fld \<and> (\<exists>lbl \<in> set lbls. label_applies is_match ps path lbl (\<lambda>k. k = Omit))}"
  "dom (map_of (fp_transforms (fold (label_step is_match ps path fld) lbls fp))) = dom (map_of (fp_transforms fp)) \<union>
     {n. n = f_name fld \<and> (\<exists>lbl \<in> set lbls. label_applies is_match ps path lbl is_transform)}"
  "fp_current_userid (fold (label_step is_match ps path fld) lbls fp) = fp_current_userid fp"
proof (induction lbls arbitrary: fp)
  case (Cons lbl lbls)
  { case 1 show ?case by (simp add: Cons.IH label_step_fields) blast }
  { case 2 show ?case by (simp add: Cons.IH label_step_fields) blast }
  { case 3 show ?case unfolding fold.simps comp_apply Cons.IH label_step_fields by auto }
  { case 4 show ?case by (simp add: Cons.IH label_step_fields) }
qed auto

lemma fold_fields_policies:
  "fp_match_login (fold (\<lambda>fld fp. fold (label_step is_match ps path fld) (f_labels fld) fp) flds fp) = fp_match_login fp \<union>
     {f_name fld |fld. fld \<in> set flds \<and> applies is_match ps path fld (\<lambda>k. k = MatchLogin)}"
  "fp_omit (fold (\<lambda>fld fp. fold (label_step is_match ps path fld) (f_labels fld) fp) flds fp) = fp_omit fp \<union>
     {f_name fld |fld. fld \<in> set flds \<and> applies is_match ps path fld (\<lambda>k. k = Omit)}"
  "dom (map_of (fp_transforms (fold (\<lambda>fld fp. fold (label_step is_match ps path fld) (f_labels fld) fp) flds fp))) = dom (map_of (fp_transforms fp)) \<union>
     {f_name fld |fld. fld \<in> set flds \<and> applies is_match ps path fld is_transform}"
  "fp_current_userid (fold (\<lambda>fld fp. fold (label_step is_match ps path fld) (f_labels fld) fp) flds fp) = fp_current_userid fp"
proof (induction flds arbitrary: fp)
  case (Cons fld flds)
  { case 1 show ?case unfolding fold.simps comp_apply Cons.IH fold_labels_fields applies_def [symmetric] by auto }
  { case 2 show ?case unfolding fold.simps comp_apply Cons.IH fold_labels_fields applies_def [symmetric] by auto }
  { case 3 show ?case unfolding fold.simps comp_apply Cons.IH fold_labels_fields applies_def [symmetric] by auto }
  { case 4 show ?case unfolding fold.simps comp_apply Cons.IH fold_labels_fields by simp }
qed simp_all


subsection \<open>The tables a policy file yields\<close>

definition user_entry :: "(string \<Rightarrow> 'r res) \<Rightarrow> route \<Rightarrow> 'r \<Rightarrow> bool" where
  "user_entry regex_new route rx = (\<exists>u. r_users route = Some u \<and> regex_new u = Ok rx)"

definition header_entry :: "(string \<Rightarrow> string res) \<Rightarrow> route \<Rightarrow> required_header \<Rightarrow> bool" where
  "header_entry method_from_str route h = (\<exists>m. r_mandatory_header route = Some m \<and>
     rh_header_name h = mh_name m \<and> rh_secret_name h = mh_secret_value_ref m \<and>
     (case mh_only_for_methods m of
        None \<Rightarrow> rh_methods h = None
      | Some v \<Rightarrow> (\<exists>ms. parse_methods method_from_str v = Ok ms \<and> rh_methods h = Some ms)))"

definition tables_inv :: "'r policy_system \<Rightarrow> bool" where
  "tables_inv ps = (pm_inv (ps_users ps) \<and> pm_inv (ps_secrets ps))"

definition route_added ::
  "(string \<Rightarrow> 'r res) \<Rightarrow> (string \<Rightarrow> string res) \<Rightarrow> route list \<Rightarrow> 'r policy_system \<Rightarrow> 'r policy_system \<Rightarrow> bool" where
  "route_added regex_new mfs rs ps ps' \<longleftrightarrow> tables_inv ps' \<and>
     (\<forall>k v. pm_get (ps_users ps') k = Some v \<longleftrightarrow>
        pm_get (ps_users ps) k = Some v \<or> (\<exists>r \<in> set rs. r_path r = k \<and> user_entry regex_new r v)) \<and>
     (\<forall>k v. pm_get (ps_secrets ps') k = Some v \<longleftrightarrow>
        pm_get (ps_secrets ps) k = Some v \<or> (\<exists>r \<in> set rs. r_path r = k \<and> header_entry mfs r v))"

lemma user_add_Ok:
  assumes "user_add path users paths = (paths', Ok u)" "pm_inv paths"
  shows "pm_inv paths' \<and> pm_get paths path = None \<and> pm_get paths' = (pm_get paths)(path \<mapsto> users)"
proof -
  have "paths' = fst (pm_insert path users paths)" "snd (pm_insert path users paths) = None"
    using assms(1) by (auto simp: user_add_def split: prod.splits if_splits)
  then show ?thesis
    using pm.inv_insert [OF assms(2)] pm.get_insert [OF assms(2)] pm.insert_old [OF assms(2), of path users] by simp
qed

lemma secret_add_Ok:
  assumes "secret_add path h paths = (paths', Ok u)" "pm_inv paths"
  shows "pm_inv paths' \<and> pm_get paths path = None \<and> pm_get paths' = (pm_get paths)(path \<mapsto> h)"
proof -
  have "paths' = fst (pm_insert path h paths)" "snd (pm_insert path h paths) = None"
    using assms(1) by (auto simp: secret_add_def split: prod.splits if_splits)
  then show ?thesis
    using pm.inv_insert [OF assms(2)] pm.get_insert [OF assms(2)] pm.insert_old [OF assms(2), of path h] by simp
qed

lemma yaml_users_step:
  assumes "(case r_users route of None \<Rightarrow> Ok ps
       | Some users \<Rightarrow> r_bind (regex_new users) (\<lambda>r.
             let (paths, res) = user_add (r_path route) r (ps_users ps)
             in r_bind res (\<lambda>_. Ok (ps\<lparr>ps_users := paths\<rparr>)))) = Ok ps'" and "tables_inv ps"
  shows "tables_inv ps' \<and> ps_secrets ps' = ps_secrets ps \<and>
    (\<forall>k v. pm_get (ps_users ps') k = Some v \<longleftrightarrow>
       pm_get (ps_users ps) k = Some v \<or> (r_path route = k \<and> user_entry regex_new route v))"
proof (cases "r_users route")
  case None
  with assms show ?thesis by (auto simp: user_entry_def)
next
  case (Some u)
  obtain rx where rx: "regex_new u = Ok rx"
    using assms(1) Some by (auto simp: r_bind_Ok_iff)
  obtain paths res where add: "user_add (r_path route) rx (ps_users ps) = (paths, res)" by force
  with assms(1) Some rx obtain x where "res = Ok x" and ps': "ps' = ps\<lparr>ps_users := paths\<rparr>"
    by (auto simp: r_bind_Ok_iff)
  with user_add_Ok [of "r_path route" rx "ps_users ps" paths] add assms(2)
  have "pm_inv paths" "pm_get (ps_users ps) (r_path route) = None" "pm_get paths = (pm_get (ps_users ps))(r_path route \<mapsto> rx)"
    by (auto simp: tables_inv_def)
  with ps' assms(2) Some rx show ?thesis by (auto simp: tables_inv_def user_entry_def)
qed

lemma yaml_secrets_step:
  assumes "(case r_mandatory_header route of
       None \<Rightarrow> Ok ps
     | Some header \<Rightarrow>
         r_bind (case mh_only_for_methods header of
             None \<Rightarrow> Ok None
           | Some v \<Rightarrow> r_map_ok Some (parse_methods mfs v)) (\<lambda>methods.
           let (paths, res) = secret_add (r_path route)
                 \<lparr>rh_header_name = mh_name header, rh_secret_name = mh_secret_value_ref header, rh_methods = methods\<rparr>
                 (ps_secrets ps)
           in r_bind res (\<lambda>_. Ok (ps\<lparr>ps_secrets := paths\<rparr>)))) = Ok ps'" and "tables_inv ps"
  shows "tables_inv ps' \<and> ps_users ps' = ps_users ps \<and>
    (\<forall>k v. pm_get (ps_secrets ps') k = Some v \<longleftrightarrow>
       pm_get (ps_secrets ps) k = Some v \<or> (r_path route = k \<and> header_entry mfs route v))"
proof (cases "r_mandatory_header route")
  case None
  with assms show ?thesis by (auto simp: header_entry_def)
next
  case (Some m)
  obtain methods where ms: "(case mh_only_for_methods m of None \<Rightarrow> Ok None | Some v \<Rightarrow> r_map_ok Some (parse_methods mfs v)) = Ok methods"
    using assms(1) Some by (auto simp: r_bind_Ok_iff)
  let ?h = "\<lparr>rh_header_name = mh_name m, rh_secret_name = mh_secret_value_ref m, rh_methods = methods\<rparr>"
  obtain paths res where add: "secret_add (r_path route) ?h (ps_secrets ps) = (paths, res)" by force
  with assms(1) Some ms obtain x where "res = Ok x" and ps': "ps' = ps\<lparr>ps_secrets := paths\<rparr>"
    by (auto simp: r_bind_Ok_iff)
  with secret_add_Ok [of "r_path route" ?h "ps_secrets ps" paths] add assms(2)
  have "pm_inv paths" "pm_get (ps_secrets ps) (r_path route) = None" "pm_get paths = (pm_get (ps_secrets ps))(r_path route \<mapsto> ?h)"
    by (auto simp: tables_inv_def)
  moreover have "header_entry mfs route v \<longleftrightarrow> v = ?h" for v
    using Some ms by (cases v) (auto simp: header_entry_def r_map_ok_Ok_iff split: option.splits)
  ultimately show ?thesis using ps' assms(2) by (auto simp: tables_inv_def)
qed

lemma route_step_added:
  assumes "yaml_route_step regex_new mfs r ps = Ok ps'" "tables_inv ps"
  shows "route_added regex_new mfs [r] ps ps'"
proof -
  obtain ps1 where "(case r_users r of None \<Rightarrow> Ok ps
       | Some users \<Rightarrow> r_bind (regex_new users) (\<lambda>x.
             let (paths, res) = user_add (r_path r) x (ps_users ps)
             in r_bind res (\<lambda>_. Ok (ps\<lparr>ps_users := paths\<rparr>)))) = Ok ps1"
    and s: "(case r_mandatory_header r of
       None \<Rightarrow> Ok ps1
     | Some header \<Rightarrow>
         r_bind (case mh_only_for_methods header of
             None \<Rightarrow> Ok None
           | Some v \<Rightarrow> r_map_ok Some (parse_methods mfs v)) (\<lambda>methods.
           let (paths, res) = secret_add (r_path r)
                 \<lparr>rh_header_name = mh_name header, rh_secret_name = mh_secret_value_ref header, rh_methods = methods\<rparr>
                 (ps_secrets ps1)
           in r_bind res (\<lambda>_. Ok (ps1\<lparr>ps_secrets := paths\<rparr>)))) = Ok ps'"
    using assms(1) unfolding yaml_route_step_def r_bind_Ok_iff by blast
  from yaml_users_step [OF this(1) assms(2)] yaml_secrets_step [OF s]
  show ?thesis unfolding route_added_def by auto
qed

lemma routes_added:
  "r_fold (yaml_route_step regex_new mfs) rs ps = Ok ps' \<Longrightarrow> tables_inv ps \<Longrightarrow> route_added regex_new mfs rs ps ps'"
proof (induction rs arbitrary: ps)
  case (Cons r rs)
  then obtain ps1 where ps1: "yaml_route_step regex_new mfs r ps = Ok ps1" "r_fold (yaml_route_step regex_new mfs) rs ps1 = Ok ps'"
    by (auto simp: r_bind_Ok_iff)
  note step = route_step_added [OF ps1(1) Cons.prems(2)]
  then have "tables_inv ps1" by (simp add: route_added_def)
  with Cons.IH [OF ps1(2)] have "route_added regex_new mfs rs ps1 ps'" .
  with step show ?case by (auto simp: route_added_def)
qed (auto simp: route_added_def)

lemma label_step_keeps_tables:
  assumes "yaml_label_step regex_new l ps = Ok ps'"
  shows "ps_users ps' = ps_users ps \<and> ps_secrets ps' = ps_secrets ps"
proof -
  obtain rx where "regex_new (case l_except_uri l of Some u \<Rightarrow> u | None \<Rightarrow> ''^'' @ [CHR 0x5C] @ ''b$'') = Ok rx"
    using assms unfolding yaml_label_step_def r_bind_Ok_iff by blast
  with assms show ?thesis
    by (cases "l_transform l") (auto simp: yaml_label_step_def Let_def split: if_splits)
qed

lemma labels_keep_tables:
  assumes "r_fold (yaml_label_step regex_new) ls PolicySystem_default = Ok ps"
  shows "ps_users ps = pm_default \<and> ps_secrets ps = pm_default"
proof (rule r_fold_invariant [OF assms])
  show "ps_users PolicySystem_default = pm_default \<and> ps_secrets PolicySystem_default = pm_default"
    by (simp add: PolicySystem_default_def)
qed (use label_step_keeps_tables in metis)

lemma from_yaml_tables:
  assumes "from_yaml regex_new mfs (Ok y) = Ok ps"
  shows "tables_inv ps"
    "pm_get (ps_users ps) k = Some v \<longleftrightarrow> (\<exists>r \<in> set (yaml_routes y). r_path r = k \<and> user_entry regex_new r v)"
    "pm_get (ps_secrets ps) k = Some h \<longleftrightarrow> (\<exists>r \<in> set (yaml_routes y). r_path r = k \<and> header_entry mfs r h)"
proof -
  obtain ps0 ls where "r_fold (yaml_label_step regex_new) ls PolicySystem_default = Ok ps0"
    and rs: "r_fold (yaml_route_step regex_new mfs) (yaml_routes y) ps0 = Ok ps"
    using assms by (auto simp: from_yaml_def r_bind_Ok_iff)
  then have ps0: "ps_users ps0 = pm_default" "ps_secrets ps0 = pm_default" using labels_keep_tables by auto
  then have "tables_inv ps0" by (simp add: tables_inv_def pm.inv_new)
  from routes_added [OF rs this] ps0
  show "tables_inv ps"
    "pm_get (ps_users ps) k = Some v \<longleftrightarrow> (\<exists>r \<in> set (yaml_routes y). r_path r = k \<and> user_entry regex_new r v)"
    "pm_get (ps_secrets ps) k = Some h \<longleftrightarrow> (\<exists>r \<in> set (yaml_routes y). r_path r = k \<and> header_entry mfs r h)"
    by (auto simp: route_added_def pm.get_new)
qed

text \<open>The route of a request: among the routes of one kind, one with the longest matching path.\<close>

definition governs :: "(route \<Rightarrow> bool) \<Rightarrow> route list \<Rightarrow> string \<Rightarrow> route \<Rightarrow> bool" where
  "governs restricts routes path r \<longleftrightarrow> r \<in> set routes \<and> restricts r \<and> is_path_prefix (r_path r) path \<and>
     (\<forall>r' \<in> set routes. restricts r' \<and> is_path_prefix (r_path r') path \<longrightarrow> length (r_path r') \<le> length (r_path r))"

text \<open>A route of a policy file that was read without error yields an entry.\<close>

lemma from_yaml_entries:
  assumes "from_yaml regex_new mfs (Ok y) = Ok ps" "r \<in> set (yaml_routes y)"
  shows "r_users r \<noteq> None \<Longrightarrow> \<exists>rx. user_entry regex_new r rx"
    "r_mandatory_header r \<noteq> None \<Longrightarrow> \<exists>h. header_entry mfs r h"
proof -
  obtain ps0 where rs: "r_fold (yaml_route_step regex_new mfs) (yaml_routes y) ps0 = Ok ps"
    using assms by (auto simp: from_yaml_def r_bind_Ok_iff)
  obtain ps1 ps2 where step: "yaml_route_step regex_new mfs r ps1 = Ok ps2"
    using r_fold_step_Ok [OF rs assms(2)] by blast
  show "\<exists>rx. user_entry regex_new r rx" if "r_users r \<noteq> None"
    using step that by (auto simp: yaml_route_step_def user_entry_def r_bind_Ok_iff)
  show "\<exists>h. header_entry mfs r h" if some: "r_mandatory_header r \<noteq> None"
  proof -
    obtain m where m: "r_mandatory_header r = Some m" using some by auto
    obtain methods where "(case mh_only_for_methods m of None \<Rightarrow> Ok None | Some v \<Rightarrow> r_map_ok Some (parse_methods mfs v)) = Ok methods"
      using step m by (auto simp: yaml_route_step_def r_bind_Ok_iff)
    then have "header_entry mfs r \<lparr>rh_header_name = mh_name m, rh_secret_name = mh_secret_value_ref m, rh_methods = methods\<rparr>"
      using m by (auto simp: header_entry_def r_map_ok_Ok_iff split: option.splits)
    then show ?thesis by blast
  qed
qed

lemma governed_entries:
  fixes table :: "string \<rightharpoonup> 'v" and entry :: "route \<Rightarrow> 'v \<Rightarrow> bool"
  assumes get: "\<And>k v. table k = Some v \<longleftrightarrow> (\<exists>r \<in> set rs. r_path r = k \<and> entry r v)"
    and restricts: "\<And>r. r \<in> set rs \<Longrightarrow> restricts r \<longleftrightarrow> (\<exists>v. entry r v)"
    and unique: "\<And>r v v'. entry r v \<Longrightarrow> entry r v' \<Longrightarrow> v = v'"
  shows "(\<forall>k v. table k = Some v \<and> is_path_prefix k path \<and>
      (\<forall>k'. table k' \<noteq> None \<and> is_path_prefix k' path \<longrightarrow> length k' \<le> length k) \<longrightarrow> P v) \<longleftrightarrow>
    (\<forall>r. governs restricts rs path r \<longrightarrow> (\<exists>v. entry r v \<and> P v))"
proof -
  let ?max = "\<lambda>k. \<forall>k'. table k' \<noteq> None \<and> is_path_prefix k' path \<longrightarrow> length k' \<le> length k"
  have some: "table k \<noteq> None \<longleftrightarrow> (\<exists>r \<in> set rs. r_path r = k \<and> restricts r)" for k
    using get [of k] restricts by auto
  have gov: "governs restricts rs path r \<longleftrightarrow> r \<in> set rs \<and> restricts r \<and> is_path_prefix (r_path r) path \<and> ?max (r_path r)" for r
    unfolding governs_def some by blast
  show ?thesis
  proof (intro iffI allI impI)
    fix r assume all: "\<forall>k v. table k = Some v \<and> is_path_prefix k path \<and> ?max k \<longrightarrow> P v"
      and r: "governs restricts rs path r"
    then obtain v where v: "entry r v" using gov restricts by blast
    then have "table (r_path r) = Some v" using r gov get by blast
    with all r gov have "P v" by blast
    with v show "\<exists>v. entry r v \<and> P v" by blast
  next
    fix k v assume all: "\<forall>r. governs restricts rs path r \<longrightarrow> (\<exists>v. entry r v \<and> P v)"
      and k: "table k = Some v \<and> is_path_prefix k path \<and> ?max k"
    obtain r where r: "r \<in> set rs" "r_path r = k" "entry r v" using get k by blast
    then have "governs restricts rs path r" using gov restricts k by blast
    with all unique r(3) show "P v" by blast
  qed
qed

text \<open>
  C13: after a policy file is read, a user may call a path iff the route that governs the path
  (if any route restricts its users) has a user pattern matching the logged-in user's name: the
  longest matching route alone decides, and an anonymous caller fails it.
\<close>

theorem user_authorization_spec:
  assumes yaml: "from_yaml regex_new method_from_str (Ok y) = Ok ps"
  shows "user_is_allowed is_match (ps_users ps) username path \<longleftrightarrow>
    (\<forall>r. governs (\<lambda>r. r_users r \<noteq> None) (yaml_routes y) path r \<longrightarrow>
      (\<exists>name rx. username = Some name \<and> user_entry regex_new r rx \<and> is_match rx name))"
proof -
  let ?P = "\<lambda>u. case username of None \<Rightarrow> False | Some name \<Rightarrow> is_match u name"
  have inv: "pm_inv (ps_users ps)" using from_yaml_tables(1) [OF yaml] by (simp add: tables_inv_def)
  have restr: "r_users r \<noteq> None \<longleftrightarrow> (\<exists>rx. user_entry regex_new r rx)" if "r \<in> set (yaml_routes y)" for r
    using from_yaml_entries(1) [OF yaml that] by (auto simp: user_entry_def)
  have unique: "v = v'" if "user_entry regex_new r v" "user_entry regex_new r v'" for r v v'
    using that by (auto simp: user_entry_def)
  have "user_is_allowed is_match (ps_users ps) username path \<longleftrightarrow>
      (\<forall>k v. pm_get (ps_users ps) k = Some v \<and> is_path_prefix k path \<and>
        (\<forall>k'. pm_get (ps_users ps) k' \<noteq> None \<and> is_path_prefix k' path \<longrightarrow> length k' \<le> length k) \<longrightarrow> ?P v)"
    unfolding user_is_allowed_def by (rule pm.longest_all [OF inv])
  also have "\<dots> \<longleftrightarrow> (\<forall>r. governs (\<lambda>r. r_users r \<noteq> None) (yaml_routes y) path r \<longrightarrow> (\<exists>v. user_entry regex_new r v \<and> ?P v))"
    by (rule governed_entries [OF from_yaml_tables(2) [OF yaml] restr unique])
  also have "\<dots> \<longleftrightarrow> (\<forall>r. governs (\<lambda>r. r_users r \<noteq> None) (yaml_routes y) path r \<longrightarrow>
      (\<exists>name rx. username = Some name \<and> user_entry regex_new r rx \<and> is_match rx name))"
    by (cases username) auto
  finally show ?thesis .
qed

definition blog_routes :: yaml_policies where
  "blog_routes = \<lparr>y_routes = Some [\<lparr>r_path = ''/blog'', r_users = Some ''admin'', r_mandatory_header = None\<rparr>,
       \<lparr>r_path = ''/blog/pub'', r_users = Some ''anyone'',
        r_mandatory_header = Some \<lparr>mh_name = ''h'', mh_secret_value_ref = ''s'', mh_only_for_methods = None\<rparr>\<rparr>],
     y_endpoints = None, y_labels = None\<rparr>"

lemma blog_routes_read: "\<exists>ps. from_yaml Ok Ok (Ok blog_routes) = Ok ps"
proof -
  have "is_ok (from_yaml (Ok :: string \<Rightarrow> string res) Ok (Ok blog_routes))" by code_simp
  then show ?thesis by (simp add: is_ok_iff)
qed

theorem user_authorization_spec_witness:
  "\<exists>ps. from_yaml Ok Ok (Ok blog_routes) = Ok ps \<and> \<not> user_is_allowed (=) (ps_users ps) None ''/blog''"
proof -
  obtain ps where ps: "from_yaml (Ok :: string \<Rightarrow> string res) Ok (Ok blog_routes) = Ok ps" using blog_routes_read by blast
  have "governs (\<lambda>r. r_users r \<noteq> None) (yaml_routes blog_routes) ''/blog''
      \<lparr>r_path = ''/blog'', r_users = Some ''admin'', r_mandatory_header = None\<rparr>"
    by (simp add: governs_def blog_routes_def yaml_routes_def is_path_prefix_def starts_with_def)
  with user_authorization_spec [OF ps, of "(=)" None "''/blog''"] ps show ?thesis by fastforce
qed

text \<open>
  After a policy file is read, a request passes the header check for a path iff the route
  that governs the path among those with a mandatory header (if there is one) does not cover the
  request's method, or its secret is a string and the request carries exactly that string in the
  header the route names.
\<close>

theorem header_authorization_spec:
  assumes yaml: "from_yaml regex_new method_from_str (Ok y) = Ok ps"
  shows "secret_is_allowed (ps_secrets ps) req secrets path \<longleftrightarrow>
    (\<forall>r. governs (\<lambda>r. r_mandatory_header r \<noteq> None) (yaml_routes y) path r \<longrightarrow>
      (\<exists>h. header_entry method_from_str r h \<and>
        ((\<exists>ms. rh_methods h = Some ms \<and> rp_method req \<notin> set ms) \<or>
         (\<exists>s. map_of secrets (rh_secret_name h) = Some (JString s) \<and> header_str req (rh_header_name h) = Some s))))"
proof -
  let ?P = "\<lambda>h. (\<exists>ms. rh_methods h = Some ms \<and> rp_method req \<notin> set ms) \<or>
    (\<exists>s. map_of secrets (rh_secret_name h) = Some (JString s) \<and> header_str req (rh_header_name h) = Some s)"
  have inv: "pm_inv (ps_secrets ps)" using from_yaml_tables(1) [OF yaml] by (simp add: tables_inv_def)
  have restr: "r_mandatory_header r \<noteq> None \<longleftrightarrow> (\<exists>h. header_entry method_from_str r h)" if "r \<in> set (yaml_routes y)" for r
    using from_yaml_entries(2) [OF yaml that] by (auto simp: header_entry_def)
  have unique: "h = h'" if "header_entry method_from_str r h" "header_entry method_from_str r h'" for r h h'
    using that by (cases h; cases h') (auto simp: header_entry_def split: option.splits)
  have "secret_is_allowed (ps_secrets ps) req secrets path =
      (case longest_prefix (ps_secrets ps) path of None \<Rightarrow> True | Some (_, h) \<Rightarrow> ?P h)"
    by (auto simp: secret_is_allowed_def header_str_def split: option.splits json.splits result.splits)
  also have "\<dots> \<longleftrightarrow> (\<forall>k v. pm_get (ps_secrets ps) k = Some v \<and> is_path_prefix k path \<and>
        (\<forall>k'. pm_get (ps_secrets ps) k' \<noteq> None \<and> is_path_prefix k' path \<longrightarrow> length k' \<le> length k) \<longrightarrow> ?P v)"
    by (rule pm.longest_all [OF inv])
  also have "\<dots> \<longleftrightarrow> (\<forall>r. governs (\<lambda>r. r_mandatory_header r \<noteq> None) (yaml_routes y) path r \<longrightarrow>
      (\<exists>h. header_entry method_from_str r h \<and> ?P h))"
    by (rule governed_entries [OF from_yaml_tables(3) [OF yaml] restr unique])
  finally show ?thesis .
qed

theorem header_authorization_spec_witness:
  "\<exists>ps. from_yaml Ok Ok (Ok blog_routes) = Ok ps \<and>
     \<not> secret_is_allowed (ps_secrets ps) \<lparr>rp_method = ''GET'', rp_headers = []\<rparr> [(''s'', JString ''x'')] ''/blog/pub/1''"
proof -
  obtain ps where ps: "from_yaml (Ok :: string \<Rightarrow> string res) Ok (Ok blog_routes) = Ok ps" using blog_routes_read by blast
  have "governs (\<lambda>r. r_mandatory_header r \<noteq> None) (yaml_routes blog_routes) ''/blog/pub/1''
      \<lparr>r_path = ''/blog/pub'', r_users = Some ''anyone'',
        r_mandatory_header = Some \<lparr>mh_name = ''h'', mh_secret_value_ref = ''s'', mh_only_for_methods = None\<rparr>\<rparr>"
    by (simp add: governs_def blog_routes_def yaml_routes_def is_path_prefix_def starts_with_def Let_def)
  with header_authorization_spec [OF ps, of "\<lparr>rp_method = ''GET'', rp_headers = []\<rparr>" "[(''s'', JString ''x'')]" "''/blog/pub/1''"] ps
  show ?thesis by (fastforce simp: header_entry_def header_str_def header_get_def)
qed

text \<open>
  How a request is authenticated.  Claims are taken only from the bearer token of the
  \<open>Authorization\<close> header, verified with the key of the secrets; the user id of the \<open>ChiselUID\<close>
  header is used, unverified, only when there is no readable \<open>Authorization\<close> header.
\<close>

theorem authenticate_spec:
  "authenticate is_utf8 pem_key jwt_decode req secrets = Ok auth \<longleftrightarrow>
    (case header_str req ''Authorization'' of
       Some h \<Rightarrow> (\<exists>token rest pem dkey claims. auth = Jwt claims \<and> split_whitespace h = ''Bearer'' # token # rest \<and>
         map_of secrets ''CHISEL_JWT_VALIDATION_KEY'' = Some (JString pem) \<and>
         decoding_key_from_pem is_utf8 pem_key pem = Ok dkey \<and> jwt_decode dkey token = Ok claims)
     | None \<Rightarrow> auth = (case header_str req ''ChiselUID'' of Some uid \<Rightarrow> UserId uid | None \<Rightarrow> NoAuth))"
proof (cases "header_str req ''Authorization''")
  case None
  then show ?thesis by (auto simp: authenticate_def split: option.splits)
next
  case (Some h)
  have jwt: "authenticate_jwt is_utf8 pem_key jwt_decode secrets token = Ok auth \<longleftrightarrow>
    (\<exists>pem dkey claims. auth = Jwt claims \<and> map_of secrets ''CHISEL_JWT_VALIDATION_KEY'' = Some (JString pem) \<and>
       decoding_key_from_pem is_utf8 pem_key pem = Ok dkey \<and> jwt_decode dkey token = Ok claims)" for token
    by (auto simp: authenticate_jwt_def json_as_str_def r_bind_Ok_iff split: option.splits json.splits)
  have "authenticate is_utf8 pem_key jwt_decode req secrets = Ok auth \<longleftrightarrow>
    (\<exists>token rest. split_whitespace h = ''Bearer'' # token # rest \<and>
       authenticate_jwt is_utf8 pem_key jwt_decode secrets token = Ok auth)"
    using Some by (auto simp: authenticate_def authenticate_from_auth_header_def split: list.splits)
  then show ?thesis using Some by (auto simp: jwt)
qed

end
