(* ===== verification/Http.thy ===== *)
theory Http
  imports Authorization
begin

text \<open>
  \<open>server/src/http.rs\<close> and the version table of \<open>server/src/trunk.rs\<close>: the front door.  A
  request is redirected to its normalised path, answered by the server itself, or authenticated,
  authorized and handed as a job to the worker of a version.  \<open>handle_version_request\<close> returns
  the job it sent besides the response, so that what reaches a worker is visible.

  The server's environment is one record of parameters: the regular expression matcher, the user
  table, JWT decoding, the printing of errors and of the index page, the workers' answers (none
  when a job is dropped) and the validity of header names and values.
\<close>

record http_request =
  hr_method :: string
  hr_uri :: string
  hr_headers :: "(string \<times> string) list"
  hr_body :: string
  hr_routing_path :: string
  hr_user_id :: "string option"

record http_response =
  hs_status :: "16 word"
  hs_headers :: "(string \<times> string) list"
  hs_body :: string

record response =
  rs_status :: nat
  rs_headers :: "(string \<times> string) list"
  rs_body :: string

record uri =
  u_authority :: string
  u_path :: string
  u_query :: "string option"

record request =
  rq_parts :: req_parts
  rq_uri :: uri
  rq_body :: "string res"

type_synonym 'r trunk = "(string \<times> 'r version) list"

record ('r, 'k) server_env =
  se_is_match :: "'r \<Rightarrow> string \<Rightarrow> bool"
  se_fetch_email :: "string \<Rightarrow> string \<Rightarrow> string option"
  se_is_utf8 :: "string \<Rightarrow> bool"
  se_pem_key :: "string \<Rightarrow> 'k res"
  se_jwt_decode :: "'k \<Rightarrow> string \<Rightarrow> json res"
  se_error_string :: "anyhow \<Rightarrow> string"
  se_index_page :: "string list \<Rightarrow> string"
  se_worker :: "string \<Rightarrow> http_request \<Rightarrow> http_response option"
  se_header_name :: "string \<Rightarrow> string res"
  se_header_value :: "string \<Rightarrow> string res"

record ('r, 'k) server =
  sv_env :: "('r, 'k) server_env"
  sv_trunk :: "'r trunk"
  sv_secrets :: "(string \<times> json) list"

subsection \<open>The version table\<close>

definition list_versions :: "'r trunk \<Rightarrow> 'r version list" where
  "list_versions t = map snd t"

definition get_version :: "'r trunk \<Rightarrow> string \<Rightarrow> 'r version option" where
  "get_version t version_id = map_of t version_id"

definition add_version :: "'r version \<Rightarrow> 'r trunk \<Rightarrow> 'r trunk" where
  "add_version v t = al_insert (v_version_id v) v t"

definition remove_version :: "string \<Rightarrow> 'r trunk \<Rightarrow> 'r trunk \<times> 'r version option" where
  "remove_version version_id t = (al_remove version_id t, map_of t version_id)"

subsection \<open>Paths\<close>

definition push_segment :: "nat \<times> string \<Rightarrow> string \<Rightarrow> string" where
  "push_segment = (\<lambda>(i, segment) normalized. (if i \<noteq> 0 then normalized @ ''/'' else normalized) @ segment)"

definition normalize_path :: "string \<Rightarrow> string" where
  "normalize_path path =
     fold push_segment (enumerate 0 (filter (\<lambda>s. s \<noteq> []) (split_on CHR ''/'' path))) ''/''"

text \<open>The regular expression \<open>^/([^/]*)((/.*)?)$\<close>; a dot matches anything but a line feed.\<close>

definition get_version_path :: "string \<Rightarrow> (string \<times> string) option" where
  "get_version_path path =
     (case path of
        [] \<Rightarrow> None
      | c # rest \<Rightarrow>
          if c \<noteq> CHR ''/'' then None
          else let routing_path = dropWhile (\<lambda>d. d \<noteq> CHR ''/'') rest
               in if CHR 0x0A \<in> set routing_path then None
                  else Some (takeWhile (\<lambda>d. d \<noteq> CHR ''/'') rest, routing_path))"

definition uri_string :: "uri \<Rightarrow> string" where
  "uri_string u = u_authority u @ u_path u @ (case u_query u of Some q \<Rightarrow> ''?'' @ q | None \<Rightarrow> [])"

subsection \<open>Responses\<close>

definition redirect_to_path :: "uri \<Rightarrow> string \<Rightarrow> response" where
  "redirect_to_path u path =
     (let redirect_uri = uri_string (u\<lparr>u_path := path\<rparr>)
      in \<lparr>rs_status = 308, rs_headers = [(''location'', redirect_uri)], rs_body = ''Redirected to '' @ redirect_uri\<rparr>)"

definition handle_index :: "('r, 'k) server \<Rightarrow> response" where
  "handle_index server =
     (let versions = sort (map v_version_id (list_versions (sv_trunk server)))
      in \<lparr>rs_status = 200, rs_headers = [(''content-type'', ''application/json'')],
          rs_body = se_index_page (sv_env server) (''/'' # map (\<lambda>v. ''/'' @ v) versions)\<rparr>)"

definition handle_options :: response where
  "handle_options = \<lparr>rs_status = 200, rs_headers = [], rs_body = ''ok''\<rparr>"

definition handle_not_found :: "string \<Rightarrow> response" where
  "handle_not_found msg = \<lparr>rs_status = 404, rs_headers = [], rs_body = msg\<rparr>"

definition handle_forbidden :: "string \<Rightarrow> response" where
  "handle_forbidden msg = \<lparr>rs_status = 403, rs_headers = [], rs_body = msg\<rparr>"

definition handle_bad_request :: "string \<Rightarrow> response" where
  "handle_bad_request msg = \<lparr>rs_status = 400, rs_headers = [], rs_body = msg\<rparr>"

definition handle_error :: "anyhow \<Rightarrow> response" where
  "handle_error err = \<lparr>rs_status = 500, rs_headers = [], rs_body = []\<rparr>"

definition handle_chisel_error :: "('r, 'k) server \<Rightarrow> chisel_error \<Rightarrow> response res" where
  "handle_chisel_error server e =
     (case ce_kind e of
        Forbbiden \<Rightarrow> Ok (handle_forbidden (se_error_string (sv_env server) (ce_inner e)))
      | BadRequest \<Rightarrow> Ok (handle_bad_request (se_error_string (sv_env server) (ce_inner e)))
      | Internal \<Rightarrow> Err (ce_inner e))"

definition default_headers :: "(string \<times> string) list" where
  "default_headers =
     [(''access-control-allow-origin'', ''*''),
      (''access-control-allow-methods'', ''POST, PUT, GET, OPTIONS, DELETE, PATCH''),
      (''access-control-allow-headers'', ''Content-Type,ChiselUID'')]"

definition add_default_header :: "string \<times> string \<Rightarrow> (string \<times> string) list \<Rightarrow> (string \<times> string) list" where
  "add_default_header = (\<lambda>(name, val) headers.
     if name \<in> fst ` set headers then headers else headers @ [(name, val)])"

definition add_default_headers :: "response \<Rightarrow> response" where
  "add_default_headers r = r\<lparr>rs_headers := fold add_default_header default_headers (rs_headers r)\<rparr>"

subsection \<open>Requests\<close>

text \<open>The response a worker's answer becomes; a status code has three digits.\<close>

definition convert_response :: "('r, 'k) server \<Rightarrow> http_response \<Rightarrow> response res" where
  "convert_response server hs =
     (if unat (hs_status hs) < 100 \<or> 999 < unat (hs_status hs)
      then Err (Context ''Response specified an invalid status code'' (Bail ''invalid status code'' []))
      else r_bind (r_fold (\<lambda>(name, val) headers.
             r_bind (with_context ''Response header {:?} is not a valid header name'' (se_header_name (sv_env server) name)) (\<lambda>name.
             r_bind (with_context ''Response header {:?} has invalid value'' (se_header_value (sv_env server) val)) (\<lambda>val.
             Ok (headers @ [(name, val)])))) (hs_headers hs) []) (\<lambda>headers.
           Ok \<lparr>rs_status = unat (hs_status hs), rs_headers = headers, rs_body = hs_body hs\<rparr>))"

definition make_http_request :: "request \<Rightarrow> string \<Rightarrow> string \<Rightarrow> authentication \<Rightarrow> http_request" where
  "make_http_request request req_body routing_path auth =
     \<lparr>hr_method = rp_method (rq_parts request), hr_uri = uri_string (rq_uri request),
      hr_headers = map (\<lambda>(name, val). (name, case header_to_str val of Ok s \<Rightarrow> s | _ \<Rightarrow> [])) (rp_headers (rq_parts request)),
      hr_body = req_body, hr_routing_path = routing_path, hr_user_id = auth_user_id auth\<rparr>"

definition handle_version_request ::
  "('r, 'k) server \<Rightarrow> 'r version \<Rightarrow> request \<Rightarrow> string \<Rightarrow> http_request option \<times> response res" where
  "handle_version_request server version request routing_path =
     (let env = sv_env server; parts = rq_parts request in
      case rq_body request of
        Err e \<Rightarrow> (None, Err e)
      | Panic p \<Rightarrow> (None, Panic p)
      | Ok req_body \<Rightarrow>
        (case authenticate (se_is_utf8 env) (se_pem_key env) (se_jwt_decode env) parts (sv_secrets server) of
           Err e \<Rightarrow> (None, handle_chisel_error server e)
         | Panic p \<Rightarrow> (None, Panic p)
         | Ok authentication \<Rightarrow>
           (case authorize (se_is_match env) (se_fetch_email env) version authentication routing_path parts (sv_secrets server) of
              Err e \<Rightarrow> (None, handle_chisel_error server e)
            | Panic p \<Rightarrow> (None, Panic p)
            | Ok _ \<Rightarrow>
                let http_request = make_http_request request req_body routing_path authentication
                in (Some http_request,
                    r_bind (ok_or (Context ''Request was aborted'' (Bail ''channel closed'' []))
                              (se_worker env (v_version_id version) http_request))
                      (convert_response server)))))"

definition try_handle_request :: "('r, 'k) server \<Rightarrow> request \<Rightarrow> http_request option \<times> response res" where
  "try_handle_request server request =
     (let path = u_path (rq_uri request); normalized_path = normalize_path path in
      if normalized_path \<noteq> path then (None, Ok (redirect_to_path (rq_uri request) normalized_path))
      else if path = ''/'' then (None, Ok (handle_index server))
      else if rp_method (rq_parts request) = ''OPTIONS'' then (None, Ok handle_options)
      else case get_version_path path of
             Some (version_id, routing_path) \<Rightarrow>
               (case get_version (sv_trunk server) version_id of
                  Some version \<Rightarrow> handle_version_request server version request routing_path
                | None \<Rightarrow> (None, Ok (handle_not_found (''Unknown version '' @ version_id))))
           | None \<Rightarrow> (None, Ok (handle_not_found ''Invalid URL path'')))"

definition handle_request :: "('r, 'k) server \<Rightarrow> request \<Rightarrow> http_request option \<times> response res" where
  "handle_request server request =
     (let (job, r) = try_handle_request server request
      in (job, r_map_ok add_default_headers (case r of Err e \<Rightarrow> Ok (handle_error e) | _ \<Rightarrow> r)))"

subsection \<open>Normalised paths\<close>

definition segments :: "string \<Rightarrow> string list" where
  "segments path = filter (\<lambda>s. s \<noteq> []) (split_on CHR ''/'' path)"

lemma push_segments:
  "0 < n \<Longrightarrow> fold push_segment (enumerate n segs) acc = acc @ concat (map (\<lambda>s. CHR ''/'' # s) segs)"
  by (induction segs arbitrary: n acc) (simp_all add: push_segment_def)

lemma normalize_path_segments:
  "normalize_path path = (if segments path = [] then ''/'' else concat (map (\<lambda>s. CHR ''/'' # s) (segments path)))"
proof (cases "segments path")
  case Nil
  then show ?thesis by (simp add: normalize_path_def segments_def)
next
  case (Cons s segs)
  then show ?thesis
    using push_segments [of 1 segs "''/'' @ s"]
    by (simp add: normalize_path_def segments_def push_segment_def)
qed

lemma split_on_append_sep: "c \<notin> set a \<Longrightarrow> split_on c (a @ c # b) = a # split_on c b"
  by (induction a) auto

lemma split_on_pieces: "s \<in> set (split_on c xs) \<Longrightarrow> c \<notin> set s"
proof (induction xs arbitrary: s)
  case (Cons x xs)
  obtain y ys where "split_on c xs = y # ys" by (meson list.exhaust split_on_not_Nil)
  with Cons show ?case by (auto split: if_splits)
qed simp

lemma segments_join:
  assumes "\<And>s. s \<in> set segs \<Longrightarrow> s \<noteq> [] \<and> CHR ''/'' \<notin> set s" "CHR ''/'' \<notin> set a"
  shows "filter (\<lambda>s. s \<noteq> []) (split_on CHR ''/'' (a @ concat (map (\<lambda>s. CHR ''/'' # s) segs))) =
    filter (\<lambda>s. s \<noteq> []) [a] @ segs"
  using assms
proof (induction segs arbitrary: a)
  case Nil
  then show ?case by (simp add: split_on_no_sep)
next
  case (Cons s segs)
  then have s: "s \<noteq> []" "CHR ''/'' \<notin> set s" by auto
  with Cons.IH [of s] Cons.prems show ?case by (simp add: split_on_append_sep)
qed

lemma segments_wf: "s \<in> set (segments path) \<Longrightarrow> s \<noteq> [] \<and> CHR ''/'' \<notin> set s"
  by (auto simp: segments_def dest: split_on_pieces)

lemma segments_normalize: "segments (normalize_path path) = segments path"
proof (cases "segments path = []")
  case True
  then show ?thesis by (simp add: normalize_path_segments segments_def)
next
  case False
  have "segments (concat (map (\<lambda>s. CHR ''/'' # s) (segments path))) = segments path"
    using segments_join [where segs = "segments path" and a = "[]"] segments_wf [of _ path]
    by (simp add: segments_def [of "concat _"])
  with False show ?thesis by (simp add: normalize_path_segments)
qed

text \<open>
  Normalisation keeps exactly the non-empty segments of a path, in order; a normalised path
  is left alone, so a redirected request is not redirected again; and it is the only path with
  those segments that the server serves.
\<close>

theorem normalize_path_spec:
  "segments (normalize_path path) = segments path \<and>
   normalize_path (normalize_path path) = normalize_path path \<and>
   (\<forall>path'. (segments path' = segments path \<and> normalize_path path' = path') = (path' = normalize_path path))"
proof (intro conjI allI)
  show "segments (normalize_path path) = segments path" by (rule segments_normalize)
  show idem: "normalize_path (normalize_path path) = normalize_path path"
    unfolding normalize_path_segments [of "normalize_path path"] segments_normalize
    by (rule normalize_path_segments [symmetric])
  show "(segments path' = segments path \<and> normalize_path path' = path') = (path' = normalize_path path)" for path'
    using normalize_path_segments [of path'] normalize_path_segments [of path] idem segments_normalize [of path]
    by auto
qed

subsection \<open>What reaches a worker\<close>

lemma handle_version_request_job:
  "fst (handle_version_request server version request routing_path) = Some job \<longleftrightarrow>
    (\<exists>body auth. rq_body request = Ok body \<and>
       authenticate (se_is_utf8 (sv_env server)) (se_pem_key (sv_env server)) (se_jwt_decode (sv_env server))
         (rq_parts request) (sv_secrets server) = Ok auth \<and>
       authorize (se_is_match (sv_env server)) (se_fetch_email (sv_env server)) version auth routing_path
         (rq_parts request) (sv_secrets server) = Ok () \<and>
       job = make_http_request request body routing_path auth)"
  by (auto simp: handle_version_request_def Let_def split: result.splits)

lemma authorize_Ok:
  "authorize is_match fetch_email v auth routing_path req secrets = Ok () \<longleftrightarrow>
     user_is_allowed is_match (ps_users (v_policy_system v)) (get_username_from_id fetch_email v (auth_user_id auth)) routing_path \<and>
     secret_is_allowed (ps_secrets (v_policy_system v)) req secrets routing_path"
  by (auto simp: authorize_def authorize_user_id_def Let_def)

lemma handle_request_job: "fst (handle_request server request) = fst (try_handle_request server request)"
  by (simp add: handle_request_def split: prod.splits)

text \<open>
  C14: exactly the authenticated and authorized requests become jobs.  A request reaches a worker
  iff its path is normalised and names a version, its method is not \<open>OPTIONS\<close>, its body was
  read, it authenticates, and the version's tables allow the user and the secret header for the
  routing path; the job carries the authenticated user id.
\<close>

theorem request_gate:
  "fst (handle_request server request) = Some job \<longleftrightarrow>
    (let path = u_path (rq_uri request); parts = rq_parts request; env = sv_env server in
     \<exists>version_id routing_path version body auth.
       normalize_path path = path \<and> path \<noteq> ''/'' \<and> rp_method parts \<noteq> ''OPTIONS'' \<and>
       get_version_path path = Some (version_id, routing_path) \<and>
       get_version (sv_trunk server) version_id = Some version \<and> rq_body request = Ok body \<and>
       authenticate (se_is_utf8 env) (se_pem_key env) (se_jwt_decode env) parts (sv_secrets server) = Ok auth \<and>
       user_is_allowed (se_is_match env) (ps_users (v_policy_system version))
         (get_username_from_id (se_fetch_email env) version (auth_user_id auth)) routing_path \<and>
       secret_is_allowed (ps_secrets (v_policy_system version)) parts (sv_secrets server) routing_path \<and>
       job = make_http_request request body routing_path auth)"
proof -
  have "fst (handle_request server request) = Some job \<longleftrightarrow>
    (\<exists>version_id routing_path version.
       normalize_path (u_path (rq_uri request)) = u_path (rq_uri request) \<and> u_path (rq_uri request) \<noteq> ''/'' \<and>
       rp_method (rq_parts request) \<noteq> ''OPTIONS'' \<and>
       get_version_path (u_path (rq_uri request)) = Some (version_id, routing_path) \<and>
       get_version (sv_trunk server) version_id = Some version \<and>
       fst (handle_version_request server version request routing_path) = Some job)"
    unfolding handle_request_job try_handle_request_def Let_def by (auto split: option.splits)
  then show ?thesis
    unfolding handle_version_request_job authorize_Ok Let_def by (simp only: ex_simps conj_assoc)
qed

lemma add_default_header_keys:
  "fst ` set (add_default_header h headers) = insert (fst h) (fst ` set headers)"
  by (cases h) (auto simp: add_default_header_def)

lemma fold_default_header_keys:
  "fst ` set (fold add_default_header hs headers) = fst ` set hs \<union> fst ` set headers"
  by (induction hs arbitrary: headers) (simp_all add: add_default_header_keys)

text \<open>The functions of the environment return.\<close>

definition env_total :: "('r, 'k) server_env \<Rightarrow> bool" where
  "env_total env \<longleftrightarrow> (\<forall>k. no_panic (se_pem_key env k)) \<and> (\<forall>k t. no_panic (se_jwt_decode env k t)) \<and>
     (\<forall>n. no_panic (se_header_name env n)) \<and> (\<forall>v. no_panic (se_header_value env v))"

lemma authenticate_no_panic:
  assumes "env_total env"
  shows "no_panic (authenticate (se_is_utf8 env) (se_pem_key env) (se_jwt_decode env) req secrets)"
proof -
  have "no_panic (decoding_key_from_pem (se_is_utf8 env) (se_pem_key env) key)" for key
    using assms by (auto simp: decoding_key_from_pem_def env_total_def)
  then have "no_panic (authenticate_jwt (se_is_utf8 env) (se_pem_key env) (se_jwt_decode env) secrets token)" for token
    using assms by (auto simp: authenticate_jwt_def env_total_def split: option.splits)
  then show ?thesis
    by (auto simp: authenticate_def authenticate_from_auth_header_def split: option.splits list.splits)
qed

lemma authorize_no_panic [simp]: "authorize is_match fetch_email v auth path req secrets \<noteq> Panic p"
  by (auto simp: authorize_def authorize_user_id_def Let_def)

lemma convert_response_no_panic: "env_total (sv_env server) \<Longrightarrow> no_panic (convert_response server hs)"
  by (auto simp: convert_response_def env_total_def)

lemma chisel_error_response:
  "handle_chisel_error server e = Ok r \<Longrightarrow> rs_status r \<in> {400, 403}" "no_panic (handle_chisel_error server e)"
  by (auto simp: handle_chisel_error_def handle_forbidden_def handle_bad_request_def split: error_kind.splits)

lemma handle_version_request_response:
  assumes "env_total (sv_env server)" "no_panic (rq_body request)"
    "handle_version_request server version request routing_path = (job, r)"
  shows "no_panic r \<and> (\<forall>x. job = None \<and> r = Ok x \<longrightarrow> rs_status x \<in> {400, 403})"
proof -
  note np = authenticate_no_panic [OF assms(1), of "rq_parts request" "sv_secrets server"]
  show ?thesis
    using assms(2,3) np
    by (auto simp: handle_version_request_def Let_def chisel_error_response convert_response_no_panic [OF assms(1)]
        split: result.splits dest: chisel_error_response(1))
qed

lemma try_handle_request_response:
  assumes "env_total (sv_env server)" "no_panic (rq_body request)" "try_handle_request server request = (job, r)"
  shows "no_panic r \<and> (\<forall>x. job = None \<and> r = Ok x \<longrightarrow> rs_status x \<in> {200, 308, 400, 403, 404})"
  using assms(3)
  by (auto dest!: handle_version_request_response [OF assms(1,2)] simp: try_handle_request_def Let_def redirect_to_path_def handle_index_def handle_options_def
      handle_not_found_def split: if_splits option.splits)


definition sample_server :: "(string, unit) server" where
  "sample_server = \<lparr>sv_env = \<lparr>se_is_match = (=), se_fetch_email = (\<lambda>_ _. None), se_is_utf8 = (\<lambda>_. True),
      se_pem_key = (\<lambda>_. Ok ()), se_jwt_decode = (\<lambda>_ _. Err (Bail [] [])), se_error_string = (\<lambda>_. []),
      se_index_page = concat, se_worker = (\<lambda>_ _. None), se_header_name = Ok, se_header_value = Ok\<rparr>,
    sv_trunk = [], sv_secrets = []\<rparr>"


end
