(* ===== verification/Policy_Engine.thy ===== *)
theory Policy_Engine
  imports Policy_Rules Entity_Value Expr Types
begin

text \<open>
  \<open>server/src/policy/\<close>: the TypeScript access policies at run time.  A read policy's filter
  condition is partially evaluated with the request context and translated to a filter expression
  for the database; the policy functions themselves are called for every entity read or written,
  and the actions they return, together with the set of transformed (\<open>dirty\<close>) entities, decide
  whether the operation goes on.

  The embedded JavaScript engine is external.  Its values are \<open>js_value\<close>; comparisons, compiling
  and calling functions are parameters.  A call may change the objects it is given and the
  engine's own state \<open>'w\<close>, so it returns the new first and second argument and state as well.
\<close>

subsection \<open>Actions and locations\<close>

definition Action_try_from :: "32 word \<Rightarrow> action res" where
  "Action_try_from v =
     (if v = 0 then Ok Allow else if v = 1 then Ok Deny else if v = 2 then Ok Skip else if v = 3 then Ok Log
      else Err (Bail ''invalid Action'' []))"

definition is_restrictive :: "action \<Rightarrow> bool" where
  "is_restrictive a = (case a of Deny \<Rightarrow> True | Skip \<Rightarrow> True | Allow \<Rightarrow> False | Log \<Rightarrow> False)"

datatype location = UsEast1 | UsWest | London | Germany

definition Location_from_str :: "string \<Rightarrow> location res" where
  "Location_from_str s =
     (if s = ''us-east-1'' then Ok UsEast1
      else if s = ''us-west'' then Ok UsWest
      else if s = ''london'' then Ok London
      else if s = ''germany'' then Ok Germany
      else Err (Bail ''unknown region {other}'' [s]))"

subsection \<open>Values of the embedded engine\<close>

datatype js_value =
    JsNull
  | JsUndefined
  | JsBoolean bool
  | JsString string
  | JsRational f64
  | JsInteger "32 word"
  | JsBigInt int
  | JsDate f64
  | JsArrayBuffer bytes
  | JsArray "js_value list"
  | JsObject "(string \<times> js_value) list"
  | JsSymbol

lemma size_js_member [termination_simp]:
  "(k, v) \<in> set m \<Longrightarrow> size v < Suc (size_list (size_prod (\<lambda>_. 0) size) m)"
  for v :: js_value
  by (induction m) auto

text \<open>Integers are truncated to 32 bits.\<close>

fun json_to_js_value :: "json \<Rightarrow> js_value" where
  "json_to_js_value JNull = JsNull"
| "json_to_js_value (JBool b) = JsBoolean b"
| "json_to_js_value (JNumber n) =
     (case n of PosInt v \<Rightarrow> JsInteger (ucast v) | NegInt v \<Rightarrow> JsInteger (ucast v) | FloatNum f \<Rightarrow> JsRational f)"
| "json_to_js_value (JString s) = JsString s"
| "json_to_js_value (JArray xs) = JsArray (map json_to_js_value xs)"
| "json_to_js_value (JObject m) = JsObject (map (\<lambda>(k, v). (k, json_to_js_value v)) m)"

text \<open>\<open>time_clip\<close> is what the engine makes of a time value.\<close>

fun entity_value_to_js_value :: "(f64 \<Rightarrow> f64) \<Rightarrow> entity_value \<Rightarrow> js_value" where
  "entity_value_to_js_value time_clip ENull = JsNull"
| "entity_value_to_js_value time_clip (EString s) = JsString s"
| "entity_value_to_js_value time_clip (EFloat64 x) = JsRational x"
| "entity_value_to_js_value time_clip (EBoolean b) = JsBoolean b"
| "entity_value_to_js_value time_clip (EJsDate t) = JsDate (time_clip t)"
| "entity_value_to_js_value time_clip (EArray xs) = JsArray (map (entity_value_to_js_value time_clip) xs)"
| "entity_value_to_js_value time_clip (EMap m) = JsObject (map (\<lambda>(k, v). (k, entity_value_to_js_value time_clip v)) m)"
| "entity_value_to_js_value time_clip (EBytes bs) = JsArrayBuffer bs"
| "entity_value_to_js_value time_clip (EInt64 i) = JsBigInt (sint i)"

fun js_value_to_entity_value :: "js_value \<Rightarrow> entity_value res" where
  "js_value_to_entity_value JsNull = Ok ENull"
| "js_value_to_entity_value JsUndefined = Ok ENull"
| "js_value_to_entity_value (JsBoolean b) = Ok (EBoolean b)"
| "js_value_to_entity_value (JsString s) = Ok (EString s)"
| "js_value_to_entity_value (JsRational x) = Ok (EFloat64 x)"
| "js_value_to_entity_value (JsInteger n) = Ok (EFloat64 (f64_of_int (sint n)))"
| "js_value_to_entity_value (JsBigInt i) =
     (if - (2 ^ 63) \<le> i \<and> i < 2 ^ 63 then Ok (EInt64 (of_int i))
      else Panic ''called Result::unwrap() on an Err value'')"
| "js_value_to_entity_value (JsDate t) = Ok (EJsDate t)"
| "js_value_to_entity_value (JsArrayBuffer bs) = Ok (EBytes bs)"
| "js_value_to_entity_value (JsArray xs) = r_bind (r_map js_value_to_entity_value xs) (\<lambda>vs. Ok (EArray vs))"
| "js_value_to_entity_value (JsObject m) =
     r_bind (r_map (\<lambda>(k, v). r_bind (js_value_to_entity_value v) (\<lambda>v. Ok (k, v))) m) (\<lambda>kvs. Ok (EMap (collect_map kvs)))"
| "js_value_to_entity_value JsSymbol = Panic ''not yet implemented''"

definition to_boolean :: "js_value \<Rightarrow> bool" where
  "to_boolean v =
     (case v of
        JsNull \<Rightarrow> False | JsUndefined \<Rightarrow> False | JsBoolean b \<Rightarrow> b | JsString s \<Rightarrow> s \<noteq> []
      | JsRational x \<Rightarrow> \<not> f64_is_nan x \<and> \<not> f64_eq x 0 | JsInteger n \<Rightarrow> n \<noteq> 0 | JsBigInt i \<Rightarrow> i \<noteq> 0
      | _ \<Rightarrow> True)"

definition as_boolean :: "js_value \<Rightarrow> bool option" where
  "as_boolean v = (case v of JsBoolean b \<Rightarrow> Some b | _ \<Rightarrow> None)"

subsection \<open>The interpreter\<close>

text \<open>
  \<open>compare op l r\<close> is the engine's comparison, none when it throws; it is asked for the six
  comparison operators only (\<open>Neq\<close> as the negation of \<open>Eq\<close>).  The walk down a member chain is
  bounded by fuel: every member refers to an earlier variable, so the number of variables is
  enough.
\<close>

type_synonym js_compare = "logic_op \<Rightarrow> js_value \<Rightarrow> js_value \<Rightarrow> bool option"

fun get_value :: "nat \<Rightarrow> string \<Rightarrow> json \<Rightarrow> environment \<Rightarrow> var \<Rightarrow> json option res" where
  "get_value fuel name val env (Ident s) = Ok (if name = s then Some val else None)"
| "get_value (Suc fuel) name val env (Member obj prop) =
     r_bind (env_get env obj) (\<lambda>obj.
     r_bind (get_value fuel name val env obj) (\<lambda>v.
     Ok (map_option (\<lambda>v. case json_get v prop of Some x \<Rightarrow> x | None \<Rightarrow> JNull) v)))"
| "get_value 0 name val env (Member obj prop) = Panic ''stack overflow''"

definition var_to_value :: "string \<Rightarrow> json \<Rightarrow> environment \<Rightarrow> nat \<Rightarrow> json option res" where
  "var_to_value name val env i = r_bind (env_get env i) (get_value (length env) name val env)"

definition js_unwrap :: "bool option \<Rightarrow> bool res" where
  "js_unwrap b = unwrap ''called unwrap() on a None or an Err value'' b"

definition eval_bin_lit :: "js_compare \<Rightarrow> logic_op \<Rightarrow> js_value \<Rightarrow> js_value \<Rightarrow> predicate res" where
  "eval_bin_lit compare op lhs rhs =
     r_bind (case op of
         LNeq \<Rightarrow> r_map_ok Not (js_unwrap (compare LEq lhs rhs))
       | LAnd \<Rightarrow> r_bind (js_unwrap (as_boolean lhs)) (\<lambda>l. if l then js_unwrap (as_boolean rhs) else Ok False)
       | LOr \<Rightarrow> r_bind (js_unwrap (as_boolean lhs)) (\<lambda>l. if l then Ok True else js_unwrap (as_boolean rhs))
       | _ \<Rightarrow> js_unwrap (compare op lhs rhs)) (\<lambda>b. Ok (PLit (JBool b)))"

fun interp_eval :: "js_compare \<Rightarrow> string \<Rightarrow> json \<Rightarrow> environment \<Rightarrow> predicate \<Rightarrow> predicate res" where
  "interp_eval compare name val env (PBin op lhs rhs) =
     r_bind (interp_eval compare name val env lhs) (\<lambda>lhs.
     r_bind (interp_eval compare name val env rhs) (\<lambda>rhs.
     case (pred_as_lit lhs, pred_as_lit rhs) of
       (Some l, Some r) \<Rightarrow> eval_bin_lit compare op (json_to_js_value l) (json_to_js_value r)
     | _ \<Rightarrow> Ok (PBin op lhs rhs)))"
| "interp_eval compare name val env (PNot p) =
     r_bind (interp_eval compare name val env p) (\<lambda>p_eval.
     case pred_as_lit p_eval of
       Some v \<Rightarrow> Ok (PLit (JBool (\<not> to_boolean (json_to_js_value v))))
     | None \<Rightarrow> Ok (PNot p_eval))"
| "interp_eval compare name val env (PVar i) =
     r_bind (var_to_value name val env i) (\<lambda>v.
     case v of Some v \<Rightarrow> Ok (PLit v) | None \<Rightarrow> Ok (PVar i))"
| "interp_eval compare name val env (PLit v) = Ok (PLit v)"

subsection \<open>Translation to a filter expression\<close>

definition binary_op_from :: "logic_op \<Rightarrow> binary_op" where
  "binary_op_from op =
     (case op of LEq \<Rightarrow> OpEq | LNeq \<Rightarrow> OpNotEq | LGt \<Rightarrow> OpGt | LGte \<Rightarrow> OpGtEq | LLt \<Rightarrow> OpLt | LLte \<Rightarrow> OpLtEq
      | LAnd \<Rightarrow> OpAnd | LOr \<Rightarrow> OpOr)"

fun predicate_to_expr :: "predicate \<Rightarrow> string \<Rightarrow> environment \<Rightarrow> expr res" where
  "predicate_to_expr (PBin op lhs rhs) entity_param_name env =
     r_bind (predicate_to_expr lhs entity_param_name env) (\<lambda>left.
     r_bind (predicate_to_expr rhs entity_param_name env) (\<lambda>right.
     Ok (Binary left (binary_op_from op) right)))"
| "predicate_to_expr (PNot p) entity_param_name env =
     r_bind (predicate_to_expr p entity_param_name env) (\<lambda>e. Ok (NotExpr e))"
| "predicate_to_expr (PLit v) entity_param_name env = r_bind (value_from_json v) (\<lambda>v. Ok (Value v))"
| "predicate_to_expr (PVar i) entity_param_name env =
     r_bind (env_get env i) (\<lambda>var.
     case var of
       Ident n \<Rightarrow> Err (Bail ''unknown variable: `{id}`'' [n])
     | Member obj prop \<Rightarrow>
         r_bind (env_get env obj) (\<lambda>obj.
         if obj = Ident entity_param_name then Ok (Property prop (Parameter 0))
         else Err (Bail ''unknown variable: `{other:?}`'' [])))"

fun cond_to_expr :: "cond \<Rightarrow> predicates \<Rightarrow> string \<Rightarrow> environment \<Rightarrow> expr res" where
  "cond_to_expr (CAnd left right) preds name env =
     r_bind (cond_to_expr right preds name env) (\<lambda>right.
     r_bind (cond_to_expr left preds name env) (\<lambda>left. Ok (expr_and left right)))"
| "cond_to_expr (COr left right) preds name env =
     r_bind (cond_to_expr right preds name env) (\<lambda>right.
     r_bind (cond_to_expr left preds name env) (\<lambda>left. Ok (expr_or left right)))"
| "cond_to_expr (CNot c) preds name env = r_bind (cond_to_expr c preds name env) (\<lambda>e. Ok (NotExpr e))"
| "cond_to_expr (CPredicate i) preds name env = r_bind (preds_get preds i) (\<lambda>p. predicate_to_expr p name env)"
| "cond_to_expr CTrue preds name env = Ok (Value (VBool True))"
| "cond_to_expr CFalse preds name env = Ok (Value (VBool False))"

record 'f read_policy =
  rpl_filter :: "cond option"
  rpl_predicates :: predicates
  rpl_env :: environment
  rpl_ctx_param_name :: string
  rpl_entity_param_name :: string
  rpl_function :: 'f

definition positional_param :: "string list \<Rightarrow> nat \<Rightarrow> string res" where
  "positional_param names pos = (if pos < length names then Ok (names ! pos) else Panic ''index out of bounds'')"

definition ReadPolicy_new :: "'f \<Rightarrow> filter_policy \<Rightarrow> 'f read_policy res" where
  "ReadPolicy_new function policy =
     r_bind (positional_param (fp_params policy) 0) (\<lambda>entity_param_name.
     r_bind (positional_param (fp_params policy) 1) (\<lambda>ctx_param_name.
     Ok \<lparr>rpl_filter = where_conds policy, rpl_predicates = fp_predicates policy, rpl_env = fp_env policy,
         rpl_ctx_param_name = ctx_param_name, rpl_entity_param_name = entity_param_name, rpl_function = function\<rparr>))"

text \<open>The request context as the filter sees it (\<open>to_value\<close>): the user id is under \<open>user_id\<close>.\<close>

record request_context =
  rc_method :: string
  rc_path :: string
  rc_headers :: "(string \<times> string) list"
  rc_user_id :: "string option"
  rc_token :: "json option"

definition ctx_to_value :: "request_context \<Rightarrow> json" where
  "ctx_to_value rc = JObject
     [(''method'', JString (rc_method rc)), (''path'', JString (rc_path rc)),
      (''headers'', JObject (collect_map (map (\<lambda>(k, v). (k, JString v)) (rc_headers rc)))),
      (''user_id'', case rc_user_id rc of Some u \<Rightarrow> JString u | None \<Rightarrow> JNull),
      (''token'', case rc_token rc of Some t \<Rightarrow> t | None \<Rightarrow> JNull)]"

text \<open>The request context as the policy functions see it (\<open>to_js_value\<close>): under \<open>userId\<close>.\<close>

definition ctx_to_js_value :: "request_context \<Rightarrow> js_value" where
  "ctx_to_js_value rc = JsObject
     [(''method'', JsString (rc_method rc)), (''path'', JsString (rc_path rc)),
      (''userId'', case rc_user_id rc of Some u \<Rightarrow> JsString u | None \<Rightarrow> JsNull),
      (''headers'', JsObject (collect_map (map (\<lambda>(k, v). (k, JsString v)) (rc_headers rc)))),
      (''token'', case rc_token rc of Some t \<Rightarrow> json_to_js_value t | None \<Rightarrow> JsNull)]"

definition eval_read_policy_expr ::
  "(qbool \<Rightarrow> qbool list) \<Rightarrow> js_compare \<Rightarrow> 'f read_policy \<Rightarrow> request_context \<Rightarrow> expr option res" where
  "eval_read_policy_expr qmc compare policy rc =
     (case rpl_filter policy of
        None \<Rightarrow> Ok None
      | Some filter_cond \<Rightarrow>
          r_bind (preds_map (interp_eval compare (rpl_ctx_param_name policy) (ctx_to_value rc) (rpl_env policy)) (rpl_predicates policy)) (\<lambda>predicates.
          r_bind (cond_simplify qmc predicates filter_cond) (\<lambda>c.
          r_map_ok Some (cond_to_expr c predicates (rpl_entity_param_name policy) (rpl_env policy)))))"

subsection \<open>Type policies and the store\<close>

record 'f type_policy =
  tp_read :: "'f read_policy option"
  tp_create :: "'f option"
  tp_update :: "'f option"
  tp_geoloc :: "'f option"
  tp_on_read :: "'f option"
  tp_on_create :: "'f option"
  tp_on_update :: "'f option"

definition TypePolicy_default :: "'f type_policy" where
  "TypePolicy_default = \<lparr>tp_read = None, tp_create = None, tp_update = None, tp_geoloc = None,
     tp_on_read = None, tp_on_create = None, tp_on_update = None\<rparr>"

datatype policy = PFilter filter_policy | PTransform string

definition policy_code :: "policy \<Rightarrow> string" where
  "policy_code p = (case p of PFilter f \<Rightarrow> fp_js_code f | PTransform code \<Rightarrow> code)"

definition as_filter :: "policy \<Rightarrow> filter_policy option" where
  "as_filter p = (case p of PFilter f \<Rightarrow> Some f | PTransform _ \<Rightarrow> None)"

type_synonym 'f policy_store = "(string \<times> 'f type_policy) list"

definition store_get :: "'f policy_store \<Rightarrow> string \<Rightarrow> 'f type_policy option" where
  "store_get st ty_name = map_of st ty_name"

definition store_insert :: "string \<Rightarrow> 'f type_policy \<Rightarrow> 'f policy_store \<Rightarrow> 'f policy_store" where
  "store_insert ty_name p st = al_insert ty_name p st"

text \<open>
  \<open>register_policy_from_code\<close>, after the policy file has been parsed; compiling a function
  unwraps the engine's answer.
\<close>

definition register_step ::
  "(string \<Rightarrow> 'f option) \<Rightarrow> policy_name \<times> policy \<Rightarrow> 'f type_policy \<Rightarrow> 'f type_policy res" where
  "register_step compile = (\<lambda>(name, policy) tp.
     r_bind (unwrap ''called unwrap() on a None or an Err value'' (compile (policy_code policy))) (\<lambda>function.
     case name of
       PN_Read \<Rightarrow>
         r_bind (unwrap ''called Option::unwrap() on a None value'' (as_filter policy)) (\<lambda>f.
         r_bind (ReadPolicy_new function f) (\<lambda>rp. Ok (tp\<lparr>tp_read := Some rp\<rparr>)))
     | PN_Create \<Rightarrow> Ok (tp\<lparr>tp_create := Some function\<rparr>)
     | PN_Update \<Rightarrow> Ok (tp\<lparr>tp_update := Some function\<rparr>)
     | PN_OnRead \<Rightarrow> Ok (tp\<lparr>tp_on_read := Some function\<rparr>)
     | PN_OnCreate \<Rightarrow> Ok (tp\<lparr>tp_on_create := Some function\<rparr>)
     | PN_OnUpdate \<Rightarrow> Ok (tp\<lparr>tp_on_update := Some function\<rparr>)
     | PN_GeoLoc \<Rightarrow> Ok (tp\<lparr>tp_geoloc := Some function\<rparr>)))"

definition register_policy_from_code ::
  "(string \<Rightarrow> 'f option) \<Rightarrow> string \<Rightarrow> (policy_name \<times> policy) list res \<Rightarrow> 'f policy_store \<Rightarrow> 'f policy_store res" where
  "register_policy_from_code compile ty_name policy_file st =
     r_bind policy_file (\<lambda>policies.
     r_bind (r_fold (register_step compile) policies TypePolicy_default) (\<lambda>tp.
     Ok (store_insert ty_name tp st)))"

subsection \<open>Policy instances\<close>

datatype policy_error =
    WritePermissionDenied string
  | ReadPermissionDenied string
  | DirtyEntity string
  | OtherError anyhow

type_synonym 'a pol_res = "(policy_error, 'a) result"

record ('f, 'w) policy_instance =
  pi_read :: "('f \<times> expr option) option"
  pi_create :: "'f option"
  pi_update :: "'f option"
  pi_on_read :: "'f option"
  pi_on_create :: "'f option"
  pi_on_update :: "'f option"
  pi_geoloc :: "'f option"
  pi_dirty :: "string set"
  pi_ty_name :: string
  pi_chisel_ctx :: js_value
  pi_engine :: 'w

text \<open>The result of calling a policy function on an entity and the request context.\<close>

record 'w call_result =
  cr_value :: js_value
  cr_ctx :: js_value
  cr_engine :: 'w
  cr_result :: "js_value res"

record ('f, 'w) policy_context =
  pc_qmc :: "qbool \<Rightarrow> qbool list"
  pc_compare :: js_compare
  pc_time_clip :: "f64 \<Rightarrow> f64"
  pc_call :: "'f \<Rightarrow> js_value \<Rightarrow> js_value \<Rightarrow> 'w \<Rightarrow> 'w call_result"
  pc_store :: "'f policy_store"
  pc_request :: request_context

definition PolicyEvalInstance_new :: "('f, 'w) policy_context \<Rightarrow> string \<Rightarrow> 'w \<Rightarrow> ('f, 'w) policy_instance" where
  "PolicyEvalInstance_new ctx ty_name w =
     \<lparr>pi_read = None, pi_create = None, pi_update = None, pi_on_read = None, pi_on_create = None,
      pi_on_update = None, pi_geoloc = None, pi_dirty = {}, pi_ty_name = ty_name,
      pi_chisel_ctx = ctx_to_js_value (pc_request ctx), pi_engine = w\<rparr>"

definition mark_dirty :: "string \<Rightarrow> ('f, 'w) policy_instance \<Rightarrow> ('f, 'w) policy_instance" where
  "mark_dirty i inst = inst\<lparr>pi_dirty := insert i (pi_dirty inst)\<rparr>"

definition is_dirty :: "string \<Rightarrow> ('f, 'w) policy_instance \<Rightarrow> bool" where
  "is_dirty i inst = (i \<in> pi_dirty inst)"

text \<open>
  A method of the instance: it may change the instance whether it succeeds or not.
\<close>

type_synonym ('f, 'w, 'a) pol_step = "('f, 'w) policy_instance \<Rightarrow> 'a pol_res \<times> ('f, 'w) policy_instance"

definition s_bind :: "('s \<Rightarrow> 'a pol_res \<times> 's) \<Rightarrow> ('a \<Rightarrow> 's \<Rightarrow> 'b pol_res \<times> 's) \<Rightarrow> 's \<Rightarrow> 'b pol_res \<times> 's" where
  "s_bind m f = (\<lambda>s. case m s of (Ok x, s') \<Rightarrow> f x s' | (Err e, s') \<Rightarrow> (Err e, s') | (Panic p, s') \<Rightarrow> (Panic p, s'))"

definition s_lift :: "'a pol_res \<Rightarrow> 's \<Rightarrow> 'a pol_res \<times> 's" where
  "s_lift r = (\<lambda>s. (r, s))"

text \<open>
  The functions the macro \<open>create_get_or_load_instance!\<close> generates: the cached instance, or a
  new one from the type's policy.  Only a read instance computes something when it is created.
\<close>

definition load_read :: "('f, 'w) policy_context \<Rightarrow> ('f, 'w, ('f \<times> expr option) option) pol_step" where
  "load_read ctx inst =
     (case pi_read inst of
        Some r \<Rightarrow> (Ok (Some r), inst)
      | None \<Rightarrow>
          (case store_get (pc_store ctx) (pi_ty_name inst) of
             None \<Rightarrow> (Ok None, inst)
           | Some tp \<Rightarrow>
               (case tp_read tp of
                  None \<Rightarrow> (Ok None, inst)
                | Some p \<Rightarrow>
                    (case eval_read_policy_expr (pc_qmc ctx) (pc_compare ctx) p (pc_request ctx) of
                       Ok e \<Rightarrow> (Ok (Some (rpl_function p, e)), inst\<lparr>pi_read := Some (rpl_function p, e)\<rparr>)
                     | Err e \<Rightarrow> (Err (OtherError e), inst)
                     | Panic msg \<Rightarrow> (Panic msg, inst)))))"

definition load_function ::
  "('f type_policy \<Rightarrow> 'f option) \<Rightarrow> ('f option \<Rightarrow> ('f, 'w) policy_instance \<Rightarrow> ('f, 'w) policy_instance)
     \<Rightarrow> (('f, 'w) policy_instance \<Rightarrow> 'f option) \<Rightarrow> ('f, 'w) policy_context \<Rightarrow> ('f, 'w, 'f option) pol_step" where
  "load_function sel put get ctx inst =
     (case get inst of
        Some f \<Rightarrow> (Ok (Some f), inst)
      | None \<Rightarrow>
          (case store_get (pc_store ctx) (pi_ty_name inst) of
             None \<Rightarrow> (Ok None, inst)
           | Some tp \<Rightarrow> (case sel tp of None \<Rightarrow> (Ok None, inst) | Some f \<Rightarrow> (Ok (Some f), put (Some f) inst))))"

definition load_create where
  "load_create = load_function tp_create (\<lambda>f. pi_create_update (\<lambda>_. f)) pi_create"

definition load_update where
  "load_update = load_function tp_update (\<lambda>f. pi_update_update (\<lambda>_. f)) pi_update"

definition load_on_read where
  "load_on_read = load_function tp_on_read (\<lambda>f. pi_on_read_update (\<lambda>_. f)) pi_on_read"

definition load_on_create where
  "load_on_create = load_function tp_on_create (\<lambda>f. pi_on_create_update (\<lambda>_. f)) pi_on_create"

definition load_on_update where
  "load_on_update = load_function tp_on_update (\<lambda>f. pi_on_update_update (\<lambda>_. f)) pi_on_update"

definition load_geoloc where
  "load_geoloc = load_function tp_geoloc (\<lambda>f. pi_geoloc_update (\<lambda>_. f)) pi_geoloc"

text \<open>Calling a function: the entity, the shared context and the engine may have changed.\<close>

definition call_function :: "('f, 'w) policy_context \<Rightarrow> 'f \<Rightarrow> js_value \<Rightarrow> ('f, 'w, js_value \<times> js_value) pol_step" where
  "call_function ctx f val inst =
     (let r = pc_call ctx f val (pi_chisel_ctx inst) (pi_engine inst)
      in (r_map_ok (\<lambda>res. (res, cr_value r)) (map_err OtherError (cr_result r)),
          inst\<lparr>pi_chisel_ctx := cr_ctx r, pi_engine := cr_engine r\<rparr>))"

text \<open>\<open>Filter::get_action\<close>; besides the action, the entity as the function left it.\<close>

definition action_of_result :: "js_value \<Rightarrow> action res" where
  "action_of_result r =
     (case r of
        JsInteger a \<Rightarrow> Action_try_from a
      | JsUndefined \<Rightarrow> Ok Deny
      | _ \<Rightarrow> Err (Bail ''invalid action: {val:?}'' []))"

definition filter_get_action :: "('f, 'w) policy_context \<Rightarrow> 'f option \<Rightarrow> js_value \<Rightarrow> ('f, 'w, action option \<times> js_value) pol_step" where
  "filter_get_action ctx p val =
     (case p of
        None \<Rightarrow> s_lift (Ok (None, val))
      | Some f \<Rightarrow>
          s_bind (call_function ctx f val) (\<lambda>(r, val).
          s_bind (s_lift (map_err OtherError (action_of_result r))) (\<lambda>a. s_lift (Ok (Some a, val)))))"

definition get_read_action :: "('f, 'w) policy_context \<Rightarrow> js_value \<Rightarrow> ('f, 'w, action option \<times> js_value) pol_step" where
  "get_read_action ctx val = s_bind (load_read ctx) (\<lambda>p. filter_get_action ctx (map_option fst p) val)"

definition get_create_action :: "('f, 'w) policy_context \<Rightarrow> js_value \<Rightarrow> ('f, 'w, action option \<times> js_value) pol_step" where
  "get_create_action ctx val =
     s_bind (get_read_action ctx val) (\<lambda>(a, val).
     if (case a of Some act \<Rightarrow> is_restrictive act | None \<Rightarrow> False) then s_lift (Ok (a, val))
     else s_bind (load_create ctx) (\<lambda>p. filter_get_action ctx p val))"

definition get_update_action :: "('f, 'w) policy_context \<Rightarrow> js_value \<Rightarrow> ('f, 'w, action option \<times> js_value) pol_step" where
  "get_update_action ctx val =
     s_bind (get_read_action ctx val) (\<lambda>(a, val).
     if (case a of Some act \<Rightarrow> is_restrictive act | None \<Rightarrow> False) then s_lift (Ok (a, val))
     else s_bind (load_update ctx) (\<lambda>p. filter_get_action ctx p val))"

definition run_transform :: "('f, 'w) policy_context \<Rightarrow> 'f option \<Rightarrow> js_value \<Rightarrow> ('f, 'w, js_value) pol_step" where
  "run_transform ctx p val =
     (case p of
        None \<Rightarrow> s_lift (Ok val)
      | Some f \<Rightarrow> s_bind (call_function ctx f val) (\<lambda>(_, val). s_lift (Ok val)))"

definition transform_on_read :: "('f, 'w) policy_context \<Rightarrow> js_value \<Rightarrow> ('f, 'w, js_value) pol_step" where
  "transform_on_read ctx val = s_bind (load_on_read ctx) (\<lambda>p. run_transform ctx p val)"

definition transform_on_create :: "('f, 'w) policy_context \<Rightarrow> js_value \<Rightarrow> ('f, 'w, js_value) pol_step" where
  "transform_on_create ctx val = s_bind (load_on_create ctx) (\<lambda>p. run_transform ctx p val)"

definition transform_on_update :: "('f, 'w) policy_context \<Rightarrow> js_value \<Rightarrow> ('f, 'w, js_value) pol_step" where
  "transform_on_update ctx val = s_bind (load_on_update ctx) (\<lambda>p. run_transform ctx p val)"

definition location_of_result :: "js_value \<Rightarrow> location res" where
  "location_of_result r =
     (case r of JsString s \<Rightarrow> Location_from_str s | _ \<Rightarrow> Err (Bail ''Expected geolocation to return a string.'' []))"

definition geo_loc :: "('f, 'w) policy_context \<Rightarrow> js_value \<Rightarrow> ('f, 'w, location option \<times> js_value) pol_step" where
  "geo_loc ctx val =
     s_bind (load_geoloc ctx) (\<lambda>p.
     case p of
       None \<Rightarrow> s_lift (Ok (None, val))
     | Some f \<Rightarrow>
         s_bind (call_function ctx f val) (\<lambda>(r, val).
         s_bind (s_lift (map_err OtherError (location_of_result r))) (\<lambda>l. s_lift (Ok (Some l, val)))))"

definition make_read_filter_expr :: "('f, 'w) policy_context \<Rightarrow> ('f, 'w, expr option) pol_step" where
  "make_read_filter_expr ctx =
     s_bind (load_read ctx) (\<lambda>p. s_lift (Ok (case p of None \<Rightarrow> None | Some (_, e) \<Rightarrow> e)))"

subsection \<open>The processor\<close>

text \<open>The derived equality of entity values; maps are compared key by key.\<close>

lemma size_entity_zip [termination_simp]:
  "(a, b) \<in> set (zip xs ys) \<Longrightarrow> size a < Suc (size_list size xs)" for a :: entity_value
  by (meson in_set_zipE less_Suc_eq_le order_refl size_list_estimation')

fun ev_eq :: "entity_value \<Rightarrow> entity_value \<Rightarrow> bool" where
  "ev_eq (EFloat64 x) (EFloat64 y) = f64_eq x y"
| "ev_eq (EJsDate x) (EJsDate y) = f64_eq x y"
| "ev_eq (EArray xs) (EArray ys) = (length xs = length ys \<and> (\<forall>(x, y) \<in> set (zip xs ys). ev_eq x y))"
| "ev_eq (EMap m) (EMap n) =
     (length m = length n \<and> (\<forall>(k, x) \<in> set m. case map_of n k of None \<Rightarrow> False | Some y \<Rightarrow> ev_eq x y))"
| "ev_eq a b = (a = b)"

definition entity_to_js :: "('f, 'w) policy_context \<Rightarrow> entity_map \<Rightarrow> js_value" where
  "entity_to_js ctx m = entity_value_to_js_value (pc_time_clip ctx) (EMap m)"

definition js_to_map :: "js_value \<Rightarrow> entity_map pol_res" where
  "js_to_map v = map_err OtherError (r_bind (js_value_to_entity_value v) ev_as_map)"

definition entity_id :: "entity_map \<Rightarrow> string pol_res" where
  "entity_id m =
     (case map_of m ''id'' of
        Some (EString s) \<Rightarrow> Ok s
      | Some _ \<Rightarrow> Panic ''called Result::unwrap() on an Err value''
      | None \<Rightarrow> Panic ''key not found'')"

definition process_read :: "('f, 'w) policy_context \<Rightarrow> entity_map \<Rightarrow> ('f, 'w, entity_map option) pol_step" where
  "process_read ctx val =
     s_bind (get_read_action ctx (entity_to_js ctx val)) (\<lambda>(a, js) inst.
     case a of
       Some Deny \<Rightarrow> (Err (ReadPermissionDenied (pi_ty_name inst)), inst)
     | Some Skip \<Rightarrow> (Ok None, inst)
     | _ \<Rightarrow>
         s_bind (transform_on_read ctx js) (\<lambda>js.
         s_bind (s_lift (js_to_map js)) (\<lambda>new_val.
         if \<not> ev_eq (EMap new_val) (EMap val)
         then s_bind (s_lift (entity_id val)) (\<lambda>i inst. (Ok (Some new_val), mark_dirty i inst))
         else s_lift (Ok (Some new_val)))) inst)"

datatype write_action = WCreate | WUpdate

definition process_write ::
  "('f, 'w) policy_context \<Rightarrow> entity_map \<Rightarrow> write_action \<Rightarrow> ('f, 'w, entity_map \<times> location option) pol_step" where
  "process_write ctx val wa =
     s_bind (case wa of
         WCreate \<Rightarrow> get_create_action ctx (entity_to_js ctx val)
       | WUpdate \<Rightarrow>
           s_bind (s_lift (entity_id val)) (\<lambda>i inst.
           if is_dirty i inst then (Err (DirtyEntity (pi_ty_name inst)), inst)
           else get_update_action ctx (entity_to_js ctx val) inst)) (\<lambda>(a, js).
     s_bind (geo_loc ctx js) (\<lambda>(loc, js) inst.
     case a of
       Some Deny \<Rightarrow> (Err (WritePermissionDenied (pi_ty_name inst)), inst)
     | Some Skip \<Rightarrow> (Err (WritePermissionDenied (pi_ty_name inst)), inst)
     | _ \<Rightarrow>
         s_bind (case wa of WCreate \<Rightarrow> transform_on_create ctx js | WUpdate \<Rightarrow> transform_on_update ctx js) (\<lambda>js.
         s_bind (s_lift (js_to_map js)) (\<lambda>new_val. s_lift (Ok (new_val, loc)))) inst))"

text \<open>
  \<open>ValidatedEntityStream\<close>: polled until it ends.  A skipped entity yields nothing; an error is an
  item of the stream and does not end it; a panic does.
\<close>

fun validated_stream ::
  "('f, 'w) policy_context \<Rightarrow> entity_map pol_res list \<Rightarrow> ('f, 'w) policy_instance \<Rightarrow> entity_map pol_res list \<times> ('f, 'w) policy_instance" where
  "validated_stream ctx [] inst = ([], inst)"
| "validated_stream ctx (item # items) inst =
     (let (out, inst) =
        (case item of
           Ok val \<Rightarrow>
             (case process_read ctx val inst of
                (Ok (Some v), inst) \<Rightarrow> ([Ok v], inst)
              | (Ok None, inst) \<Rightarrow> ([], inst)
              | (Err e, inst) \<Rightarrow> ([Err e], inst)
              | (Panic p, inst) \<Rightarrow> ([Panic p], inst))
         | Err e \<Rightarrow> ([Err e], inst)
         | Panic p \<Rightarrow> ([Panic p], inst))
      in if list_ex (\<lambda>r. \<not> no_panic r) out then (out, inst)
         else let (rest, inst) = validated_stream ctx items inst in (out @ rest, inst))"

text \<open>The cache of instances, one per type name.\<close>

type_synonym ('f, 'w) instances_cache = "(string \<times> ('f, 'w) policy_instance) list"

definition get_or_create_policy_instance ::
  "('f, 'w) policy_context \<Rightarrow> string \<Rightarrow> 'w \<Rightarrow> ('f, 'w) instances_cache \<Rightarrow> ('f, 'w) policy_instance \<times> ('f, 'w) instances_cache" where
  "get_or_create_policy_instance ctx ty_name w cache =
     (case map_of cache ty_name of
        Some inst \<Rightarrow> (inst, cache)
      | None \<Rightarrow> let inst = PolicyEvalInstance_new ctx ty_name w in (inst, al_insert ty_name inst cache))"

subsection \<open>Conversions\<close>

fun dates_fit :: "(f64 \<Rightarrow> f64) \<Rightarrow> entity_value \<Rightarrow> bool" where
  "dates_fit time_clip (EJsDate t) = (time_clip t = t)"
| "dates_fit time_clip (EArray xs) = (\<forall>x \<in> set xs. dates_fit time_clip x)"
| "dates_fit time_clip (EMap m) = (\<forall>(k, v) \<in> set m. dates_fit time_clip v)"
| "dates_fit time_clip _ = True"

text \<open>
  An entity value survives the embedded engine: converted to an engine value and back it is
  unchanged (64-bit integers, bytes and dates included), provided the engine keeps its dates.
\<close>

theorem js_value_roundtrip:
  assumes "ev_wf v" "dates_fit time_clip v"
  shows "js_value_to_entity_value (entity_value_to_js_value time_clip v) = Ok v"
  using assms
proof (induction v)
  case (EInt64 i)
  have "- (2 ^ 63) \<le> sint i" "sint i < 2 ^ 63"
    using sint_greater_eq [of i] sint_less [of i] by simp_all
  then show ?case by simp
next
  case (EArray xs)
  have "r_map js_value_to_entity_value (map (entity_value_to_js_value time_clip) xs) = Ok xs"
    using EArray by (simp add: r_map_Ok_iff list_all2_map1 list_all2_same)
  then show ?case by simp
next
  case (EMap m)
  have "list_all2 (\<lambda>kv kv'. (case kv of (k, v) \<Rightarrow> r_bind (js_value_to_entity_value v) (\<lambda>v. Ok (k, v))) = Ok kv')
      (map (\<lambda>(k, v). (k, entity_value_to_js_value time_clip v)) m) m"
    unfolding list_all2_map1 list_all2_same
  proof (intro ballI)
    fix kv assume kv: "kv \<in> set m"
    obtain k v where [simp]: "kv = (k, v)" by force
    have "js_value_to_entity_value (entity_value_to_js_value time_clip v) = Ok v"
      using EMap.IH [OF kv, of v] EMap.prems kv by auto
    then show "(case case kv of (k, v) \<Rightarrow> (k, entity_value_to_js_value time_clip v) of
        (k, v) \<Rightarrow> r_bind (js_value_to_entity_value v) (\<lambda>v. Ok (k, v))) = Ok kv" by simp
  qed
  then have "r_map (\<lambda>(k, v). r_bind (js_value_to_entity_value v) (\<lambda>v. Ok (k, v)))
      (map (\<lambda>(k, v). (k, entity_value_to_js_value time_clip v)) m) = Ok m"
    by (simp only: r_map_Ok_iff)
  then show ?case using EMap.prems by (simp add: collect_map_distinct)
qed auto

theorem js_value_roundtrip_witness:
  "js_value_to_entity_value (entity_value_to_js_value (\<lambda>t. t)
     (EMap [(''n'', EInt64 (- 5)), (''d'', EArray [EJsDate 9, EBytes [1]])])) =
   Ok (EMap [(''n'', EInt64 (- 5)), (''d'', EArray [EJsDate 9, EBytes [1]])])"
  by (rule js_value_roundtrip) simp_all

subsection \<open>Partial evaluation\<close>

text \<open>
  An interpretation of JavaScript values agrees with the engine when literals behave the way the
  interpreter computes: comparisons and connectives of literals, negation, the context parameter
  and members of context values.
\<close>

definition agrees :: "js_compare \<Rightarrow> string \<Rightarrow> json \<Rightarrow> 'v js_algebra \<Rightarrow> bool" where
  "agrees compare name val alg \<longleftrightarrow>
     (\<forall>op l r j. eval_bin_lit compare op (json_to_js_value l) (json_to_js_value r) = Ok (PLit j) \<longrightarrow>
        alg_bin alg op (alg_lit alg l) (alg_lit alg r) = alg_lit alg j) \<and>
     (\<forall>l. alg_not alg (alg_lit alg l) = alg_lit alg (JBool (\<not> to_boolean (json_to_js_value l)))) \<and>
     alg_ident alg name = alg_lit alg val \<and>
     (\<forall>j p. alg_member alg (alg_lit alg j) p = alg_lit alg (case json_get j p of Some x \<Rightarrow> x | None \<Rightarrow> JNull))"

lemma eval_bin_lit_is_lit: "eval_bin_lit compare op l r = Ok q \<Longrightarrow> \<exists>j. q = PLit j"
  by (auto simp: eval_bin_lit_def r_bind_Ok_iff)

lemma env_get_in: "env_get env i = Ok v \<Longrightarrow> (v, i) \<in> set env"
  by (auto simp: env_get_def get_by_right_def find_Some_iff in_set_conv_nth)

lemma get_value_sound:
  "get_value fuel name val env v = Ok (Some j) \<Longrightarrow> agrees compare name val alg \<Longrightarrow> fits alg env vars \<Longrightarrow>
     var_value alg vars v = alg_lit alg j"
proof (induction fuel name val env v arbitrary: j rule: get_value.induct)
  case (1 fuel name val env s)
  then show ?case by (auto simp: var_value_def agrees_def split: if_splits)
next
  case (2 fuel name val env obj p)
  then obtain w u where w: "env_get env obj = Ok w" "get_value fuel name val env w = Ok (Some u)"
    "j = (case json_get u p of Some x \<Rightarrow> x | None \<Rightarrow> JNull)"
    by (auto simp: r_bind_Ok_iff)
  then have "var_value alg vars w = alg_lit alg u" using 2 by blast
  moreover have "vars obj = var_value alg vars w"
    using env_get_in [OF w(1)] 2(4) by (auto simp: fits_def)
  ultimately show ?case using 2(3) w(3) by (simp add: var_value_def agrees_def)
qed auto

lemma pred_as_lit_Some: "pred_as_lit p = Some j \<longleftrightarrow> p = PLit j"
  by (auto simp: pred_as_lit_def split: predicate.splits)

text \<open>One node of the evaluator, its operands already evaluated.\<close>

lemma eval_bin_sound:
  assumes "agrees compare name val alg"
    and "(case (pred_as_lit l, pred_as_lit r) of
         (Some a, Some b) \<Rightarrow> eval_bin_lit compare op (json_to_js_value a) (json_to_js_value b)
       | _ \<Rightarrow> Ok (PBin op l r)) = Ok q"
  shows "eval_pred alg vars q = eval_pred alg vars (PBin op l r)"
proof (cases "pred_as_lit l = None \<or> pred_as_lit r = None")
  case True
  with assms(2) have "q = PBin op l r" by (auto split: option.splits)
  then show ?thesis by simp
next
  case False
  then obtain a b where ab: "l = PLit a" "r = PLit b" by (auto simp: pred_as_lit_Some)
  with assms(2) have e: "eval_bin_lit compare op (json_to_js_value a) (json_to_js_value b) = Ok q"
    by (simp add: pred_as_lit_def)
  moreover from this obtain j where j: "q = PLit j" using eval_bin_lit_is_lit by blast
  ultimately have "alg_bin alg op (alg_lit alg a) (alg_lit alg b) = alg_lit alg j"
    using assms(1) unfolding agrees_def by blast
  with ab j show ?thesis by simp
qed

lemma eval_not_sound:
  assumes "agrees compare name val alg"
    and "(case pred_as_lit p of Some v \<Rightarrow> Ok (PLit (JBool (\<not> to_boolean (json_to_js_value v)))) | None \<Rightarrow> Ok (PNot p)) =
       (Ok q :: predicate res)"
  shows "eval_pred alg vars q = eval_pred alg vars (PNot p)"
  using assms by (cases "pred_as_lit p") (auto simp: pred_as_lit_Some agrees_def)

lemma eval_var_sound:
  assumes "agrees compare name val alg" "fits alg env vars" "interp_eval compare name val env (PVar i) = Ok q"
  shows "eval_pred alg vars q = eval_pred alg vars (PVar i)"
proof -
  from assms(3) obtain v o' where v: "env_get env i = Ok v" "get_value (length env) name val env v = Ok o'"
    "q = (case o' of Some j \<Rightarrow> PLit j | None \<Rightarrow> PVar i)"
    by (auto simp: r_bind_Ok_iff var_to_value_def split: option.splits)
  have "vars i = var_value alg vars v"
    using env_get_in [OF v(1)] assms(2) by (auto simp: fits_def)
  then show ?thesis using v get_value_sound [OF _ assms(1,2)] by (auto split: option.splits)
qed


text \<open>The interpretation in which every comparison is the engine's own, over JSON values.\<close>

definition json_algebra :: "js_compare \<Rightarrow> string \<Rightarrow> json \<Rightarrow> json js_algebra" where
  "json_algebra compare name val =
     \<lparr>alg_lit = (\<lambda>j. j), alg_not = (\<lambda>j. JBool (\<not> to_boolean (json_to_js_value j))),
      alg_bin = (\<lambda>op l r. case eval_bin_lit compare op (json_to_js_value l) (json_to_js_value r) of
         Ok (PLit j) \<Rightarrow> j | _ \<Rightarrow> JNull),
      alg_ident = (\<lambda>s. if s = name then val else JNull),
      alg_member = (\<lambda>j p. case json_get j p of Some x \<Rightarrow> x | None \<Rightarrow> JNull)\<rparr>"


subsection \<open>Filter expressions\<close>

definition sql_algebra :: "comparison \<Rightarrow> expr_value js_algebra" where
  "sql_algebra cmp =
     \<lparr>alg_lit = (\<lambda>j. case value_from_json j of Ok v \<Rightarrow> v | _ \<Rightarrow> VNull),
      alg_not = (\<lambda>v. of_truth (k_not (truth_of v))),
      alg_bin = (\<lambda>op l r. of_truth (case op of
         LAnd \<Rightarrow> k_and (truth_of l) (truth_of r) | LOr \<Rightarrow> k_or (truth_of l) (truth_of r)
       | _ \<Rightarrow> cmp (binary_op_from op) l r)),
      alg_ident = (\<lambda>_. VNull), alg_member = (\<lambda>_ _. VNull)\<rparr>"

definition row_vars :: "row_view \<Rightarrow> environment \<Rightarrow> nat \<Rightarrow> expr_value" where
  "row_vars row env i = (case env_get env i of Ok (Member obj p) \<Rightarrow> row [p] | _ \<Rightarrow> VNull)"

definition pred_truth :: "comparison \<Rightarrow> row_view \<Rightarrow> predicates \<Rightarrow> environment \<Rightarrow> nat \<Rightarrow> bool option" where
  "pred_truth cmp row preds env i = truth_of (eval_pred (sql_algebra cmp) (row_vars row env) (preds ! i))"

fun k_cond :: "(nat \<Rightarrow> bool option) \<Rightarrow> cond \<Rightarrow> bool option" where
  "k_cond s (CAnd a b) = k_and (k_cond s a) (k_cond s b)"
| "k_cond s (COr a b) = k_or (k_cond s a) (k_cond s b)"
| "k_cond s (CNot a) = k_not (k_cond s a)"
| "k_cond s (CPredicate i) = s i"
| "k_cond s CTrue = Some True"
| "k_cond s CFalse = Some False"

lemma k_and_known: "k_and (Some a) (Some b) = Some (a \<and> b)"
  by (cases a; cases b) simp_all

lemma k_cond_two_valued:
  "(\<And>i. i \<in> cond_preds c \<Longrightarrow> s i = Some (b i)) \<Longrightarrow> k_cond s c = Some (cond_eval b c)"
  by (induction c) (auto simp: k_or_def k_and_known)

lemma predicate_to_expr_meaning:
  "predicate_to_expr p name env = Ok e \<Longrightarrow> eval_expr cmp row e = eval_pred (sql_algebra cmp) (row_vars row env) p"
proof (induction p arbitrary: e)
  case (PBin op l r)
  then obtain a b where "predicate_to_expr l name env = Ok a" "predicate_to_expr r name env = Ok b"
    "e = Binary a (binary_op_from op) b"
    by (auto simp: r_bind_Ok_iff)
  with PBin.IH show ?case by (cases op) (simp_all add: sql_algebra_def binary_op_from_def)
next
  case (PNot p)
  then show ?case by (auto simp: r_bind_Ok_iff sql_algebra_def)
next
  case (PLit j)
  then show ?case by (auto simp: r_bind_Ok_iff sql_algebra_def)
next
  case (PVar i)
  then obtain var where var: "env_get env i = Ok var" by (auto simp: r_bind_Ok_iff)
  with PVar show ?case by (cases var) (auto simp: r_bind_Ok_iff row_vars_def split: if_splits)
qed



text \<open>
  The request context of the database filter has no \<open>userId\<close>: a policy that tests
  \<open>ctx.userId\<close> is partially evaluated with \<open>null\<close> there, whoever is logged in, although its
  function is called with the user's id under that name.
\<close>

theorem filter_context_userId:
  "interp_eval compare name (ctx_to_value rc) [(Ident name, 0), (Member 0 ''userId'', 1)] (PVar 1) = Ok (PLit JNull) \<and>
   (\<exists>props. ctx_to_js_value rc = JsObject props \<and>
      map_of props ''userId'' = Some (case rc_user_id rc of Some u \<Rightarrow> JsString u | None \<Rightarrow> JsNull))"
  by (simp add: var_to_value_def env_get_def get_by_right_def json_get_def ctx_to_value_def ctx_to_js_value_def eval_nat_numeral)

subsection \<open>Transformed entities\<close>

definition keeps :: "(('f, 'w) policy_instance \<Rightarrow> 'a \<times> ('f, 'w) policy_instance) \<Rightarrow> bool" where
  "keeps m \<longleftrightarrow> (\<forall>s. pi_dirty s \<subseteq> pi_dirty (snd (m s)) \<and> pi_ty_name (snd (m s)) = pi_ty_name s)"

lemma keeps_lift [intro!]: "keeps (s_lift r)"
  by (simp add: keeps_def s_lift_def)

lemma keeps_bind [intro!]:
  assumes "keeps m" "\<And>x. keeps (f x)"
  shows "keeps (s_bind m f)"
  unfolding keeps_def
proof (intro allI)
  fix s
  obtain r s1 where m: "m s = (r, s1)" by force
  with assms(1) have s1: "pi_dirty s \<subseteq> pi_dirty s1" "pi_ty_name s1 = pi_ty_name s"
    unfolding keeps_def by (metis snd_conv)+
  show "pi_dirty s \<subseteq> pi_dirty (snd (s_bind m f s)) \<and> pi_ty_name (snd (s_bind m f s)) = pi_ty_name s"
  proof (cases r)
    case (Ok x)
    then show ?thesis using assms(2) [of x] m s1 by (fastforce simp: s_bind_def keeps_def)
  qed (use m s1 in \<open>auto simp: s_bind_def\<close>)
qed

lemma keeps_load_read [intro!]: "keeps (load_read ctx)"
  by (simp add: keeps_def load_read_def split: option.splits result.splits)

lemma keeps_loads [intro!]:
  "keeps (load_create ctx)" "keeps (load_update ctx)" "keeps (load_on_read ctx)"
  "keeps (load_on_create ctx)" "keeps (load_on_update ctx)" "keeps (load_geoloc ctx)"
  by (simp_all add: keeps_def load_function_def load_create_def load_update_def load_on_read_def
      load_on_create_def load_on_update_def load_geoloc_def split: option.splits)

lemma keeps_call [intro!]: "keeps (call_function ctx f val)"
  by (simp add: keeps_def call_function_def Let_def)

lemma keeps_filter_get_action [intro!]: "keeps (filter_get_action ctx p val)"
  by (cases p) (auto simp: filter_get_action_def)

lemma keeps_actions [intro!]:
  "keeps (get_read_action ctx val)" "keeps (get_create_action ctx val)" "keeps (get_update_action ctx val)"
  by (auto simp: get_read_action_def get_create_action_def get_update_action_def)

lemma keeps_run_transform [intro!]: "keeps (run_transform ctx p val)"
  by (cases p) (auto simp: run_transform_def)

lemma keeps_transforms [intro!]:
  "keeps (transform_on_read ctx val)" "keeps (transform_on_create ctx val)" "keeps (transform_on_update ctx val)"
  by (auto simp: transform_on_read_def transform_on_create_def transform_on_update_def)

lemma keeps_geo_loc [intro!]: "keeps (geo_loc ctx val)"
  unfolding geo_loc_def by (intro keeps_bind keeps_loads) (auto split: option.splits)

lemma keeps_fail [intro!]: "keeps (\<lambda>inst. (f inst, inst))"
  by (simp add: keeps_def)

lemma keeps_mark_dirty [intro!]: "keeps (\<lambda>inst. (r, mark_dirty i inst))"
  by (auto simp: keeps_def mark_dirty_def)

lemma keeps_if [intro!]: "keeps m \<Longrightarrow> keeps m' \<Longrightarrow> keeps (\<lambda>inst. if P inst then m inst else m' inst)"
  by (auto simp: keeps_def)

lemma keeps_by_action [intro!]:
  assumes "keeps m" "keeps d" "keeps k"
  shows "keeps (\<lambda>inst. case a of Some Deny \<Rightarrow> d inst | Some Skip \<Rightarrow> k inst | _ \<Rightarrow> m inst)"
proof (cases a)
  case None
  then show ?thesis using assms(1) by simp
next
  case (Some act)
  then show ?thesis using assms by (cases act) simp_all
qed

lemma keeps_process_read: "keeps (process_read ctx val)"
  unfolding process_read_def by (auto split: prod.split)

lemma keeps_process_write: "keeps (process_write ctx val wa)"
  unfolding process_write_def by (cases wa) (auto split: prod.split)

lemma s_bind_Ok: "s_bind m f s = (Ok y, s'') \<longleftrightarrow> (\<exists>x s'. m s = (Ok x, s') \<and> f x s' = (Ok y, s''))"
  by (auto simp: s_bind_def split: prod.splits result.splits)

lemma s_lift_Ok: "s_lift r s = (Ok y, s') \<longleftrightarrow> r = Ok y \<and> s' = s"
  by (auto simp: s_lift_def)

definition permits :: "action option \<Rightarrow> bool" where
  "permits a = (case a of Some act \<Rightarrow> \<not> is_restrictive act | None \<Rightarrow> True)"

lemma process_read_marks:
  assumes "process_read ctx val inst = (Ok (Some new_val), inst')" "\<not> ev_eq (EMap new_val) (EMap val)" "entity_id val = Ok i"
  shows "i \<in> pi_dirty inst'"
proof -
  obtain a js inst1 where body: "(case a of
       Some Deny \<Rightarrow> (Err (ReadPermissionDenied (pi_ty_name inst1)), inst1)
     | Some Skip \<Rightarrow> (Ok None, inst1)
     | _ \<Rightarrow>
         s_bind (transform_on_read ctx js) (\<lambda>js.
         s_bind (s_lift (js_to_map js)) (\<lambda>new_val.
         if \<not> ev_eq (EMap new_val) (EMap val)
         then s_bind (s_lift (entity_id val)) (\<lambda>i inst. (Ok (Some new_val), mark_dirty i inst))
         else s_lift (Ok (Some new_val)))) inst1) = (Ok (Some new_val), inst')"
    using assms(1) unfolding process_read_def by (auto simp: s_bind_Ok)
  then have "s_bind (transform_on_read ctx js) (\<lambda>js.
         s_bind (s_lift (js_to_map js)) (\<lambda>new_val.
         if \<not> ev_eq (EMap new_val) (EMap val)
         then s_bind (s_lift (entity_id val)) (\<lambda>i inst. (Ok (Some new_val), mark_dirty i inst))
         else s_lift (Ok (Some new_val)))) inst1 = (Ok (Some new_val), inst')"
    by (auto split: option.splits action.splits)
  then obtain s1 where "inst' = mark_dirty i s1"
    using assms(2,3) by (auto simp: s_bind_Ok s_lift_Ok simp del: ev_eq.simps split: if_splits)
  then show ?thesis by (simp add: mark_dirty_def)
qed

text \<open>Any use of a type's policies during the request.\<close>

inductive instance_step :: "('f, 'w) policy_context \<Rightarrow> ('f, 'w) policy_instance \<Rightarrow> ('f, 'w) policy_instance \<Rightarrow> bool"
  for ctx where
  read_step: "process_read ctx val inst = (r, inst') \<Longrightarrow> instance_step ctx inst inst'"
| write_step: "process_write ctx val wa inst = (r, inst') \<Longrightarrow> instance_step ctx inst inst'"
| filter_step: "make_read_filter_expr ctx inst = (r, inst') \<Longrightarrow> instance_step ctx inst inst'"

lemma keeps_snd: "keeps m \<Longrightarrow> m s = (r, s') \<Longrightarrow> pi_dirty s \<subseteq> pi_dirty s' \<and> pi_ty_name s' = pi_ty_name s"
  unfolding keeps_def by (metis snd_conv)

lemma instance_step_keeps:
  "instance_step ctx inst inst' \<Longrightarrow> pi_dirty inst \<subseteq> pi_dirty inst' \<and> pi_ty_name inst' = pi_ty_name inst"
proof (induction rule: instance_step.induct)
  case (read_step val inst r inst')
  then show ?case by (rule keeps_snd [OF keeps_process_read])
next
  case (write_step val wa inst r inst')
  then show ?case by (rule keeps_snd [OF keeps_process_write])
next
  case (filter_step inst r inst')
  moreover have "keeps (make_read_filter_expr ctx)" unfolding make_read_filter_expr_def by auto
  ultimately show ?case by (intro keeps_snd)
qed

text \<open>
  C18: an entity that a policy transformed when it was read cannot be written back.  Once
  \<open>process_read\<close> returned a changed entity, updating an entity with its id is rejected as dirty
  after any further reads, writes and filters of the request, before any policy function runs.
\<close>

theorem dirty_update_rejected:
  assumes "process_read ctx val inst = (Ok (Some new_val), inst1)" "\<not> ev_eq (EMap new_val) (EMap val)"
    and "entity_id val = Ok i" "(instance_step ctx)\<^sup>*\<^sup>* inst1 inst2" "entity_id val' = Ok i"
  shows "process_write ctx val' WUpdate inst2 = (Err (DirtyEntity (pi_ty_name inst2)), inst2)"
proof -
  have "pi_dirty inst1 \<subseteq> pi_dirty inst2"
    using assms(4) by (induction rule: rtranclp_induct) (auto dest: instance_step_keeps)
  then have "i \<in> pi_dirty inst2" using process_read_marks [OF assms(1-3)] by blast
  with assms(5) show ?thesis by (simp add: process_write_def s_bind_def s_lift_def is_dirty_def)
qed

text \<open>A read policy transform that renames: the stored function sets \<open>name\<close> to \<open>bob\<close>.\<close>

definition bob_context :: "(unit, unit) policy_context" where
  "bob_context = \<lparr>pc_qmc = (\<lambda>b. [b]), pc_compare = (\<lambda>op l r. Some (l = r)), pc_time_clip = (\<lambda>t. t),
     pc_call = (\<lambda>f val c w. \<lparr>cr_value = JsObject [(''id'', JsString ''1''), (''name'', JsString ''bob'')], cr_ctx = c,
        cr_engine = w, cr_result = Ok JsUndefined\<rparr>),
     pc_store = [(''Person'', TypePolicy_default\<lparr>tp_on_read := Some ()\<rparr>)],
     pc_request = \<lparr>rc_method = ''GET'', rc_path = ''/'', rc_headers = [], rc_user_id = None, rc_token = None\<rparr>\<rparr>"

definition roger :: entity_map where
  "roger = [(''id'', EString ''1''), (''name'', EString ''roger'')]"

lemma bob_read:
  "\<exists>inst1. process_read bob_context roger (PolicyEvalInstance_new bob_context ''Person'' ()) =
     (Ok (Some [(''id'', EString ''1''), (''name'', EString ''bob'')]), inst1)"
  by (simp add: process_read_def get_read_action_def load_read_def PolicyEvalInstance_new_def bob_context_def roger_def
      store_get_def TypePolicy_default_def s_bind_def s_lift_def filter_get_action_def transform_on_read_def load_on_read_def
      load_function_def run_transform_def call_function_def Let_def js_to_map_def ev_as_map_def collect_map_def
      entity_id_def)

theorem dirty_update_rejected_witness:
  "\<exists>inst. process_write bob_context roger WUpdate inst = (Err (DirtyEntity (pi_ty_name inst)), inst)"
proof -
  obtain inst1 where r: "process_read bob_context roger (PolicyEvalInstance_new bob_context ''Person'' ()) =
     (Ok (Some [(''id'', EString ''1''), (''name'', EString ''bob'')]), inst1)"
    using bob_read by blast
  have "process_write bob_context roger WUpdate inst1 = (Err (DirtyEntity (pi_ty_name inst1)), inst1)"
    by (rule dirty_update_rejected [OF r, where i = "''1''"]) (simp_all add: roger_def entity_id_def)
  then show ?thesis by blast
qed


definition allow_context :: "(unit, unit) policy_context" where
  "allow_context = bob_context\<lparr>pc_store := []\<rparr>"


end
