(* ===== verification/Query_Plan.thy ===== *)
theory Query_Plan
  imports Filter_Json Authorization Policy_Engine
begin

text \<open>
  \<open>server/src/datastore/query.rs\<close>: from a chain of operators on an entity to one SQL statement.
  The plan loads the entity's columns and joins, adds the filters that access policies and login
  labels demand, and nests one SELECT per \<open>Take\<close> or \<open>Skip\<close>.

  Printing a double and quoting a string literal are the parameters \<open>show_f64\<close> and \<open>quote\<close> of
  \<open>sql_printer\<close>.  Loading an entity follows its fields into other entities; it is bounded by
  fuel, and running out of fuel is the stack overflow of the source on a cyclic type.
\<close>

subsection \<open>Operators and plans\<close>

record sort_key =
  sk_field_name :: string
  sk_ascending :: bool

type_synonym sort_by = "sort_key list"

datatype query_op =
    QFilter expr
  | QProjection "string list"
  | QTake u64
  | QSkip u64
  | QSortBy sort_by
  | QCount

datatype op_chain =
    BaseEntity string
  | OFilter expr op_chain
  | ExpressionFilter json op_chain
  | OProjection "string list" op_chain
  | OTake u64 op_chain
  | OSkip u64 op_chain
  | OSortBy sort_by op_chain
  | OCount op_chain

datatype keep_or_omit = Keep | OmitField

datatype query_field =
    QScalar string type_id bool nat "(entity_value \<Rightarrow> entity_value) option" keep_or_omit
  | QEntity string bool "(entity_value \<Rightarrow> entity_value) option" keep_or_omit "query_field list"

datatype queried_entity =
    QueriedEntity (qe_fields: "query_field list") (qe_ty: entity) (qe_table_alias: string)
      (qe_joins: "(string \<times> join) list")
and join = Join (jn_entity: queried_entity) (jn_lkey: string) (jn_rkey: string)

record column =
  c_name :: string
  c_table_name :: string
  c_field :: field

datatype target_database = Postgres | Sqlite

record query_plan =
  qp_columns :: "column list"
  qp_entity :: queried_entity
  qp_allowed_fields :: "string set option"
  qp_join_counter :: nat
  qp_operators :: "query_op list"

record query =
  q_raw_sql :: string
  q_fields :: "query_field list"
  q_allowed_fields :: "string set option"

record ('r, 'f, 'w) data_context =
  dc_type_system :: type_system
  dc_policy_system :: "'r policy_system"
  dc_is_match :: "'r \<Rightarrow> string \<Rightarrow> bool"
  dc_user_id :: "string option"
  dc_path :: "string option"
  dc_typescript_policies :: bool
  dc_policy_context :: "('f, 'w) policy_context"
  dc_engine :: 'w

record sql_printer =
  sp_show_f64 :: "f64 \<Rightarrow> string"
  sp_quote :: "string \<Rightarrow> string"

definition from_ts :: "'a ts_res \<Rightarrow> 'a res" where
  "from_ts r = map_err (\<lambda>_. Bail ''type system error'' []) r"

fun convert_ops :: "op_chain \<Rightarrow> (string \<times> query_op list) res" where
  "convert_ops (BaseEntity name) = Ok (name, [])"
| "convert_ops (OFilter e inner) = r_bind (convert_ops inner) (\<lambda>(n, ops). Ok (n, ops @ [QFilter e]))"
| "convert_ops (ExpressionFilter j inner) =
     r_bind (to_expr j) (\<lambda>e. r_bind (convert_ops inner) (\<lambda>(n, ops). Ok (n, ops @ [QFilter e])))"
| "convert_ops (OProjection fs inner) = r_bind (convert_ops inner) (\<lambda>(n, ops). Ok (n, ops @ [QProjection fs]))"
| "convert_ops (OTake k inner) = r_bind (convert_ops inner) (\<lambda>(n, ops). Ok (n, ops @ [QTake k]))"
| "convert_ops (OSkip k inner) = r_bind (convert_ops inner) (\<lambda>(n, ops). Ok (n, ops @ [QSkip k]))"
| "convert_ops (OSortBy keys inner) = r_bind (convert_ops inner) (\<lambda>(n, ops). Ok (n, ops @ [QSortBy keys]))"
| "convert_ops (OCount inner) = r_bind (convert_ops inner) (\<lambda>(n, ops). Ok (n, ops @ [QCount]))"

subsection \<open>Building a plan\<close>

definition backing_table :: "entity \<Rightarrow> string" where
  "backing_table e = ot_backing_table (entity_object e)"

definition QueryPlan_new :: "entity \<Rightarrow> query_plan" where
  "QueryPlan_new base_type =
     \<lparr>qp_columns = [], qp_entity = QueriedEntity [] base_type (backing_table base_type) [],
      qp_allowed_fields = None, qp_join_counter = 0, qp_operators = []\<rparr>"

abbreviation base_type :: "query_plan \<Rightarrow> entity" where
  "base_type plan \<equiv> qe_ty (qp_entity plan)"

definition make_scalar_field ::
  "field \<Rightarrow> string \<Rightarrow> (entity_value \<Rightarrow> entity_value) option \<Rightarrow> keep_or_omit \<Rightarrow> query_plan \<Rightarrow> query_field \<times> query_plan" where
  "make_scalar_field f table_name transform keep plan =
     (QScalar (f_name f) (f_type_id f) (f_is_optional f) (length (qp_columns plan)) transform keep,
      plan\<lparr>qp_columns := qp_columns plan @ [\<lparr>c_name = f_name f, c_table_name = table_name, c_field = f\<rparr>]\<rparr>)"

definition set_entity_fields :: "query_field list \<Rightarrow> queried_entity \<Rightarrow> queried_entity" where
  "set_entity_fields fs e = QueriedEntity fs (qe_ty e) (qe_table_alias e) (qe_joins e)"

definition from_type_step :: "entity \<Rightarrow> field \<Rightarrow> query_plan \<Rightarrow> query_plan" where
  "from_type_step ty f plan =
     (let f = (case f_type_id f of TIdEntity _ _ \<Rightarrow> f\<lparr>f_type_id := TIdString\<rparr> | _ \<Rightarrow> f);
          (qf, plan) = make_scalar_field f (backing_table ty) None Keep plan
      in plan\<lparr>qp_entity := set_entity_fields (qe_fields (qp_entity plan) @ [qf]) (qp_entity plan)\<rparr>)"

definition from_type :: "entity \<Rightarrow> query_plan" where
  "from_type ty = fold (from_type_step ty) (all_fields (entity_object ty)) (QueryPlan_new ty)"

definition process_projection :: "query_op \<Rightarrow> query_plan \<Rightarrow> query_plan" where
  "process_projection op plan =
     (case op of
        QProjection fields' \<Rightarrow> plan\<lparr>qp_allowed_fields := Some (set fields')\<rparr>
      | QCount \<Rightarrow> plan\<lparr>qp_allowed_fields := None\<rparr>
      | _ \<Rightarrow> plan)"

definition is_projection :: "query_op \<Rightarrow> bool" where
  "is_projection op = (case op of QProjection _ \<Rightarrow> True | _ \<Rightarrow> False)"

definition extend_operators :: "query_op list \<Rightarrow> query_plan \<Rightarrow> query_plan" where
  "extend_operators ops plan =
     (let plan = fold process_projection ops plan
      in plan\<lparr>qp_operators := qp_operators plan @ filter (\<lambda>op. \<not> is_projection op) ops\<rparr>)"

definition context_field_policies :: "('r, 'f, 'w) data_context \<Rightarrow> object_type \<Rightarrow> field_policies" where
  "context_field_policies ctx ot =
     make_field_policies (dc_is_match ctx) (dc_policy_system ctx) (dc_user_id ctx)
       (case dc_path ctx of Some p \<Rightarrow> p | None \<Rightarrow> []) ot"

definition nested_table_name :: "nat \<Rightarrow> ty \<Rightarrow> entity \<Rightarrow> string" where
  "nested_table_name counter ty nested =
     truncate_identifier (''JOIN'' @ show_nat counter @ ''_'' @ type_name ty @ ''_TO_'' @ entity_name nested)"

definition load_field ::
  "('r, 'f, 'w) data_context \<Rightarrow> field_policies \<Rightarrow> string
     \<Rightarrow> (entity \<Rightarrow> string \<Rightarrow> query_plan \<Rightarrow> (queried_entity \<times> query_plan) res) \<Rightarrow> field
     \<Rightarrow> query_field list \<times> (string \<times> join) list \<times> query_plan
     \<Rightarrow> (query_field list \<times> (string \<times> join) list \<times> query_plan) res" where
  "load_field ctx policies current_table load_nested f = (\<lambda>(fields', joins, plan).
     let transform = map_of (fp_transforms policies) (f_name f);
         keep = (if f_name f \<in> fp_omit policies then OmitField else Keep)
     in r_bind (from_ts (ts_get (dc_type_system ctx) (f_type_id f))) (\<lambda>fty.
        case fty of
          TEntity nested_ty \<Rightarrow>
            let nested_table = nested_table_name (qp_join_counter plan) fty nested_ty;
                plan = plan\<lparr>qp_join_counter := qp_join_counter plan + 1\<rparr>;
                plan = snd (make_scalar_field f current_table transform keep plan)
            in r_bind (load_nested nested_ty nested_table plan) (\<lambda>(nested, plan).
               Ok (fields' @ [QEntity (f_name f) (f_is_optional f) transform keep (qe_fields nested)],
                   al_insert (f_name f) (Join nested (f_name f) ''id'') joins, plan))
        | _ \<Rightarrow>
            let (qf, plan) = make_scalar_field f current_table transform keep plan
            in Ok (fields' @ [qf], joins, plan)))"

fun load_entity_recursive ::
  "nat \<Rightarrow> ('r, 'f, 'w) data_context \<Rightarrow> entity \<Rightarrow> string \<Rightarrow> query_plan \<Rightarrow> (queried_entity \<times> query_plan) res" where
  "load_entity_recursive 0 ctx ty current_table plan = Panic ''stack overflow''"
| "load_entity_recursive (Suc fuel) ctx ty current_table plan =
     r_bind (r_fold
         (load_field ctx (context_field_policies ctx (entity_object ty)) current_table (load_entity_recursive fuel ctx))
         (all_fields (entity_object ty)) ([], [], plan)) (\<lambda>(fields', joins, plan).
     Ok (QueriedEntity fields' ty current_table joins, plan))"

fun add_login_filters_recursive ::
  "nat \<Rightarrow> ('r, 'f, 'w) data_context \<Rightarrow> object_type \<Rightarrow> expr \<Rightarrow> query_plan \<Rightarrow> query_plan res" where
  "add_login_filters_recursive 0 ctx ot chain plan = Panic ''stack overflow''"
| "add_login_filters_recursive (Suc fuel) ctx ot chain plan =
     (let policies = context_field_policies ctx ot;
          user_id = VString (case fp_current_userid policies of None \<Rightarrow> ''NULL'' | Some u \<Rightarrow> u)
      in r_fold (\<lambda>f plan.
           r_bind (from_ts (ts_get (dc_type_system ctx) (f_type_id f))) (\<lambda>fty.
           case fty of
             TEntity nested_ty \<Rightarrow>
               let property_access = Property (f_name f) chain
               in if entity_name nested_ty = ''AuthUser''
                  then Ok (if f_name f \<in> fp_match_login policies
                           then plan\<lparr>qp_operators := qp_operators plan @ [QFilter (expr_eq property_access (Value user_id))]\<rparr>
                           else plan)
                  else add_login_filters_recursive fuel ctx (entity_object nested_ty) property_access plan
           | _ \<Rightarrow> Ok plan)) (all_fields ot) plan)"

text \<open>The operations that consult the policy instances of the request thread their cache.\<close>

type_synonym ('f, 'w, 'a) plan_step = "('f, 'w) instances_cache \<Rightarrow> 'a pol_res \<times> ('f, 'w) instances_cache"

definition add_read_filters ::
  "('r, 'f, 'w) data_context \<Rightarrow> object_type \<Rightarrow> query_plan \<Rightarrow> ('f, 'w, query_plan) plan_step" where
  "add_read_filters ctx ot plan cache =
     (let (inst, cache) = get_or_create_policy_instance (dc_policy_context ctx) (ot_name ot) (dc_engine ctx) cache;
          (r, inst) = make_read_filter_expr (dc_policy_context ctx) inst;
          cache = al_insert (ot_name ot) inst cache
      in (r_map_ok (\<lambda>e. case e of
              None \<Rightarrow> plan
            | Some expression \<Rightarrow> plan\<lparr>qp_operators := qp_operators plan @ [QFilter expression]\<rparr>) r, cache))"

definition load_entity ::
  "nat \<Rightarrow> ('r, 'f, 'w) data_context \<Rightarrow> entity \<Rightarrow> query_plan \<Rightarrow> ('f, 'w, queried_entity \<times> query_plan) plan_step" where
  "load_entity fuel ctx ty plan =
     s_bind (if dc_typescript_policies ctx then add_read_filters ctx (entity_object ty) plan else s_lift (Ok plan)) (\<lambda>plan.
     s_lift (map_err OtherError (
       r_bind (add_login_filters_recursive fuel ctx (entity_object ty) (Parameter 0) plan) (\<lambda>plan.
       load_entity_recursive fuel ctx ty (backing_table ty) plan))))"

definition from_entity_name ::
  "nat \<Rightarrow> ('r, 'f, 'w) data_context \<Rightarrow> string \<Rightarrow> ('f, 'w, query_plan) plan_step" where
  "from_entity_name fuel ctx name =
     s_bind (s_lift (map_err OtherError (with_context ''unable to construct QueryPlan from an unknown entity name `{entity_name}`''
        (from_ts (lookup_entity (dc_type_system ctx) name))))) (\<lambda>ty.
     s_bind (load_entity fuel ctx ty (QueryPlan_new ty)) (\<lambda>(e, plan). s_lift (Ok (plan\<lparr>qp_entity := e\<rparr>))))"

definition from_ops ::
  "nat \<Rightarrow> ('r, 'f, 'w) data_context \<Rightarrow> entity \<Rightarrow> query_op list \<Rightarrow> ('f, 'w, query_plan) plan_step" where
  "from_ops fuel ctx ty operators =
     s_bind (load_entity fuel ctx ty (QueryPlan_new ty)) (\<lambda>(e, plan).
     s_lift (Ok (extend_operators operators (plan\<lparr>qp_entity := e\<rparr>))))"

definition from_op_chain ::
  "nat \<Rightarrow> ('r, 'f, 'w) data_context \<Rightarrow> op_chain \<Rightarrow> ('f, 'w, query_plan) plan_step" where
  "from_op_chain fuel ctx chain =
     s_bind (s_lift (map_err OtherError (convert_ops chain))) (\<lambda>(name, operators).
     s_bind (from_entity_name fuel ctx name) (\<lambda>plan. s_lift (Ok (extend_operators operators plan))))"

subsection \<open>Rendering\<close>

definition quoted :: "string \<Rightarrow> string" where
  "quoted s = [CHR 0x22] @ s @ [CHR 0x22]"

definition column_alias :: "string \<Rightarrow> string \<Rightarrow> string" where
  "column_alias table_name field_name = table_name @ ''_'' @ field_name"

definition column_string :: "column \<Rightarrow> string" where
  "column_string c =
     (let alias = quoted (column_alias (c_table_name c) (c_name c)) @ '','' in
      case f_effective_default (c_field c) of
        Some dfl \<Rightarrow>
          let sql_default = (case f_type_id (c_field c) of TIdString \<Rightarrow> [CHR 0x27] @ dfl @ [CHR 0x27] | _ \<Rightarrow> dfl)
          in ''coalesce('' @ quoted (c_table_name c) @ ''.'' @ quoted (c_name c) @ '','' @ sql_default @ '') AS '' @ alias
      | None \<Rightarrow> quoted (c_table_name c) @ ''.'' @ quoted (c_name c) @ '' AS '' @ alias)"

text \<open>Each column ends in a comma; the last one is popped.\<close>

definition make_column_string :: "query_plan \<Rightarrow> string" where
  "make_column_string plan = butlast (concat (map column_string (qp_columns plan)))"

fun gather_joins :: "queried_entity \<Rightarrow> string" and join_string :: "string \<Rightarrow> join \<Rightarrow> string" where
  "gather_joins (QueriedEntity fs ty alias joins) = concat (map (\<lambda>(_, j). join_string alias j) joins)"
| "join_string alias (Join e lkey rkey) =
     ''LEFT JOIN '' @ quoted (backing_table (qe_ty e)) @ '' AS '' @ quoted (qe_table_alias e) @ '' ON ''
       @ quoted alias @ ''.'' @ quoted lkey @ ''='' @ quoted (qe_table_alias e) @ ''.'' @ quoted rkey @ [CHR 0x0A]
       @ gather_joins e"

definition make_core_select :: "query_plan \<Rightarrow> string" where
  "make_core_select plan =
     ''SELECT '' @ make_column_string plan @ '' FROM '' @ quoted (backing_table (base_type plan)) @ '' ''
       @ gather_joins (qp_entity plan)"

definition show_int :: "int \<Rightarrow> string" where
  "show_int i = (if i < 0 then ''-'' @ show_nat (nat (- i)) else show_nat (nat i))"

fun get_property_chain :: "string \<Rightarrow> expr \<Rightarrow> string list res" where
  "get_property_chain p (Property q obj) = r_bind (get_property_chain q obj) (\<lambda>ps. Ok (ps @ [p]))"
| "get_property_chain p (Parameter _) = Ok [p]"
| "get_property_chain p _ = Err (Bail ''unexpected expression in property chain!'' [])"

definition check_field :: "queried_entity \<Rightarrow> string \<Rightarrow> unit res" where
  "check_field e f =
     ensure (has_field (entity_object (qe_ty e)) f)
       (Bail ''expression error: entity {} has no field {}'' [entity_name (qe_ty e), f])"

fun walk_chain :: "queried_entity \<Rightarrow> string \<Rightarrow> string list \<Rightarrow> string res" where
  "walk_chain e f [] = Ok (quoted (column_alias (qe_table_alias e) f))"
| "walk_chain e f (next_field # rest) =
     r_bind (ok_or (Bail ''expression error: unable to locate joined entity on field {}'' [f]) (map_of (qe_joins e) f)) (\<lambda>j.
     r_bind (check_field (jn_entity j) next_field) (\<lambda>_.
     walk_chain (jn_entity j) next_field rest))"

definition property_expr_to_string :: "query_plan \<Rightarrow> string \<Rightarrow> expr \<Rightarrow> string res" where
  "property_expr_to_string plan p obj =
     r_bind (get_property_chain p obj) (\<lambda>properties.
     case properties of
       [] \<Rightarrow> Panic ''assertion failed: !properties.is_empty()''
     | f # rest \<Rightarrow> r_bind (check_field (qp_entity plan) f) (\<lambda>_. walk_chain (qp_entity plan) f rest))"

definition value_to_string :: "sql_printer \<Rightarrow> expr_value \<Rightarrow> string" where
  "value_to_string sp v =
     (case v of
        VBool b \<Rightarrow> if b then ''true'' else ''false''
      | VU64 n \<Rightarrow> show_nat (unat n)
      | VI64 n \<Rightarrow> show_int (sint n)
      | VF64 x \<Rightarrow> sp_show_f64 sp x
      | VString s \<Rightarrow> sp_quote sp s
      | VNull \<Rightarrow> ''NULL'')"

fun filter_expr_to_string :: "sql_printer \<Rightarrow> query_plan \<Rightarrow> expr \<Rightarrow> string res" where
  "filter_expr_to_string sp plan (Value v) = Ok (value_to_string sp v)"
| "filter_expr_to_string sp plan (Binary l op r) =
     r_bind (filter_expr_to_string sp plan l) (\<lambda>l.
     r_bind (filter_expr_to_string sp plan r) (\<lambda>r.
     Ok (''('' @ l @ '' '' @ to_sql_string op @ '' '' @ r @ '')'')))"
| "filter_expr_to_string sp plan (Property p obj) = property_expr_to_string plan p obj"
| "filter_expr_to_string sp plan (Parameter _) = Err (Bail ''unexpected standalone parameter usage'' [])"
| "filter_expr_to_string sp plan (NotExpr e) =
     r_bind (filter_expr_to_string sp plan e) (\<lambda>s. Ok (''NOT ('' @ s @ '')''))"

definition make_filter_string :: "sql_printer \<Rightarrow> query_plan \<Rightarrow> expr option \<Rightarrow> string res" where
  "make_filter_string sp plan e =
     (case e of
        Some e \<Rightarrow> r_bind (filter_expr_to_string sp plan e) (\<lambda>c. Ok (''WHERE '' @ c))
      | None \<Rightarrow> Ok [])"

definition make_sort_string :: "query_plan \<Rightarrow> sort_by option \<Rightarrow> string res" where
  "make_sort_string plan sort_opt =
     (case sort_opt of
        None \<Rightarrow> Ok []
      | Some keys \<Rightarrow>
          r_bind (r_map (\<lambda>k.
            if \<not> has_field (entity_object (base_type plan)) (sk_field_name k)
            then Err (Bail ''entity {} has no field named {}'' [entity_name (base_type plan), sk_field_name k])
            else Ok (quoted (column_alias (backing_table (base_type plan)) (sk_field_name k))
                       @ (if sk_ascending k then '' ASC'' else '' DESC''))) keys) (\<lambda>tokens.
          Ok (''ORDER BY '' @ join '', '' tokens)))"

definition make_limit_and_offset_string :: "target_database \<Rightarrow> u64 option \<Rightarrow> u64 option \<Rightarrow> string" where
  "make_limit_and_offset_string target limit offset =
     (if target = Sqlite \<and> limit = None \<and> offset \<noteq> None
      then ''LIMIT '' @ show_nat (unat (the offset)) @ '',-1''
      else (case limit of None \<Rightarrow> [] | Some l \<Rightarrow> ''LIMIT '' @ show_nat (unat l)) @ '' ''
           @ (case offset of None \<Rightarrow> [] | Some k \<Rightarrow> ''OFFSET '' @ show_nat (unat k)))"

subsection \<open>One SELECT per segment\<close>

definition is_break :: "query_op \<Rightarrow> bool" where
  "is_break op = (case op of QTake _ \<Rightarrow> True | QSkip _ \<Rightarrow> True | _ \<Rightarrow> False)"

fun split_on_first_take :: "query_op list \<Rightarrow> query_op list \<times> query_op list" where
  "split_on_first_take [] = ([], [])"
| "split_on_first_take (op # ops) =
     (if is_break op then ([op], ops)
      else let (a, b) = split_on_first_take ops in (op # a, b))"

definition gather_step :: "query_op \<Rightarrow> expr option \<Rightarrow> expr option" where
  "gather_step op acc =
     (case op of
        QFilter e \<Rightarrow> (case acc of Some f \<Rightarrow> Some (expr_and f e) | None \<Rightarrow> Some e)
      | _ \<Rightarrow> acc)"

definition gather_filters :: "query_op list \<Rightarrow> expr option" where
  "gather_filters ops = fold gather_step ops None"

definition as_sort_by :: "query_op \<Rightarrow> sort_by option" where
  "as_sort_by op = (case op of QSortBy s \<Rightarrow> Some s | _ \<Rightarrow> None)"

definition as_take :: "query_op \<Rightarrow> u64 option" where
  "as_take op = (case op of QTake n \<Rightarrow> Some n | _ \<Rightarrow> None)"

definition as_skip :: "query_op \<Rightarrow> u64 option" where
  "as_skip op = (case op of QSkip n \<Rightarrow> Some n | _ \<Rightarrow> None)"

text \<open>\<open>iter().rfind(..).map(..)\<close>.\<close>

definition rfind_map :: "('a \<Rightarrow> 'b option) \<Rightarrow> 'a list \<Rightarrow> 'b option" where
  "rfind_map f xs = (case filter (\<lambda>x. f x \<noteq> None) xs of [] \<Rightarrow> None | ys \<Rightarrow> f (last ys))"

definition find_last_sort_by :: "query_op list \<Rightarrow> sort_by option" where
  "find_last_sort_by ops = rfind_map as_sort_by ops"

definition find_take_count :: "query_op list \<Rightarrow> u64 option res" where
  "find_take_count ops =
     (if 1 < length (filter (\<lambda>op. as_take op \<noteq> None) ops) then Panic ''assertion failed: take count''
      else Ok (rfind_map as_take ops))"

definition find_skip_count :: "query_op list \<Rightarrow> u64 option res" where
  "find_skip_count ops =
     (if 1 < length (filter (\<lambda>op. as_skip op \<noteq> None) ops) then Panic ''assertion failed: skip count''
      else Ok (rfind_map as_skip ops))"

definition contains_count :: "query_op list \<Rightarrow> bool res" where
  "contains_count ops =
     (case find (\<lambda>i. ops ! i = QCount) [0..<length ops] of
        Some p \<Rightarrow> if p = length ops - 1 then Ok True else Panic ''assertion failed: p == ops.len() - 1''
      | None \<Rightarrow> Ok False)"

definition count_field :: query_field where
  "count_field = QScalar ''count'' TIdInt64 False 0 None Keep"

lemma split_on_first_take_append: "split_on_first_take ops = (a, b) \<Longrightarrow> ops = a @ b"
  by (induction ops arbitrary: a b) (auto split: if_splits prod.splits)

lemma split_on_first_take_shorter [termination_simp]:
  "(a, b) = split_on_first_take ops \<Longrightarrow> ops \<noteq> [] \<Longrightarrow> length b < length ops"
  by (cases ops) (auto split: if_splits prod.splits dest!: split_on_first_take_append)

function make_raw_query_loop ::
  "sql_printer \<Rightarrow> query_plan \<Rightarrow> target_database \<Rightarrow> query_op list \<Rightarrow> string \<Rightarrow> query_field list
     \<Rightarrow> (string \<times> query_field list) res" where
  "make_raw_query_loop sp plan target remaining sql fields' =
     (if remaining = [] then Ok (sql, fields')
      else let (ops, remainder) = split_on_first_take remaining in
        r_bind (make_filter_string sp plan (gather_filters ops)) (\<lambda>filter_string.
        r_bind (make_sort_string plan (find_last_sort_by ops)) (\<lambda>sort_string.
        r_bind (find_take_count ops) (\<lambda>limit.
        r_bind (find_skip_count ops) (\<lambda>offset.
        let lo_string = make_limit_and_offset_string target limit offset in
        r_bind (contains_count ops) (\<lambda>is_count.
        if is_count \<and> remainder \<noteq> [] then Panic ''assertion failed: remaining_ops.is_empty()''
        else make_raw_query_loop sp plan target remainder
          (''SELECT '' @ (if is_count then ''COUNT(*)'' else ''*'') @ '' FROM ('' @ sql @ '') AS subquery ''
             @ filter_string @ '' '' @ sort_string @ '' '' @ lo_string)
          (if is_count then [count_field] else fields')))))))"
  by pat_completeness auto
termination
  by (relation "measure (\<lambda>(sp, plan, target, remaining, sql, fields'). length remaining)")
    (auto intro: split_on_first_take_shorter)

declare make_raw_query_loop.simps [simp del]

definition make_raw_query :: "sql_printer \<Rightarrow> query_plan \<Rightarrow> target_database \<Rightarrow> (string \<times> query_field list) res" where
  "make_raw_query sp plan target =
     make_raw_query_loop sp plan target (qp_operators plan) (make_core_select plan) (qe_fields (qp_entity plan))"

definition build_query :: "sql_printer \<Rightarrow> query_plan \<Rightarrow> target_database \<Rightarrow> query res" where
  "build_query sp plan target =
     r_bind (make_raw_query sp plan target) (\<lambda>(raw_sql, fields').
     Ok \<lparr>q_raw_sql = raw_sql, q_fields = fields', q_allowed_fields = qp_allowed_fields plan\<rparr>)"

subsection \<open>Mutations\<close>

record mutation =
  m_base_entity :: entity
  m_filter_query_plan :: query_plan

definition delete_from_expr ::
  "nat \<Rightarrow> ('r, 'f, 'w) data_context \<Rightarrow> string \<Rightarrow> expr option \<Rightarrow> ('f, 'w, mutation) plan_step" where
  "delete_from_expr fuel ctx type_nm filter_expr =
     (case lookup_type (dc_type_system ctx) type_nm of
        Ok (TEntity base_entity) \<Rightarrow>
          s_bind (from_entity_name fuel ctx type_nm) (\<lambda>plan.
          s_lift (Ok \<lparr>m_base_entity = base_entity,
            m_filter_query_plan = (case filter_expr of Some e \<Rightarrow> extend_operators [QFilter e] plan | None \<Rightarrow> plan)\<rparr>))
      | Ok t \<Rightarrow> s_lift (Err (OtherError (Bail ''Cannot delete scalar type {type_name} ({})'' [type_nm, type_name t])))
      | Err _ \<Rightarrow> s_lift (Err (OtherError (Bail ''Cannot delete from type `{type_name}`, type not found'' [type_nm])))
      | Panic p \<Rightarrow> s_lift (Panic p))"

definition build_sql :: "sql_printer \<Rightarrow> mutation \<Rightarrow> target_database \<Rightarrow> string res" where
  "build_sql sp m target =
     r_bind (build_query sp (m_filter_query_plan m) target) (\<lambda>q.
     let base_table = backing_table (m_base_entity m) in
     Ok (''DELETE FROM '' @ quoted base_table @ [CHR 0x0A] @ ''                WHERE '' @ quoted ''id'' @ '' IN ('' @ [CHR 0x0A]
         @ ''                    SELECT '' @ quoted (column_alias base_table ''id'') @ '' FROM ('' @ q_raw_sql q @ '') as subquery'' @ [CHR 0x0A]
         @ ''                )''))"

subsection \<open>Columns\<close>

text \<open>
  A field of the plan is well placed when it names a column of its own name and type; an entity is
  when moreover every field of its type has a column under the entity's table alias.
\<close>

fun field_ok :: "column list \<Rightarrow> query_field \<Rightarrow> bool" where
  "field_ok cols (QScalar name type_id _ idx _ _) =
     (idx < length cols \<and> c_name (cols ! idx) = name \<and> f_type_id (c_field (cols ! idx)) = type_id)"
| "field_ok cols (QEntity _ _ _ _ fs) = (\<forall>f \<in> set fs. field_ok cols f)"

fun field_idxs :: "query_field \<Rightarrow> nat list" where
  "field_idxs (QScalar _ _ _ idx _ _) = [idx]"
| "field_idxs (QEntity _ _ _ _ fs) = concat (map field_idxs fs)"

definition has_column :: "column list \<Rightarrow> string \<Rightarrow> string \<Rightarrow> bool" where
  "has_column cols table f = (\<exists>c \<in> set cols. c_table_name c = table \<and> c_name c = f)"

fun entity_ok :: "column list \<Rightarrow> queried_entity \<Rightarrow> bool" and join_ok :: "column list \<Rightarrow> join \<Rightarrow> bool" where
  "entity_ok cols (QueriedEntity fs ty alias joins) =
     ((\<forall>f \<in> set fs. field_ok cols f) \<and>
      (\<forall>f \<in> set (all_fields (entity_object ty)). has_column cols alias (f_name f)) \<and>
      (\<forall>nj \<in> set joins. join_ok cols (snd nj)))"
| "join_ok cols (Join e _ _) = entity_ok cols e"

lemma field_ok_mono: "field_ok cols f \<Longrightarrow> field_ok (cols @ more') f"
  by (induction f) (auto simp: nth_append)

lemma entity_ok_mono:
  shows "entity_ok cols e \<Longrightarrow> entity_ok (cols @ more') e"
    and "join_ok cols j \<Longrightarrow> join_ok (cols @ more') j"
  by (induction e and j) (auto simp: field_ok_mono has_column_def)

definition load_inv ::
  "column list \<Rightarrow> string \<Rightarrow> field list \<Rightarrow> query_field list \<times> (string \<times> join) list \<times> query_plan \<Rightarrow> bool" where
  "load_inv cols0 table loaded = (\<lambda>(fs, joins, plan).
     prefix cols0 (qp_columns plan) \<and>
     (\<forall>f \<in> set fs. field_ok (qp_columns plan) f) \<and>
     (\<forall>f \<in> set loaded. has_column (qp_columns plan) table (f_name f)) \<and>
     (\<forall>nj \<in> set joins. join_ok (qp_columns plan) (snd nj)) \<and>
     distinct (concat (map field_idxs fs)) \<and>
     (\<forall>i \<in> set (concat (map field_idxs fs)). length cols0 \<le> i \<and> i < length (qp_columns plan)))"

lemma set_al_insert: "set (al_insert k v xs) \<subseteq> insert (k, v) (set xs)"
  by (induction xs) (auto split: if_splits)

definition loaded_ok :: "query_plan \<Rightarrow> queried_entity \<times> query_plan \<Rightarrow> bool" where
  "loaded_ok plan = (\<lambda>(e, plan').
     prefix (qp_columns plan) (qp_columns plan') \<and> entity_ok (qp_columns plan') e \<and>
     distinct (concat (map field_idxs (qe_fields e))) \<and>
     (\<forall>i \<in> set (concat (map field_idxs (qe_fields e))). length (qp_columns plan) \<le> i \<and> i < length (qp_columns plan')))"

lemma load_inv_grow:
  assumes "load_inv cols0 table loaded (fs, joins, plan)" "prefix (qp_columns plan) (qp_columns plan')"
  shows "load_inv cols0 table loaded (fs, joins, plan')"
proof -
  from assms(2) obtain more' where "qp_columns plan' = qp_columns plan @ more'" by (auto simp: prefix_def)
  with assms(1) show ?thesis
    by (fastforce simp: load_inv_def field_ok_mono entity_ok_mono has_column_def)
qed

lemma load_field_inv:
  assumes nested: "\<And>ty t plan r. load_nested ty t plan = Ok r \<Longrightarrow> loaded_ok plan r"
    and inv: "load_inv cols0 table loaded (fs, joins, plan)"
    and load: "load_field ctx policies table load_nested f (fs, joins, plan) = Ok acc"
  shows "load_inv cols0 table (loaded @ [f]) acc"
proof -
  let ?col = "\<lparr>c_name = f_name f, c_table_name = table, c_field = f\<rparr>"
  from load obtain fty where fty: "ts_get (dc_type_system ctx) (f_type_id f) = Ok fty"
    by (auto simp: load_field_def from_ts_def r_bind_Ok_iff Let_def)
  show ?thesis
  proof (cases "\<exists>n. fty = TEntity n")
    case True
    then obtain n where [simp]: "fty = TEntity n" ..
    from load fty obtain e plan2 plan1 q joins' where
      nest: "load_nested n (nested_table_name (qp_join_counter plan) fty n) plan1 = Ok (e, plan2)"
      and cols: "qp_columns plan1 = qp_columns plan @ [?col]"
      and acc: "acc = (fs @ [q], joins', plan2)" "field_idxs q = concat (map field_idxs (qe_fields e))"
        "\<And>cols. entity_ok cols e \<Longrightarrow> field_ok cols q" "joins' = al_insert (f_name f) (Join e (f_name f) ''id'') joins"
      unfolding load_field_def
      by (fastforce simp: from_ts_def r_bind_Ok_iff Let_def make_scalar_field_def elim!: entity_ok.elims)
    from nested [OF nest] have ok: "loaded_ok plan1 (e, plan2)" .
    then have pre: "prefix (qp_columns plan1) (qp_columns plan2)" by (simp add: loaded_ok_def)
    have "prefix (qp_columns plan) (qp_columns plan2)" using pre cols by (auto simp: prefix_def)
    from load_inv_grow [OF inv this] have inv2: "load_inv cols0 table loaded (fs, joins, plan2)" .
    have old: "i < length (qp_columns plan)" if "i \<in> set (concat (map field_idxs fs))" for i
      using inv that by (auto simp: load_inv_def)
    have new: "length (qp_columns plan) < i" if "i \<in> set (field_idxs q)" for i
      using ok that acc(2) cols by (auto simp: loaded_ok_def Suc_le_eq)
    have "has_column (qp_columns plan2) table (f_name f)"
      using pre cols by (auto simp: has_column_def prefix_def)
    moreover have "set (concat (map field_idxs fs)) \<inter> set (field_idxs q) = {}"
      using old new by fastforce
    moreover have "length cols0 \<le> length (qp_columns plan)"
      using inv by (auto simp: load_inv_def dest: prefix_length_le)
    ultimately show ?thesis
      using inv2 ok acc new set_al_insert [of "f_name f" "Join e (f_name f) ''id''" joins]
      by (fastforce simp: load_inv_def loaded_ok_def)
  next
    case False
    with load fty have "acc = (fs @ [fst (make_scalar_field f table (map_of (fp_transforms policies) (f_name f))
          (if f_name f \<in> fp_omit policies then OmitField else Keep) plan)], joins,
        plan\<lparr>qp_columns := qp_columns plan @ [?col]\<rparr>)"
      by (cases fty) (auto simp: load_field_def from_ts_def make_scalar_field_def Let_def)
    moreover have "length cols0 \<le> length (qp_columns plan)"
      using inv by (auto simp: load_inv_def dest: prefix_length_le)
    ultimately show ?thesis
      using load_inv_grow [OF inv, of "plan\<lparr>qp_columns := qp_columns plan @ [?col]\<rparr>"] inv
      by (auto simp: load_inv_def make_scalar_field_def has_column_def nth_append)
  qed
qed

lemma load_fields_inv:
  assumes "\<And>ty t plan r. load_nested ty t plan = Ok r \<Longrightarrow> loaded_ok plan r"
    and "load_inv cols0 table loaded acc" "r_fold (load_field ctx policies table load_nested) fs acc = Ok acc'"
  shows "load_inv cols0 table (loaded @ fs) acc'"
  using assms(2,3)
proof (induction fs arbitrary: acc loaded)
  case (Cons f fs)
  from Cons.prems(2) obtain b where b: "load_field ctx policies table load_nested f acc = Ok b"
    "r_fold (load_field ctx policies table load_nested) fs b = Ok acc'" by (auto simp: r_bind_Ok_iff)
  obtain q j p where [simp]: "acc = (q, j, p)" by (cases acc)
  from load_field_inv [OF assms(1)] Cons.prems(1) b(1) have "load_inv cols0 table (loaded @ [f]) b" by simp
  from Cons.IH [OF this b(2)] show ?case by simp
qed simp

lemma load_entity_recursive_ok:
  "load_entity_recursive fuel ctx ty table plan = Ok r \<Longrightarrow> loaded_ok plan r"
proof (induction fuel arbitrary: ty table plan r)
  case (Suc fuel)
  from Suc.prems obtain fs joins plan' where
    fold: "r_fold (load_field ctx (context_field_policies ctx (entity_object ty)) table (load_entity_recursive fuel ctx))
      (all_fields (entity_object ty)) ([], [], plan) = Ok (fs, joins, plan')"
    and r: "r = (QueriedEntity fs ty table joins, plan')"
    by (auto simp: r_bind_Ok_iff)
  have "load_inv (qp_columns plan) table ([] @ all_fields (entity_object ty)) (fs, joins, plan')"
    by (rule load_fields_inv [OF Suc.IH _ fold]) (simp_all add: load_inv_def)
  then show ?case by (simp add: r load_inv_def loaded_ok_def)
qed simp

lemma s_bind_Ok_iff: "s_bind m f s = (Ok y, s') \<longleftrightarrow> (\<exists>x t. m s = (Ok x, t) \<and> f x t = (Ok y, s'))"
  by (auto simp: s_bind_def split: prod.splits result.splits)

lemma extend_operators_same [simp]:
  "qp_entity (extend_operators ops plan) = qp_entity plan"
  "qp_columns (extend_operators ops plan) = qp_columns plan"
proof -
  have "qp_entity (fold process_projection ops plan) = qp_entity plan \<and>
      qp_columns (fold process_projection ops plan) = qp_columns plan"
    by (induction ops arbitrary: plan) (auto simp: process_projection_def split: query_op.splits)
  then show "qp_entity (extend_operators ops plan) = qp_entity plan"
    "qp_columns (extend_operators ops plan) = qp_columns plan"
    by (simp_all add: extend_operators_def Let_def)
qed

definition plan_ok :: "query_plan \<Rightarrow> bool" where
  "plan_ok plan = (entity_ok (qp_columns plan) (qp_entity plan) \<and>
     distinct (concat (map field_idxs (qe_fields (qp_entity plan)))))"

lemma load_entity_ok:
  "load_entity fuel ctx ty plan s = (Ok (e, plan'), s') \<Longrightarrow> plan_ok (plan'\<lparr>qp_entity := e\<rparr>)"
  by (auto simp: load_entity_def s_bind_Ok_iff s_lift_def r_bind_Ok_iff plan_ok_def loaded_ok_def
      dest!: load_entity_recursive_ok)

lemma from_op_chain_ok: "from_op_chain fuel ctx chain s = (Ok plan, s') \<Longrightarrow> plan_ok plan"
  unfolding from_op_chain_def from_entity_name_def
  by (auto simp: s_bind_Ok_iff s_lift_def split: prod.splits dest!: load_entity_ok) (simp add: plan_ok_def)

lemma from_ops_ok: "from_ops fuel ctx ty ops s = (Ok plan, s') \<Longrightarrow> plan_ok plan"
  unfolding from_ops_def
  by (auto simp: s_bind_Ok_iff s_lift_def split: prod.splits dest!: load_entity_ok) (simp add: plan_ok_def)

lemma walk_chain_column:
  assumes "entity_ok cols e" "has_field (entity_object (qe_ty e)) f" "walk_chain e f rest = Ok s"
  shows "\<exists>c \<in> set cols. s = quoted (column_alias (c_table_name c) (c_name c))"
  using assms
proof (induction e f rest rule: walk_chain.induct)
  case (1 e f)
  then have "has_column cols (qe_table_alias e) f" by (cases e) (auto simp: has_field_def)
  with 1 show ?case by (force simp: has_column_def)
next
  case (2 e f next_field rest)
  from 2(4) obtain j where j: "map_of (qe_joins e) f = Some j"
    "has_field (entity_object (qe_ty (jn_entity j))) next_field"
    "walk_chain (jn_entity j) next_field rest = Ok s"
    by (auto simp: r_bind_Ok_iff check_field_def)
  from 2(2) map_of_SomeD [OF j(1)] have "entity_ok cols (jn_entity j)"
    by (cases e; cases j) force
  then show ?case using 2(1) [of j] j by (simp add: check_field_def)
qed

lemma property_column:
  assumes "plan_ok plan" "property_expr_to_string plan p obj = Ok s"
  shows "\<exists>c \<in> set (qp_columns plan). s = quoted (column_alias (c_table_name c) (c_name c))"
proof -
  from assms(2) obtain ps where ps: "get_property_chain p obj = Ok ps" "(case ps of
       [] \<Rightarrow> Panic ''assertion failed: !properties.is_empty()''
     | f # rest \<Rightarrow> r_bind (check_field (qp_entity plan) f) (\<lambda>_. walk_chain (qp_entity plan) f rest)) = Ok s"
    unfolding property_expr_to_string_def r_bind_Ok_iff by blast
  then show ?thesis
    using assms(1) by (cases ps) (auto simp: plan_ok_def r_bind_Ok_iff check_field_def intro: walk_chain_column)
qed

text \<open>
  C21: a plan selects what it uses.  In a plan built from an operator chain every scalar field of
  the answer, at every nesting depth, is read from its own column, which carries the field's name
  and type, and every property that a condition mentions is rendered as the alias of a column of
  the innermost SELECT.
\<close>

theorem plan_columns:
  assumes "from_op_chain fuel ctx chain cache = (Ok plan, cache')"
  shows "(\<forall>f \<in> set (qe_fields (qp_entity plan)). field_ok (qp_columns plan) f) \<and>
    distinct (concat (map field_idxs (qe_fields (qp_entity plan)))) \<and>
    (\<forall>p obj s. property_expr_to_string plan p obj = Ok s \<longrightarrow>
       (\<exists>c \<in> set (qp_columns plan). s = quoted (column_alias (c_table_name c) (c_name c))))"
proof -
  from assms have "plan_ok plan" by (rule from_op_chain_ok)
  then show ?thesis
    using property_column by (cases "qp_entity plan") (auto simp: plan_ok_def)
qed

definition author_type :: object_type where
  "author_type = \<lparr>ot_meta_id = None, ot_name = ''Author'', ot_fields = [], ot_indexes = [],
     ot_chisel_id = chisel_id_field, ot_backing_table = ''author'', ot_version_id = ''dev''\<rparr>"

definition author_field :: field where
  "author_field = (string_field ''by'')\<lparr>f_type_id := TIdEntity ''Author'' ''dev''\<rparr>"

definition blog_context :: "(string, unit, unit) data_context" where
  "blog_context = \<lparr>dc_type_system = \<lparr>custom_types = [(''Author'', Custom author_type), (''Post'', Custom (post_type [author_field]))],
       builtin = [(''string'', TString)], ts_version_id = ''dev''\<rparr>,
     dc_policy_system = PolicySystem_default, dc_is_match = (=), dc_user_id = None, dc_path = None,
     dc_typescript_policies = False, dc_policy_context = allow_context, dc_engine = ()\<rparr>"

lemma show_nat_0: "show_nat 0 = ''0''"
  by code_simp

lemma blog_plan:
  "\<exists>plan. from_op_chain 3 blog_context (OTake 5 (BaseEntity ''Post'')) [] = (Ok plan, []) \<and>
     map c_table_name (qp_columns plan) = [''ty_Post'', ''ty_Post'', ''JOIN0_Author_TO_Author'']"
  by (simp add: from_op_chain_def from_entity_name_def blog_context_def s_bind_def s_lift_def
      load_entity_def from_ts_def numeral_3_eq_3 context_field_policies_def make_field_policies_def
      lookup_entity_def lookup_builtin_type.simps lookup_custom_type_def extract_template_def strip_prefix_def starts_with_def
      load_field_def ts_get_def author_type_def author_field_def post_type_def all_fields_def chisel_id_field_def
      string_field_def make_scalar_field_def nested_table_name_def truncate_identifier_def max_prefix_def QueryPlan_new_def
      backing_table_def Let_def PolicySystem_default_def show_nat_0)

theorem plan_columns_witness:
  "\<exists>plan. from_op_chain 3 blog_context (OTake 5 (BaseEntity ''Post'')) [] = (Ok plan, []) \<and>
     distinct (concat (map field_idxs (qe_fields (qp_entity plan))))"
  using blog_plan plan_columns by blast

text \<open>Entities nested at most \<open>n\<close> deep, all of whose field types resolve.\<close>

fun depth_ok :: "nat \<Rightarrow> type_system \<Rightarrow> entity \<Rightarrow> bool" where
  "depth_ok 0 ts e = False"
| "depth_ok (Suc n) ts e =
     (\<forall>f \<in> set (all_fields (entity_object e)).
        case ts_get ts (f_type_id f) of Ok (TEntity e') \<Rightarrow> depth_ok n ts e' | Ok _ \<Rightarrow> True | _ \<Rightarrow> False)"

lemma load_fields_is_ok:
  assumes "\<And>ty t plan. is_ok (load_nested ty t plan) = P ty"
  shows "is_ok (r_fold (load_field ctx policies table load_nested) fs acc) \<longleftrightarrow>
    (\<forall>f \<in> set fs. case ts_get (dc_type_system ctx) (f_type_id f) of Ok (TEntity e') \<Rightarrow> P e' | Ok _ \<Rightarrow> True | _ \<Rightarrow> False)"
proof (induction fs arbitrary: acc)
  case (Cons f fs)
  obtain q j plan where [simp]: "acc = (q, j, plan)" by (cases acc)
  show ?case
  proof (cases "ts_get (dc_type_system ctx) (f_type_id f)")
    case (Ok fty)
    show ?thesis
    proof (cases "\<exists>e. fty = TEntity e")
      case True
      then obtain e where [simp]: "fty = TEntity e" ..
      let ?plan = "snd (make_scalar_field f table (map_of (fp_transforms policies) (f_name f))
        (if f_name f \<in> fp_omit policies then OmitField else Keep) (plan\<lparr>qp_join_counter := qp_join_counter plan + 1\<rparr>))"
      let ?r = "load_nested e (nested_table_name (qp_join_counter plan) fty e) ?plan"
      have "is_ok ?r = P e" by (rule assms)
      then show ?thesis
        using Ok Cons.IH by (cases ?r) (auto simp: load_field_def from_ts_def Let_def split: prod.splits)
    next
      case False
      with Ok Cons.IH show ?thesis
        by (cases fty) (auto simp: load_field_def from_ts_def Let_def split: prod.splits)
    qed
  qed (auto simp: load_field_def from_ts_def Let_def)
qed simp

text \<open>
  C22: loading an entity ends exactly when its type does.  With \<open>n\<close> stack frames the loader
  succeeds iff every field type resolves and entities nest less than \<open>n\<close> deep; more frames never
  hurt, and an entity with a field of its own type is not loaded however large the stack is.
\<close>

theorem load_entity_terminates:
  "is_ok (load_entity_recursive n ctx ty table plan) = depth_ok n (dc_type_system ctx) ty \<and>
   (depth_ok n ts ty \<longrightarrow> depth_ok (n + m) ts ty) \<and>
   (f \<in> set (all_fields (entity_object ty)) \<and> ts_get ts (f_type_id f) = Ok (TEntity ty) \<longrightarrow> \<not> depth_ok n ts ty)"
proof (intro conjI impI)
  show "is_ok (load_entity_recursive n ctx ty table plan) = depth_ok n (dc_type_system ctx) ty"
  proof (induction n arbitrary: ty table plan)
    case (Suc n)
    from load_fields_is_ok [of "load_entity_recursive n ctx" "depth_ok n (dc_type_system ctx)", OF Suc.IH,
      of ctx "context_field_policies ctx (entity_object ty)" table "all_fields (entity_object ty)" "([], [], plan)"]
    show ?case by (auto simp: is_ok_iff r_bind_Ok_iff split: prod.splits)
  qed simp
  show "depth_ok (n + m) ts ty" if "depth_ok n ts ty" using that
    by (induction n arbitrary: ty) (fastforce split: result.splits ty.splits)+
  show "\<not> depth_ok n ts ty"
    if "f \<in> set (all_fields (entity_object ty)) \<and> ts_get ts (f_type_id f) = Ok (TEntity ty)"
    using that by (induction n) force+
qed

theorem load_entity_terminates_witness:
  "is_ok (load_entity_recursive 2 blog_context (Custom (post_type [author_field])) ''t'' (QueryPlan_new (Custom author_type))) \<and>
   is_ok (load_entity_recursive (2 + 5) blog_context (Custom (post_type [author_field])) ''t'' (QueryPlan_new (Custom author_type)))"
proof -
  let ?post = "Custom (post_type [author_field])"
  have "depth_ok 2 (dc_type_system blog_context) ?post"
    by (simp add: numeral_2_eq_2 blog_context_def ts_get_def lookup_entity_def lookup_builtin_type.simps lookup_custom_type_def
        extract_template_def strip_prefix_def starts_with_def author_type_def author_field_def post_type_def all_fields_def
        chisel_id_field_def string_field_def)
  then show ?thesis using load_entity_terminates by blast
qed

end
