(* ===== verification/Query_Refinement.thy ===== *)
theory Query_Refinement
  imports Query_Plan "HOL-Library.Multiset"
begin

text \<open>
  What a query means, and that the nested SELECT statements of \<open>make_raw_query\<close> compute it.

  The abstract meaning applies the operators of the chain one after the other to the rows of the
  entity.  The plan cuts the chain after each \<open>Take\<close> or \<open>Skip\<close> and merges the operators of a
  segment into one SELECT: all filters as one conjunction, the last sort order only.  A SELECT has
  the meaning SQL gives it: WHERE keeps the rows whose condition is true, ORDER BY sorts them,
  OFFSET and LIMIT cut the sorted list, COUNT counts.  \<open>key\<close> is the sort key of a row for an
  ORDER BY clause; merging is sound where the key identifies the row, as it does when the chain
  sorts by \<open>id\<close> last.
\<close>

subsection \<open>The abstract meaning\<close>

datatype 'row answer = Rows "'row list" | Counted nat

fun op_apply ::
  "comparison \<Rightarrow> ('row \<Rightarrow> row_view) \<Rightarrow> (sort_by \<Rightarrow> 'row \<Rightarrow> 'k::linorder) \<Rightarrow> query_op \<Rightarrow> 'row answer \<Rightarrow> 'row answer" where
  "op_apply cmp view key op (Counted n) = Counted n"
| "op_apply cmp view key (QFilter e) (Rows rs) = Rows (filter (\<lambda>r. holds cmp (view r) e) rs)"
| "op_apply cmp view key (QProjection _) (Rows rs) = Rows rs"
| "op_apply cmp view key (QTake n) (Rows rs) = Rows (take (unat n) rs)"
| "op_apply cmp view key (QSkip n) (Rows rs) = Rows (drop (unat n) rs)"
| "op_apply cmp view key (QSortBy ks) (Rows rs) = Rows (List.sort_key (key ks) rs)"
| "op_apply cmp view key QCount (Rows rs) = Counted (length rs)"

definition run_ops ::
  "comparison \<Rightarrow> ('row \<Rightarrow> row_view) \<Rightarrow> (sort_by \<Rightarrow> 'row \<Rightarrow> 'k::linorder) \<Rightarrow> query_op list \<Rightarrow> 'row answer \<Rightarrow> 'row answer" where
  "run_ops cmp view key ops = fold (op_apply cmp view key) ops"

subsection \<open>SELECT statements\<close>

record select =
  sl_where :: "expr option"
  sl_order :: "sort_by option"
  sl_limit :: "u64 option"
  sl_offset :: "u64 option"
  sl_count :: bool

definition select_of :: "query_op list \<Rightarrow> select" where
  "select_of ops =
     \<lparr>sl_where = gather_filters ops, sl_order = find_last_sort_by ops, sl_limit = rfind_map as_take ops,
      sl_offset = rfind_map as_skip ops, sl_count = (QCount \<in> set ops)\<rparr>"

function selects :: "query_op list \<Rightarrow> select list" where
  "selects ops =
     (if ops = [] then []
      else let (now, later) = split_on_first_take ops in select_of now # selects later)"
  by pat_completeness auto
termination
  by (relation "measure length") (auto intro: split_on_first_take_shorter)

declare selects.simps [simp del]

definition select_rows ::
  "comparison \<Rightarrow> ('row \<Rightarrow> row_view) \<Rightarrow> (sort_by \<Rightarrow> 'row \<Rightarrow> 'k::linorder) \<Rightarrow> select \<Rightarrow> 'row list \<Rightarrow> 'row list" where
  "select_rows cmp view key s rs =
     (let rs = (case sl_where s of None \<Rightarrow> rs | Some e \<Rightarrow> filter (\<lambda>r. holds cmp (view r) e) rs)
      in case sl_order s of None \<Rightarrow> rs | Some ks \<Rightarrow> List.sort_key (key ks) rs)"

definition cut_rows :: "u64 option \<Rightarrow> u64 option \<Rightarrow> 'row list \<Rightarrow> 'row list" where
  "cut_rows limit offset rs =
     (let rs = (case offset of None \<Rightarrow> rs | Some n \<Rightarrow> drop (unat n) rs)
      in case limit of None \<Rightarrow> rs | Some n \<Rightarrow> take (unat n) rs)"

fun exec_select ::
  "comparison \<Rightarrow> ('row \<Rightarrow> row_view) \<Rightarrow> (sort_by \<Rightarrow> 'row \<Rightarrow> 'k::linorder) \<Rightarrow> select \<Rightarrow> 'row answer \<Rightarrow> 'row answer" where
  "exec_select cmp view key s (Counted n) = Counted n"
| "exec_select cmp view key s (Rows rs) =
     (if sl_count s then Counted (length (select_rows cmp view key s rs))
      else Rows (cut_rows (sl_limit s) (sl_offset s) (select_rows cmp view key s rs)))"

definition render_select :: "sql_printer \<Rightarrow> query_plan \<Rightarrow> target_database \<Rightarrow> select \<Rightarrow> string \<Rightarrow> string res" where
  "render_select sp plan target s sql =
     r_bind (make_filter_string sp plan (sl_where s)) (\<lambda>filter_string.
     r_bind (make_sort_string plan (sl_order s)) (\<lambda>sort_string.
     Ok (''SELECT '' @ (if sl_count s then ''COUNT(*)'' else ''*'') @ '' FROM ('' @ sql @ '') AS subquery ''
           @ filter_string @ '' '' @ sort_string @ '' ''
           @ make_limit_and_offset_string target (sl_limit s) (sl_offset s))))"

definition count_last :: "query_op list \<Rightarrow> bool" where
  "count_last ops = (QCount \<notin> set (butlast ops))"

subsection \<open>Segments\<close>

definition plain :: "query_op \<Rightarrow> bool" where
  "plain op = (\<not> is_break op \<and> op \<noteq> QCount)"

lemma rfind_map_alt:
  "rfind_map f xs = (let ys = filter (\<lambda>x. f x \<noteq> None) xs in if ys = [] then None else f (last ys))"
  by (simp add: rfind_map_def Let_def split: list.split)

lemma rfind_map_snoc: "rfind_map f (xs @ [x]) = (if f x = None then rfind_map f xs else f x)"
  by (simp add: rfind_map_alt)

lemma rfind_map_none: "(\<And>x. x \<in> set xs \<Longrightarrow> f x = None) \<Longrightarrow> rfind_map f xs = None"
  by (auto simp: rfind_map_def filter_empty_conv split: list.splits)

lemma gather_filters_snoc: "gather_filters (ops @ [op]) = gather_step op (gather_filters ops)"
  by (simp add: gather_filters_def)

lemma split_on_first_take_cases:
  assumes "split_on_first_take ops = (now, later)"
  obtains (all) "later = []" "\<And>op. op \<in> set now \<Longrightarrow> \<not> is_break op"
    | (cut) pre op where "now = pre @ [op]" "is_break op" "\<And>op. op \<in> set pre \<Longrightarrow> \<not> is_break op"
proof -
  have "(later = [] \<and> (\<forall>op \<in> set now. \<not> is_break op)) \<or>
      (\<exists>pre op. now = pre @ [op] \<and> is_break op \<and> (\<forall>op \<in> set pre. \<not> is_break op))"
    using assms
  proof (induction ops arbitrary: now)
    case (Cons x ops)
    show ?case
    proof (cases "is_break x")
      case False
      with Cons.prems obtain a where a: "split_on_first_take ops = (a, later)" "now = x # a"
        by (auto split: prod.splits)
      from Cons.IH [OF a(1)] False a(2) show ?thesis
        by (metis Cons_eq_appendI set_ConsD)
    qed (use Cons.prems in force)
  qed simp
  then show thesis using that by blast
qed

lemma run_ops_append: "run_ops cmp view key (a @ b) ans = run_ops cmp view key b (run_ops cmp view key a ans)"
  by (simp add: run_ops_def)

lemma set_select_rows: "set (select_rows cmp view key s rs) \<subseteq> set rs"
  by (auto simp: select_rows_def Let_def split: option.splits)

lemma sort_key_again:
  "inj_on f (set xs) \<Longrightarrow> List.sort_key f (List.sort_key g xs) = List.sort_key f xs"
  by (rule sort_key_inj_key_eq) auto

text \<open>A segment without a cut: its operators, merged.\<close>

lemma run_plain:
  assumes "\<And>op. op \<in> set ops \<Longrightarrow> plain op" "\<And>ks. inj_on (key ks) (set rs)"
  shows "run_ops cmp view key ops (Rows rs) = Rows (select_rows cmp view key (select_of ops) rs)"
  using assms(1)
proof (induction ops rule: rev_induct)
  case Nil
  show ?case
    by (simp add: run_ops_def select_rows_def select_of_def gather_filters_def find_last_sort_by_def rfind_map_def)
next
  case (snoc op ops)
  let ?w = "case gather_filters ops of None \<Rightarrow> rs | Some e \<Rightarrow> filter (\<lambda>r. holds cmp (view r) e) rs"
  have sub: "set ?w \<subseteq> set rs" by (auto split: option.splits)
  have inj: "inj_on (key ks) (set ?w)" for ks
    by (rule inj_on_subset [OF assms(2) sub])
  have run: "run_ops cmp view key (ops @ [op]) (Rows rs) =
      op_apply cmp view key op (Rows (select_rows cmp view key (select_of ops) rs))"
    using snoc by (simp add: run_ops_def)
  have "plain op" using snoc.prems by simp
  then show ?case
    using inj unfolding run
    by (cases op)
      (auto simp: plain_def is_break_def select_rows_def select_of_def gather_filters_snoc gather_step_def
        find_last_sort_by_def rfind_map_snoc as_sort_by_def Let_def filter_sort sort_key_again
        filter_filter conj_commute split: option.splits)
qed

lemma plain_no_cut:
  assumes "\<And>op. op \<in> set ops \<Longrightarrow> plain op"
  shows "rfind_map as_take ops = None" "rfind_map as_skip ops = None" "QCount \<notin> set ops"
  by (rule rfind_map_none, drule assms, simp add: plain_def is_break_def as_take_def as_skip_def split: query_op.splits)+
    (use assms in \<open>auto simp: plain_def\<close>)

lemma select_rows_snoc:
  "\<not> plain op \<Longrightarrow> select_rows cmp view key (select_of (ops @ [op])) rs = select_rows cmp view key (select_of ops) rs"
  by (cases op) (auto simp: plain_def is_break_def select_rows_def select_of_def gather_filters_snoc gather_step_def
      find_last_sort_by_def rfind_map_snoc as_sort_by_def)

text \<open>One segment is one SELECT.\<close>

lemma exec_segment:
  assumes "split_on_first_take ops = (now, later)" "count_last ops" "\<And>ks. inj_on (key ks) (set rs)"
  shows "exec_select cmp view key (select_of now) (Rows rs) = run_ops cmp view key now (Rows rs)"
proof -
  have ops: "ops = now @ later" by (rule split_on_first_take_append [OF assms(1)])
  have snoc: "exec_select cmp view key (select_of (pre @ [op])) (Rows rs) = run_ops cmp view key (pre @ [op]) (Rows rs)"
    if "\<And>op. op \<in> set pre \<Longrightarrow> plain op" "\<not> plain op" for pre op
    using run_plain [OF that(1) assms(3), of pre cmp view] plain_no_cut [OF that(1), of pre] that(2)
      select_rows_snoc [OF that(2), of cmp view key pre rs]
    by (cases op) (auto simp: run_ops_append plain_def is_break_def run_ops_def cut_rows_def
        select_of_def rfind_map_snoc as_take_def as_skip_def)
  from assms(1) show ?thesis
  proof (cases rule: split_on_first_take_cases)
    case all
    show ?thesis
    proof (cases "QCount \<in> set now")
      case True
      have "QCount \<notin> set (butlast now)" using assms(2) ops all(1) by (simp add: count_last_def)
      moreover have "now = butlast now @ [last now]" using True by (cases now rule: rev_cases) auto
      ultimately have now: "now = butlast now @ [QCount]"
        using True by (metis (no_types) UnE set_append set_ConsD list.set(1) empty_iff)
      have "plain op" if "op \<in> set (butlast now)" for op
        using that all(2) [of op] \<open>QCount \<notin> _\<close> in_set_butlastD [OF that] by (auto simp: plain_def)
      with now show ?thesis using snoc [of "butlast now" QCount] by (simp add: plain_def)
    next
      case False
      with all have "\<And>op. op \<in> set now \<Longrightarrow> plain op" by (auto simp: plain_def)
      with run_plain [OF this assms(3), of now cmp view] plain_no_cut [OF this, of now] show ?thesis
        by (simp add: cut_rows_def select_of_def)
    qed
  next
    case (cut pre op)
    have "QCount \<notin> set pre"
      using assms(2) ops cut(1) by (auto simp: count_last_def butlast_append split: if_splits)
    with cut(3) have "plain op'" if "op' \<in> set pre" for op'
      using that by (auto simp: plain_def)
    with cut(1,2) show ?thesis using snoc [of pre op] by (simp add: plain_def)
  qed
qed

lemma count_last_split:
  assumes "split_on_first_take ops = (now, later)" "count_last ops"
  shows "count_last now" "count_last later" "QCount \<in> set now \<Longrightarrow> later = []"
  using assms(2) split_on_first_take_append [OF assms(1)]
  by (auto simp: count_last_def butlast_append dest: in_set_butlastD split: if_splits)

lemma run_selects:
  assumes "count_last ops" "\<And>ks. inj_on (key ks) (set rs)"
  shows "fold (exec_select cmp view key) (selects ops) (Rows rs) = run_ops cmp view key ops (Rows rs)"
  using assms
proof (induction ops arbitrary: rs rule: selects.induct)
  case (1 ops)
  show ?case
  proof (cases "ops = []")
    case True
    then show ?thesis by (simp add: selects.simps run_ops_def)
  next
    case False
    obtain now later where split: "split_on_first_take ops = (now, later)" by force
    note seg = exec_segment [OF split 1(2,3)]
    have ops: "ops = now @ later" by (rule split_on_first_take_append [OF split])
    have sel: "selects ops = select_of now # selects later" using False split by (subst selects.simps) simp
    show ?thesis
    proof (cases "QCount \<in> set now")
      case True
      with count_last_split [OF split 1(2)] have "later = []" by simp
      with ops sel seg show ?thesis by (simp add: selects.simps)
    next
      case False
      let ?rs = "cut_rows (sl_limit (select_of now)) (sl_offset (select_of now)) (select_rows cmp view key (select_of now) rs)"
      from False have run: "run_ops cmp view key now (Rows rs) = Rows ?rs" using seg by (simp add: select_of_def)
      have "set ?rs \<subseteq> set rs"
        using set_select_rows [of cmp view key "select_of now" rs]
        by (auto simp: cut_rows_def Let_def split: option.splits dest!: in_set_takeD in_set_dropD)
      with 1(3) have "inj_on (key ks) (set ?rs)" for ks by (meson inj_on_subset)
      with 1(1) [OF \<open>ops \<noteq> []\<close> split [symmetric] refl count_last_split(2) [OF split 1(2)], of ?rs] run seg ops sel
      show ?thesis by (simp add: run_ops_append)
    qed
  qed
qed

subsection \<open>The assertions hold\<close>

lemma few_cuts:
  assumes "split_on_first_take ops = (now, later)" "\<And>op. f op \<noteq> None \<Longrightarrow> is_break op"
  shows "length (filter (\<lambda>op. f op \<noteq> None) now) \<le> 1"
  using assms(1)
proof (cases rule: split_on_first_take_cases)
  case all
  with assms(2) have "filter (\<lambda>op. f op \<noteq> None) now = []" by (fastforce simp: filter_empty_conv)
  then show ?thesis by simp
next
  case (cut pre op)
  with assms(2) have "filter (\<lambda>op. f op \<noteq> None) pre = []" by (fastforce simp: filter_empty_conv)
  with cut(1) show ?thesis by simp
qed

lemma find_counts_Ok:
  assumes "split_on_first_take ops = (now, later)"
  shows "find_take_count now = Ok (rfind_map as_take now)" "find_skip_count now = Ok (rfind_map as_skip now)"
proof -
  have brk: "as_take op \<noteq> None \<Longrightarrow> is_break op" "as_skip op \<noteq> None \<Longrightarrow> is_break op" for op
    by (simp_all add: as_take_def as_skip_def is_break_def split: query_op.splits)
  show "find_take_count now = Ok (rfind_map as_take now)"
    using few_cuts [OF assms, of as_take] brk(1) by (simp add: find_take_count_def)
  show "find_skip_count now = Ok (rfind_map as_skip now)"
    using few_cuts [OF assms, of as_skip] brk(2) by (simp add: find_skip_count_def)
qed

lemma contains_count_Ok: "count_last ops \<Longrightarrow> contains_count ops = Ok (QCount \<in> set ops)"
proof (cases "find (\<lambda>i. ops ! i = QCount) [0..<length ops]")
  case None
  then have "QCount \<notin> set ops" by (auto simp: find_None_iff in_set_conv_nth)
  with None show ?thesis by (simp add: contains_count_def)
next
  case (Some p)
  assume last: "count_last ops"
  from Some have p: "p < length ops" "ops ! p = QCount" by (auto simp: find_Some_iff)
  with last have "\<not> p < length ops - 1"
    by (metis count_last_def in_set_conv_nth length_butlast nth_butlast)
  with Some p show ?thesis by (auto simp: contains_count_def in_set_conv_nth)
qed

lemma make_raw_query_loop_render:
  assumes "count_last ops"
  shows "make_raw_query_loop sp plan target ops sql fields' =
    r_map_ok (\<lambda>sql. (sql, if QCount \<in> set ops then [count_field] else fields'))
      (r_fold (render_select sp plan target) (selects ops) sql)"
  using assms
proof (induction ops arbitrary: sql fields' rule: selects.induct)
  case (1 ops)
  show ?case
  proof (cases "ops = []")
    case True
    then show ?thesis by (simp add: make_raw_query_loop.simps selects.simps)
  next
    case False
    obtain now later where split: "split_on_first_take ops = (now, later)" by force
    note IH = 1(1) [OF False split [symmetric] refl count_last_split(2) [OF split 1(2)]]
    note [simp] = find_counts_Ok [OF split] contains_count_Ok [OF count_last_split(1) [OF split 1(2)]]
    have sel: "selects ops = select_of now # selects later" using False split by (subst selects.simps) simp
    have ops: "ops = now @ later" by (rule split_on_first_take_append [OF split])
    have only: "\<not> (QCount \<in> set now \<and> later \<noteq> [])"
      using count_last_split(3) [OF split 1(2)] by blast
    have last: "later = []" if "QCount \<in> set now" using that by (rule count_last_split(3) [OF split 1(2)])
    have step: "make_raw_query_loop sp plan target ops sql fields' =
        r_bind (render_select sp plan target (select_of now) sql) (\<lambda>sql.
          make_raw_query_loop sp plan target later sql (if QCount \<in> set now then [count_field] else fields'))"
      by (subst make_raw_query_loop.simps, cases "make_filter_string sp plan (gather_filters now)";
          cases "make_sort_string plan (find_last_sort_by now)")
        (use only in \<open>auto simp: False split render_select_def select_of_def Let_def\<close>)
    show ?thesis
      unfolding step sel r_fold.simps
      by (cases "render_select sp plan target (select_of now) sql") (use last in \<open>auto simp: IH ops\<close>)
  qed
qed

text \<open>
  C20: the SQL of a query computes the query.  The statement text is one SELECT around another,
  one for each segment of the operator chain, and executing those SELECTs from the inside out
  gives what applying the operators one after the other gives, when \<open>count\<close> comes last and the
  sort keys identify the rows.
\<close>

theorem raw_query_refines:
  assumes "count_last (qp_operators plan)" and "\<And>ks. inj_on (key ks) (set rows)"
  shows "make_raw_query sp plan target =
      r_map_ok (\<lambda>sql. (sql, if QCount \<in> set (qp_operators plan) then [count_field] else qe_fields (qp_entity plan)))
        (r_fold (render_select sp plan target) (selects (qp_operators plan)) (make_core_select plan)) \<and>
    fold (exec_select cmp view key) (selects (qp_operators plan)) (Rows rows) =
      run_ops cmp view key (qp_operators plan) (Rows rows)"
  using make_raw_query_loop_render [OF assms(1)] run_selects [OF assms] by (simp add: make_raw_query_def)

definition person_entity :: entity where
  "person_entity = Custom \<lparr>ot_meta_id = None, ot_name = ''Person'', ot_fields = [], ot_indexes = [],
     ot_chisel_id = chisel_id_field, ot_backing_table = ''person'', ot_version_id = ''main''\<rparr>"

definition page_plan :: query_plan where
  "page_plan = (QueryPlan_new person_entity)\<lparr>qp_operators :=
     [QSortBy [\<lparr>sk_field_name = ''id'', sk_ascending = True\<rparr>], QFilter (Value (VBool True)), QTake 2, QSkip 1]\<rparr>"

theorem raw_query_refines_witness:
  "fold (exec_select (\<lambda>_ _ _. None) (\<lambda>_ _. VNull) (\<lambda>_ r. r)) (selects (qp_operators page_plan)) (Rows [3, 1, 2 :: nat]) =
     Rows [2]"
proof -
  have "count_last (qp_operators page_plan)" by (simp add: page_plan_def count_last_def)
  from raw_query_refines [OF this, of "\<lambda>_ r. r" "[3, 1, 2 :: nat]", where cmp = "\<lambda>_ _ _. None" and view = "\<lambda>_ _. VNull"]
  show ?thesis by (simp add: page_plan_def run_ops_def holds_def)
qed

lemma get_property_chain_Ok: "get_property_chain p e = Ok ps \<Longrightarrow> ps \<noteq> []"
  by (cases "(p, e)" rule: get_property_chain.cases) (auto simp: r_bind_Ok_iff)

lemma no_panic_get_property_chain [intro!]: "no_panic (get_property_chain p e)"
  by (induction p e rule: get_property_chain.induct) (auto intro!: no_panic_bind)

lemma no_panic_walk_chain [intro!]: "no_panic (walk_chain e f fs)"
  by (induction e f fs rule: walk_chain.induct) (auto simp: check_field_def intro!: no_panic_bind)

lemma no_panic_property_expr [intro!]: "no_panic (property_expr_to_string plan p e)"
  unfolding property_expr_to_string_def
proof (rule no_panic_bind)
  fix ps
  assume "get_property_chain p e = Ok ps"
  then have "ps \<noteq> []" by (rule get_property_chain_Ok)
  then show "no_panic (case ps of [] \<Rightarrow> Panic ''assertion failed: !properties.is_empty()''
      | f # rest \<Rightarrow> r_bind (check_field (qp_entity plan) f) (\<lambda>_. walk_chain (qp_entity plan) f rest))"
    by (cases ps) (auto simp: check_field_def)
qed blast

lemma no_panic_filter_expr [intro!]: "no_panic (filter_expr_to_string sp plan e)"
  by (induction e) auto

lemma no_panic_render [intro!]: "no_panic (render_select sp plan target s sql)"
  unfolding render_select_def make_filter_string_def make_sort_string_def
  by (auto split: option.split)

text \<open>
  When \<open>count\<close> is the last operator, none of the assertions that building a statement makes
  can fail: a chain with an unknown field or a misplaced expression is reported as an error.
\<close>

theorem build_query_no_panic:
  assumes "count_last (qp_operators plan)"
  shows "no_panic (build_query sp plan target)"
  unfolding build_query_def make_raw_query_def make_raw_query_loop_render [OF assms] by auto

theorem build_query_no_panic_witness:
  "no_panic (build_query \<lparr>sp_show_f64 = \<lambda>_. [], sp_quote = \<lambda>s. s\<rparr> page_plan Sqlite)"
  by (rule build_query_no_panic) (simp add: page_plan_def count_last_def)

end
