(* ===== verification/Numbers.thy ===== *)
theory Numbers
  imports Prelude
begin

text \<open>
  The number parsers of the Rust standard library that the sources call: \<open>str::parse::<i64>\<close> and
  \<open>str::parse::<f64>\<close>.  A decimal is rounded to the nearest double, ties to the even one; \<open>k\<close> is
  the weight of the last mantissa bit, and a carry moves into the exponent field by itself.
\<close>

definition parse_i64 :: "string \<Rightarrow> i64 option" where
  "parse_i64 s =
     (let (neg, ds) = (case s of c # cs \<Rightarrow> if c = CHR ''-'' then (True, cs) else if c = CHR ''+'' then (False, cs) else (False, s)
                       | [] \<Rightarrow> (False, []))
      in if ds = [] then None
         else (case parse_digits 0 ds of
                 None \<Rightarrow> None
               | Some n \<Rightarrow> if neg then (if n \<le> 2 ^ 63 then Some (- of_nat n) else None)
                           else (if n < 2 ^ 63 then Some (of_nat n) else None)))"

definition is_digit :: "char \<Rightarrow> bool" where
  "is_digit c = (digit_val c \<noteq> None)"

definition digits_value :: "string \<Rightarrow> nat" where
  "digits_value ds = fold (\<lambda>c n. 10 * n + the (digit_val c)) ds 0"

text \<open>The nearest integer to \<open>n / d\<close>, ties to even.\<close>

definition round_div :: "nat \<Rightarrow> nat \<Rightarrow> nat" where
  "round_div n d =
     (let q = n div d; r = n mod d in if d < 2 * r \<or> (d = 2 * r \<and> odd q) then q + 1 else q)"

definition f64_inf :: f64 where
  "f64_inf = 2047 * 2 ^ 52"

text \<open>The exponent of the leading bit of \<open>n / d\<close>.\<close>

definition ratio_log2 :: "nat \<Rightarrow> nat \<Rightarrow> int" where
  "ratio_log2 n d =
     (let e = int (ilog2 n) - int (ilog2 d)
      in if (if 0 \<le> e then d * 2 ^ nat e \<le> n else d \<le> n * 2 ^ nat (- e)) then e else e - 1)"

definition f64_of_ratio :: "nat \<Rightarrow> nat \<Rightarrow> f64" where
  "f64_of_ratio n d =
     (if n = 0 then 0
      else let k = max (ratio_log2 n d - 52) (- 1074);
               m = (if 0 \<le> k then round_div n (d * 2 ^ nat k) else round_div (n * 2 ^ nat (- k)) d);
               bits = nat (k + 1074) * 2 ^ 52 + m
           in if 2047 * 2 ^ 52 \<le> bits then f64_inf else of_nat bits)"

definition parse_exponent :: "string \<Rightarrow> int option" where
  "parse_exponent s =
     (case s of
        [] \<Rightarrow> Some 0
      | c # cs \<Rightarrow>
          if c = CHR ''e'' \<or> c = CHR ''E''
          then let (neg, ds) = (case cs of x # xs \<Rightarrow> if x = CHR ''-'' then (True, xs) else if x = CHR ''+'' then (False, xs) else (False, cs)
                                | [] \<Rightarrow> (False, []))
               in if ds = [] \<or> \<not> list_all is_digit ds then None
                  else Some (if neg then - int (digits_value ds) else int (digits_value ds))
          else None)"

definition parse_decimal :: "string \<Rightarrow> f64 option" where
  "parse_decimal s =
     (let whole = takeWhile is_digit s; rest = dropWhile is_digit s;
          (frac, rest) = (case rest of c # cs \<Rightarrow> if c = CHR ''.'' then (takeWhile is_digit cs, dropWhile is_digit cs) else ([], rest)
                          | [] \<Rightarrow> ([], []))
      in if whole = [] \<and> frac = [] then None
         else (case parse_exponent rest of
                 None \<Rightarrow> None
               | Some e \<Rightarrow>
                   let n = digits_value (whole @ frac); e = e - int (length frac)
                   in Some (if 0 \<le> e then f64_of_ratio (n * 10 ^ nat e) 1 else f64_of_ratio n (10 ^ nat (- e)))))"

definition lower_char :: "char \<Rightarrow> char" where
  "lower_char c = (if 65 \<le> (of_char c :: nat) \<and> (of_char c :: nat) \<le> 90 then char_of (of_char c + 32 :: nat) else c)"

definition parse_f64 :: "string \<Rightarrow> f64 option" where
  "parse_f64 s =
     (let (neg, t) = (case s of c # cs \<Rightarrow> if c = CHR ''-'' then (True, cs) else if c = CHR ''+'' then (False, cs) else (False, s)
                      | [] \<Rightarrow> (False, []));
          low = map lower_char t;
          magnitude = (if low = ''inf'' \<or> low = ''infinity'' then Some f64_inf
                       else if low = ''nan'' then Some (f64_inf + 2 ^ 51) else parse_decimal t)
      in map_option (\<lambda>x. if neg then x + 2 ^ 63 else x) magnitude)"

end
