(* ===== verification/Engine.thy ===== *)
theory Engine
  imports Query_Plan Numbers
begin

text \<open>
  \<open>server/src/datastore/engine.rs\<close>: rows of a query become entity values, entity values become
  INSERT statements with numbered placeholders, and types become tables.

  The database driver is the parameter \<open>sql_driver\<close>: it reads a cell of a row at one of the types
  the engine asks for (a panic when the cell does not hold it).  The database itself is a function
  from statements to rows (\<open>fetch\<close>) or to the next state (\<open>exec\<close>); base64 and JSON text come with
  \<open>engine_env\<close>, and \<open>en_uuid n\<close> is the \<open>n\<close>-th UUID drawn.
\<close>

subsection \<open>Reading rows\<close>

datatype sql_value =
    SBool bool
  | SF64 f64
  | SI64 i64
  | SString string
  | SBytes bytes
  | SJson json

record 'cell sql_driver =
  dr_is_null :: "'cell \<Rightarrow> bool"
  dr_f64_unchecked :: "'cell \<Rightarrow> f64 res"
  dr_i64 :: "'cell \<Rightarrow> i64 res"
  dr_str :: "'cell \<Rightarrow> string res"
  dr_string_unchecked :: "'cell \<Rightarrow> string res"
  dr_bool :: "'cell \<Rightarrow> bool res"
  dr_bytes :: "'cell \<Rightarrow> bytes res"
  dr_json :: "'cell \<Rightarrow> json res"

definition cell_at :: "'cell list \<Rightarrow> nat \<Rightarrow> 'cell res" where
  "cell_at row i = (if i < length row then Ok (row ! i) else Panic ''column index out of bounds'')"

definition column_is_null :: "'cell sql_driver \<Rightarrow> 'cell list \<Rightarrow> nat \<Rightarrow> bool res" where
  "column_is_null drv row i = r_map_ok (dr_is_null drv) (cell_at row i)"

fun id_idx :: "query_field list \<Rightarrow> nat res" where
  "id_idx [] = Panic ''No id field among Entity children''"
| "id_idx (QScalar name _ _ column_idx _ _ # fs) = (if name = ''id'' then Ok column_idx else id_idx fs)"
| "id_idx (QEntity _ _ _ _ _ # fs) = id_idx fs"

definition read_boolean :: "'cell sql_driver \<Rightarrow> target_database \<Rightarrow> 'cell \<Rightarrow> bool res" where
  "read_boolean drv db_kind c =
     (case db_kind of
        Sqlite \<Rightarrow> r_map_ok (\<lambda>v. v = ''1'' \<or> map lower_char v = ''true'') (dr_string_unchecked drv c)
      | Postgres \<Rightarrow> dr_bool drv c)"

definition read_scalar :: "'cell sql_driver \<Rightarrow> target_database \<Rightarrow> type_id \<Rightarrow> 'cell \<Rightarrow> entity_value res" where
  "read_scalar drv db_kind type_id c =
     (case type_id of
        TIdFloat \<Rightarrow> r_map_ok EFloat64 (dr_f64_unchecked drv c)
      | TIdJsDate \<Rightarrow> r_map_ok EJsDate (dr_f64_unchecked drv c)
      | TIdInt64 \<Rightarrow> r_map_ok (\<lambda>i. EFloat64 (f64_of_int (sint i))) (dr_i64 drv c)
      | TIdString \<Rightarrow> r_map_ok EString (dr_str drv c)
      | TIdId \<Rightarrow> r_map_ok EString (dr_str drv c)
      | TIdEntityId _ \<Rightarrow> r_map_ok EString (dr_str drv c)
      | TIdBoolean \<Rightarrow> r_map_ok EBoolean (read_boolean drv db_kind c)
      | TIdArrayBuffer \<Rightarrow> r_map_ok EBytes (dr_bytes drv c)
      | TIdEntity _ _ \<Rightarrow> Err (Bail ''object is not a scalar'' [])
      | TIdArray _ \<Rightarrow>
          r_bind (dr_json drv c) (\<lambda>j.
          with_context ''failed to deserialize array from raw JSON string'' (ev_from_json j)))"

definition apply_transform :: "(entity_value \<Rightarrow> entity_value) option \<Rightarrow> entity_value \<Rightarrow> entity_value" where
  "apply_transform tr v = (case tr of Some f \<Rightarrow> f v | None \<Rightarrow> v)"

text \<open>\<open>row_to_entity_value\<close>, with the body of its loop.\<close>

fun row_to_entity_value ::
  "'cell sql_driver \<Rightarrow> target_database \<Rightarrow> 'cell list \<Rightarrow> query_field list \<Rightarrow> entity_map \<Rightarrow> entity_map res"
and read_field ::
  "'cell sql_driver \<Rightarrow> target_database \<Rightarrow> 'cell list \<Rightarrow> query_field \<Rightarrow> entity_map \<Rightarrow> entity_map res" where
  "row_to_entity_value drv db_kind row [] ret = Ok ret"
| "row_to_entity_value drv db_kind row (f # fs) ret =
     r_bind (read_field drv db_kind row f ret) (row_to_entity_value drv db_kind row fs)"
| "read_field drv db_kind row (QScalar name type_id is_optional column_idx transform keep) ret =
     (if keep = OmitField then Ok ret
      else r_bind (if is_optional then column_is_null drv row column_idx else Ok False) (\<lambda>skip.
           if skip then Ok ret
           else r_bind (case type_id of
                  TIdEntity _ _ \<Rightarrow> Err (Bail ''object is not a scalar'' [])
                | _ \<Rightarrow> r_bind (cell_at row column_idx) (read_scalar drv db_kind type_id)) (\<lambda>val.
                Ok (al_insert name (apply_transform transform val) ret))))"
| "read_field drv db_kind row (QEntity name is_optional transform keep fs) ret =
     (if keep = OmitField then Ok ret
      else r_bind (if is_optional then r_bind (id_idx fs) (column_is_null drv row) else Ok False) (\<lambda>skip.
           if skip then Ok ret
           else r_bind (row_to_entity_value drv db_kind row fs []) (\<lambda>val.
                Ok (al_insert name (apply_transform transform (EMap val)) ret))))"

definition project :: "entity_map res \<Rightarrow> string set option \<Rightarrow> entity_map res" where
  "project obj allowed_fields =
     r_bind obj (\<lambda>obj. Ok (case allowed_fields of
        Some allowed \<Rightarrow> fold al_remove (filter (\<lambda>k. k \<notin> allowed) (map fst obj)) obj
      | None \<Rightarrow> obj))"

record ('cell, 'db) engine_env =
  en_target :: target_database
  en_printer :: sql_printer
  en_driver :: "'cell sql_driver"
  en_uuid :: "nat \<Rightarrow> string"
  en_uuid_ok :: "string \<Rightarrow> bool"
  en_json_from_str :: "string \<Rightarrow> json res"
  en_base64 :: "bytes \<Rightarrow> string"
  en_fetch :: "'db \<Rightarrow> string \<Rightarrow> 'cell list res list"

text \<open>\<open>QueryEngine::query\<close>: the statement is built at once; its rows are fetched when the stream is polled.\<close>

definition query_rows :: "('cell, 'db) engine_env \<Rightarrow> 'db \<Rightarrow> query \<Rightarrow> entity_map res list" where
  "query_rows env db q =
     map (\<lambda>row. project (r_bind row (\<lambda>row.
            row_to_entity_value (en_driver env) (en_target env) row (q_fields q) [])) (q_allowed_fields q))
       (en_fetch env db (q_raw_sql q))"

definition engine_query :: "('cell, 'db) engine_env \<Rightarrow> 'db \<Rightarrow> query_plan \<Rightarrow> entity_map res list res" where
  "engine_query env db plan =
     r_bind (build_query (en_printer env) plan (en_target env)) (\<lambda>q. Ok (query_rows env db q))"

subsection \<open>Writing objects\<close>

record sql_with_arguments =
  sa_sql :: string
  sa_args :: "sql_value list"

datatype id_tree = IdTree (it_id: string) (it_children: "(string \<times> id_tree) list")

fun validate_array :: "type_id \<Rightarrow> entity_value \<Rightarrow> unit res" where
  "validate_array element_type v =
     r_bind (ev_as_array v) (\<lambda>elements.
     r_fold (\<lambda>e _.
       let bad = Err (Bail ''stored array should have elements of type {}, but found {} at position {}'' [type_id_name element_type])
       in case element_type of
            TIdString \<Rightarrow> (case e of EString _ \<Rightarrow> Ok () | _ \<Rightarrow> bad)
          | TIdId \<Rightarrow> (case e of EString _ \<Rightarrow> Ok () | _ \<Rightarrow> bad)
          | TIdEntityId _ \<Rightarrow> (case e of EString _ \<Rightarrow> Ok () | _ \<Rightarrow> bad)
          | TIdFloat \<Rightarrow> (case e of EFloat64 _ \<Rightarrow> Ok () | _ \<Rightarrow> bad)
          | TIdInt64 \<Rightarrow> (case e of EInt64 _ \<Rightarrow> Ok () | _ \<Rightarrow> bad)
          | TIdJsDate \<Rightarrow> (case e of EJsDate _ \<Rightarrow> Ok () | EFloat64 _ \<Rightarrow> Ok () | _ \<Rightarrow> bad)
          | TIdBoolean \<Rightarrow> (case e of EBoolean _ \<Rightarrow> Ok () | _ \<Rightarrow> bad)
          | TIdArrayBuffer \<Rightarrow> Panic ''ArrayBuffer cannot be contained within an array''
          | TIdEntity _ _ \<Rightarrow> Panic ''entity cannot be a contained within an array''
          | TIdArray inner \<Rightarrow> with_context ''failed to validate inner array'' (validate_array inner e))
       elements ())"

text \<open>
  The macro \<open>convert_value!\<close>: the value given, or a generated one, parsed.  The counter is the
  number of UUIDs drawn so far.
\<close>

definition convert_value ::
  "(nat \<Rightarrow> string) \<Rightarrow> field \<Rightarrow> entity_map \<Rightarrow> (entity_value \<Rightarrow> 'a res) \<Rightarrow> (string \<Rightarrow> 'a option) \<Rightarrow> nat \<Rightarrow> ('a \<times> nat) res" where
  "convert_value uuid f m as_type parse n =
     (case map_of m (f_name f) of
        Some v \<Rightarrow> r_map_ok (\<lambda>x. (x, n)) (with_context ''failed to convert value to specific type'' (as_type v))
      | None \<Rightarrow>
          r_bind (ok_or (Bail ''failed to generate value'' []) (generate_value (uuid n) f)) (\<lambda>s.
          r_bind (ok_or (Bail ''failed to parse default value'' []) (parse s)) (\<lambda>x.
          Ok (x, if f_type_id f = TIdId then n + 1 else n))))"

definition convert_array ::
  "('cell, 'db) engine_env \<Rightarrow> field \<Rightarrow> entity_map \<Rightarrow> type_id \<Rightarrow> nat \<Rightarrow> (sql_value \<times> nat) res" where
  "convert_array env f m element_type n =
     r_map_ok (\<lambda>j. (SJson j, n))
       (case map_of m (f_name f) of
          Some v \<Rightarrow>
            r_bind (with_context ''provided value for array has invalid type'' (validate_array element_type v)) (\<lambda>_.
            Ok (ev_to_json (en_base64 env) v))
        | None \<Rightarrow>
            r_bind (ok_or (Bail ''failed to generate value'' []) (generate_value (en_uuid env n) f)) (\<lambda>s.
            with_context ''Failed to convert provided default value to json array'' (en_json_from_str env s)))"

definition convert_to_argument ::
  "('cell, 'db) engine_env \<Rightarrow> field \<Rightarrow> entity_map \<Rightarrow> nat \<Rightarrow> (sql_value \<times> nat) res" where
  "convert_to_argument env f m n =
     (let string_arg = r_map_ok (\<lambda>(s, n). (SString s, n)) (convert_value (en_uuid env) f m ev_as_str Some n) in
      case f_type_id f of
        TIdString \<Rightarrow> string_arg
      | TIdId \<Rightarrow> string_arg
      | TIdEntity _ _ \<Rightarrow> string_arg
      | TIdEntityId _ \<Rightarrow> string_arg
      | TIdFloat \<Rightarrow> r_map_ok (\<lambda>(x, n). (SF64 x, n)) (convert_value (en_uuid env) f m ev_as_f64 parse_f64 n)
      | TIdInt64 \<Rightarrow> r_map_ok (\<lambda>(x, n). (SI64 x, n)) (convert_value (en_uuid env) f m ev_as_i64 parse_i64 n)
      | TIdBoolean \<Rightarrow> r_map_ok (\<lambda>(x, n). (SBool x, n)) (convert_value (en_uuid env) f m ev_as_bool parse_bool n)
      | TIdJsDate \<Rightarrow> r_map_ok (\<lambda>(x, n). (SF64 x, n)) (convert_value (en_uuid env) f m ev_as_date parse_f64 n)
      | TIdArrayBuffer \<Rightarrow>
          r_bind (ok_or (Bail ''ArrayBuffer field must not miss value'' []) (map_of m (f_name f))) (\<lambda>v.
          r_bind (with_context ''failed to convert value to bytes'' (ev_as_bytes v)) (\<lambda>b. Ok (SBytes b, n)))
      | TIdArray element_type \<Rightarrow> convert_array env f m element_type n)"

record insert_acc =
  ia_field_binds :: string
  ia_field_names :: "string list"
  ia_id_name :: string
  ia_update_binds :: string
  ia_id_bind :: string
  ia_i :: nat

definition insert_field :: "('cell, 'db) engine_env \<Rightarrow> entity_map \<Rightarrow> field \<Rightarrow> insert_acc \<Rightarrow> insert_acc res" where
  "insert_field env m f acc =
     (let val = map_of m (f_name f) in
      if val = None \<and> f_is_optional f then Ok acc
      else
        let is_null = f_is_optional f \<and> val = Some ENull;
            i = (if is_null then ia_i acc else ia_i acc + 1);
            bind = (if is_null then ''NULL'' else ''$'' @ show_nat i);
            acc = acc\<lparr>ia_field_binds := ia_field_binds acc @ bind @ '','',
                      ia_field_names := ia_field_names acc @ [f_name f], ia_i := i\<rparr>
        in r_bind
             (if f_type_id f = TIdId
              then r_bind (case val of
                      Some idv \<Rightarrow>
                        r_bind (with_context ''invalid ID: It is not a string'' (ev_as_str idv)) (\<lambda>s.
                        ensure (en_uuid_ok env s) (Bail ''invalid ID {}'' [s]))
                    | None \<Rightarrow> Ok ()) (\<lambda>_.
                   r_bind (ensure (ia_id_bind acc = []) (Bail ''More than one ID??'' [])) (\<lambda>_.
                   Ok (acc\<lparr>ia_id_name := f_name f, ia_id_bind := bind\<rparr>)))
              else Ok acc) (\<lambda>acc.
           Ok (acc\<lparr>ia_update_binds := ia_update_binds acc @ quoted (f_name f) @ '' = '' @ bind @ '',''\<rparr>)))"

definition make_insert_query :: "('cell, 'db) engine_env \<Rightarrow> object_type \<Rightarrow> entity_map \<Rightarrow> string res" where
  "make_insert_query env ty m =
     r_bind (r_fold (insert_field env m) (all_fields ty)
        \<lparr>ia_field_binds = [], ia_field_names = [], ia_id_name = [], ia_update_binds = [], ia_id_bind = [], ia_i = 0\<rparr>) (\<lambda>acc.
     r_bind (r_fold (\<lambda>v _. ensure (v \<in> set (ia_field_names acc)) (Bail ''field {} not present in {}'' [v, ot_name ty])) (map fst m) ()) (\<lambda>_.
     Ok (''INSERT INTO '' @ quoted (ot_backing_table ty) @ '' ('' @ join '','' (map quoted (ia_field_names acc))
        @ '') VALUES ('' @ butlast (ia_field_binds acc) @ '') ON CONFLICT ('' @ ia_id_name acc
        @ '') DO UPDATE SET '' @ butlast (ia_update_binds acc) @ '' WHERE '' @ quoted (ot_backing_table ty)
        @ ''.'' @ quoted (ia_id_name acc) @ '' = '' @ ia_id_bind acc)))"

definition incompatible :: "field \<Rightarrow> object_type \<Rightarrow> 'a res \<Rightarrow> 'a res" where
  "incompatible f ty r = map_err (\<lambda>e. Context ''provided data for field {} are incompatible with given type {}'' e) r"

type_synonym insertion_acc = "(string \<times> id_tree) list \<times> string option \<times> sql_value list \<times> sql_with_arguments list \<times> nat"

definition skips :: "field \<Rightarrow> entity_map \<Rightarrow> bool" where
  "skips f m = ((map_of m (f_name f) = None \<or> map_of m (f_name f) = Some ENull) \<and> f_is_optional f)"

definition push_argument :: "field \<Rightarrow> sql_value \<Rightarrow> insertion_acc \<Rightarrow> insertion_acc res" where
  "push_argument f arg = (\<lambda>(child_ids, obj_id, args, inserts, n).
     r_bind (if f_name f = ''id''
             then (case arg of SString s \<Rightarrow> Ok (Some s) | _ \<Rightarrow> Err (Bail ''the id value is not string'' []))
             else Ok obj_id) (\<lambda>obj_id.
     Ok (child_ids, obj_id, args @ [arg], inserts, n)))"

definition finish_insertion ::
  "('cell, 'db) engine_env \<Rightarrow> object_type \<Rightarrow> entity_map \<Rightarrow> insertion_acc \<Rightarrow> (sql_with_arguments list \<times> id_tree \<times> nat) res" where
  "finish_insertion env ty m = (\<lambda>(child_ids, obj_id, args, inserts, n).
     r_bind (make_insert_query env ty m) (\<lambda>sql.
     r_bind (ok_or (Bail ''attempting to insert an object {} with no id'' [ot_name ty]) obj_id) (\<lambda>obj_id.
     Ok (inserts @ [\<lparr>sa_sql = sql, sa_args = args\<rparr>], IdTree obj_id child_ids, n))))"

lemma nested_map_smaller [termination_simp]:
  "map_of m k = Some (EMap m') \<Longrightarrow>
     size_list (size_prod (\<lambda>_. 0) size) m' < size_list (size_prod (\<lambda>_. 0) size) m"
  by (induction m) (auto split: if_splits)

function prepare_insertion ::
  "('cell, 'db) engine_env \<Rightarrow> type_system \<Rightarrow> object_type \<Rightarrow> entity_map \<Rightarrow> nat \<Rightarrow> (sql_with_arguments list \<times> id_tree \<times> nat) res" where
  "prepare_insertion env ts ty m n =
     r_bind (r_fold (\<lambda>f acc.
        if skips f m then Ok acc
        else r_bind (from_ts (ts_get ts (f_type_id f))) (\<lambda>fty.
          case fty of
            TEntity nested_type \<Rightarrow>
              (case map_of m (f_name f) of
                 None \<Rightarrow> incompatible f ty (Err (Bail ''json object does not have required field'' []))
               | Some (EMap nested_value) \<Rightarrow>
                   if is_auth nested_type
                   then (case map_of nested_value ''id'' of
                           Some (EString nested_id) \<Rightarrow> push_argument f (SString nested_id) acc
                         | _ \<Rightarrow> Err (Bail ''Cannot save into nested type {}.'' [entity_name nested_type]))
                   else (case acc of (child_ids, obj_id, args, inserts, n) \<Rightarrow>
                     r_bind (prepare_insertion env ts (entity_object nested_type) nested_value n) (\<lambda>(nested_inserts, nested_ids, n).
                     push_argument f (SString (it_id nested_ids))
                       (al_insert (f_name f) nested_ids child_ids, obj_id, args, inserts @ nested_inserts, n)))
               | Some v \<Rightarrow> incompatible f ty (Err (Bail ''unexpected json type (expected an object)'' [])))
          | _ \<Rightarrow>
              (case acc of (child_ids, obj_id, args, inserts, n) \<Rightarrow>
               r_bind (incompatible f ty (convert_to_argument env f m n)) (\<lambda>(arg, n).
               push_argument f arg (child_ids, obj_id, args, inserts, n)))))
       (all_fields ty) ([], None, [], [], n))
     (finish_insertion env ty m)"
  by pat_completeness auto
termination
  by (relation "measure (\<lambda>(env, ts, ty, m, n). size_list (size_prod (\<lambda>_. 0) size) m)") (auto intro: nested_map_smaller)

declare prepare_insertion.simps [simp del]

definition prepare_insertion_shallow ::
  "('cell, 'db) engine_env \<Rightarrow> object_type \<Rightarrow> entity_map \<Rightarrow> nat \<Rightarrow> (sql_with_arguments \<times> nat) res" where
  "prepare_insertion_shallow env ty m n =
     r_bind (r_fold (\<lambda>f (args, n).
        if map_of m (f_name f) = None \<and> f_is_optional f then Ok (args, n)
        else r_bind (incompatible f ty (convert_to_argument env f m n)) (\<lambda>(arg, n). Ok (args @ [arg], n)))
       (all_fields ty) ([], n)) (\<lambda>(args, n).
     r_bind (make_insert_query env ty m) (\<lambda>sql. Ok (\<lparr>sa_sql = sql, sa_args = args\<rparr>, n)))"

text \<open>
  \<open>exec\<close> runs one statement in the transaction and gives the transaction's next state also when it
  fails; \<open>exists_id\<close> answers the id query.  The statements before a failing one stay executed.
\<close>

fun run_sql_queries ::
  "(sql_with_arguments \<Rightarrow> 'db \<Rightarrow> unit res \<times> 'db) \<Rightarrow> sql_with_arguments list \<Rightarrow> 'db \<Rightarrow> unit res \<times> 'db" where
  "run_sql_queries exec [] db = (Ok (), db)"
| "run_sql_queries exec (q # queries) db =
     (case exec q db of (Ok _, db) \<Rightarrow> run_sql_queries exec queries db | failed \<Rightarrow> failed)"

definition add_row_shallow ::
  "('cell, 'db) engine_env \<Rightarrow> (sql_with_arguments \<Rightarrow> 'db \<Rightarrow> unit res \<times> 'db) \<Rightarrow> object_type \<Rightarrow> entity_map \<Rightarrow> nat
     \<Rightarrow> 'db \<Rightarrow> unit res \<times> 'db" where
  "add_row_shallow env exec ty m n db =
     (case prepare_insertion_shallow env ty m n of
        Ok (query, n) \<Rightarrow> run_sql_queries exec [query] db
      | Err e \<Rightarrow> (Err e, db)
      | Panic p \<Rightarrow> (Panic p, db))"

definition is_object_creation ::
  "(string \<Rightarrow> string \<Rightarrow> bool res) \<Rightarrow> object_type \<Rightarrow> entity_map \<Rightarrow> bool res" where
  "is_object_creation exists_id ty obj =
     (case map_of obj ''id'' of
        None \<Rightarrow> Ok True
      | Some v \<Rightarrow> r_bind (ev_as_str v) (\<lambda>i. r_map_ok Not (exists_id (ot_backing_table ty) i)))"

definition apply_write_policies ::
  "('f, 'w) policy_context \<Rightarrow> string \<Rightarrow> 'w \<Rightarrow> entity_map \<Rightarrow> bool \<Rightarrow> ('f, 'w, entity_map \<times> location option) plan_step" where
  "apply_write_policies ctx ty_name w val is_creation cache =
     (let (inst, cache) = get_or_create_policy_instance ctx ty_name w cache;
          (r, inst) = process_write ctx val (if is_creation then WCreate else WUpdate) inst
      in (r, al_insert ty_name inst cache))"

definition write_policies ::
  "(string \<Rightarrow> string \<Rightarrow> bool res) \<Rightarrow> ('r, 'f, 'w) data_context \<Rightarrow> object_type \<Rightarrow> entity_map \<Rightarrow> ('f, 'w, entity_map) plan_step" where
  "write_policies exists_id ctx ty rec =
     (if dc_typescript_policies ctx
      then s_bind (s_lift (map_err OtherError (is_object_creation exists_id ty rec))) (\<lambda>is_creation.
           s_bind (apply_write_policies (dc_policy_context ctx) (ot_name ty) (dc_engine ctx) rec is_creation) (\<lambda>(rec, location).
           s_lift (Ok rec)))
      else s_lift (Ok rec))"

definition insert_object ::
  "('cell, 'db) engine_env \<Rightarrow> (sql_with_arguments \<Rightarrow> 'db \<Rightarrow> unit res \<times> 'db) \<Rightarrow> type_system \<Rightarrow> object_type \<Rightarrow> entity_map \<Rightarrow> nat
     \<Rightarrow> 'db \<Rightarrow> (entity_map \<times> id_tree) res \<times> 'db" where
  "insert_object env exec ts ty rec n db =
     (case prepare_insertion env ts ty rec n of
        Ok (inserts, ids, n) \<Rightarrow>
          (case run_sql_queries exec inserts db of
             (Ok _, db) \<Rightarrow> (Ok (rec, ids), db)
           | (Err e, db) \<Rightarrow> (Err e, db)
           | (Panic p, db) \<Rightarrow> (Panic p, db))
      | Err e \<Rightarrow> (Err e, db)
      | Panic p \<Rightarrow> (Panic p, db))"

definition add_row ::
  "('cell, 'db) engine_env \<Rightarrow> (sql_with_arguments \<Rightarrow> 'db \<Rightarrow> unit res \<times> 'db) \<Rightarrow> ('db \<Rightarrow> string \<Rightarrow> string \<Rightarrow> bool res)
     \<Rightarrow> ('r, 'f, 'w) data_context \<Rightarrow> object_type \<Rightarrow> entity_map \<Rightarrow> nat \<Rightarrow> 'db \<Rightarrow> ('f, 'w) instances_cache
     \<Rightarrow> (entity_map \<times> id_tree) pol_res \<times> 'db \<times> ('f, 'w) instances_cache" where
  "add_row env exec exists_id ctx ty rec n db cache =
     (case write_policies (exists_id db) ctx ty rec cache of
        (Ok rec, cache) \<Rightarrow>
          (case insert_object env exec (dc_type_system ctx) ty rec n db of (r, db) \<Rightarrow> (map_err OtherError r, db, cache))
      | (Err e, cache) \<Rightarrow> (Err e, db, cache)
      | (Panic p, cache) \<Rightarrow> (Panic p, db, cache))"

definition mutate_with_transaction ::
  "('cell, 'db) engine_env \<Rightarrow> (string \<Rightarrow> 'db \<Rightarrow> unit res \<times> 'db) \<Rightarrow> mutation \<Rightarrow> 'db \<Rightarrow> unit res \<times> 'db" where
  "mutate_with_transaction env exec m db =
     (case build_sql (en_printer env) m (en_target env) of
        Ok sql \<Rightarrow> exec sql db
      | Err e \<Rightarrow> (Err e, db)
      | Panic p \<Rightarrow> (Panic p, db))"

subsection \<open>Tables\<close>

datatype column_type = ColText | ColDouble | ColBigInteger | ColBoolean | ColBinary | ColJsonBinary

record column_def =
  cd_name :: string
  cd_unique :: bool
  cd_type :: column_type
  cd_primary_key :: bool

definition column_def_of :: "field \<Rightarrow> column_def" where
  "column_def_of f =
     \<lparr>cd_name = f_name f, cd_unique = f_is_unique f,
      cd_type = (case f_type_id f of
          TIdString \<Rightarrow> ColText | TIdId \<Rightarrow> ColText
        | TIdFloat \<Rightarrow> ColDouble | TIdJsDate \<Rightarrow> ColDouble
        | TIdInt64 \<Rightarrow> ColBigInteger | TIdBoolean \<Rightarrow> ColBoolean | TIdArrayBuffer \<Rightarrow> ColBinary
        | TIdEntity _ _ \<Rightarrow> ColText | TIdEntityId _ \<Rightarrow> ColText | TIdArray _ \<Rightarrow> ColJsonBinary),
      cd_primary_key = (f_type_id f = TIdId)\<rparr>"

datatype ddl =
    CreateTable string "column_def list"
  | DropTable string
  | AddColumn string column_def
  | DropColumn string string
  | CreateIndex string string "string list"
  | DropIndex string string

text \<open>Each statement is executed as it is built; a failure abandons the transaction.\<close>

definition create_indexes :: "(ddl \<Rightarrow> 'db \<Rightarrow> 'db res) \<Rightarrow> object_type \<Rightarrow> db_index list \<Rightarrow> 'db \<Rightarrow> 'db res" where
  "create_indexes exec ty indexes =
     r_fold (\<lambda>index db.
       r_bind (DbIndex_name index) (\<lambda>name.
       r_bind (ok_or (Bail ''index must have a name at a time of table creation'' []) name) (\<lambda>idx_name.
       exec (CreateIndex idx_name (ot_backing_table ty) (di_fields index)) db))) indexes"

definition drop_indexes :: "(ddl \<Rightarrow> 'db \<Rightarrow> 'db res) \<Rightarrow> object_type \<Rightarrow> db_index list \<Rightarrow> 'db \<Rightarrow> 'db res" where
  "drop_indexes exec ty indexes =
     r_fold (\<lambda>index db.
       r_bind (DbIndex_name index) (\<lambda>name.
       r_bind (ok_or (Bail ''index must have a name when dropped'' []) name) (\<lambda>idx_name.
       exec (DropIndex idx_name (ot_backing_table ty)) db))) indexes"

definition create_table :: "(ddl \<Rightarrow> 'db \<Rightarrow> 'db res) \<Rightarrow> object_type \<Rightarrow> 'db \<Rightarrow> 'db res" where
  "create_table exec ty db =
     r_bind (exec (CreateTable (ot_backing_table ty) (map column_def_of (all_fields ty))) db) (\<lambda>db.
     create_indexes exec ty (ot_indexes ty) db)"

definition drop_table :: "(ddl \<Rightarrow> 'db \<Rightarrow> 'db res) \<Rightarrow> object_type \<Rightarrow> 'db \<Rightarrow> 'db res" where
  "drop_table exec ty db =
     r_bind (drop_indexes exec ty (ot_indexes ty) db) (\<lambda>db. exec (DropTable (ot_backing_table ty)) db)"

definition alter_table :: "(ddl \<Rightarrow> 'db \<Rightarrow> 'db res) \<Rightarrow> object_type \<Rightarrow> object_delta \<Rightarrow> 'db \<Rightarrow> 'db res" where
  "alter_table exec ty delta db =
     r_bind (drop_indexes exec ty (removed_indexes delta) db) (\<lambda>db.
     r_bind (r_fold (\<lambda>f db. exec (AddColumn (ot_backing_table ty) (column_def_of f)) db) (added_fields delta) db) (\<lambda>db.
     r_bind (r_fold (\<lambda>f db. exec (DropColumn (ot_backing_table ty) (f_name f)) db) (removed_fields delta) db) (\<lambda>db.
     create_indexes exec ty (ot_indexes ty) db)))"

subsection \<open>Placeholders and arguments\<close>

text \<open>The columns an INSERT names, each with its placeholder, and the fields that have an argument.\<close>

definition present_fields :: "entity_map \<Rightarrow> field list \<Rightarrow> field list" where
  "present_fields m fs = filter (\<lambda>f. \<not> (map_of m (f_name f) = None \<and> f_is_optional f)) fs"

definition bound_fields :: "entity_map \<Rightarrow> field list \<Rightarrow> field list" where
  "bound_fields m fs = filter (\<lambda>f. \<not> skips f m) fs"

fun number_binds :: "entity_map \<Rightarrow> nat \<Rightarrow> field list \<Rightarrow> (string \<times> string) list" where
  "number_binds m i [] = []"
| "number_binds m i (f # fs) =
     (if f_is_optional f \<and> map_of m (f_name f) = Some ENull then (f_name f, ''NULL'') # number_binds m i fs
      else (f_name f, ''$'' @ show_nat (i + 1)) # number_binds m (i + 1) fs)"

definition insert_sql :: "string \<Rightarrow> (string \<times> string) list \<Rightarrow> string \<Rightarrow> string \<Rightarrow> string" where
  "insert_sql table binds id_name id_bind =
     ''INSERT INTO '' @ quoted table @ '' ('' @ join '','' (map (\<lambda>(n, b). quoted n) binds)
        @ '') VALUES ('' @ join '','' (map (\<lambda>(n, b). b) binds) @ '') ON CONFLICT ('' @ id_name
        @ '') DO UPDATE SET '' @ join '','' (map (\<lambda>(n, b). quoted n @ '' = '' @ b) binds) @ '' WHERE '' @ quoted table
        @ ''.'' @ quoted id_name @ '' = '' @ id_bind"

lemma butlast_commas: "butlast (concat (map (\<lambda>b. g b @ '','') bs)) = join '','' (map g bs)"
proof (induction bs)
  case (Cons b bs)
  show ?case
  proof (cases bs)
    case (Cons b' bs')
    then have "concat (map (\<lambda>b. g b @ '','') bs) \<noteq> []" by simp
    with Cons.IH Cons show ?thesis by (simp add: butlast_append)
  qed (simp add: butlast_append)
qed simp

lemma insert_fields_binds:
  assumes "r_fold (insert_field env m) fs acc = Ok acc'"
  shows "ia_field_names acc' = ia_field_names acc @ map fst (number_binds m (ia_i acc) (present_fields m fs)) \<and>
    ia_field_binds acc' = ia_field_binds acc @ concat (map (\<lambda>(n, b). b @ '','') (number_binds m (ia_i acc) (present_fields m fs))) \<and>
    ia_update_binds acc' = ia_update_binds acc @
      concat (map (\<lambda>(n, b). (quoted n @ '' = '' @ b) @ '','') (number_binds m (ia_i acc) (present_fields m fs)))"
  using assms
proof (induction fs arbitrary: acc)
  case (Cons f fs)
  from Cons.prems obtain b where b: "insert_field env m f acc = Ok b" "r_fold (insert_field env m) fs b = Ok acc'"
    by (auto simp: r_bind_Ok_iff)
  show ?case
  proof (cases "map_of m (f_name f) = None \<and> f_is_optional f")
    case True
    with b(1) have "b = acc" by (simp add: insert_field_def)
    with Cons.IH [OF b(2)] True show ?thesis by (simp add: present_fields_def)
  next
    case False
    let ?null = "f_is_optional f \<and> map_of m (f_name f) = Some ENull"
    let ?i = "if ?null then ia_i acc else ia_i acc + 1"
    let ?bind = "if ?null then ''NULL'' else ''$'' @ show_nat (ia_i acc + 1)"
    from False b(1) have "ia_field_names b = ia_field_names acc @ [f_name f]" "ia_i b = ?i"
      "ia_field_binds b = ia_field_binds acc @ ?bind @ '',''"
      "ia_update_binds b = ia_update_binds acc @ quoted (f_name f) @ '' = '' @ ?bind @ '',''"
      by (auto simp: insert_field_def Let_def r_bind_Ok_iff split: if_splits option.splits)
    with Cons.IH [OF b(2)] False show ?thesis by (simp add: present_fields_def)
  qed
qed (simp add: present_fields_def)

lemma make_insert_query_sql:
  assumes "make_insert_query env ty m = Ok sql"
  shows "\<exists>id_name id_bind. sql = insert_sql (ot_backing_table ty) (number_binds m 0 (present_fields m (all_fields ty))) id_name id_bind"
proof -
  let ?init = "\<lparr>ia_field_binds = [], ia_field_names = [], ia_id_name = [], ia_update_binds = [], ia_id_bind = [], ia_i = 0\<rparr>"
  let ?bs = "number_binds m 0 (present_fields m (all_fields ty))"
  from assms obtain acc where acc: "r_fold (insert_field env m) (all_fields ty) ?init = Ok acc"
    and sql: "sql = ''INSERT INTO '' @ quoted (ot_backing_table ty) @ '' ('' @ join '','' (map quoted (ia_field_names acc))
        @ '') VALUES ('' @ butlast (ia_field_binds acc) @ '') ON CONFLICT ('' @ ia_id_name acc
        @ '') DO UPDATE SET '' @ butlast (ia_update_binds acc) @ '' WHERE '' @ quoted (ot_backing_table ty)
        @ ''.'' @ quoted (ia_id_name acc) @ '' = '' @ ia_id_bind acc"
    unfolding make_insert_query_def r_bind_Ok_iff by auto
  note binds = insert_fields_binds [OF acc]
  have "butlast (ia_field_binds acc) = join '','' (map (\<lambda>(n, b). b) ?bs)"
    "butlast (ia_update_binds acc) = join '','' (map (\<lambda>(n, b). quoted n @ '' = '' @ b) ?bs)"
    "map quoted (ia_field_names acc) = map (\<lambda>(n, b). quoted n) ?bs"
    using binds butlast_commas [of "\<lambda>(n, b). b" ?bs] butlast_commas [of "\<lambda>(n, b). quoted n @ '' = '' @ b" ?bs]
    by (simp_all add: case_prod_unfold comp_def del: append_assoc)
  then show ?thesis unfolding sql insert_sql_def by metis
qed

lemma number_binds_placeholders:
  "filter (\<lambda>b. b \<noteq> ''NULL'') (map snd (number_binds m i (present_fields m fs))) =
     map (\<lambda>k. ''$'' @ show_nat (Suc k)) [i..<i + length (bound_fields m fs)]"
proof (induction fs arbitrary: i)
  case (Cons f fs)
  consider "map_of m (f_name f) = None" "f_is_optional f" | "map_of m (f_name f) = Some ENull" "f_is_optional f"
    | "\<not> skips f m" by (auto simp: skips_def)
  then show ?case
  proof cases
    case 3
    have "[i..<i + Suc (length (bound_fields m fs))] = i # [Suc i..<Suc i + length (bound_fields m fs)]"
      by (metis add_Suc_shift less_add_same_cancel1 upt_conv_Cons zero_less_Suc)
    with 3 Cons.IH [of "Suc i"] show ?thesis by (auto simp: present_fields_def bound_fields_def skips_def)
  qed (use Cons.IH [of i] in \<open>simp_all add: present_fields_def bound_fields_def skips_def\<close>)
qed (simp add: present_fields_def bound_fields_def)

text \<open>One round of the loop of \<open>prepare_insertion\<close>.\<close>

definition insertion_step ::
  "('cell, 'db) engine_env \<Rightarrow> type_system \<Rightarrow> object_type \<Rightarrow> entity_map
     \<Rightarrow> (object_type \<Rightarrow> entity_map \<Rightarrow> nat \<Rightarrow> (sql_with_arguments list \<times> id_tree \<times> nat) res)
     \<Rightarrow> field \<Rightarrow> insertion_acc \<Rightarrow> insertion_acc res" where
  "insertion_step env ts ty m prepare f acc =
     (if skips f m then Ok acc
      else r_bind (from_ts (ts_get ts (f_type_id f))) (\<lambda>fty.
        case fty of
          TEntity nested_type \<Rightarrow>
            (case map_of m (f_name f) of
               None \<Rightarrow> incompatible f ty (Err (Bail ''json object does not have required field'' []))
             | Some (EMap nested_value) \<Rightarrow>
                 if is_auth nested_type
                 then (case map_of nested_value ''id'' of
                         Some (EString nested_id) \<Rightarrow> push_argument f (SString nested_id) acc
                       | _ \<Rightarrow> Err (Bail ''Cannot save into nested type {}.'' [entity_name nested_type]))
                 else (case acc of (child_ids, obj_id, args, inserts, n) \<Rightarrow>
                   r_bind (prepare (entity_object nested_type) nested_value n) (\<lambda>(nested_inserts, nested_ids, n).
                   push_argument f (SString (it_id nested_ids))
                     (al_insert (f_name f) nested_ids child_ids, obj_id, args, inserts @ nested_inserts, n)))
             | Some v \<Rightarrow> incompatible f ty (Err (Bail ''unexpected json type (expected an object)'' [])))
        | _ \<Rightarrow>
            (case acc of (child_ids, obj_id, args, inserts, n) \<Rightarrow>
             r_bind (incompatible f ty (convert_to_argument env f m n)) (\<lambda>(arg, n).
             push_argument f arg (child_ids, obj_id, args, inserts, n)))))"

lemma prepare_insertion_eq:
  "prepare_insertion env ts ty m n =
     r_bind (r_fold (insertion_step env ts ty m (prepare_insertion env ts)) (all_fields ty) ([], None, [], [], n))
       (finish_insertion env ty m)"
  by (subst prepare_insertion.simps) (simp only: insertion_step_def [abs_def])

text \<open>
  The argument a field may have, given the statements that run before: a converted value, the id
  of an existing auth entity, or the id of a nested object whose INSERTs are among those statements.
\<close>

inductive arg_for ::
  "('cell, 'db) engine_env \<Rightarrow> type_system \<Rightarrow> entity_map \<Rightarrow> sql_with_arguments list \<Rightarrow> field \<Rightarrow> sql_value \<Rightarrow> bool"
  for env ts m before where
  arg_auth: "ts_get ts (f_type_id f) = Ok (TEntity e) \<Longrightarrow> is_auth e \<Longrightarrow> map_of m (f_name f) = Some (EMap nested) \<Longrightarrow>
     map_of nested ''id'' = Some (EString i) \<Longrightarrow> arg_for env ts m before f (SString i)"
| arg_nested: "ts_get ts (f_type_id f) = Ok (TEntity e) \<Longrightarrow> \<not> is_auth e \<Longrightarrow> map_of m (f_name f) = Some (EMap nested) \<Longrightarrow>
     prepare_insertion env ts (entity_object e) nested k = Ok (inserts, ids, k') \<Longrightarrow> set inserts \<subseteq> set before \<Longrightarrow>
     arg_for env ts m before f (SString (it_id ids))"
| arg_scalar: "ts_get ts (f_type_id f) = Ok fty \<Longrightarrow> \<forall>e. fty \<noteq> TEntity e \<Longrightarrow> convert_to_argument env f m k = Ok (arg, k') \<Longrightarrow>
     arg_for env ts m before f arg"

lemma arg_for_mono:
  "arg_for env ts m before f arg \<Longrightarrow> set before \<subseteq> set before' \<Longrightarrow> arg_for env ts m before' f arg"
  by (induction rule: arg_for.induct) (blast intro: arg_for.intros)+

lemma push_argument_Ok:
  "push_argument f arg (c, i, args, ins, n) = Ok acc' \<Longrightarrow> \<exists>i'. acc' = (c, i', args @ [arg], ins, n)"
  by (auto simp: push_argument_def r_bind_Ok_iff)

lemma insertion_step_ok:
  assumes "insertion_step env ts ty m (prepare_insertion env ts) f (c, i, args, ins, n) = Ok acc'"
  shows "if skips f m then acc' = (c, i, args, ins, n)
    else \<exists>c' i' arg more' n'. acc' = (c', i', args @ [arg], ins @ more', n') \<and> arg_for env ts m (ins @ more') f arg"
proof (cases "skips f m")
  case False
  with assms obtain fty where fty: "ts_get ts (f_type_id f) = Ok fty"
    by (auto simp: insertion_step_def r_bind_Ok_iff from_ts_def)
  show ?thesis
  proof (cases "\<exists>e. fty = TEntity e")
    case True
    then obtain e where e [simp]: "fty = TEntity e" ..
    from assms False fty obtain nested where nested: "map_of m (f_name f) = Some (EMap nested)"
      by (auto simp: insertion_step_def from_ts_def incompatible_def split: option.splits entity_value.splits)
    show ?thesis
    proof (cases "is_auth e")
      case True
      with assms False fty nested obtain nid where nid: "map_of nested ''id'' = Some (EString nid)"
        "push_argument f (SString nid) (c, i, args, ins, n) = Ok acc'"
        by (auto simp: insertion_step_def from_ts_def split: option.splits entity_value.splits)
      from push_argument_Ok [OF nid(2)] obtain i' where "acc' = (c, i', args @ [SString nid], ins, n)" ..
      moreover have "arg_for env ts m ins f (SString nid)"
        using fty nested True nid(1) by (auto intro: arg_auth)
      ultimately show ?thesis using False by (metis append_Nil2)
    next
      case auth: False
      from assms False fty nested auth obtain nis ids n' where prep:
          "prepare_insertion env ts (entity_object e) nested n = Ok (nis, ids, n')"
        and push: "push_argument f (SString (it_id ids)) (al_insert (f_name f) ids c, i, args, ins @ nis, n') = Ok acc'"
        by (auto simp: insertion_step_def from_ts_def r_bind_Ok_iff)
      from push_argument_Ok [OF push] obtain i' where
        "acc' = (al_insert (f_name f) ids c, i', args @ [SString (it_id ids)], ins @ nis, n')" ..
      moreover have "arg_for env ts m (ins @ nis) f (SString (it_id ids))"
        using fty nested auth prep by (auto intro: arg_nested)
      ultimately show ?thesis using False by auto
    qed
  next
    case scalar: False
    with assms False fty have "r_bind (incompatible f ty (convert_to_argument env f m n)) (\<lambda>(arg, n).
             push_argument f arg (c, i, args, ins, n)) = Ok acc'"
      by (cases fty) (simp_all add: insertion_step_def from_ts_def)
    then obtain arg n' where conv: "convert_to_argument env f m n = Ok (arg, n')"
      and push: "push_argument f arg (c, i, args, ins, n') = Ok acc'"
      by (auto simp: r_bind_Ok_iff incompatible_def)
    from push_argument_Ok [OF push] obtain i' where "acc' = (c, i', args @ [arg], ins, n')" ..
    moreover have "arg_for env ts m ins f arg"
      using fty scalar conv by (auto intro: arg_scalar)
    ultimately show ?thesis using False by (metis append_Nil2)
  qed
qed (use assms in \<open>simp add: insertion_step_def\<close>)

lemma insertion_fold_ok:
  assumes "r_fold (insertion_step env ts ty m (prepare_insertion env ts)) fs (c, i, args, ins, n) = Ok (c', i', args', ins', n')"
  shows "\<exists>as more'. args' = args @ as \<and> ins' = ins @ more' \<and> list_all2 (arg_for env ts m ins') (bound_fields m fs) as"
  using assms
proof (induction fs arbitrary: c i args ins n)
  case (Cons f fs)
  from Cons.prems obtain acc where acc:
      "insertion_step env ts ty m (prepare_insertion env ts) f (c, i, args, ins, n) = Ok acc"
      "r_fold (insertion_step env ts ty m (prepare_insertion env ts)) fs acc = Ok (c', i', args', ins', n')"
    by (auto simp: r_bind_Ok_iff)
  obtain c1 i1 args1 ins1 n1 where acc_eq: "acc = (c1, i1, args1, ins1, n1)" by (cases acc)
  from Cons.IH [OF acc(2) [unfolded acc_eq]] obtain as more' where
    tail: "args' = args1 @ as" "ins' = ins1 @ more'" "list_all2 (arg_for env ts m ins') (bound_fields m fs) as" by blast
  show ?case
  proof (cases "skips f m")
    case True
    with insertion_step_ok [OF acc(1)] acc_eq tail show ?thesis by (auto simp: bound_fields_def)
  next
    case False
    with insertion_step_ok [OF acc(1)] acc_eq obtain arg more1 where
      "args1 = args @ [arg]" "ins1 = ins @ more1" "arg_for env ts m ins1 f arg" by auto
    with tail False show ?thesis
      using arg_for_mono [of env ts m ins1 f arg ins'] by (auto simp: bound_fields_def)
  qed
qed (simp add: bound_fields_def)

text \<open>
  The statements that save an object fit their arguments.  The object's own INSERT comes
  last; it names the fields present in the object, its placeholders are \<open>$1\<close> to \<open>$n\<close> in order with
  \<open>NULL\<close> for the optional fields that are null, and argument \<open>k\<close> belongs to the \<open>k\<close>-th remaining
  field: its converted value, or the id of the nested object, whose own INSERTs come before.
\<close>

theorem insertion_aligned:
  assumes "prepare_insertion env ts ty m n = Ok (inserts, ids, n')"
  shows "\<exists>before args id_name id_bind.
    inserts = before @ [\<lparr>sa_sql = insert_sql (ot_backing_table ty) (number_binds m 0 (present_fields m (all_fields ty))) id_name id_bind,
      sa_args = args\<rparr>] \<and>
    filter (\<lambda>b. b \<noteq> ''NULL'') (map snd (number_binds m 0 (present_fields m (all_fields ty)))) =
      map (\<lambda>k. ''$'' @ show_nat (Suc k)) [0..<length args] \<and>
    list_all2 (arg_for env ts m before) (bound_fields m (all_fields ty)) args"
proof -
  from assms obtain c i args ins k where
    fold: "r_fold (insertion_step env ts ty m (prepare_insertion env ts)) (all_fields ty) ([], None, [], [], n) = Ok (c, i, args, ins, k)"
    and fin: "finish_insertion env ty m (c, i, args, ins, k) = Ok (inserts, ids, n')"
    by (subst (asm) prepare_insertion_eq) (auto simp: r_bind_Ok_iff)
  from fin obtain sql where sql: "make_insert_query env ty m = Ok sql" "inserts = ins @ [\<lparr>sa_sql = sql, sa_args = args\<rparr>]"
    by (auto simp: finish_insertion_def r_bind_Ok_iff)
  from insertion_fold_ok [OF fold] have args: "list_all2 (arg_for env ts m ins) (bound_fields m (all_fields ty)) args" by auto
  from list_all2_lengthD [OF this] number_binds_placeholders [of m 0 "all_fields ty"] make_insert_query_sql [OF sql(1)] sql(2) args
  show ?thesis by auto
qed

text \<open>A driver whose cells are the bound values themselves.\<close>

definition value_driver :: "sql_value sql_driver" where
  "value_driver = \<lparr>dr_is_null = (\<lambda>_. False),
     dr_f64_unchecked = (\<lambda>c. case c of SF64 x \<Rightarrow> Ok x | _ \<Rightarrow> Panic ''f64''),
     dr_i64 = (\<lambda>c. case c of SI64 x \<Rightarrow> Ok x | _ \<Rightarrow> Panic ''i64''),
     dr_str = (\<lambda>c. case c of SString x \<Rightarrow> Ok x | _ \<Rightarrow> Panic ''str''),
     dr_string_unchecked = (\<lambda>c. case c of SBool b \<Rightarrow> Ok (if b then ''1'' else ''0'') | _ \<Rightarrow> Panic ''string''),
     dr_bool = (\<lambda>c. case c of SBool b \<Rightarrow> Ok b | _ \<Rightarrow> Panic ''bool''),
     dr_bytes = (\<lambda>c. case c of SBytes b \<Rightarrow> Ok b | _ \<Rightarrow> Panic ''bytes''),
     dr_json = (\<lambda>c. case c of SJson j \<Rightarrow> Ok j | _ \<Rightarrow> Panic ''json'')\<rparr>"

definition value_env :: "(sql_value, unit) engine_env" where
  "value_env = \<lparr>en_target = Sqlite, en_printer = \<lparr>sp_show_f64 = \<lambda>_. [], sp_quote = \<lambda>s. s\<rparr>, en_driver = value_driver,
     en_uuid = (\<lambda>n. ''uuid''), en_uuid_ok = (\<lambda>_. True), en_json_from_str = (\<lambda>_. Ok JNull), en_base64 = (\<lambda>_. []),
     en_fetch = (\<lambda>_ _. [])\<rparr>"

definition blog_post :: entity_map where
  "blog_post = [(''id'', EString ''p''), (''by'', EMap [(''id'', EString ''a'')])]"

lemma blog_types:
  "ts_get (dc_type_system blog_context) TIdId = Ok TString"
  "ts_get (dc_type_system blog_context) (TIdEntity ''Author'' ''dev'') = Ok (TEntity (Custom author_type))"
  by (simp_all add: ts_get_def blog_context_def lookup_entity_def lookup_builtin_type.simps lookup_custom_type_def
      extract_template_def strip_prefix_def starts_with_def)

lemma blog_insert:
  "make_insert_query value_env author_type [(''id'', EString i)] = Ok (insert_sql ''author'' [(''id'', ''$1'')] ''id'' ''$1'')"
  "make_insert_query value_env (post_type [author_field]) blog_post =
     Ok (insert_sql ''ty_Post'' [(''id'', ''$1''), (''by'', ''$2'')] ''id'' ''$1'')"
proof -
  have "show_nat 1 = ''1''" "show_nat 2 = ''2''" by code_simp+
  then show "make_insert_query value_env author_type [(''id'', EString i)] = Ok (insert_sql ''author'' [(''id'', ''$1'')] ''id'' ''$1'')"
    "make_insert_query value_env (post_type [author_field]) blog_post =
     Ok (insert_sql ''ty_Post'' [(''id'', ''$1''), (''by'', ''$2'')] ''id'' ''$1'')"
    by (simp_all add: make_insert_query_def insert_field_def author_type_def post_type_def author_field_def blog_post_def all_fields_def
        chisel_id_field_def string_field_def insert_sql_def value_env_def Let_def ev_as_str_def numeral_2_eq_2 butlast_append)
qed

lemma blog_prepare:
  "\<exists>inserts. prepare_insertion value_env (dc_type_system blog_context) (post_type [author_field]) blog_post 0 =
     Ok (inserts, IdTree ''p'' [(''by'', IdTree ''a'' [])], 0)"
proof -
  have flds: "all_fields author_type = [chisel_id_field]"
    "all_fields (post_type [author_field]) = [chisel_id_field, author_field]"
    by (simp_all add: author_type_def post_type_def all_fields_def)
  have post: "map_of blog_post = [''id'' \<mapsto> EString ''p'', ''by'' \<mapsto> EMap [(''id'', EString ''a'')]]"
    by (auto simp: blog_post_def)
  have sel: "f_name author_field = ''by''" "f_type_id author_field = TIdEntity ''Author'' ''dev''" "\<not> f_is_optional author_field"
    by (simp_all add: author_field_def string_field_def)
  note defs = flds post sel chisel_id_field_def insertion_step_def skips_def blog_types from_ts_def
    incompatible_def convert_to_argument_def convert_value_def ev_as_str_def push_argument_def finish_insertion_def blog_insert is_auth_def
  have author: "\<exists>inserts. prepare_insertion value_env (dc_type_system blog_context) author_type [(''id'', EString ''a'')] 0 =
      Ok (inserts, IdTree ''a'' [], 0)"
    by (subst prepare_insertion_eq) (simp add: defs)
  then show ?thesis
    by (subst prepare_insertion_eq) (auto simp: defs)
qed

theorem insertion_aligned_witness:
  "\<exists>inserts. (\<exists>ids n. prepare_insertion value_env (dc_type_system blog_context) (post_type [author_field]) blog_post 0 = Ok (inserts, ids, n)) \<and>
     length (sa_args (last inserts)) = length (bound_fields blog_post (all_fields (post_type [author_field])))"
proof -
  from blog_prepare obtain inserts ids n where
    p: "prepare_insertion value_env (dc_type_system blog_context) (post_type [author_field]) blog_post 0 = Ok (inserts, ids, n)" by blast
  from insertion_aligned [OF p] have "length (sa_args (last inserts)) = length (bound_fields blog_post (all_fields (post_type [author_field])))"
    by (auto dest!: list_all2_lengthD)
  with p show ?thesis by blast
qed

subsection \<open>Arguments have the type of their column\<close>

fun sql_fits :: "column_type \<Rightarrow> sql_value \<Rightarrow> bool" where
  "sql_fits ColText (SString _) = True"
| "sql_fits ColDouble (SF64 _) = True"
| "sql_fits ColBigInteger (SI64 _) = True"
| "sql_fits ColBoolean (SBool _) = True"
| "sql_fits ColBinary (SBytes _) = True"
| "sql_fits ColJsonBinary (SJson _) = True"
| "sql_fits _ _ = False"

definition well_typed_insert :: "sql_with_arguments \<Rightarrow> bool" where
  "well_typed_insert stmt \<longleftrightarrow> (\<exists>ty m id_name id_bind.
     sa_sql stmt = insert_sql (ot_backing_table ty) (number_binds m 0 (present_fields m (all_fields ty))) id_name id_bind \<and>
     list_all2 (\<lambda>f. sql_fits (cd_type (column_def_of f))) (bound_fields m (all_fields ty)) (sa_args stmt))"

text \<open>No name of a scalar type is the name of an entity among the built-in types.\<close>

definition scalars_ok :: "type_system \<Rightarrow> bool" where
  "scalars_ok ts \<longleftrightarrow> (\<forall>n \<in> {''string'', ''number'', ''int64'', ''boolean'', ''jsDate'', ''ArrayBuffer''}. \<forall>e. map_of (builtin ts) n \<noteq> Some (TEntity e))"

lemma builtin_scalars_ok: "BuiltinTypes_new = Ok (builtin ts) \<Longrightarrow> scalars_ok ts"
  unfolding scalars_ok_def
  by (auto simp: BuiltinTypes_new_def add_auth_entity_def add_custom_entity_def r_bind_Ok_iff Let_def dest!: add_entity_Ok)

lemma extract_template_scalar:
  "n \<in> {''string'', ''number'', ''int64'', ''boolean'', ''jsDate'', ''ArrayBuffer''} \<Longrightarrow>
    extract_template ''Array'' n = None \<and> extract_template ''Id'' n = None"
  by (auto simp: extract_template_def strip_prefix_def starts_with_def)

lemma ts_get_entity:
  assumes "ts_get ts t = Ok (TEntity e)" "scalars_ok ts"
  shows "\<exists>n v. t = TIdEntity n v"
proof (rule ccontr)
  assume no: "\<nexists>n v. t = TIdEntity n v"
  show False
  proof (cases "type_id_name t \<in> {''string'', ''number'', ''int64'', ''boolean'', ''jsDate'', ''ArrayBuffer''}")
    case True
    from no assms(1) have "lookup_builtin_type ts (type_id_name t) = Ok (TEntity e)"
      by (cases t) (auto simp: ts_get_def)
    with extract_template_scalar [OF True] have "map_of (builtin ts) (type_id_name t) = Some (TEntity e)"
      by (subst (asm) lookup_builtin_type.simps) auto
    with assms(2) True show False by (auto simp: scalars_ok_def)
  next
    case False
    with no obtain u where "t = TIdArray u \<or> (\<exists>n. t = TIdEntityId n)" by (cases t) auto
    moreover have "lookup_builtin_type ts (''Array<'' @ type_id_name u @ ''>'') \<noteq> Ok (TEntity e)" for u
      using extract_template_simps [of "''Array''" "type_id_name u"] by (subst lookup_builtin_type.simps) (auto simp: r_bind_Ok_iff)
    ultimately show False using assms(1) by (auto simp: ts_get_def)
  qed
qed

lemma convert_to_argument_fits:
  "convert_to_argument env f m k = Ok (arg, k') \<Longrightarrow> sql_fits (cd_type (column_def_of f)) arg"
  by (auto simp: convert_to_argument_def column_def_of_def convert_array_def r_map_ok_Ok_iff r_bind_Ok_iff Let_def split: type_id.splits)

lemma arg_for_fits:
  assumes "arg_for env ts m before f arg" "scalars_ok ts"
  shows "sql_fits (cd_type (column_def_of f)) arg"
  using assms(1)
proof cases
  case (arg_auth e nested i)
  then show ?thesis using ts_get_entity [OF _ assms(2)] by (fastforce simp: column_def_of_def)
next
  case (arg_nested e nested k inserts ids k')
  then show ?thesis using ts_get_entity [OF _ assms(2)] by (fastforce simp: column_def_of_def)
next
  case (arg_scalar fty k k')
  then show ?thesis using convert_to_argument_fits by blast
qed

lemma insertion_step_inserts:
  assumes "insertion_step env ts ty m prepare f (c, i, args, ins, n) = Ok (c', i', args', ins', n')" "\<forall>s \<in> set ins. P s"
    and nested: "\<And>ty' m' k r ids k'. map_of m (f_name f) = Some (EMap m') \<Longrightarrow> prepare ty' m' k = Ok (r, ids, k') \<Longrightarrow> \<forall>s \<in> set r. P s"
  shows "\<forall>s \<in> set ins'. P s"
proof (cases "skips f m")
  case False
  with assms(1) obtain fty where fty: "ts_get ts (f_type_id f) = Ok fty"
    by (auto simp: insertion_step_def r_bind_Ok_iff from_ts_def)
  show ?thesis
  proof (cases "\<exists>e. fty = TEntity e")
    case True
    then obtain e where e: "fty = TEntity e" ..
    then obtain m' where m': "map_of m (f_name f) = Some (EMap m')"
      using assms(1) False fty by (auto simp: insertion_step_def from_ts_def incompatible_def split: option.splits entity_value.splits)
    show ?thesis
    proof (cases "is_auth e")
      case True
      then show ?thesis
        using assms(1,2) False fty e m' by (auto simp: insertion_step_def from_ts_def push_argument_def r_bind_Ok_iff split: option.splits entity_value.splits)
    next
      case auth: False
      with assms(1) False fty e m' obtain r ids k' where "prepare (entity_object e) m' n = Ok (r, ids, k')" "ins' = ins @ r"
        by (auto simp: insertion_step_def from_ts_def push_argument_def r_bind_Ok_iff)
      with assms(2) nested [OF m'] show ?thesis by auto
    qed
  next
    case scalar: False
    with assms(1) False fty have "r_bind (incompatible f ty (convert_to_argument env f m n)) (\<lambda>(arg, n).
             push_argument f arg (c, i, args, ins, n)) = Ok (c', i', args', ins', n')"
      by (cases fty) (simp_all add: insertion_step_def from_ts_def)
    then show ?thesis using assms(2) by (auto simp: r_bind_Ok_iff push_argument_def)
  qed
qed (use assms(1,2) in \<open>simp add: insertion_step_def\<close>)

lemma prepare_insertion_Ok:
  assumes "prepare_insertion env ts ty m n = Ok (inserts, ids, n')"
  shows "\<exists>c i args before k sql. r_fold (insertion_step env ts ty m (prepare_insertion env ts)) (all_fields ty) ([], None, [], [], n) = Ok (c, i, args, before, k) \<and>
    make_insert_query env ty m = Ok sql \<and> inserts = before @ [\<lparr>sa_sql = sql, sa_args = args\<rparr>]"
  using assms by (subst (asm) prepare_insertion_eq) (fastforce simp: r_bind_Ok_iff finish_insertion_def)



subsection \<open>Storing and loading a value\<close>

text \<open>What the engine relies on of the driver: a stored argument is read back at its own type.\<close>

definition driver_ok :: "'cell sql_driver \<Rightarrow> target_database \<Rightarrow> (sql_value \<Rightarrow> 'cell) \<Rightarrow> bool" where
  "driver_ok drv db_kind store \<longleftrightarrow>
     (\<forall>x. dr_f64_unchecked drv (store (SF64 x)) = Ok x) \<and> (\<forall>x. dr_i64 drv (store (SI64 x)) = Ok x) \<and>
     (\<forall>x. dr_str drv (store (SString x)) = Ok x) \<and> (\<forall>x. dr_bytes drv (store (SBytes x)) = Ok x) \<and>
     (\<forall>x. dr_json drv (store (SJson x)) = Ok x) \<and>
     (if db_kind = Sqlite then \<forall>b. dr_string_unchecked drv (store (SBool b)) = Ok (if b then ''1'' else ''0'')
      else \<forall>b. dr_bool drv (store (SBool b)) = Ok b)"

lemma convert_value_given:
  "map_of m (f_name f) = Some v \<Longrightarrow> convert_value uuid f m as_type parse n = Ok (x, n') \<Longrightarrow> as_type v = Ok x"
  by (auto simp: convert_value_def r_map_ok_Ok_iff)

lemma ev_as_Ok:
  "ev_as_str v = Ok s \<longleftrightarrow> v = EString s" "ev_as_f64 v = Ok x \<longleftrightarrow> v = EFloat64 x" "ev_as_i64 v = Ok i \<longleftrightarrow> v = EInt64 i"
  "ev_as_bool v = Ok b \<longleftrightarrow> v = EBoolean b" "ev_as_date v = Ok x \<longleftrightarrow> v = EJsDate x" "ev_as_bytes v = Ok bs \<longleftrightarrow> v = EBytes bs"
  by (cases v; auto simp: ev_as_str_def ev_as_f64_def ev_as_i64_def ev_as_bool_def ev_as_date_def ev_as_bytes_def wrong_kind_def)+

text \<open>
  C24: a scalar that was saved is loaded again.  When a value is accepted as the argument of a
  field and the database returns the argument, reading the column at the field's type gives the
  value back (a 64-bit integer as the double nearest to it), on both databases.
\<close>

theorem stored_value_loaded:
  assumes "convert_to_argument env f m n = Ok (arg, n')" "map_of m (f_name f) = Some v"
    and "\<forall>t. f_type_id f \<noteq> TIdArray t" "\<forall>e version. f_type_id f \<noteq> TIdEntity e version"
    and "driver_ok drv db_kind store"
  shows "read_scalar drv db_kind (f_type_id f) (store arg) = Ok (widen v)"
proof -
  note read = read_scalar_def read_boolean_def lower_char_def
  show ?thesis
    using assms
    by (cases "f_type_id f"; cases db_kind)
      (auto simp: convert_to_argument_def driver_ok_def read r_map_ok_Ok_iff r_bind_Ok_iff ev_as_Ok dest!: convert_value_given)
qed

theorem stored_value_loaded_witness:
  "read_scalar value_driver Sqlite TIdBoolean (SBool True) = Ok (widen (EBoolean True))"
proof -
  let ?f = "(string_field ''b'')\<lparr>f_type_id := TIdBoolean\<rparr>"
  have "convert_to_argument value_env ?f [(''b'', EBoolean True)] 0 = Ok (SBool True, 0)"
    by (simp add: convert_to_argument_def convert_value_def string_field_def ev_as_bool_def)
  from stored_value_loaded [OF this, of "EBoolean True" value_driver Sqlite "\<lambda>v. v"] show ?thesis
    by (simp add: string_field_def driver_ok_def value_driver_def)
qed

subsection \<open>Schema changes\<close>

text \<open>The abstract schema: the columns of each table; indexes do not change them.\<close>

fun ddl_exec :: "ddl \<Rightarrow> (string \<rightharpoonup> column_def list) \<Rightarrow> (string \<rightharpoonup> column_def list) res" where
  "ddl_exec (CreateTable t cols) db = Ok (if t \<in> dom db then db else db(t \<mapsto> cols))"
| "ddl_exec (DropTable t) db = (if t \<in> dom db then Ok (db(t := None)) else Err (Bail ''no such table'' [t]))"
| "ddl_exec (AddColumn t c) db =
     (case db t of
        Some cols \<Rightarrow> if cd_name c \<in> cd_name ` set cols then Err (Bail ''duplicate column'' [cd_name c]) else Ok (db(t \<mapsto> cols @ [c]))
      | None \<Rightarrow> Err (Bail ''no such table'' [t]))"
| "ddl_exec (DropColumn t n) db =
     (case db t of
        Some cols \<Rightarrow> if n \<in> cd_name ` set cols then Ok (db(t \<mapsto> filter (\<lambda>c. cd_name c \<noteq> n) cols)) else Err (Bail ''no such column'' [n])
      | None \<Rightarrow> Err (Bail ''no such table'' [t]))"
| "ddl_exec (CreateIndex _ _ _) db = Ok db"
| "ddl_exec (DropIndex _ _) db = Ok db"

lemma map_fst_FieldMap:
  "map f_name (map snd (filter P (FieldMap_from ot))) = map fst (filter P (FieldMap_from ot))"
  using names_of_FieldMap [of _ _ ot] by (auto simp: map_eq_conv)

lemma delta_names:
  assumes "generate_type_delta ts old new allow = Ok delta"
  shows "f_name ` set (added_fields delta) = f_name ` set (ot_fields new) - f_name ` set (ot_fields old)"
    "f_name ` set (removed_fields delta) = f_name ` set (ot_fields old) - f_name ` set (ot_fields new)"
    "distinct (map f_name (added_fields delta))" "distinct (map f_name (removed_fields delta))"
proof -
  note delta = generate_type_delta_Ok [OF assms]
  have none: "map_of (FieldMap_from old) k = None \<longleftrightarrow> k \<notin> f_name ` set (ot_fields old)" for k
    using FieldMap_dom [of old] by (metis domIff)
  have "f_name ` set (added_fields delta) = {n \<in> f_name ` set (ot_fields new). n \<notin> f_name ` set (ot_fields old)}"
    using delta by (simp only: field_names_filter none)
  then show "f_name ` set (added_fields delta) = f_name ` set (ot_fields new) - f_name ` set (ot_fields old)"
    by (simp only: set_diff_eq)
  have "f_name ` set (removed_fields delta) = {n \<in> f_name ` set (ot_fields old). n \<notin> f_name ` set (ot_fields new)}"
    using delta by (simp only: field_names_filter keys_FieldMap)
  then show "f_name ` set (removed_fields delta) = f_name ` set (ot_fields old) - f_name ` set (ot_fields new)"
    by (simp only: set_diff_eq)
  show "distinct (map f_name (added_fields delta))" "distinct (map f_name (removed_fields delta))"
    using delta bt_inv_distinct [OF FieldMap_inv] by (simp_all only: map_fst_FieldMap distinct_map_filter)
qed

lemma cd_name_column [simp]: "cd_name (column_def_of f) = f_name f"
  by (simp add: column_def_of_def)

text \<open>
  What the migrations rely on of a database: which columns a statement leaves a table with.  A
  migration is correct on every store that keeps this contract.
\<close>

locale table_store =
  fixes exec :: "ddl \<Rightarrow> 'db \<Rightarrow> 'db res"
    and columns :: "'db \<Rightarrow> string \<Rightarrow> column_def list option"
  assumes add_column: "columns db t = Some cols \<Longrightarrow> cd_name c \<notin> cd_name ` set cols \<Longrightarrow>
      \<exists>db'. exec (AddColumn t c) db = Ok db' \<and> columns db' = (columns db)(t \<mapsto> cols @ [c])"
    and drop_column: "columns db t = Some cols \<Longrightarrow> n \<in> cd_name ` set cols \<Longrightarrow>
      \<exists>db'. exec (DropColumn t n) db = Ok db' \<and> columns db' = (columns db)(t \<mapsto> filter (\<lambda>c. cd_name c \<noteq> n) cols)"
    and create_index: "\<exists>db'. exec (CreateIndex i t fs) db = Ok db' \<and> columns db' = columns db"
    and drop_index: "\<exists>db'. exec (DropIndex i t) db = Ok db' \<and> columns db' = columns db"
begin

lemma add_columns:
  assumes "columns db t = Some cols" "distinct (map f_name fs)" "f_name ` set fs \<inter> cd_name ` set cols = {}"
  shows "\<exists>db'. r_fold (\<lambda>f db. exec (AddColumn t (column_def_of f)) db) fs db = Ok db' \<and>
    columns db' = (columns db)(t \<mapsto> cols @ map column_def_of fs)"
  using assms
proof (induction fs arbitrary: db cols)
  case (Cons f fs)
  from Cons.prems obtain db1 where db1: "exec (AddColumn t (column_def_of f)) db = Ok db1"
    "columns db1 = (columns db)(t \<mapsto> cols @ [column_def_of f])"
    using add_column [of db t cols "column_def_of f"] by auto
  have "\<exists>db2. r_fold (\<lambda>f db. exec (AddColumn t (column_def_of f)) db) fs db1 = Ok db2 \<and>
      columns db2 = (columns db1)(t \<mapsto> (cols @ [column_def_of f]) @ map column_def_of fs)"
    by (rule Cons.IH) (use Cons.prems in \<open>auto simp: db1(2)\<close>)
  then obtain db2 where db2: "r_fold (\<lambda>f db. exec (AddColumn t (column_def_of f)) db) fs db1 = Ok db2"
    "columns db2 = (columns db1)(t \<mapsto> (cols @ [column_def_of f]) @ map column_def_of fs)" by blast
  show ?case
    by (rule exI [of _ db2], unfold r_fold.simps db1(1) r_bind.simps db2 db1(2) fun_upd_upd) simp
qed (simp add: fun_upd_idem)

lemma drop_columns:
  assumes "columns db t = Some cols" "distinct (map f_name fs)" "f_name ` set fs \<subseteq> cd_name ` set cols"
  shows "\<exists>db'. r_fold (\<lambda>f db. exec (DropColumn t (f_name f)) db) fs db = Ok db' \<and>
    columns db' = (columns db)(t \<mapsto> filter (\<lambda>c. cd_name c \<notin> f_name ` set fs) cols)"
  using assms
proof (induction fs arbitrary: db cols)
  case (Cons f fs)
  let ?cols = "filter (\<lambda>c. cd_name c \<noteq> f_name f) cols"
  from Cons.prems obtain db1 where db1: "exec (DropColumn t (f_name f)) db = Ok db1"
    "columns db1 = (columns db)(t \<mapsto> ?cols)"
    using drop_column [of db t cols "f_name f"] by auto
  have "f_name ` set fs \<subseteq> cd_name ` set ?cols" using Cons.prems by force
  then have "\<exists>db2. r_fold (\<lambda>f db. exec (DropColumn t (f_name f)) db) fs db1 = Ok db2 \<and>
      columns db2 = (columns db1)(t \<mapsto> filter (\<lambda>c. cd_name c \<notin> f_name ` set fs) ?cols)"
    by (intro Cons.IH) (use Cons.prems in \<open>auto simp: db1(2)\<close>)
  then obtain db2 where db2: "r_fold (\<lambda>f db. exec (DropColumn t (f_name f)) db) fs db1 = Ok db2"
    "columns db2 = (columns db1)(t \<mapsto> filter (\<lambda>c. cd_name c \<notin> f_name ` set fs) ?cols)" by blast
  have "filter (\<lambda>c. cd_name c \<notin> f_name ` set fs) ?cols = filter (\<lambda>c. cd_name c \<notin> f_name ` set (f # fs)) cols"
    by (auto intro: filter_cong)
  then show ?case
    by (intro exI [of _ db2], unfold r_fold.simps db1(1) r_bind.simps db2 db1(2) fun_upd_upd) simp
qed (simp add: fun_upd_idem)

lemma index_statements:
  assumes "\<And>i. i \<in> set idxs \<Longrightarrow> \<exists>n. DbIndex_name i = Ok (Some n)"
  shows "\<exists>db'. create_indexes exec ty idxs db = Ok db' \<and> columns db' = columns db"
    and "\<exists>db'. drop_indexes exec ty idxs db = Ok db' \<and> columns db' = columns db"
  using assms unfolding create_indexes_def drop_indexes_def
proof (induction idxs arbitrary: db)
  case (Cons i idxs)
  {
    case 1
    then obtain n where n: "DbIndex_name i = Ok (Some n)" by fastforce
    from create_index obtain db1 where "exec (CreateIndex n (ot_backing_table ty) (di_fields i)) db = Ok db1" "columns db1 = columns db"
      by blast
    with n Cons.IH(1) [of db1] 1 show ?case by auto
  next
    case 2
    then obtain n where n: "DbIndex_name i = Ok (Some n)" by fastforce
    from drop_index obtain db1 where "exec (DropIndex n (ot_backing_table ty)) db = Ok db1" "columns db1 = columns db"
      by blast
    with n Cons.IH(2) [of db1] 2 show ?case by auto
  }
qed simp_all

lemma alter_table_columns:
  assumes delta: "generate_type_delta ts old new allow = Ok delta"
    and table: "columns db (ot_backing_table ty) = Some (map column_def_of (all_fields old))"
    and ids: "f_name (ot_chisel_id old) = f_name (ot_chisel_id new)"
      "f_name (ot_chisel_id new) \<notin> f_name ` set (ot_fields old) \<union> f_name ` set (ot_fields new)"
    and named: "\<And>i. i \<in> set (removed_indexes delta) \<union> set (ot_indexes ty) \<Longrightarrow> \<exists>n. DbIndex_name i = Ok (Some n)"
  shows "\<exists>db'. alter_table exec ty delta db = Ok db' \<and>
    columns db' = (columns db)(ot_backing_table ty \<mapsto> filter (\<lambda>c. cd_name c \<notin> f_name ` set (removed_fields delta))
      (map column_def_of (all_fields old) @ map column_def_of (added_fields delta)))"
proof -
  let ?t = "ot_backing_table ty" and ?old = "map column_def_of (all_fields old)"
  let ?mid = "?old @ map column_def_of (added_fields delta)"
  note names = delta_names [OF delta]
  obtain db1 where db1: "drop_indexes exec ty (removed_indexes delta) db = Ok db1" "columns db1 = columns db"
    using index_statements(2) [of "removed_indexes delta" ty db] named by blast
  have "f_name ` set (added_fields delta) \<inter> cd_name ` set ?old = {}"
    using names(1) ids by (auto simp: all_fields_def image_image)
  with add_columns [of db1 ?t ?old "added_fields delta"] table names(3) db1 obtain db2 where
    db2: "r_fold (\<lambda>f db. exec (AddColumn ?t (column_def_of f)) db) (added_fields delta) db1 = Ok db2"
      "columns db2 = (columns db)(?t \<mapsto> ?mid)" by auto
  have "f_name ` set (removed_fields delta) \<subseteq> cd_name ` set ?mid"
    using names(2) by (auto simp: all_fields_def image_image image_Un)
  with drop_columns [of db2 ?t ?mid "removed_fields delta"] names(4) db2(2) obtain db3 where
    db3: "r_fold (\<lambda>f db. exec (DropColumn ?t (f_name f)) db) (removed_fields delta) db2 = Ok db3"
      "columns db3 = (columns db2)(?t \<mapsto> filter (\<lambda>c. cd_name c \<notin> f_name ` set (removed_fields delta)) ?mid)" by force
  obtain db4 where db4: "create_indexes exec ty (ot_indexes ty) db3 = Ok db4" "columns db4 = columns db3"
    using index_statements(1) [of "ot_indexes ty" ty db3] named by blast
  show ?thesis
    by (rule exI [of _ db4], simp only: alter_table_def db1(1) db2(1) db3(1) db4 r_bind.simps db3(2) db2(2) fun_upd_upd simp_thms)
qed

end

interpretation schema: table_store ddl_exec "\<lambda>db. db"
  by unfold_locales auto



end
