(* ===== verification/Crud.thy ===== *)
theory Crud
  imports Engine Query_Refinement
begin

text \<open>
  \<open>server/src/datastore/crud.rs\<close>: the REST interface of an entity.  A URL query becomes a chain
  of operators; the answer is a page of results with links to the next and the previous page,
  which carry a cursor: the values of the sort keys at the edge of the page.

  \<open>crud_codec\<close> holds the third-party encodings: the JSON reader, base64, the serde codec of a
  cursor and the form encoding of a query string.
\<close>

subsection \<open>Cursors and queries\<close>

record cursor_axis =
  ca_key :: sort_key
  ca_value :: json

record cursor =
  cu_axes :: "cursor_axis list"
  cu_forward :: bool
  cu_inclusive :: bool

record crud_codec =
  cc_json_from_str :: "string \<Rightarrow> json res"
  cc_base64_decode :: "string \<Rightarrow> string res"
  cc_base64_encode :: "string \<Rightarrow> string"
  cc_cursor_from_json :: "string \<Rightarrow> cursor res"
  cc_cursor_to_json :: "cursor \<Rightarrow> string res"
  cc_form_urlencode :: "(string \<times> string) list \<Rightarrow> string"

record query_params =
  qpa_type_name :: string
  qpa_url_path :: string
  qpa_url_query :: "(string \<times> string) list"

record crud_query =
  cq_page_size :: u64
  cq_offset :: "u64 option"
  cq_cursor :: "cursor option"
  cq_sort :: sort_by
  cq_filters :: "expr list"

definition id_key :: sort_key where
  "id_key = \<lparr>sk_field_name = ''id'', sk_ascending = True\<rparr>"

definition Query_new :: crud_query where
  "Query_new = \<lparr>cq_page_size = 1000, cq_offset = None, cq_cursor = None, cq_sort = [id_key], cq_filters = []\<rparr>"

definition Cursor_new :: "cursor_axis list \<Rightarrow> bool \<Rightarrow> cursor res" where
  "Cursor_new axes forward =
     (if axes = [] then Panic ''assertion failed: !axes.is_empty()''
      else Ok \<lparr>cu_axes = axes, cu_forward = forward, cu_inclusive = False\<rparr>)"

definition cursor_from_string :: "crud_codec \<Rightarrow> string \<Rightarrow> cursor res" where
  "cursor_from_string codec cursor_str =
     r_bind (with_context ''Failed to decode cursor from base64 encoded string'' (cc_base64_decode codec cursor_str)) (\<lambda>cursor_json.
     r_bind (with_context ''failed to deserialize cursor axes'' (cc_cursor_from_json codec cursor_json)) (\<lambda>cursor.
     r_bind (ensure (cu_axes cursor \<noteq> []) (Bail ''cursor must have some sort axes'' [])) (\<lambda>_. Ok cursor)))"

definition cursor_to_string :: "crud_codec \<Rightarrow> cursor \<Rightarrow> string res" where
  "cursor_to_string codec cursor =
     r_bind (with_context ''failed to serialize cursor to json'' (cc_cursor_to_json codec cursor)) (\<lambda>s. Ok (cc_base64_encode codec s))"

definition reversed :: "cursor \<Rightarrow> cursor" where
  "reversed c = c\<lparr>cu_forward := \<not> cu_forward c, cu_inclusive := \<not> cu_inclusive c\<rparr>"

definition get_sort :: "cursor \<Rightarrow> sort_by" where
  "get_sort c = map (\<lambda>axis. (ca_key axis)\<lparr>sk_ascending := (sk_ascending (ca_key axis) = cu_forward c)\<rparr>) (cu_axes c)"

definition json_to_value :: "ty \<Rightarrow> json \<Rightarrow> expr res" where
  "json_to_value field_type j =
     (let bad = Bail ''failed to convert filter value {} to {}'' [type_name field_type];
          unsupported = Err (Bail ''trying to filter by property of type {} which is not supported'' [type_name field_type])
      in r_map_ok Value
        (case field_type of
           TEntity _ \<Rightarrow> unsupported | TArray _ \<Rightarrow> unsupported | TArrayBuffer \<Rightarrow> unsupported
         | TString \<Rightarrow> r_map_ok VString (ok_or bad (json_as_str j))
         | TFloat \<Rightarrow> r_map_ok VF64 (ok_or bad (json_as_f64 j))
         | TJsDate \<Rightarrow> r_map_ok VF64 (ok_or bad (json_as_f64 j))
         | TBoolean \<Rightarrow> r_map_ok VBool (ok_or bad (json_as_bool j))
         | TEntityId _ \<Rightarrow> r_map_ok VString (ok_or bad (json_as_str j))))"

definition chain_step :: "type_system \<Rightarrow> string \<Rightarrow> expr \<times> ty \<Rightarrow> (expr \<times> ty) res" where
  "chain_step ts field_str = (\<lambda>(chain, last_type).
     r_bind (case last_type of
        TEntity e \<Rightarrow>
          (case get_field (entity_object e) field_str of
             Some f \<Rightarrow> from_ts (ts_get ts (f_type_id f))
           | None \<Rightarrow> Err (Bail ''entity {} does not have field {}'' [entity_name e, field_str]))
      | _ \<Rightarrow> Err (Bail ''invalid property access: no field {} on type {}'' [field_str, type_name last_type])) (\<lambda>last_type.
     Ok (Property field_str chain, last_type)))"

definition make_property_chain :: "entity \<Rightarrow> string list \<Rightarrow> type_system \<Rightarrow> (expr \<times> ty) res" where
  "make_property_chain base_type' fields' ts =
     r_bind (ensure (fields' \<noteq> []) (Bail ''cannot make property chain from no fields'' [])) (\<lambda>_.
     r_fold (chain_step ts) fields' (Parameter 0, TEntity base_type'))"

definition axis_op :: "cursor \<Rightarrow> cursor_axis \<Rightarrow> binary_op" where
  "axis_op c axis =
     (if sk_ascending (ca_key axis) = cu_forward c then (if cu_inclusive c then OpGtEq else OpGt)
      else (if cu_inclusive c then OpLtEq else OpLt))"

definition cmp_pair :: "cursor \<Rightarrow> entity \<Rightarrow> type_system \<Rightarrow> cursor_axis \<Rightarrow> (expr \<times> binary_op \<times> expr) res" where
  "cmp_pair c base_type' ts axis =
     r_bind (make_property_chain base_type' [sk_field_name (ca_key axis)] ts) (\<lambda>(chain, field_type).
     r_bind (with_context ''Failed to convert axis JSON to expression value'' (json_to_value field_type (ca_value axis))) (\<lambda>v.
     Ok (chain, axis_op c axis, v)))"

text \<open>The disjunct of axis \<open>i\<close>: equal on all earlier axes and beyond the pivot on this one.\<close>

definition axis_term :: "(expr \<times> binary_op \<times> expr) list \<Rightarrow> nat \<Rightarrow> expr" where
  "axis_term pairs i =
     (let (lhs, op, rhs) = pairs ! i
      in fold (\<lambda>(l, _, r) e. expr_and (expr_eq l r) e) (take i pairs) (BinaryExpr_new op lhs rhs))"

definition combine_axes :: "(expr \<times> binary_op \<times> expr) list \<Rightarrow> expr option" where
  "combine_axes pairs =
     fold (\<lambda>i acc. case acc of
          None \<Rightarrow> (let (lhs, op, rhs) = pairs ! i in Some (BinaryExpr_new op lhs rhs))
        | Some x \<Rightarrow> Some (expr_or x (axis_term pairs i))) [0..<length pairs] None"

definition get_filter :: "cursor \<Rightarrow> entity \<Rightarrow> type_system \<Rightarrow> expr res" where
  "get_filter c base_type' ts =
     r_bind (r_map (cmp_pair c base_type' ts) (cu_axes c)) (\<lambda>pairs.
     unwrap ''called Option::unwrap() on a None value'' (combine_axes pairs))"

subsection \<open>Parsing a URL query\<close>

definition parse_sort :: "entity \<Rightarrow> string \<Rightarrow> sort_by res" where
  "parse_sort base_type' s =
     (let (ascending, field_name) =
        (case s of
           c # cs \<Rightarrow> if c = CHR ''-'' then (False, cs) else if c = CHR ''+'' then (True, cs) else (True, s)
         | [] \<Rightarrow> (True, s))
      in r_bind (ensure (has_field (entity_object base_type') field_name)
                   (Bail ''trying to sort by non-existent field {} on entity {}'' [field_name, entity_name base_type'])) (\<lambda>_.
         Ok [\<lparr>sk_field_name = field_name, sk_ascending = ascending\<rparr>]))"

definition convert_operator :: "string option \<Rightarrow> binary_op res" where
  "convert_operator op_str =
     (case op_str of
        None \<Rightarrow> Ok OpEq
      | Some op \<Rightarrow>
          if op = ''ne'' then Ok OpNotEq
          else if op = ''lt'' then Ok OpLt
          else if op = ''lte'' then Ok OpLtEq
          else if op = ''gt'' then Ok OpGt
          else if op = ''gte'' then Ok OpGtEq
          else if op = ''like'' then Ok OpLike
          else if op = ''unlike'' then Ok OpNotLike
          else Err (Bail ''found unsupported operator {}'' [op]))"

definition param_value :: "ty \<Rightarrow> string \<Rightarrow> string \<Rightarrow> expr_value res" where
  "param_value field_type last_field s =
     (let bad = Bail ''failed to convert filter value {} to {}'' [s];
          unsupported = Err (Bail ''trying to filter by property {} of type {} which is not supported'' [last_field, type_name field_type])
      in case field_type of
           TString \<Rightarrow> Ok (VString s)
         | TFloat \<Rightarrow> r_map_ok VF64 (ok_or bad (parse_f64 s))
         | TJsDate \<Rightarrow> r_map_ok VF64 (ok_or bad (parse_f64 s))
         | TBoolean \<Rightarrow> r_map_ok VBool (ok_or bad (parse_bool s))
         | TEntityId _ \<Rightarrow> Ok (VString s)
         | TEntity _ \<Rightarrow> unsupported | TArray _ \<Rightarrow> unsupported | TArrayBuffer \<Rightarrow> unsupported)"

definition filter_from_param :: "entity \<Rightarrow> string \<Rightarrow> string \<Rightarrow> type_system \<Rightarrow> expr res" where
  "filter_from_param base_type' param_key s ts =
     (let tokens = split_on (CHR ''~'') param_key in
      r_bind (ensure (length tokens \<le> 2) (Bail ''expected at most one occurrence of ~ in query parameter name {}'' [param_key])) (\<lambda>_.
      let fields' = split_on (CHR ''.'') (hd tokens) in
      r_bind (convert_operator (if length tokens = 2 then Some (tokens ! 1) else None)) (\<lambda>operator.
      r_bind (make_property_chain base_type' fields' ts) (\<lambda>(chain, field_type).
      r_bind (param_value field_type (last fields') s) (\<lambda>v.
      Ok (BinaryExpr_new operator chain (Value v)))))))"

definition json_filter :: "crud_codec \<Rightarrow> string \<Rightarrow> expr res" where
  "json_filter codec s =
     r_bind (with_context ''failed to parse filter parameter'' (cc_json_from_str codec s)) (\<lambda>j.
     with_context ''failed to convert filter json to filtering expression'' (to_expr j))"

definition url_param ::
  "crud_codec \<Rightarrow> entity \<Rightarrow> type_system \<Rightarrow> string \<times> string \<Rightarrow> crud_query \<Rightarrow> crud_query res" where
  "url_param codec base_type' ts = (\<lambda>(param_key, s) q.
     if param_key = ''sort'' then r_bind (parse_sort base_type' s) (\<lambda>k. Ok (q\<lparr>cq_sort := k\<rparr>))
     else if param_key = ''limit'' \<or> param_key = ''page_size''
     then r_bind (ok_or (Context ''failed to parse {param_key}. Expected u64, got {}'' (Bail ''invalid u64'' [s])) (parse_u64 s)) (\<lambda>n. Ok (q\<lparr>cq_page_size := n\<rparr>))
     else if param_key = ''offset''
     then r_bind (ok_or (Context ''failed to parse offset. Expected u64, got {}'' (Bail ''invalid u64'' [s])) (parse_u64 s)) (\<lambda>n. Ok (q\<lparr>cq_offset := Some n\<rparr>))
     else if param_key = ''filter''
     then r_bind (json_filter codec s) (\<lambda>e. Ok (q\<lparr>cq_filters := cq_filters q @ [e]\<rparr>))
     else if param_key = ''cursor''
     then r_bind (ensure (cq_cursor q = None) (Bail ''only one occurrence of cursor is allowed.'' [])) (\<lambda>_.
          r_bind (cursor_from_string codec s) (\<lambda>c. Ok (q\<lparr>cq_cursor := Some c\<rparr>)))
     else (case strip_prefix ''.'' param_key of
             Some key \<Rightarrow>
               r_bind (with_context ''failed to parse filter {param_key}={value}'' (filter_from_param base_type' key s ts)) (\<lambda>e.
               Ok (q\<lparr>cq_filters := cq_filters q @ [e]\<rparr>))
           | None \<Rightarrow> Ok q))"

definition ensure_sort_by_id :: "sort_by \<Rightarrow> sort_by" where
  "ensure_sort_by_id keys = (if \<exists>k \<in> set keys. sk_field_name k = ''id'' then keys else keys @ [id_key])"

definition from_url_query ::
  "crud_codec \<Rightarrow> entity \<Rightarrow> (string \<times> string) list \<Rightarrow> type_system \<Rightarrow> crud_query res" where
  "from_url_query codec base_type' url_query ts =
     r_bind (r_fold (url_param codec base_type' ts) url_query Query_new) (\<lambda>q.
     let q = q\<lparr>cq_sort := ensure_sort_by_id (cq_sort q)\<rparr> in
     case cq_cursor q of
       None \<Rightarrow> Ok q
     | Some c \<Rightarrow>
         r_bind (get_filter c base_type' ts) (\<lambda>f. Ok (q\<lparr>cq_sort := get_sort c, cq_filters := cq_filters q @ [f]\<rparr>)))"

definition make_query_ops :: "crud_query \<Rightarrow> query_op list" where
  "make_query_ops q =
     QSortBy (cq_sort q) # map QFilter (cq_filters q)
       @ (case cq_offset q of Some n \<Rightarrow> [QSkip n] | None \<Rightarrow> []) @ [QTake (cq_page_size q)]"

subsection \<open>Pages\<close>

definition cursor_from_pivot :: "crud_query \<Rightarrow> (string \<times> json) list \<Rightarrow> bool \<Rightarrow> cursor res" where
  "cursor_from_pivot q pivot forward =
     (let sort_keys = (case cq_cursor q of Some c \<Rightarrow> map ca_key (cu_axes c) | None \<Rightarrow> cq_sort q) in
      if sort_keys = [] then Panic ''assertion failed: !sort_keys.is_empty()''
      else Cursor_new (map (\<lambda>key. \<lparr>ca_key = key,
             ca_value = (case map_of pivot (sk_field_name key) of Some v \<Rightarrow> v | None \<Rightarrow> JNull)\<rparr>) sort_keys) forward)"

definition page_query :: "(string \<times> string) list \<Rightarrow> string \<Rightarrow> (string \<times> string) list" where
  "page_query url_query cursor =
     filter (\<lambda>(key, _). \<not> (key = ''cursor'' \<or> key = ''sort'')) url_query @ [(''cursor'', cursor)]"

definition make_page_url :: "crud_codec \<Rightarrow> string \<Rightarrow> (string \<times> string) list \<Rightarrow> string \<Rightarrow> string" where
  "make_page_url codec url_path url_query cursor =
     url_path @ ''?'' @ cc_form_urlencode codec (page_query url_query cursor)"

definition get_page ::
  "crud_codec \<Rightarrow> query_params \<Rightarrow> crud_query \<Rightarrow> (string \<times> json) list list \<Rightarrow> bool \<Rightarrow> string option res" where
  "get_page codec params q results forward =
     (let link = (\<lambda>cursor.
        r_bind (cursor_to_string codec cursor) (\<lambda>s.
        Ok (Some (make_page_url codec (qpa_url_path params) (qpa_url_query params) s))))
      in if results \<noteq> []
         then r_bind (cursor_from_pivot q (if forward then last results else hd results) forward) link
         else (case cq_cursor q of
                 Some cursor \<Rightarrow> if cu_forward cursor \<noteq> forward then link (reversed cursor) else Ok None
               | None \<Rightarrow> Ok None))"

definition get_next_page :: "crud_codec \<Rightarrow> query_params \<Rightarrow> crud_query \<Rightarrow> (string \<times> json) list list \<Rightarrow> string option res" where
  "get_next_page codec params q results = get_page codec params q results True"

definition get_prev_page :: "crud_codec \<Rightarrow> query_params \<Rightarrow> crud_query \<Rightarrow> (string \<times> json) list list \<Rightarrow> string option res" where
  "get_prev_page codec params q results = get_page codec params q results False"

text \<open>\<open>collect::<Result<Vec<_>>>()\<close>: the first failure; only policy errors keep their identity.\<close>

definition collect_rows :: "entity_map pol_res list \<Rightarrow> entity_map list pol_res" where
  "collect_rows items =
     map_err (\<lambda>e. case e of OtherError err \<Rightarrow> OtherError (Context ''failed to collect result rows from the database'' err) | _ \<Rightarrow> e)
       (r_map (\<lambda>item. item) items)"

definition entity_json :: "(bytes \<Rightarrow> string) \<Rightarrow> entity_map \<Rightarrow> (string \<times> json) list" where
  "entity_json base64 m = map (\<lambda>(k, v). (k, ev_to_json base64 v)) m"

definition page_response ::
  "crud_codec \<Rightarrow> (bytes \<Rightarrow> string) \<Rightarrow> query_params \<Rightarrow> crud_query \<Rightarrow> entity_map list \<Rightarrow> (string \<times> json) list res" where
  "page_response codec base64 params q rows =
     (let rows = (case cq_cursor q of Some c \<Rightarrow> if cu_forward c then rows else rev rows | None \<Rightarrow> rows);
          results = map (entity_json base64) rows
      in r_bind (get_next_page codec params q results) (\<lambda>next_page.
         r_bind (get_prev_page codec params q results) (\<lambda>prev_page.
         Ok ((case next_page of Some url \<Rightarrow> [(''next_page'', JString url)] | None \<Rightarrow> [])
             @ (case prev_page of Some url \<Rightarrow> [(''prev_page'', JString url)] | None \<Rightarrow> [])
             @ [(''results'', JArray (map JObject results))]))))"

definition validate_rows ::
  "('r, 'f, 'w) data_context \<Rightarrow> string \<Rightarrow> entity_map pol_res list \<Rightarrow> ('f, 'w) instances_cache
     \<Rightarrow> entity_map pol_res list \<times> ('f, 'w) instances_cache" where
  "validate_rows ctx ty_name items cache =
     (if dc_typescript_policies ctx
      then let (inst, cache) = get_or_create_policy_instance (dc_policy_context ctx) ty_name (dc_engine ctx) cache;
               (items, inst) = validated_stream (dc_policy_context ctx) items inst
           in (items, al_insert ty_name inst cache)
      else (items, cache))"

text \<open>
  \<open>run_query_impl\<close> plans the query at once and returns the future that collects the rows; \<open>run_query\<close>
  runs one after the other.
\<close>

definition run_query_impl ::
  "nat \<Rightarrow> crud_codec \<Rightarrow> ('cell, 'db) engine_env \<Rightarrow> ('r, 'f, 'w) data_context \<Rightarrow> query_params
     \<Rightarrow> ('f, 'w, entity \<times> crud_query \<times> query) plan_step" where
  "run_query_impl fuel codec env ctx params =
     s_bind (s_lift (map_err OtherError (with_context ''unexpected type name as crud query base type''
        (from_ts (lookup_entity (dc_type_system ctx) (qpa_type_name params)))))) (\<lambda>ty.
     s_bind (s_lift (map_err OtherError (from_url_query codec ty (qpa_url_query params) (dc_type_system ctx)))) (\<lambda>q.
     s_bind (from_ops fuel ctx ty (make_query_ops q)) (\<lambda>plan.
     s_bind (s_lift (map_err OtherError (build_query (en_printer env) plan (en_target env)))) (\<lambda>statement.
     s_lift (Ok (ty, q, statement))))))"

definition collect_query ::
  "crud_codec \<Rightarrow> ('cell, 'db) engine_env \<Rightarrow> 'db \<Rightarrow> ('r, 'f, 'w) data_context \<Rightarrow> query_params \<Rightarrow> entity \<times> crud_query \<times> query
     \<Rightarrow> ('f, 'w, (string \<times> json) list) plan_step" where
  "collect_query codec env db ctx params = (\<lambda>(ty, q, statement).
     s_bind (\<lambda>cache. let (items, cache) = validate_rows ctx (entity_name ty) (map (map_err OtherError) (query_rows env db statement)) cache
                    in (collect_rows items, cache)) (\<lambda>results.
     s_lift (map_err OtherError (page_response codec (en_base64 env) params q results))))"

definition run_query ::
  "nat \<Rightarrow> crud_codec \<Rightarrow> ('cell, 'db) engine_env \<Rightarrow> 'db \<Rightarrow> ('r, 'f, 'w) data_context \<Rightarrow> query_params
     \<Rightarrow> ('f, 'w, (string \<times> json) list) plan_step" where
  "run_query fuel codec env db ctx params =
     s_bind (run_query_impl fuel codec env ctx params) (collect_query codec env db ctx params)"

subsection \<open>Deleting\<close>

definition delete_condition ::
  "crud_codec \<Rightarrow> entity \<Rightarrow> type_system \<Rightarrow> string \<times> string \<Rightarrow> expr list \<Rightarrow> expr list res" where
  "delete_condition codec base_type' ts = (\<lambda>(param_key, s) conditions.
     case strip_prefix ''.'' param_key of
       Some key \<Rightarrow>
         r_bind (with_context ''failed to parse filter'' (filter_from_param base_type' key s ts)) (\<lambda>e. Ok (conditions @ [e]))
     | None \<Rightarrow>
         if param_key = ''filter'' then r_bind (json_filter codec s) (\<lambda>e. Ok (conditions @ [e]))
         else Ok conditions)"

definition delete_query_to_filter ::
  "crud_codec \<Rightarrow> entity \<Rightarrow> (string \<times> string) list \<Rightarrow> type_system \<Rightarrow> expr option res" where
  "delete_query_to_filter codec base_type' url_query ts =
     r_bind (r_fold (delete_condition codec base_type' ts) url_query []) (\<lambda>conditions.
     Ok (fold (\<lambda>e acc. case acc of Some f \<Rightarrow> Some (expr_and f e) | None \<Rightarrow> Some e) conditions None))"

definition delete_from_url_query ::
  "nat \<Rightarrow> crud_codec \<Rightarrow> ('r, 'f, 'w) data_context \<Rightarrow> string \<Rightarrow> (string \<times> string) list \<Rightarrow> ('f, 'w, mutation) plan_step" where
  "delete_from_url_query fuel codec ctx type_nm url_query =
     (case lookup_type (dc_type_system ctx) type_nm of
        Ok (TEntity base_entity) \<Rightarrow>
          s_bind (s_lift (map_err OtherError (with_context ''failed to convert crud URL to filter expression''
             (delete_query_to_filter codec base_entity url_query (dc_type_system ctx))))) (\<lambda>filter_expr.
          if filter_expr = None \<and> (''all'', ''true'') \<notin> set url_query
          then s_lift (Err (OtherError (Bail ''crud delete requires a filter to be set or `all=true` parameter.'' [])))
          else delete_from_expr fuel ctx type_nm filter_expr)
      | Ok t \<Rightarrow> s_lift (Err (OtherError (Bail ''Cannot delete scalar type {type_name} ({})'' [type_nm, type_name t])))
      | Err _ \<Rightarrow> s_lift (Err (OtherError (Bail ''Cannot delete from type `{type_name}`, type not found'' [type_nm])))
      | Panic p \<Rightarrow> s_lift (Panic p))"

subsection \<open>The cursor filter\<close>

text \<open>The comparison an axis makes, on a row.\<close>

definition pair_holds :: "comparison \<Rightarrow> row_view \<Rightarrow> binary_op \<Rightarrow> expr \<times> binary_op \<times> expr \<Rightarrow> bool" where
  "pair_holds cmp row op = (\<lambda>(lhs, _, rhs). cmp op (eval_expr cmp row lhs) (eval_expr cmp row rhs) = Some True)"

lemma holds_cmp:
  "op \<noteq> OpAnd \<Longrightarrow> op \<noteq> OpOr \<Longrightarrow>
     holds cmp row (BinaryExpr_new op l r) \<longleftrightarrow> cmp op (eval_expr cmp row l) (eval_expr cmp row r) = Some True"
  by (simp add: holds_def)

lemma holds_eqs:
  "holds cmp row (fold (\<lambda>(l, _, r) e. expr_and (expr_eq l r) e) ps e) \<longleftrightarrow>
     (\<forall>p \<in> set ps. pair_holds cmp row OpEq p) \<and> holds cmp row e"
  by (induction ps arbitrary: e) (auto simp: holds_cmp pair_holds_def)

lemma all_take: "i \<le> length xs \<Longrightarrow> (\<forall>x \<in> set (take i xs). P x) \<longleftrightarrow> (\<forall>j<i. P (xs ! j))"
  by (fastforce simp: in_set_conv_nth)

definition after_pivot :: "comparison \<Rightarrow> row_view \<Rightarrow> (expr \<times> binary_op \<times> expr) list \<Rightarrow> nat \<Rightarrow> bool" where
  "after_pivot cmp row pairs i \<longleftrightarrow>
     (\<forall>j<i. pair_holds cmp row OpEq (pairs ! j)) \<and> pair_holds cmp row (fst (snd (pairs ! i))) (pairs ! i)"

lemma holds_axis_term:
  assumes "i < length pairs" "fst (snd (pairs ! i)) \<noteq> OpAnd" "fst (snd (pairs ! i)) \<noteq> OpOr"
  shows "holds cmp row (axis_term pairs i) \<longleftrightarrow> after_pivot cmp row pairs i"
proof -
  obtain lhs op rhs where p: "pairs ! i = (lhs, op, rhs)" by (cases "pairs ! i")
  with assms show ?thesis
    by (simp add: axis_term_def after_pivot_def holds_eqs holds_cmp all_take) (simp add: pair_holds_def)
qed

lemma combine_axes_holds:
  assumes "pairs \<noteq> []" "\<And>p. p \<in> set pairs \<Longrightarrow> fst (snd p) \<noteq> OpAnd \<and> fst (snd p) \<noteq> OpOr"
  shows "\<exists>e. combine_axes pairs = Some e \<and> (holds cmp row e \<longleftrightarrow> (\<exists>i < length pairs. after_pivot cmp row pairs i))"
proof -
  let ?step = "\<lambda>i acc. case acc of
          None \<Rightarrow> (let (lhs, op, rhs) = pairs ! i in Some (BinaryExpr_new op lhs rhs))
        | Some x \<Rightarrow> Some (expr_or x (axis_term pairs i))"
  have axis: "holds cmp row (axis_term pairs i) \<longleftrightarrow> after_pivot cmp row pairs i" if "i < length pairs" for i
    using holds_axis_term [OF that] assms(2) that by auto
  have "\<exists>e. fold ?step [0..<Suc n] None = Some e \<and> (holds cmp row e \<longleftrightarrow> (\<exists>i < Suc n. after_pivot cmp row pairs i))"
    if "n < length pairs" for n
    using that
  proof (induction n)
    case 0
    have "fold ?step [0..<Suc 0] None = Some (axis_term pairs 0)"
      by (simp add: axis_term_def case_prod_unfold Let_def)
    with axis [of 0] 0 show ?case by auto
  next
    case (Suc n)
    then obtain e where "fold ?step [0..<Suc n] None = Some e"
      "holds cmp row e \<longleftrightarrow> (\<exists>i < Suc n. after_pivot cmp row pairs i)" by auto
    with axis [of "Suc n"] Suc.prems show ?case by (auto simp: less_Suc_eq)
  qed
  note loop = this
  have "length pairs - 1 < length pairs" "Suc (length pairs - 1) = length pairs" using assms(1) by simp_all
  with loop [of "length pairs - 1"] show ?thesis unfolding combine_axes_def by metis
qed

text \<open>The value an axis compares with, as it was converted for the field's type.\<close>

definition axis_value :: "entity \<Rightarrow> type_system \<Rightarrow> cursor_axis \<Rightarrow> expr_value \<Rightarrow> bool" where
  "axis_value base_type' ts axis v \<longleftrightarrow>
     (\<exists>f t. get_field (entity_object base_type') (sk_field_name (ca_key axis)) = Some f \<and> ts_get ts (f_type_id f) = Ok t \<and>
        json_to_value t (ca_value axis) = Ok (Value v))"

lemma json_to_value_Ok: "json_to_value t j = Ok e \<Longrightarrow> \<exists>v. e = Value v"
  by (auto simp: json_to_value_def Let_def r_map_ok_Ok_iff)

lemma cmp_pair_Ok:
  assumes "cmp_pair c base_type' ts axis = Ok p"
  shows "\<exists>v. p = (Property (sk_field_name (ca_key axis)) (Parameter 0), axis_op c axis, Value v) \<and> axis_value base_type' ts axis v"
proof -
  from assms obtain chain t e where chain: "make_property_chain base_type' [sk_field_name (ca_key axis)] ts = Ok (chain, t)"
    and e: "json_to_value t (ca_value axis) = Ok e" "p = (chain, axis_op c axis, e)"
    by (auto simp: cmp_pair_def r_bind_Ok_iff)
  from json_to_value_Ok [OF e(1)] obtain v where v: "e = Value v" ..
  from chain obtain f where "get_field (entity_object base_type') (sk_field_name (ca_key axis)) = Some f"
    "ts_get ts (f_type_id f) = Ok t" "chain = Property (sk_field_name (ca_key axis)) (Parameter 0)"
    by (auto simp: make_property_chain_def chain_step_def r_bind_Ok_iff from_ts_def split: option.splits)
  with e v show ?thesis by (auto simp: axis_value_def)
qed

lemma axis_op_cmp [simp]: "axis_op c axis \<noteq> OpAnd" "axis_op c axis \<noteq> OpOr"
  by (simp_all add: axis_op_def)

definition beyond :: "comparison \<Rightarrow> cursor \<Rightarrow> row_view \<Rightarrow> expr_value list \<Rightarrow> nat \<Rightarrow> bool" where
  "beyond cmp c row vs i \<longleftrightarrow>
     (\<forall>j<i. cmp OpEq (row [sk_field_name (ca_key (cu_axes c ! j))]) (vs ! j) = Some True) \<and>
     cmp (axis_op c (cu_axes c ! i)) (row [sk_field_name (ca_key (cu_axes c ! i))]) (vs ! i) = Some True"

lemma get_filter_beyond:
  assumes "get_filter c base_type' ts = Ok e"
  obtains vs where "cu_axes c \<noteq> []" "list_all2 (axis_value base_type' ts) (cu_axes c) vs"
    "\<And>cmp row. holds cmp row e \<longleftrightarrow> (\<exists>i < length (cu_axes c). beyond cmp c row vs i)"
proof -
  from assms obtain pairs where pairs: "r_map (cmp_pair c base_type' ts) (cu_axes c) = Ok pairs" "combine_axes pairs = Some e"
    by (auto simp: get_filter_def r_bind_Ok_iff)
  have len: "length pairs = length (cu_axes c)" using pairs(1) by (rule r_map_length)
  have "\<exists>v. pairs ! i = (Property (sk_field_name (ca_key (cu_axes c ! i))) (Parameter 0), axis_op c (cu_axes c ! i), Value v) \<and>
      axis_value base_type' ts (cu_axes c ! i) v" if "i < length (cu_axes c)" for i
    using pairs(1) that by (intro cmp_pair_Ok) (auto simp: r_map_Ok_iff dest: list_all2_nthD)
  then obtain f where f: "\<And>i. i < length (cu_axes c) \<Longrightarrow>
      pairs ! i = (Property (sk_field_name (ca_key (cu_axes c ! i))) (Parameter 0), axis_op c (cu_axes c ! i), Value (f i)) \<and>
      axis_value base_type' ts (cu_axes c ! i) (f i)" by metis
  let ?vs = "map f [0..<length (cu_axes c)]"
  have ne: "pairs \<noteq> []" using pairs(2) by (auto simp: combine_axes_def)
  have ops: "fst (snd p) \<noteq> OpAnd \<and> fst (snd p) \<noteq> OpOr" if "p \<in> set pairs" for p
    using that f len by (auto simp: in_set_conv_nth)
  have "after_pivot cmp row pairs i \<longleftrightarrow> beyond cmp c row ?vs i" if "i < length (cu_axes c)" for cmp row i
    using that f len by (auto simp: after_pivot_def beyond_def pair_holds_def)
  then have "holds cmp row e \<longleftrightarrow> (\<exists>i < length (cu_axes c). beyond cmp c row ?vs i)" for cmp row
    using combine_axes_holds [OF ne ops, of cmp row] pairs(2) len by auto
  moreover have "list_all2 (axis_value base_type' ts) (cu_axes c) ?vs"
    using f by (simp add: list_all2_conv_all_nth)
  moreover have "cu_axes c \<noteq> []" using ne len by auto
  ultimately show thesis using that [of ?vs] by blast
qed


definition id_cursor :: "bool \<Rightarrow> cursor" where
  "id_cursor forward = \<lparr>cu_axes = [\<lparr>ca_key = id_key, ca_value = JString ''7''\<rparr>], cu_forward = forward, cu_inclusive = False\<rparr>"

lemma id_cursor_filter:
  "get_filter (id_cursor forward) (Custom author_type) (dc_type_system blog_context) =
     Ok (BinaryExpr_new (if forward then OpGt else OpLt) (Property ''id'' (Parameter 0)) (Value (VString ''7'')))"
  by (simp add: get_filter_def id_cursor_def cmp_pair_def make_property_chain_def chain_step_def id_key_def author_type_def
      get_field_def all_fields_def chisel_id_field_def blog_types from_ts_def json_to_value_def json_as_str_def axis_op_def
      combine_axes_def Let_def)


text \<open>A row without a value on a sort axis gives a cursor that no request accepts.\<close>

lemma null_axis_rejected:
  assumes "axis \<in> set (cu_axes c)" "ca_value axis = JNull"
  shows "\<not> is_ok (get_filter c base_type' ts)"
proof
  assume "is_ok (get_filter c base_type' ts)"
  then obtain pairs where "r_map (cmp_pair c base_type' ts) (cu_axes c) = Ok pairs"
    by (auto simp: is_ok_iff get_filter_def r_bind_Ok_iff)
  then obtain p where "cmp_pair c base_type' ts axis = Ok p"
    using assms(1) unfolding r_map_Ok_iff list_all2_conv_all_nth in_set_conv_nth by blast
  with cmp_pair_Ok obtain v where "axis_value base_type' ts axis v" by blast
  with assms(2) obtain t where "json_to_value t JNull = Ok (Value v)" by (auto simp: axis_value_def)
  then show False
    by (cases t) (auto simp: json_to_value_def json_as_str_def json_as_f64_def json_as_bool_def Let_def r_map_ok_Ok_iff)
qed

subsection \<open>Following a link\<close>

definition paging_key :: "string \<times> string \<Rightarrow> bool" where
  "paging_key p = (fst p = ''cursor'' \<or> fst p = ''sort'')"

lemma url_param_other:
  assumes "\<not> paging_key p" "url_param codec base_type' ts p q = Ok q'"
  shows "cq_sort q' = cq_sort q" "cq_cursor q' = cq_cursor q"
    "url_param codec base_type' ts p (q\<lparr>cq_sort := k, cq_cursor := c\<rparr>) = Ok (q'\<lparr>cq_sort := k, cq_cursor := c\<rparr>)"
  using assms
  by (auto simp: url_param_def paging_key_def case_prod_unfold r_bind_Ok_iff split: if_splits option.splits)

text \<open>Without the paging parameters, the rest of the query is parsed to the same limits and filters.\<close>

lemma url_params_skip:
  assumes "r_fold (url_param codec base_type' ts) ps q = Ok q'" "\<forall>p \<in> set ps. fst p \<noteq> ''cursor''"
  shows "cq_cursor q' = cq_cursor q \<and>
    r_fold (url_param codec base_type' ts) (filter (\<lambda>p. \<not> paging_key p) ps) (q\<lparr>cq_sort := k, cq_cursor := c\<rparr>) =
      Ok (q'\<lparr>cq_sort := k, cq_cursor := c\<rparr>)"
  using assms
proof (induction ps arbitrary: q)
  case (Cons p ps)
  from Cons.prems(1) obtain q1 where q1: "url_param codec base_type' ts p q = Ok q1"
    "r_fold (url_param codec base_type' ts) ps q1 = Ok q'" by (auto simp: r_bind_Ok_iff)
  have IH: "cq_cursor q' = cq_cursor q1 \<and>
    r_fold (url_param codec base_type' ts) (filter (\<lambda>p. \<not> paging_key p) ps) (q1\<lparr>cq_sort := k, cq_cursor := c\<rparr>) =
      Ok (q'\<lparr>cq_sort := k, cq_cursor := c\<rparr>)"
    by (rule Cons.IH [OF q1(2)]) (use Cons.prems(2) in simp)
  show ?case
  proof (cases "paging_key p")
    case True
    then have "fst p = ''sort''" using Cons.prems(2) by (auto simp: paging_key_def)
    with q1(1) obtain k' where "q1 = q\<lparr>cq_sort := k'\<rparr>" by (auto simp: url_param_def case_prod_unfold r_bind_Ok_iff)
    with IH True show ?thesis by simp
  next
    case False
    note same = url_param_other [OF False q1(1)]
    with IH False show ?thesis by simp
  qed
qed simp

lemma get_sort_forward: "cu_forward c \<Longrightarrow> get_sort c = map ca_key (cu_axes c)"
  by (simp add: get_sort_def)


text \<open>A codec that knows one cursor.\<close>

definition id_codec :: crud_codec where
  "id_codec = \<lparr>cc_json_from_str = (\<lambda>_. Ok JNull), cc_base64_decode = Ok, cc_base64_encode = (\<lambda>s. s),
     cc_cursor_from_json = (\<lambda>_. Ok (id_cursor True)), cc_cursor_to_json = (\<lambda>_. Ok ''c''), cc_form_urlencode = concat \<circ> map snd\<rparr>"


subsection \<open>Guarded deletes\<close>

definition filter_key :: "string \<times> string \<Rightarrow> bool" where
  "filter_key p = (fst p = ''filter'' \<or> strip_prefix ''.'' (fst p) \<noteq> None)"

lemma delete_conditions_length:
  "r_fold (delete_condition codec base_type' ts) ps cs = Ok cs' \<Longrightarrow> length cs' = length cs + length (filter filter_key ps)"
proof (induction ps arbitrary: cs)
  case (Cons p ps)
  then obtain c1 where c1: "delete_condition codec base_type' ts p cs = Ok c1"
    "r_fold (delete_condition codec base_type' ts) ps c1 = Ok cs'" by (auto simp: r_bind_Ok_iff)
  then have "length c1 = (if filter_key p then Suc (length cs) else length cs)"
    by (auto simp: delete_condition_def filter_key_def case_prod_unfold r_bind_Ok_iff split: option.splits if_splits)
  with Cons.IH [OF c1(2)] show ?case by simp
qed simp

lemma conjoin_holds:
  "cs \<noteq> [] \<Longrightarrow> \<exists>e. fold (\<lambda>e acc. case acc of Some f \<Rightarrow> Some (expr_and f e) | None \<Rightarrow> Some e) cs None = Some e \<and>
     (\<forall>cmp row. holds cmp row e \<longleftrightarrow> (\<forall>x \<in> set cs. holds cmp row x))"
proof (induction cs rule: rev_induct)
  case (snoc x cs)
  then show ?case by (cases "cs = []") auto
qed simp



end
