(* ===== verification/Data_Ops.thy ===== *)
theory Data_Ops
  imports Crud Http
begin

text \<open>
  \<open>server/src/ops/datastore.rs\<close>, \<open>server/src/ops/job.rs\<close>, \<open>server/src/ops/job_context.rs\<close> and the
  data context of \<open>server/src/datastore/mod.rs\<close>: what the JavaScript of a worker can do.  It
  accepts jobs, opens a transaction per job, reads and writes in it, commits it or rolls it back,
  and answers the request.

  The operations of a worker interleave wherever the source awaits, which here is the transaction's
  lock.  An operation that is waiting for it is a \<open>pending\<close> entry of the state; \<open>poll_pending\<close> is
  what it does once it has the lock.  A stream of rows takes the lock when it is first polled and
  keeps it until it is closed.

  Data contexts and transactions are shared through reference counts.  Both live in a store under
  the same number; who refers to them is read off the resources and the pending operations
  (\<open>ctx_refs\<close>, \<open>txn_refs\<close>), and \<open>release\<close> drops what nobody refers to, as the counts do after
  every operation.  A transaction that is dropped is rolled back.

  Of the database the model knows the committed state \<open>'g\<close> and the state \<open>'t\<close> of each open
  transaction.
\<close>

subsection \<open>Jobs\<close>

datatype job_info =
    HttpRequest (ji_method: string) (ji_path: string) (ji_headers: "(string \<times> string) list") (ji_authentication: authentication)
  | KafkaEvent

text \<open>The methods of \<open>ChiselRequestContext\<close> are \<open>todo!()\<close> for an event.\<close>

definition request_context_of :: "job_info \<Rightarrow> request_context option" where
  "request_context_of info =
     (case info of
        HttpRequest method path headers auth \<Rightarrow>
          Some \<lparr>rc_method = method, rc_path = path, rc_headers = headers, rc_user_id = auth_user_id auth,
                rc_token = (case auth of Jwt val \<Rightarrow> Some val | _ \<Rightarrow> None)\<rparr>
      | KafkaEvent \<Rightarrow> None)"

definition job_path :: "job_info \<Rightarrow> string option" where
  "job_path info = (case info of HttpRequest _ path _ _ \<Rightarrow> Some path | KafkaEvent \<Rightarrow> None)"

definition job_user_id :: "job_info \<Rightarrow> string option" where
  "job_user_id info = (case info of HttpRequest _ _ _ auth \<Rightarrow> auth_user_id auth | KafkaEvent \<Rightarrow> None)"

text \<open>
  \<open>jc_job\<close> numbers the jobs in the order of their acceptance; \<open>jc_response_tx\<close> says whether the
  sender of the response is still there.
\<close>

record job_context =
  jc_job :: nat
  jc_info :: job_info
  jc_response_tx :: bool
  jc_current :: "nat option"

text \<open>\<open>qs_rows\<close> are the rows still to come once the stream holds the lock.\<close>

record query_stream =
  qs_txn :: nat
  qs_ty :: entity
  qs_query :: query
  qs_rows :: "entity_map res list option"
  qs_next :: "entity_map option"

datatype resource = RJob job_context | RStream query_stream

record ('r, 'f, 'w) cell =
  ce_ctx :: "('r, 'f, 'w) data_context"
  ce_info :: job_info

datatype ('r, 'f, 'w) pending =
    PStoreCheck nat object_type entity_map
  | PStoreInsert nat object_type entity_map
  | PMutate nat mutation
  | PCrudQuery nat "('r, 'f, 'w) cell" query_params "entity \<times> crud_query \<times> query"

record ('g, 't, 'r, 'f, 'w) worker =
  wk_db :: 'g
  wk_txns :: "(nat \<times> 't) list"
  wk_ctxs :: "(nat \<times> ('r, 'f, 'w) cell) list"
  wk_caches :: "nat \<Rightarrow> ('f, 'w) instances_cache"
  wk_resources :: "(nat \<times> resource) list"
  wk_pending :: "(nat \<times> ('r, 'f, 'w) pending) list"
  wk_accepting :: bool
  wk_jobs :: nat
  wk_sent :: "(nat \<times> http_response) list"

record ('cell, 'g, 't, 'r, 'f, 'w) worker_env =
  we_engine :: "('cell, 't) engine_env"
  we_exec :: "sql_with_arguments \<Rightarrow> 't \<Rightarrow> unit res \<times> 't"
  we_execute :: "string \<Rightarrow> 't \<Rightarrow> unit res \<times> 't"
  we_exists_id :: "'t \<Rightarrow> string \<Rightarrow> string \<Rightarrow> bool res"
  we_begin :: "'g \<Rightarrow> 't res"
  we_commit :: "'t \<Rightarrow> 'g \<Rightarrow> unit res \<times> 'g"
  we_codec :: crud_codec
  we_stack :: nat
  we_str_fits :: "string \<Rightarrow> bool"
  we_date_fits :: "f64 \<Rightarrow> bool"
  we_version_id :: string
  we_context :: "('r, 'f, 'w) data_context"

subsection \<open>References\<close>

definition current_ctx :: "resource \<Rightarrow> nat option" where
  "current_ctx r = (case r of RJob jc \<Rightarrow> jc_current jc | RStream _ \<Rightarrow> None)"

definition stream_txn :: "resource \<Rightarrow> nat option" where
  "stream_txn r = (case r of RStream qs \<Rightarrow> Some (qs_txn qs) | RJob _ \<Rightarrow> None)"

definition locked_txn :: "resource \<Rightarrow> nat option" where
  "locked_txn r = (case r of RStream qs \<Rightarrow> if qs_rows qs = None then None else Some (qs_txn qs) | RJob _ \<Rightarrow> None)"

definition pending_ctx :: "('r, 'f, 'w) pending \<Rightarrow> nat option" where
  "pending_ctx p = (case p of PStoreCheck c _ _ \<Rightarrow> Some c | PStoreInsert c _ _ \<Rightarrow> Some c | _ \<Rightarrow> None)"

definition pending_txn :: "('r, 'f, 'w) pending \<Rightarrow> nat" where
  "pending_txn p = (case p of PStoreCheck c _ _ \<Rightarrow> c | PStoreInsert c _ _ \<Rightarrow> c | PMutate c _ \<Rightarrow> c | PCrudQuery c _ _ _ \<Rightarrow> c)"

fun select_values :: "('v \<Rightarrow> 'a option) \<Rightarrow> ('k \<times> 'v) list \<Rightarrow> 'a list" where
  "select_values f [] = []"
| "select_values f ((k, v) # xs) = (case f v of Some a \<Rightarrow> a # select_values f xs | None \<Rightarrow> select_values f xs)"

definition currents :: "('g, 't, 'r, 'f, 'w) worker \<Rightarrow> nat list" where
  "currents st = select_values current_ctx (wk_resources st)"

definition locks :: "('g, 't, 'r, 'f, 'w) worker \<Rightarrow> nat list" where
  "locks st = select_values locked_txn (wk_resources st)"

definition ctx_refs :: "('g, 't, 'r, 'f, 'w) worker \<Rightarrow> nat set" where
  "ctx_refs st = set (currents st) \<union> set (select_values pending_ctx (wk_pending st))"

definition txn_refs :: "('g, 't, 'r, 'f, 'w) worker \<Rightarrow> nat set" where
  "txn_refs st = set (select_values stream_txn (wk_resources st)) \<union> set (select_values (Some \<circ> pending_txn) (wk_pending st))"

definition keys :: "('k \<times> 'v) list \<Rightarrow> 'k set" where
  "keys xs = fst ` set xs"

definition drop_ctxs :: "('g, 't, 'r, 'f, 'w) worker \<Rightarrow> ('g, 't, 'r, 'f, 'w) worker" where
  "drop_ctxs st = st\<lparr>wk_ctxs := filter (\<lambda>(c, _). c \<in> ctx_refs st) (wk_ctxs st)\<rparr>"

definition drop_txns :: "('g, 't, 'r, 'f, 'w) worker \<Rightarrow> ('g, 't, 'r, 'f, 'w) worker" where
  "drop_txns st = st\<lparr>wk_txns := filter (\<lambda>(c, _). c \<in> keys (wk_ctxs st) \<union> txn_refs st) (wk_txns st)\<rparr>"

definition release :: "('g, 't, 'r, 'f, 'w) worker \<Rightarrow> ('g, 't, 'r, 'f, 'w) worker" where
  "release st = drop_txns (drop_ctxs st)"

subsection \<open>Looking up resources\<close>

definition bad :: "string \<Rightarrow> 'a pol_res" where
  "bad msg = Err (OtherError (Bail msg []))"

definition get_job :: "('g, 't, 'r, 'f, 'w) worker \<Rightarrow> nat \<Rightarrow> job_context pol_res" where
  "get_job st rid = (case map_of (wk_resources st) rid of Some (RJob jc) \<Rightarrow> Ok jc | _ \<Rightarrow> bad ''Bad resource ID'')"

definition get_stream :: "('g, 't, 'r, 'f, 'w) worker \<Rightarrow> nat \<Rightarrow> query_stream pol_res" where
  "get_stream st rid = (case map_of (wk_resources st) rid of Some (RStream qs) \<Rightarrow> Ok qs | _ \<Rightarrow> bad ''Bad resource ID'')"

definition set_resource :: "nat \<Rightarrow> resource \<Rightarrow> ('g, 't, 'r, 'f, 'w) worker \<Rightarrow> ('g, 't, 'r, 'f, 'w) worker" where
  "set_resource rid r st = st\<lparr>wk_resources := al_insert rid r (wk_resources st)\<rparr>"

definition deref_ctx :: "('g, 't, 'r, 'f, 'w) worker \<Rightarrow> nat \<Rightarrow> (nat \<times> ('r, 'f, 'w) cell) pol_res" where
  "deref_ctx st c = (case map_of (wk_ctxs st) c of Some cl \<Rightarrow> Ok (c, cl) | None \<Rightarrow> Panic ''dangling data context'')"

definition deref_txn :: "('g, 't, 'r, 'f, 'w) worker \<Rightarrow> nat \<Rightarrow> 't pol_res" where
  "deref_txn st c = (case map_of (wk_txns st) c of Some t \<Rightarrow> Ok t | None \<Rightarrow> Panic ''dangling transaction'')"

definition job_data_context :: "string \<Rightarrow> nat \<Rightarrow> ('g, 't, 'r, 'f, 'w) worker \<Rightarrow> (nat \<times> ('r, 'f, 'w) cell) pol_res \<times> ('g, 't, 'r, 'f, 'w) worker" where
  "job_data_context msg rid st =
     (r_bind (get_job st rid) (\<lambda>jc. case jc_current jc of Some c \<Rightarrow> deref_ctx st c | None \<Rightarrow> bad msg), st)"

text \<open>
  Runs a planning step with the policy instances of a data context.  Where TypeScript policies are
  on, every such step evaluates a policy of the request, which an event does not have.
\<close>

definition with_policies :: "nat \<Rightarrow> ('r, 'f, 'w) cell \<Rightarrow> ('f, 'w, 'a) plan_step \<Rightarrow> ('g, 't, 'r, 'f, 'w) worker \<Rightarrow> 'a pol_res \<times> ('g, 't, 'r, 'f, 'w) worker" where
  "with_policies c cl m st =
     (if dc_typescript_policies (ce_ctx cl) \<and> request_context_of (ce_info cl) = None then (Panic ''not yet implemented'', st)
      else let (r, cache) = m (wk_caches st c) in (r, st\<lparr>wk_caches := (wk_caches st)(c := cache)\<rparr>))"

subsection \<open>Accepting and answering jobs\<close>

datatype version_job = JobHttp http_request authentication | JobKafka | JobOutbox

text \<open>The first half of \<open>op_chisel_accept_job\<close>, up to the await, and the second, once a job has arrived.\<close>

definition op_chisel_accept_job :: "('g, 't, 'r, 'f, 'w) worker \<Rightarrow> unit pol_res \<times> ('g, 't, 'r, 'f, 'w) worker" where
  "op_chisel_accept_job st =
     (if wk_accepting st then (bad ''op_chisel_accept_job cannot be called while another call is pending'', st)
      else (Ok (), st\<lparr>wk_accepting := True\<rparr>))"

definition job_info_of :: "version_job \<Rightarrow> job_info" where
  "job_info_of job =
     (case job of
        JobHttp request auth \<Rightarrow>
          HttpRequest (hr_method request) (hr_routing_path request) (fold (\<lambda>(k, v). al_insert k v) (hr_headers request) []) auth
      | _ \<Rightarrow> KafkaEvent)"

definition job_received :: "version_job option \<Rightarrow> nat \<Rightarrow> ('g, 't, 'r, 'f, 'w) worker \<Rightarrow> ('g, 't, 'r, 'f, 'w) worker" where
  "job_received received rid st =
     (let st = st\<lparr>wk_accepting := False\<rparr> in
      case received of
        None \<Rightarrow> st
      | Some job \<Rightarrow>
          set_resource rid (RJob \<lparr>jc_job = wk_jobs st, jc_info = job_info_of job,
              jc_response_tx = (case job of JobHttp _ _ \<Rightarrow> True | _ \<Rightarrow> False), jc_current = None\<rparr>)
            (st\<lparr>wk_jobs := wk_jobs st + 1\<rparr>))"

definition op_chisel_http_respond :: "nat \<Rightarrow> http_response \<Rightarrow> ('g, 't, 'r, 'f, 'w) worker \<Rightarrow> unit pol_res \<times> ('g, 't, 'r, 'f, 'w) worker" where
  "op_chisel_http_respond rid response st =
     (case get_job st rid of
        Ok jc \<Rightarrow>
          (case jc_info jc of
             HttpRequest _ _ _ _ \<Rightarrow>
               if jc_response_tx jc
               then (Ok (), set_resource rid (RJob (jc\<lparr>jc_response_tx := False\<rparr>)) (st\<lparr>wk_sent := (jc_job jc, response) # wk_sent st\<rparr>))
               else (bad ''Response already send for that request'', st)
           | KafkaEvent \<Rightarrow> (bad ''invalid request type'', st))
      | Err e \<Rightarrow> (Err e, st)
      | Panic p \<Rightarrow> (Panic p, st))"

subsection \<open>Transactions\<close>

definition create_data_context :: "('cell, 'g, 't, 'r, 'f, 'w) worker_env \<Rightarrow> job_info \<Rightarrow> ('r, 'f, 'w) cell" where
  "create_data_context env info =
     (let ctx = we_context env;
          policies = (case request_context_of info of
                        Some rc \<Rightarrow> (dc_policy_context ctx)\<lparr>pc_request := rc\<rparr>
                      | None \<Rightarrow> dc_policy_context ctx)
      in \<lparr>ce_ctx = ctx\<lparr>dc_user_id := job_user_id info, dc_path := job_path info, dc_policy_context := policies\<rparr>,
          ce_info = info\<rparr>)"

definition op_chisel_begin_transaction ::
  "('cell, 'g, 't, 'r, 'f, 'w) worker_env \<Rightarrow> nat \<Rightarrow> nat \<Rightarrow> ('g, 't, 'r, 'f, 'w) worker \<Rightarrow> unit pol_res \<times> ('g, 't, 'r, 'f, 'w) worker" where
  "op_chisel_begin_transaction env rid c st =
     (case r_bind (get_job st rid) (\<lambda>jc. r_bind (map_err OtherError (we_begin env (wk_db st))) (\<lambda>t. Ok (jc, t))) of
        Ok (jc, t) \<Rightarrow>
          if jc_current jc = None
          then (Ok (), set_resource rid (RJob (jc\<lparr>jc_current := Some c\<rparr>))
                  (st\<lparr>wk_ctxs := al_insert c (create_data_context env (jc_info jc)) (wk_ctxs st),
                      wk_txns := al_insert c t (wk_txns st),
                      wk_caches := (wk_caches st)(c := [])\<rparr>))
          else (bad ''A transaction is already open for this context'', st)
      | Err e \<Rightarrow> (Err e, st)
      | Panic p \<Rightarrow> (Panic p, st))"

text \<open>
  \<open>take()\<close> on the job's current context, \<open>Rc::try_unwrap\<close> on it and \<open>Arc::try_unwrap\<close> on its
  transaction: each succeeds when there is no other reference.  \<open>finish\<close> gets the transaction.
\<close>

definition end_transaction ::
  "string \<Rightarrow> ('t \<Rightarrow> ('g, 't, 'r, 'f, 'w) worker \<Rightarrow> unit pol_res \<times> ('g, 't, 'r, 'f, 'w) worker) \<Rightarrow> nat
     \<Rightarrow> ('g, 't, 'r, 'f, 'w) worker \<Rightarrow> unit pol_res \<times> ('g, 't, 'r, 'f, 'w) worker" where
  "end_transaction in_progress finish rid st =
     (case get_job st rid of
        Ok jc \<Rightarrow>
          (case jc_current jc of
             None \<Rightarrow> (bad ''Cannot commit a transaction because no transaction is in progress'', st)
           | Some c \<Rightarrow>
               let st = set_resource rid (RJob (jc\<lparr>jc_current := None\<rparr>)) st in
               if c \<in> ctx_refs st
               then (bad ''Cannot commit because a reference to the transaction is still being held.'', st)
               else if c \<in> txn_refs st then (bad in_progress, st)
               else (case deref_txn st c of
                       Ok t \<Rightarrow> finish t (st\<lparr>wk_ctxs := al_remove c (wk_ctxs st), wk_txns := al_remove c (wk_txns st)\<rparr>)
                     | Err e \<Rightarrow> (Err e, st)
                     | Panic p \<Rightarrow> (Panic p, st)))
      | Err e \<Rightarrow> (Err e, st)
      | Panic p \<Rightarrow> (Panic p, st))"

definition op_chisel_commit_transaction ::
  "('cell, 'g, 't, 'r, 'f, 'w) worker_env \<Rightarrow> nat \<Rightarrow> ('g, 't, 'r, 'f, 'w) worker \<Rightarrow> unit pol_res \<times> ('g, 't, 'r, 'f, 'w) worker" where
  "op_chisel_commit_transaction env =
     end_transaction ''Cannot commit a transaction because there is an operation in progress that uses this transaction''
       (\<lambda>t st. let (r, db) = we_commit env t (wk_db st) in (map_err OtherError r, st\<lparr>wk_db := db\<rparr>))"

definition op_chisel_rollback_transaction ::
  "nat \<Rightarrow> ('g, 't, 'r, 'f, 'w) worker \<Rightarrow> unit pol_res \<times> ('g, 't, 'r, 'f, 'w) worker" where
  "op_chisel_rollback_transaction =
     end_transaction ''Cannot rollback transaction because there is an operation in progress that uses this transaction''
       (\<lambda>t st. (Ok (), st))"

subsection \<open>Reading and writing entities\<close>

definition pol_context :: "string \<Rightarrow> 'a pol_res \<Rightarrow> 'a pol_res" where
  "pol_context msg r = map_err (\<lambda>e. case e of OtherError err \<Rightarrow> OtherError (Context msg err) | _ \<Rightarrow> e) r"

definition add_pending :: "nat \<Rightarrow> ('r, 'f, 'w) pending \<Rightarrow> ('g, 't, 'r, 'f, 'w) worker \<Rightarrow> unit pol_res \<times> ('g, 't, 'r, 'f, 'w) worker" where
  "add_pending pid p st = (Ok (), st\<lparr>wk_pending := al_insert pid p (wk_pending st)\<rparr>)"

definition is_auth_path :: "string \<Rightarrow> string \<Rightarrow> bool" where
  "is_auth_path version_id routing_path \<longleftrightarrow> version_id = ''__chiselstrike'' \<and> starts_with ''/auth/'' routing_path"

definition store_target :: "('cell, 'g, 't, 'r, 'f, 'w) worker_env \<Rightarrow> string \<Rightarrow> job_context \<Rightarrow> entity pol_res" where
  "store_target env name jc =
     (case lookup_type (dc_type_system (we_context env)) name of
        Ok (TEntity ty) \<Rightarrow>
          if is_auth ty \<and> \<not> is_auth_path (we_version_id env) (case job_path (jc_info jc) of Some p \<Rightarrow> p | None \<Rightarrow> [])
          then Err (OtherError (Bail ''Cannot save into auth type {}'' [name]))
          else Ok ty
      | _ \<Rightarrow> Err (OtherError (Bail ''Cannot save into type {}'' [name])))"

definition op_chisel_store ::
  "('cell, 'g, 't, 'r, 'f, 'w) worker_env \<Rightarrow> string \<Rightarrow> v8_value \<Rightarrow> nat \<Rightarrow> nat \<Rightarrow> ('g, 't, 'r, 'f, 'w) worker
     \<Rightarrow> unit pol_res \<times> ('g, 't, 'r, 'f, 'w) worker" where
  "op_chisel_store env name v8 rid pid st =
     s_bind (s_lift (map_err OtherError (from_v8 v8))) (\<lambda>val.
     s_bind (s_lift (get_job st rid)) (\<lambda>jc.
     s_bind (s_lift (store_target env name jc)) (\<lambda>ty.
     s_bind (job_data_context ''No transaction in the current context'' rid) (\<lambda>(c, cl).
     s_bind (s_lift (map_err OtherError (ev_as_map val))) (\<lambda>rec.
     add_pending pid
       (if dc_typescript_policies (ce_ctx cl) then PStoreCheck c (entity_object ty) rec else PStoreInsert c (entity_object ty) rec)))))) st"

definition op_chisel_delete ::
  "('cell, 'g, 't, 'r, 'f, 'w) worker_env \<Rightarrow> string \<Rightarrow> expr option \<Rightarrow> nat \<Rightarrow> nat \<Rightarrow> ('g, 't, 'r, 'f, 'w) worker
     \<Rightarrow> unit pol_res \<times> ('g, 't, 'r, 'f, 'w) worker" where
  "op_chisel_delete env name filter_expr rid pid =
     s_bind (job_data_context ''No transaction in the current context'' rid) (\<lambda>(c, cl).
     s_bind (\<lambda>st. let (r, st) = with_policies c cl (delete_from_expr (we_stack env) (ce_ctx cl) name filter_expr) st
                   in (pol_context ''failed to construct delete expression from JSON passed to `op_chisel_delete`'' r, st)) (\<lambda>mutation.
     add_pending pid (PMutate c mutation)))"

definition op_chisel_crud_delete ::
  "('cell, 'g, 't, 'r, 'f, 'w) worker_env \<Rightarrow> string \<Rightarrow> (string \<times> string) list \<Rightarrow> nat \<Rightarrow> nat \<Rightarrow> ('g, 't, 'r, 'f, 'w) worker
     \<Rightarrow> unit pol_res \<times> ('g, 't, 'r, 'f, 'w) worker" where
  "op_chisel_crud_delete env name url_query rid pid =
     s_bind (job_data_context ''No transaction in the current context'' rid) (\<lambda>(c, cl).
     s_bind (\<lambda>st. let (r, st) = with_policies c cl (delete_from_url_query (we_stack env) (we_codec env) (ce_ctx cl) name url_query) st
                   in (pol_context ''failed to construct delete expression from JSON passed to `op_chisel_crud_delete`'' r, st)) (\<lambda>mutation.
     add_pending pid (PMutate c mutation)))"

definition op_chisel_crud_query ::
  "('cell, 'g, 't, 'r, 'f, 'w) worker_env \<Rightarrow> query_params \<Rightarrow> nat \<Rightarrow> nat \<Rightarrow> ('g, 't, 'r, 'f, 'w) worker
     \<Rightarrow> unit pol_res \<times> ('g, 't, 'r, 'f, 'w) worker" where
  "op_chisel_crud_query env params rid pid =
     s_bind (job_data_context ''No transaction in this context'' rid) (\<lambda>(c, cl).
     s_bind (with_policies c cl (run_query_impl (we_stack env) (we_codec env) (we_engine env) (ce_ctx cl) params)) (\<lambda>q.
     add_pending pid (PCrudQuery c cl params q)))"

datatype op_answer = AUnit | AIds id_tree | AJson "(string \<times> json) list"

definition finish_pending :: "nat \<Rightarrow> 'a pol_res \<Rightarrow> ('g, 't, 'r, 'f, 'w) worker \<Rightarrow> 'a pol_res \<times> ('g, 't, 'r, 'f, 'w) worker" where
  "finish_pending pid r st = (r, st\<lparr>wk_pending := al_remove pid (wk_pending st)\<rparr>)"

definition set_txn :: "nat \<Rightarrow> 't \<Rightarrow> ('g, 't, 'r, 'f, 'w) worker \<Rightarrow> ('g, 't, 'r, 'f, 'w) worker" where
  "set_txn c t st = st\<lparr>wk_txns := al_insert c t (wk_txns st)\<rparr>"

text \<open>
  A waiting operation that has the lock.  \<open>Ok None\<close>: it goes on to wait for the lock again, which a
  store does between its policy check and its statements.  \<open>n\<close> is the position of the UUID generator.
\<close>

definition poll_pending ::
  "('cell, 'g, 't, 'r, 'f, 'w) worker_env \<Rightarrow> nat \<Rightarrow> ('r, 'f, 'w) pending \<Rightarrow> nat \<Rightarrow> 't \<Rightarrow> ('g, 't, 'r, 'f, 'w) worker
     \<Rightarrow> op_answer option pol_res \<times> ('g, 't, 'r, 'f, 'w) worker" where
  "poll_pending env pid p n t st =
     (case p of
        PStoreCheck c ty rec \<Rightarrow>
          (case s_bind (s_lift (deref_ctx st c)) (\<lambda>(c, cl).
                  with_policies c cl (write_policies (we_exists_id env t) (ce_ctx cl) ty rec)) st of
             (Ok rec, st) \<Rightarrow> (Ok None, st\<lparr>wk_pending := al_insert pid (PStoreInsert c ty rec) (wk_pending st)\<rparr>)
           | (Err e, st) \<Rightarrow> finish_pending pid (Err e) st
           | (Panic s, st) \<Rightarrow> finish_pending pid (Panic s) st)
      | PStoreInsert c ty rec \<Rightarrow>
          (let (r, t) = insert_object (we_engine env) (we_exec env) (dc_type_system (we_context env)) ty rec n t
           in finish_pending pid (r_map_ok (\<lambda>(_, ids). Some (AIds ids)) (map_err OtherError r)) (set_txn c t st))
      | PMutate c mutation \<Rightarrow>
          (let (r, t) = mutate_with_transaction (we_engine env) (we_execute env) mutation t
           in finish_pending pid (r_map_ok (\<lambda>_. Some AUnit) (map_err OtherError r)) (set_txn c t st))
      | PCrudQuery c cl params q \<Rightarrow>
          (let (r, st) = with_policies c cl (collect_query (we_codec env) (we_engine env) t (ce_ctx cl) params q) st
           in finish_pending pid (r_map_ok (Some \<circ> AJson) r) st))"

subsection \<open>Streams of rows\<close>

definition op_chisel_relational_query_create ::
  "('cell, 'g, 't, 'r, 'f, 'w) worker_env \<Rightarrow> op_chain \<Rightarrow> nat \<Rightarrow> nat \<Rightarrow> ('g, 't, 'r, 'f, 'w) worker
     \<Rightarrow> nat pol_res \<times> ('g, 't, 'r, 'f, 'w) worker" where
  "op_chisel_relational_query_create env chain rid new_rid =
     s_bind (job_data_context ''No transaction in the current context'' rid) (\<lambda>(c, cl).
     s_bind (with_policies c cl (from_op_chain (we_stack env) (ce_ctx cl) chain)) (\<lambda>plan.
     s_bind (s_lift (map_err OtherError (build_query (en_printer (we_engine env)) plan (en_target (we_engine env))))) (\<lambda>q st.
     (Ok new_rid, set_resource new_rid (RStream \<lparr>qs_txn = c, qs_ty = base_type plan, qs_query = q, qs_rows = None, qs_next = None\<rparr>) st))))"

text \<open>\<open>QueryNextFuture::poll\<close> once the stream has its rows; before the first poll they are fetched in the transaction.\<close>

definition next_row :: "query_stream \<Rightarrow> entity_map res list \<Rightarrow> unit pol_res \<times> query_stream" where
  "next_row qs rows =
     (case rows of
        [] \<Rightarrow> (Ok (), qs\<lparr>qs_rows := Some []\<rparr>)
      | Ok next # rest \<Rightarrow> (Ok (), qs\<lparr>qs_rows := Some rest, qs_next := Some next\<rparr>)
      | Err e # rest \<Rightarrow> (Err (OtherError e), qs\<lparr>qs_rows := Some rest\<rparr>)
      | Panic p # rest \<Rightarrow> (Panic p, qs\<lparr>qs_rows := Some rest\<rparr>))"

definition op_chisel_query_next ::
  "('cell, 'g, 't, 'r, 'f, 'w) worker_env \<Rightarrow> nat \<Rightarrow> ('g, 't, 'r, 'f, 'w) worker \<Rightarrow> unit pol_res \<times> ('g, 't, 'r, 'f, 'w) worker" where
  "op_chisel_query_next env rid st =
     (case r_bind (get_stream st rid) (\<lambda>qs.
             r_bind (case qs_rows qs of
                       Some rows \<Rightarrow> Ok rows
                     | None \<Rightarrow> r_map_ok (\<lambda>t. query_rows (we_engine env) t (qs_query qs)) (deref_txn st (qs_txn qs)))
               (\<lambda>rows. Ok (qs, rows))) of
        Ok (qs, rows) \<Rightarrow> (let (r, qs) = next_row qs rows in (r, set_resource rid (RStream qs) st))
      | Err e \<Rightarrow> (Err e, st)
      | Panic p \<Rightarrow> (Panic p, st))"

definition can_poll :: "('g, 't, 'r, 'f, 'w) worker \<Rightarrow> nat \<Rightarrow> bool" where
  "can_poll st rid =
     (case map_of (wk_resources st) rid of
        Some (RStream qs) \<Rightarrow> qs_rows qs \<noteq> None \<or> qs_txn qs \<notin> set (locks st)
      | _ \<Rightarrow> True)"

definition read_entity :: "('r, 'f, 'w) data_context \<Rightarrow> string \<Rightarrow> entity_map \<Rightarrow> ('f, 'w, entity_map option) plan_step" where
  "read_entity ctx ty_name val cache =
     (let (inst, cache) = get_or_create_policy_instance (dc_policy_context ctx) ty_name (dc_engine ctx) cache;
          (r, inst) = process_read (dc_policy_context ctx) val inst
      in (r, al_insert ty_name inst cache))"

definition validated_value ::
  "('cell, 'g, 't, 'r, 'f, 'w) worker_env \<Rightarrow> string \<Rightarrow> nat \<Rightarrow> entity_map \<Rightarrow> ('g, 't, 'r, 'f, 'w) worker \<Rightarrow> v8_value pol_res \<times> ('g, 't, 'r, 'f, 'w) worker" where
  "validated_value env ty_name rid v =
     (let v8 = (\<lambda>m. map_err OtherError (to_v8 (we_str_fits env) (we_date_fits env) (EMap m))) in
      if dc_typescript_policies (we_context env)
      then s_bind (job_data_context ''No transaction in the current context'' rid) (\<lambda>(c, cl).
           s_bind (with_policies c cl (read_entity (ce_ctx cl) ty_name v)) (\<lambda>kept.
           s_lift (case kept of Some m \<Rightarrow> v8 m | None \<Rightarrow> Ok V8Null)))
      else s_lift (v8 v))"

definition op_chisel_query_get_value ::
  "('cell, 'g, 't, 'r, 'f, 'w) worker_env \<Rightarrow> nat \<Rightarrow> nat \<Rightarrow> ('g, 't, 'r, 'f, 'w) worker \<Rightarrow> v8_value pol_res \<times> ('g, 't, 'r, 'f, 'w) worker" where
  "op_chisel_query_get_value env stream_rid rid st =
     (case get_stream st stream_rid of
        Ok qs \<Rightarrow>
          let st = set_resource stream_rid (RStream (qs\<lparr>qs_next := None\<rparr>)) st in
          (case qs_next qs of
             None \<Rightarrow> (Ok V8Null, st)
           | Some v \<Rightarrow> validated_value env (entity_name (qs_ty qs)) rid v st)
      | Err e \<Rightarrow> (Err e, st)
      | Panic p \<Rightarrow> (Panic p, st))"

definition close_resource :: "nat \<Rightarrow> ('g, 't, 'r, 'f, 'w) worker \<Rightarrow> ('g, 't, 'r, 'f, 'w) worker" where
  "close_resource rid st = st\<lparr>wk_resources := al_remove rid (wk_resources st)\<rparr>"

subsection \<open>The worker as a state machine\<close>

text \<open>
  One step per operation, and one per waiting operation or stream that gets the lock.  The numbers
  of new resources, operations and data contexts are any that are not in use.
\<close>

definition worker_init :: "'g \<Rightarrow> ('g, 't, 'r, 'f, 'w) worker" where
  "worker_init db = \<lparr>wk_db = db, wk_txns = [], wk_ctxs = [], wk_caches = (\<lambda>_. []), wk_resources = [], wk_pending = [],
     wk_accepting = False, wk_jobs = 0, wk_sent = []\<rparr>"

inductive step ::
  "('cell, 'g, 't, 'r, 'f, 'w) worker_env \<Rightarrow> ('g, 't, 'r, 'f, 'w) worker \<Rightarrow> ('g, 't, 'r, 'f, 'w) worker \<Rightarrow> bool"
  for env :: "('cell, 'g, 't, 'r, 'f, 'w) worker_env" where
  accept: "step env st (release (snd (op_chisel_accept_job st)))"
| received: "wk_accepting st \<Longrightarrow> rid \<notin> keys (wk_resources st) \<Longrightarrow> step env st (release (job_received job rid st))"
| respond: "step env st (release (snd (op_chisel_http_respond rid response st)))"
| begin_txn: "c \<notin> keys (wk_txns st) \<Longrightarrow> step env st (release (snd (op_chisel_begin_transaction env rid c st)))"
| commit: "step env st (release (snd (op_chisel_commit_transaction env rid st)))"
| rollback: "step env st (release (snd (op_chisel_rollback_transaction rid st)))"
| store: "pid \<notin> keys (wk_pending st) \<Longrightarrow> step env st (release (snd (op_chisel_store env name v8 rid pid st)))"
| delete: "pid \<notin> keys (wk_pending st) \<Longrightarrow> step env st (release (snd (op_chisel_delete env name filter_expr rid pid st)))"
| crud_delete: "pid \<notin> keys (wk_pending st) \<Longrightarrow> step env st (release (snd (op_chisel_crud_delete env name url_query rid pid st)))"
| crud_query: "pid \<notin> keys (wk_pending st) \<Longrightarrow> step env st (release (snd (op_chisel_crud_query env params rid pid st)))"
| poll: "map_of (wk_pending st) pid = Some p \<Longrightarrow> pending_txn p \<notin> set (locks st) \<Longrightarrow> map_of (wk_txns st) (pending_txn p) = Some t
     \<Longrightarrow> step env st (release (snd (poll_pending env pid p n t st)))"
| query_create: "new_rid \<notin> keys (wk_resources st) \<Longrightarrow> step env st (release (snd (op_chisel_relational_query_create env chain rid new_rid st)))"
| query_next: "can_poll st rid \<Longrightarrow> step env st (release (snd (op_chisel_query_next env rid st)))"
| query_get_value: "step env st (release (snd (op_chisel_query_get_value env stream_rid rid st)))"
| close: "step env st (release (close_resource rid st))"

inductive reachable :: "('cell, 'g, 't, 'r, 'f, 'w) worker_env \<Rightarrow> ('g, 't, 'r, 'f, 'w) worker \<Rightarrow> bool"
  for env :: "('cell, 'g, 't, 'r, 'f, 'w) worker_env" where
  reachable_init: "reachable env (worker_init db)"
| reachable_step: "reachable env st \<Longrightarrow> step env st st' \<Longrightarrow> reachable env st'"

subsection \<open>Well-formed workers\<close>

abbreviation resource_at :: "('g, 't, 'r, 'f, 'w) worker \<Rightarrow> nat \<rightharpoonup> resource" where
  "resource_at st \<equiv> map_of (wk_resources st)"

abbreviation pending_at :: "('g, 't, 'r, 'f, 'w) worker \<Rightarrow> nat \<rightharpoonup> ('r, 'f, 'w) pending" where
  "pending_at st \<equiv> map_of (wk_pending st)"

definition keys_ok :: "('g, 't, 'r, 'f, 'w) worker \<Rightarrow> bool" where
  "keys_ok st \<longleftrightarrow> distinct (map fst (wk_resources st)) \<and> distinct (map fst (wk_pending st)) \<and>
     distinct (map fst (wk_ctxs st)) \<and> distinct (map fst (wk_txns st))"

text \<open>No two keys with the same value.\<close>

definition unique :: "('k \<rightharpoonup> 'v) \<Rightarrow> bool" where
  "unique m \<longleftrightarrow> (\<forall>a b x. m a = Some x \<longrightarrow> m b = Some x \<longrightarrow> a = b)"

definition job_number :: "resource \<Rightarrow> nat option" where
  "job_number r = (case r of RJob jc \<Rightarrow> Some (jc_job jc) | RStream _ \<Rightarrow> None)"

definition unanswered :: "resource \<Rightarrow> nat option" where
  "unanswered r = (case r of RJob jc \<Rightarrow> if jc_response_tx jc then Some (jc_job jc) else None | RStream _ \<Rightarrow> None)"

definition refs_ok :: "('g, 't, 'r, 'f, 'w) worker \<Rightarrow> bool" where
  "refs_ok st \<longleftrightarrow>
     ran (current_ctx \<circ>\<^sub>m resource_at st) \<union> ran (pending_ctx \<circ>\<^sub>m pending_at st) \<subseteq> keys (wk_ctxs st) \<and>
     ran (stream_txn \<circ>\<^sub>m resource_at st) \<union> ran ((Some \<circ> pending_txn) \<circ>\<^sub>m pending_at st) \<union> keys (wk_ctxs st) \<subseteq> keys (wk_txns st)"

definition owners_ok :: "('g, 't, 'r, 'f, 'w) worker \<Rightarrow> bool" where
  "owners_ok st \<longleftrightarrow> unique (current_ctx \<circ>\<^sub>m resource_at st) \<and> unique (locked_txn \<circ>\<^sub>m resource_at st)"

definition sent_ok :: "('g, 't, 'r, 'f, 'w) worker \<Rightarrow> bool" where
  "sent_ok st \<longleftrightarrow>
     distinct (map fst (wk_sent st)) \<and> keys (wk_sent st) \<subseteq> {..<wk_jobs st} \<and>
     ran (job_number \<circ>\<^sub>m resource_at st) \<subseteq> {..<wk_jobs st} \<and> unique (job_number \<circ>\<^sub>m resource_at st) \<and>
     ran (unanswered \<circ>\<^sub>m resource_at st) \<inter> keys (wk_sent st) = {}"

definition worker_wf :: "('g, 't, 'r, 'f, 'w) worker \<Rightarrow> bool" where
  "worker_wf st \<longleftrightarrow> keys_ok st \<and> refs_ok st \<and> owners_ok st \<and> sent_ok st"

lemmas wf_defs = worker_wf_def keys_ok_def refs_ok_def owners_ok_def sent_ok_def

lemma keys_al [simp]:
  "keys (al_insert k v xs) = insert k (keys xs)" "keys (al_remove k xs) = keys xs - {k}" "keys [] = {}" "keys (x # xs) = insert (fst x) (keys xs)"
  "keys (filter (\<lambda>(k, _). P k) xs) = {k \<in> keys xs. P k}"
  by (auto simp: keys_def al_remove_def image_iff)

lemma keys_map_of: "k \<in> keys xs \<longleftrightarrow> (\<exists>v. map_of xs k = Some v)"
  by (metis keys_def map_of_eq_None_iff not_None_eq)

lemma map_comp_upd [simp]: "f \<circ>\<^sub>m (m(k \<mapsto> v)) = (f \<circ>\<^sub>m m)(k := f v)" "f \<circ>\<^sub>m (m(k := None)) = (f \<circ>\<^sub>m m)(k := None)"
  by (auto simp: map_comp_def fun_eq_iff)

lemma ran_upd_new: "m k = None \<Longrightarrow> ran (m(k := x)) = set_option x \<union> ran m"
  by (cases x) (auto simp: fun_upd_idem)

lemma unique_upd:
  assumes "unique m" "set_option x \<inter> ran (m(k := None)) = {}"
  shows "unique (m(k := x))"
proof -
  have "m a \<noteq> Some v" if "x = Some v" "a \<noteq> k" for a v
    using assms(2) that ranI [of "m(k := None)" a v] by auto
  with assms(1) show ?thesis by (auto simp: unique_def)
qed

lemma unique_ran_remove: "unique m \<Longrightarrow> m k = Some v \<Longrightarrow> v \<notin> ran (m(k := None))"
  unfolding unique_def by (auto simp: ran_def)

lemma map_comp_new: "k \<notin> fst ` set xs \<Longrightarrow> (f \<circ>\<^sub>m map_of xs) k = None"
  by (simp add: map_of_eq_None_iff [symmetric] map_comp_def)

lemma map_comp_Cons: "f \<circ>\<^sub>m map_of ((k, v) # xs) = (f \<circ>\<^sub>m map_of xs)(k := f v)"
  by (simp only: map_of.simps map_comp_upd fst_conv snd_conv)

lemma select_values_ran: "distinct (map fst xs) \<Longrightarrow> set (select_values f xs) = ran (f \<circ>\<^sub>m map_of xs)"
  by (induction f xs rule: select_values.induct)
    (simp_all add: map_comp_Cons ran_upd_new map_comp_new del: map_of.simps(2) fun_upd_apply split: option.split)

lemma unique_Cons:
  assumes "k \<notin> fst ` set xs" "unique (f \<circ>\<^sub>m map_of ((k, v) # xs))"
  shows "unique (f \<circ>\<^sub>m map_of xs)" "f v = Some a \<Longrightarrow> a \<notin> ran (f \<circ>\<^sub>m map_of xs)"
proof -
  let ?m = "f \<circ>\<^sub>m map_of xs"
  have m: "?m(k := None) = ?m"
    using map_comp_new [OF assms(1), of f] by (rule fun_upd_idem)
  have u: "unique (?m(k := f v))"
    using assms(2) by (simp only: map_comp_Cons)
  show "unique ?m"
    using unique_upd [OF u, of None k] m by simp
  show "a \<notin> ran ?m" if "f v = Some a"
    using unique_ran_remove [OF u, of k a] that m by simp
qed

lemma select_values_distinct:
  "distinct (map fst xs) \<Longrightarrow> unique (f \<circ>\<^sub>m map_of xs) \<Longrightarrow> distinct (select_values f xs)"
proof (induction f xs rule: select_values.induct)
  case (2 f k v xs)
  then have "k \<notin> fst ` set xs" by simp
  note unique_Cons [OF this 2(4)]
  with 2 show ?case
    by (auto simp: select_values_ran simp del: map_of.simps(2) split: option.splits)
qed simp

lemma refs_ran:
  assumes "keys_ok st"
  shows "ctx_refs st = ran (current_ctx \<circ>\<^sub>m resource_at st) \<union> ran (pending_ctx \<circ>\<^sub>m pending_at st)"
    and "txn_refs st = ran (stream_txn \<circ>\<^sub>m resource_at st) \<union> ran ((Some \<circ> pending_txn) \<circ>\<^sub>m pending_at st)"
    and "set (locks st) = ran (locked_txn \<circ>\<^sub>m resource_at st)"
  using assms by (simp_all add: keys_ok_def ctx_refs_def txn_refs_def currents_def locks_def select_values_ran)

lemma wf_frame [simp]:
  "worker_wf (st\<lparr>wk_caches := x\<rparr>) = worker_wf st" "worker_wf (st\<lparr>wk_accepting := a\<rparr>) = worker_wf st"
  "worker_wf (st\<lparr>wk_db := db\<rparr>) = worker_wf st"
  by (simp_all add: wf_defs)

lemma refs_frame [simp]:
  "ctx_refs (st\<lparr>wk_ctxs := x\<rparr>) = ctx_refs st" "txn_refs (st\<lparr>wk_ctxs := x\<rparr>) = txn_refs st"
  "ctx_refs (st\<lparr>wk_txns := y\<rparr>) = ctx_refs st" "txn_refs (st\<lparr>wk_txns := y\<rparr>) = txn_refs st"
  by (simp_all add: ctx_refs_def txn_refs_def currents_def)

lemma distinct_filter_key: "distinct (map fst xs) \<Longrightarrow> distinct (map fst (filter P xs))"
  by (induction xs) auto

lemma refs_live:
  assumes "worker_wf st"
  shows "ctx_refs st \<subseteq> keys (wk_ctxs st)" "txn_refs st \<union> keys (wk_ctxs st) \<subseteq> keys (wk_txns st)"
  using assms by (simp_all add: worker_wf_def refs_ran refs_ok_def)

lemma release_keys:
  assumes "worker_wf st"
  shows "keys (wk_ctxs (release st)) = ctx_refs st" "keys (wk_txns (release st)) = ctx_refs st \<union> txn_refs st"
  using refs_live [OF assms] by (auto simp: release_def drop_ctxs_def drop_txns_def)

lemma release_frame [simp]:
  "wk_resources (release st) = wk_resources st" "wk_pending (release st) = wk_pending st"
  "wk_sent (release st) = wk_sent st" "wk_jobs (release st) = wk_jobs st" "wk_db (release st) = wk_db st"
  "ctx_refs (release st) = ctx_refs st" "txn_refs (release st) = txn_refs st" "currents (release st) = currents st"
  "locks (release st) = locks st"
  by (simp_all add: release_def drop_ctxs_def drop_txns_def currents_def locks_def)

lemma wf_release:
  assumes "worker_wf st"
  shows "worker_wf (release st)"
proof -
  have "keys_ok (release st)"
    using assms by (simp add: worker_wf_def keys_ok_def release_def drop_ctxs_def drop_txns_def distinct_filter_key)
  moreover have "refs_ok (release st)"
    using assms by (simp add: refs_ok_def release_keys [OF assms] refs_ran worker_wf_def Un_assoc) blast
  ultimately show ?thesis
    using assms by (simp add: worker_wf_def owners_ok_def sent_ok_def)
qed

lemma ran_map_compI: "m k = Some v \<Longrightarrow> f v = Some x \<Longrightarrow> x \<in> ran (f \<circ>\<^sub>m m)"
  by (rule ranI [of _ k]) simp

lemma ran_upd_subsetI: "ran m \<subseteq> A \<Longrightarrow> set_option x \<subseteq> A \<Longrightarrow> ran (m(k := x)) \<subseteq> A"
  by (auto simp: ran_def split: if_splits)

lemma ran_upd_disjoint: "ran m \<inter> A = {} \<Longrightarrow> set_option x \<inter> A = {} \<Longrightarrow> ran (m(k := x)) \<inter> A = {}"
  using ran_upd_subsetI [of m "- A" x k] by blast

text \<open>A value that the key itself had is not the value of another key.\<close>

lemma unique_upd_same: "unique m \<Longrightarrow> x = None \<or> x = m k \<Longrightarrow> unique (m(k := x))"
  by (cases x) (auto intro: unique_upd simp: fun_upd_idem)

lemma map_comp_at [simp]: "m k = Some v \<Longrightarrow> (f \<circ>\<^sub>m m) k = f v"
  by simp

text \<open>
  What storing a resource needs.  Each condition is about the one value of the resource that the
  invariant reads.
\<close>

lemma wf_set_resource:
  assumes wf: "worker_wf st"
    and ctx: "set_option (current_ctx r) \<subseteq> keys (wk_ctxs st)" "set_option (stream_txn r) \<subseteq> keys (wk_txns st)"
    and uniq: "unique ((current_ctx \<circ>\<^sub>m resource_at st)(rid := current_ctx r))" "unique ((locked_txn \<circ>\<^sub>m resource_at st)(rid := locked_txn r))"
      "unique ((job_number \<circ>\<^sub>m resource_at st)(rid := job_number r))"
    and sent: "set_option (job_number r) \<subseteq> {..<wk_jobs st}" "set_option (unanswered r) \<inter> keys (wk_sent st) = {}"
  shows "worker_wf (set_resource rid r st)"
proof -
  have "refs_ok (set_resource rid r st)"
    using wf ctx by (simp add: wf_defs set_resource_def ran_upd_subsetI)
  moreover have "owners_ok (set_resource rid r st)"
    using uniq by (simp add: owners_ok_def set_resource_def)
  moreover have "sent_ok (set_resource rid r st)"
    using wf uniq sent by (simp add: wf_defs set_resource_def ran_upd_subsetI ran_upd_disjoint)
  ultimately show ?thesis
    using wf by (simp add: worker_wf_def keys_ok_def set_resource_def)
qed

lemma wf_resource:
  assumes "worker_wf st" "resource_at st rid = Some r"
  shows "set_option (current_ctx r) \<subseteq> keys (wk_ctxs st)" "set_option (stream_txn r) \<subseteq> keys (wk_txns st)"
    "set_option (job_number r) \<subseteq> {..<wk_jobs st}" "set_option (unanswered r) \<inter> keys (wk_sent st) = {}"
proof -
  have ran: "set_option (f r) \<subseteq> ran (f \<circ>\<^sub>m resource_at st)" for f :: "resource \<Rightarrow> nat option"
    using assms(2) by (auto simp: elem_set intro: ran_map_compI)
  show "set_option (current_ctx r) \<subseteq> keys (wk_ctxs st)" "set_option (stream_txn r) \<subseteq> keys (wk_txns st)"
    "set_option (job_number r) \<subseteq> {..<wk_jobs st}" "set_option (unanswered r) \<inter> keys (wk_sent st) = {}"
    using assms(1) ran [of current_ctx] ran [of stream_txn] ran [of job_number] ran [of unanswered]
    by (auto simp: wf_defs)
qed

lemma wf_unique:
  assumes "worker_wf st"
  shows "unique (current_ctx \<circ>\<^sub>m resource_at st)" "unique (locked_txn \<circ>\<^sub>m resource_at st)" "unique (job_number \<circ>\<^sub>m resource_at st)"
  using assms by (simp_all add: wf_defs)

text \<open>Replacing a job context that keeps its number and gains neither a data context nor a sender.\<close>

lemma wf_set_job:
  assumes "worker_wf st" "resource_at st rid = Some (RJob jc)"
    and "jc_job jc' = jc_job jc" "jc_response_tx jc' \<longrightarrow> jc_response_tx jc" "jc_current jc' = None \<or> jc_current jc' = jc_current jc"
  shows "worker_wf (set_resource rid (RJob jc') st)"
  using assms wf_resource [OF assms(1,2)] wf_unique [OF assms(1)]
  by (intro wf_set_resource unique_upd_same)
    (auto simp: current_ctx_def stream_txn_def locked_txn_def job_number_def unanswered_def map_comp_def)

lemma wf_set_stream:
  assumes "worker_wf st" "resource_at st rid = Some (RStream qs)" "qs_txn qs' = qs_txn qs"
    and "qs_rows qs' = None \<or> qs_rows qs \<noteq> None \<or> qs_txn qs \<notin> set (locks st)"
  shows "worker_wf (set_resource rid (RStream qs') st)"
proof -
  let ?m = "locked_txn \<circ>\<^sub>m resource_at st"
  have "unique (?m(rid := locked_txn (RStream qs')))"
  proof (cases "qs_rows qs' = None \<or> qs_rows qs \<noteq> None")
    case True
    then show ?thesis
      using assms(2,3) wf_unique(2) [OF assms(1)] by (intro unique_upd_same) (auto simp: locked_txn_def)
  next
    case False
    then have "qs_txn qs \<notin> ran ?m"
      using assms(1,4) by (auto simp: worker_wf_def refs_ran(3))
    then show ?thesis
      using assms(3) wf_unique(2) [OF assms(1)] by (intro unique_upd) (auto simp: locked_txn_def ran_def split: if_splits)
  qed
  then show ?thesis
    using assms wf_resource [OF assms(1,2)] wf_unique [OF assms(1)]
    by (intro wf_set_resource)
      (auto simp: current_ctx_def stream_txn_def job_number_def unanswered_def map_comp_def intro!: unique_upd_same)
qed

lemma wf_new_stream:
  assumes "worker_wf st" "rid \<notin> keys (wk_resources st)" "qs_txn qs \<in> keys (wk_txns st)" "qs_rows qs = None"
  shows "worker_wf (set_resource rid (RStream qs) st)"
  using assms wf_unique [OF assms(1)]
  by (intro wf_set_resource unique_upd_same)
    (auto simp: current_ctx_def stream_txn_def locked_txn_def job_number_def unanswered_def)

lemma wf_set_pending:
  assumes "worker_wf st" "pending_txn p \<in> keys (wk_txns st)" "set_option (pending_ctx p) \<subseteq> keys (wk_ctxs st)"
  shows "worker_wf (st\<lparr>wk_pending := al_insert pid p (wk_pending st)\<rparr>)"
  using assms by (simp add: wf_defs ran_upd_subsetI)

lemma wf_finish_pending: "worker_wf st \<Longrightarrow> worker_wf (snd (finish_pending pid r st))"
  by (simp add: wf_defs finish_pending_def ran_upd_subsetI)

lemma wf_set_txn: "worker_wf st \<Longrightarrow> c \<in> keys (wk_txns st) \<Longrightarrow> worker_wf (set_txn c t st)"
  by (simp add: wf_defs set_txn_def insert_absorb)

lemma wf_close: "worker_wf st \<Longrightarrow> worker_wf (close_resource rid st)"
  by (simp add: wf_defs close_resource_def ran_upd_subsetI ran_upd_disjoint unique_upd_same)

subsection \<open>Every operation keeps the worker well-formed\<close>

lemma get_job_Ok: "get_job st rid = Ok jc \<longleftrightarrow> resource_at st rid = Some (RJob jc)"
  by (auto simp: get_job_def bad_def split: option.splits resource.splits)

lemma get_stream_Ok: "get_stream st rid = Ok qs \<longleftrightarrow> resource_at st rid = Some (RStream qs)"
  by (auto simp: get_stream_def bad_def split: option.splits resource.splits)

lemma s_bind_cases:
  assumes "s_bind m f st = (r, st')"
  obtains (failed) r1 where "m st = (r1, st')" "\<And>x. r1 \<noteq> Ok x" | (ok) x st1 where "m st = (Ok x, st1)" "f x st1 = (r, st')"
  using assms by (auto simp: s_bind_def split: prod.splits result.splits)

text \<open>An operation that only changes policy instances.\<close>

definition caches_only :: "('g, 't, 'r, 'f, 'w) worker \<Rightarrow> ('g, 't, 'r, 'f, 'w) worker \<Rightarrow> bool" where
  "caches_only st st' \<longleftrightarrow> (\<exists>x. st' = st\<lparr>wk_caches := x\<rparr>)"

lemma caches_only_frame:
  assumes "caches_only st st'"
  shows "worker_wf st' = worker_wf st" "wk_ctxs st' = wk_ctxs st" "wk_txns st' = wk_txns st" "wk_resources st' = wk_resources st"
    "wk_pending st' = wk_pending st" "wk_db st' = wk_db st"
  using assms by (auto simp: caches_only_def)

lemma caches_only_refl [simp]: "caches_only st st"
  by (auto simp: caches_only_def intro: exI [of _ "wk_caches st"])

lemma with_policies_state: "with_policies c cl m st = (r, st') \<Longrightarrow> caches_only st st'"
  by (auto simp: with_policies_def caches_only_def split: if_splits prod.splits intro: exI [of _ "wk_caches st"])

lemma job_data_context_state: "job_data_context msg rid st = (r, st') \<Longrightarrow> st' = st"
  by (simp add: job_data_context_def)

lemma job_data_context_Ok:
  "job_data_context msg rid st = (Ok (c, cl), st') \<Longrightarrow> map_of (wk_ctxs st) c = Some cl \<and> c \<in> keys (wk_ctxs st)"
  by (auto simp: job_data_context_def deref_ctx_def bad_def r_bind_Ok_iff keys_map_of split: option.splits)

text \<open>The operations that wait for the lock of the job's transaction.\<close>

lemma wf_ctx_txn: "worker_wf st \<Longrightarrow> c \<in> keys (wk_ctxs st) \<Longrightarrow> c \<in> keys (wk_txns st)"
  using refs_live by blast

lemma wf_add_pending:
  assumes "worker_wf st" "caches_only st st1" "c \<in> keys (wk_ctxs st)" "pending_txn p = c" "pending_ctx p = None \<or> pending_ctx p = Some c"
  shows "worker_wf (snd (add_pending pid p st1))"
  unfolding add_pending_def snd_conv using assms caches_only_frame [OF assms(2)] wf_ctx_txn [OF assms(1,3)]
  by (intro wf_set_pending) auto

lemma wf_planned:
  assumes wf: "worker_wf st"
    and plan: "\<And>c cl st r st'. plan c cl st = (r, st') \<Longrightarrow> caches_only st st'"
    and go: "\<And>c cl x st'. c \<in> keys (wk_ctxs st) \<Longrightarrow> caches_only st st' \<Longrightarrow> worker_wf (snd (go c cl x st'))"
  shows "worker_wf (snd (s_bind (job_data_context msg rid) (\<lambda>(c, cl). s_bind (plan c cl) (go c cl)) st))"
proof -
  obtain r st' where st': "s_bind (job_data_context msg rid) (\<lambda>(c, cl). s_bind (plan c cl) (go c cl)) st = (r, st')"
    by (cases "s_bind (job_data_context msg rid) (\<lambda>(c, cl). s_bind (plan c cl) (go c cl)) st")
  then have "worker_wf st'"
  proof (cases rule: s_bind_cases)
    case (ok x st1)
    obtain c cl where x: "x = (c, cl)" by (cases x)
    with ok have c: "c \<in> keys (wk_ctxs st)" and st1: "st1 = st"
      using job_data_context_Ok job_data_context_state by blast+
    from ok(2) have "s_bind (plan c cl) (go c cl) st = (r, st')" by (simp add: x st1)
    then show ?thesis
    proof (cases rule: s_bind_cases)
      case (failed r1)
      then show ?thesis using wf plan caches_only_frame(1) by blast
    next
      case (ok y st2)
      then show ?thesis using go [OF c plan [OF ok(1)], of cl y] by simp
    qed
  qed (use wf in \<open>auto dest: job_data_context_state\<close>)
  with st' show ?thesis by simp
qed

lemma policies_then_state:
  "(let (r, st) = with_policies c cl m st in (g r, st)) = (r, st') \<Longrightarrow> caches_only st st'"
  by (auto split: prod.splits dest: with_policies_state)

lemma wf_lift:
  assumes "worker_wf st" "\<And>x. r = Ok x \<Longrightarrow> worker_wf (snd (f x st))"
  shows "worker_wf (snd (s_bind (s_lift r) f st))"
  using assms by (cases r) (auto simp: s_bind_def s_lift_def)

lemma s_lift_state: "s_lift r st = (r', st') \<Longrightarrow> caches_only st st'"
  by (simp add: s_lift_def)

lemma wf_store:
  assumes "worker_wf st"
  shows "worker_wf (snd (op_chisel_store env name v8 rid pid st))"
  unfolding op_chisel_store_def
proof (rule wf_lift [OF assms], rule wf_lift [OF assms], rule wf_lift [OF assms])
  fix val jc ty
  show "worker_wf (snd (s_bind (job_data_context ''No transaction in the current context'' rid) (\<lambda>(c, cl).
     s_bind (s_lift (map_err OtherError (ev_as_map val))) (\<lambda>rec. add_pending pid
       (if dc_typescript_policies (ce_ctx cl) then PStoreCheck c (entity_object ty) rec else PStoreInsert c (entity_object ty) rec))) st))"
    by (rule wf_planned [OF assms s_lift_state wf_add_pending [OF assms]]) (auto simp: pending_txn_def pending_ctx_def)
qed

lemma wf_delete:
  assumes "worker_wf st"
  shows "worker_wf (snd (op_chisel_delete env name filter_expr rid pid st))"
    and "worker_wf (snd (op_chisel_crud_delete env name url_query rid pid st))"
    and "worker_wf (snd (op_chisel_crud_query env params rid pid st))"
  unfolding op_chisel_delete_def op_chisel_crud_delete_def op_chisel_crud_query_def
  by (rule wf_planned [OF assms policies_then_state wf_add_pending [OF assms]]
        wf_planned [OF assms with_policies_state wf_add_pending [OF assms]],
      auto simp: pending_txn_def pending_ctx_def)+

lemma wf_query_create:
  assumes "worker_wf st" "new_rid \<notin> keys (wk_resources st)"
  shows "worker_wf (snd (op_chisel_relational_query_create env chain rid new_rid st))"
  unfolding op_chisel_relational_query_create_def
proof (rule wf_planned [OF assms(1) with_policies_state])
  fix c cl st' and plan :: query_plan
  assume c: "c \<in> keys (wk_ctxs st)" and st': "caches_only st st'"
  note frame = caches_only_frame [OF st']
  have "worker_wf (set_resource new_rid (RStream \<lparr>qs_txn = c, qs_ty = base_type plan, qs_query = q, qs_rows = None, qs_next = None\<rparr>) st')" for q
    using assms frame wf_ctx_txn [OF assms(1) c] by (intro wf_new_stream) simp_all
  then show "worker_wf (snd (s_bind (s_lift (map_err OtherError (build_query (en_printer (we_engine env)) plan (en_target (we_engine env)))))
      (\<lambda>q st. (Ok new_rid, set_resource new_rid (RStream \<lparr>qs_txn = c, qs_ty = base_type plan, qs_query = q, qs_rows = None, qs_next = None\<rparr>) st)) st'))"
    using assms(1) frame(1) by (simp add: s_bind_def s_lift_def split: result.split)
qed

lemma wf_received:
  assumes "worker_wf st" "rid \<notin> keys (wk_resources st)"
  shows "worker_wf (job_received job rid st)"
proof (cases job)
  case (Some j)
  let ?st = "st\<lparr>wk_accepting := False, wk_jobs := wk_jobs st + 1\<rparr>"
  have wf: "worker_wf ?st"
    using assms(1) by (auto simp: wf_defs)
  have "wk_jobs st \<notin> ran (job_number \<circ>\<^sub>m resource_at st)" "wk_jobs st \<notin> keys (wk_sent st)"
    using assms(1) by (auto simp: wf_defs)
  then have "unique ((job_number \<circ>\<^sub>m resource_at st)(rid := Some (wk_jobs st)))"
    using wf_unique(3) [OF assms(1)] by (intro unique_upd) (auto simp: ran_def split: if_splits)
  with Some show ?thesis
    using wf wf_unique [OF assms(1)] \<open>wk_jobs st \<notin> keys (wk_sent st)\<close> unfolding job_received_def Let_def
    by (auto intro!: wf_set_resource intro: unique_upd_same
        simp: current_ctx_def stream_txn_def locked_txn_def job_number_def unanswered_def split: if_splits version_job.splits)
qed (use assms in \<open>simp add: job_received_def\<close>)

lemma wf_respond:
  assumes "worker_wf st"
  shows "worker_wf (snd (op_chisel_http_respond rid response st))"
proof (cases "get_job st rid")
  case (Ok jc)
  then have jc: "resource_at st rid = Some (RJob jc)" by (simp add: get_job_Ok)
  have "worker_wf (set_resource rid (RJob (jc\<lparr>jc_response_tx := False\<rparr>)) (st\<lparr>wk_sent := (jc_job jc, response) # wk_sent st\<rparr>))" if tx: "jc_response_tx jc"
  proof -
    let ?jc = "RJob (jc\<lparr>jc_response_tx := False\<rparr>)"
    have wf: "worker_wf (set_resource rid ?jc st)"
      using assms jc by (intro wf_set_job) auto
    have number: "(job_number \<circ>\<^sub>m resource_at st) rid = Some (jc_job jc)"
      using jc by (simp add: job_number_def)
    have "jc_job jc \<notin> ran ((unanswered \<circ>\<^sub>m resource_at st)(rid := None))"
      using unique_ran_remove [OF wf_unique(3) [OF assms] number]
      by (force simp: ran_def map_comp_def unanswered_def job_number_def split: option.splits resource.splits if_splits)
    moreover have "jc_job jc < wk_jobs st" "jc_job jc \<notin> keys (wk_sent st)"
      using wf_resource(3,4) [OF assms jc] tx by (auto simp: job_number_def unanswered_def)
    ultimately show ?thesis
      using wf by (auto simp: wf_defs set_resource_def unanswered_def keys_def)
  qed
  with Ok show ?thesis
    using assms by (simp add: op_chisel_http_respond_def split: job_info.split)
qed (use assms in \<open>simp_all add: op_chisel_http_respond_def\<close>)

lemma wf_begin:
  assumes "worker_wf st" "c \<notin> keys (wk_txns st)"
  shows "worker_wf (snd (op_chisel_begin_transaction env rid c st))"
proof -
  have "worker_wf (set_resource rid (RJob (jc\<lparr>jc_current := Some c\<rparr>))
      (st\<lparr>wk_ctxs := al_insert c cl (wk_ctxs st), wk_txns := al_insert c t (wk_txns st), wk_caches := x\<rparr>))"
    if jc: "resource_at st rid = Some (RJob jc)" for jc t cl x
  proof -
    let ?st = "st\<lparr>wk_ctxs := al_insert c cl (wk_ctxs st), wk_txns := al_insert c t (wk_txns st), wk_caches := x\<rparr>"
    have "worker_wf ?st" using assms(1) by (auto simp: wf_defs)
    moreover have "c \<notin> ran (current_ctx \<circ>\<^sub>m resource_at st)"
      using assms by (auto simp: wf_defs)
    then have "unique ((current_ctx \<circ>\<^sub>m resource_at st)(rid := Some c))"
      using wf_unique(1) [OF assms(1)] by (intro unique_upd) (auto simp: ran_def split: if_splits)
    ultimately show ?thesis
      using jc wf_resource [OF assms(1) jc] wf_unique [OF assms(1)]
      by (intro wf_set_resource)
        (auto simp: current_ctx_def stream_txn_def locked_txn_def job_number_def unanswered_def map_comp_def intro!: unique_upd_same)
  qed
  with assms(1) show ?thesis
    by (auto simp: op_chisel_begin_transaction_def result_simps get_job_Ok split: result.splits)
qed

lemma wf_end:
  assumes "worker_wf st" and finish: "\<And>t st. worker_wf st \<Longrightarrow> worker_wf (snd (finish t st))"
  shows "worker_wf (snd (end_transaction msg finish rid st))"
proof (cases "get_job st rid")
  case (Ok jc)
  then have jc: "resource_at st rid = Some (RJob jc)" by (simp add: get_job_Ok)
  let ?st = "set_resource rid (RJob (jc\<lparr>jc_current := None\<rparr>)) st"
  have wf: "worker_wf ?st"
    using assms(1) jc by (intro wf_set_job) auto
  have "worker_wf (?st\<lparr>wk_ctxs := al_remove c (wk_ctxs ?st), wk_txns := al_remove c (wk_txns ?st)\<rparr>)"
    if "c \<notin> ctx_refs ?st" "c \<notin> txn_refs ?st" for c
    using wf that by (auto simp: wf_defs refs_ran)
  with Ok wf show ?thesis
    by (auto simp: end_transaction_def Let_def assms(1) intro: finish split: option.splits result.splits)
qed (use assms in \<open>simp_all add: end_transaction_def\<close>)

lemma next_row_frame: "next_row qs rows = (r, qs') \<Longrightarrow> qs_txn qs' = qs_txn qs"
  by (auto simp: next_row_def split: list.splits result.splits)

lemma wf_query_next:
  assumes "worker_wf st" "can_poll st rid"
  shows "worker_wf (snd (op_chisel_query_next env rid st))"
proof -
  have "worker_wf (set_resource rid (RStream qs') st)"
    if "resource_at st rid = Some (RStream qs)" "next_row qs rows = (r, qs')" for qs rows r qs'
    using assms that next_row_frame [OF that(2)] by (intro wf_set_stream) (auto simp: can_poll_def)
  with assms(1) show ?thesis
    by (auto simp: op_chisel_query_next_def result_simps get_stream_Ok split: result.splits prod.splits)
qed

lemma wf_validated_value: "worker_wf st \<Longrightarrow> worker_wf (snd (validated_value env ty_name rid v st))"
  by (auto simp: validated_value_def Let_def s_lift_def caches_only_frame(1) intro!: wf_planned [OF _ with_policies_state])

lemma wf_query_get_value:
  assumes "worker_wf st"
  shows "worker_wf (snd (op_chisel_query_get_value env stream_rid rid st))"
proof -
  have "worker_wf (set_resource stream_rid (RStream (qs\<lparr>qs_next := None\<rparr>)) st)" if "get_stream st stream_rid = Ok qs" for qs
    using assms that by (intro wf_set_stream) (auto simp: get_stream_Ok)
  then show ?thesis
    using assms by (auto simp: op_chisel_query_get_value_def Let_def intro: wf_validated_value split: result.split option.split)
qed

lemma wf_poll:
  assumes "worker_wf st" "pending_at st pid = Some p" "map_of (wk_txns st) (pending_txn p) = Some t"
  shows "worker_wf (snd (poll_pending env pid p n t st))"
proof -
  have txn: "pending_txn p \<in> keys (wk_txns st)"
    using assms(3) by (auto simp: keys_map_of)
  have set: "worker_wf (snd (finish_pending pid r (set_txn (pending_txn p) t' st)))" for t' and r :: "op_answer option pol_res"
    using assms(1) txn by (intro wf_finish_pending wf_set_txn)
  show ?thesis
  proof (cases p)
    case (PStoreCheck c ty rec)
    have ctx: "c \<in> keys (wk_ctxs st)"
      using assms(1,2) PStoreCheck ran_map_compI [of "pending_at st" pid p pending_ctx c]
      by (auto simp: wf_defs pending_ctx_def)
    obtain r st1 where st1: "s_bind (s_lift (deref_ctx st c)) (\<lambda>(c, cl).
        with_policies c cl (write_policies (we_exists_id env t) (ce_ctx cl) ty rec)) st = (r, st1)"
      by (cases "s_bind (s_lift (deref_ctx st c)) (\<lambda>(c, cl).
        with_policies c cl (write_policies (we_exists_id env t) (ce_ctx cl) ty rec)) st")
    then have only: "caches_only st st1"
      by (auto simp: s_bind_def s_lift_def split: result.splits dest: with_policies_state)
    have "worker_wf (st1\<lparr>wk_pending := al_insert pid (PStoreInsert c ty rec') (wk_pending st1)\<rparr>)" for rec'
      using wf_add_pending [OF assms(1) only ctx, of "PStoreInsert c ty rec'" pid]
      by (simp add: add_pending_def pending_txn_def pending_ctx_def)
    then show ?thesis
      using PStoreCheck st1 caches_only_frame(1) [OF only] assms(1)
      by (auto simp: poll_pending_def intro: wf_finish_pending split: result.splits)
  next
    case (PCrudQuery c cl params q)
    then show ?thesis
      using assms(1) by (auto simp: poll_pending_def split: prod.splits intro!: wf_finish_pending dest!: with_policies_state simp: caches_only_frame(1))
  qed (use set in \<open>auto simp: poll_pending_def pending_txn_def split: prod.splits\<close>)
qed

lemma wf_accept: "worker_wf st \<Longrightarrow> worker_wf (snd (op_chisel_accept_job st))"
  by (simp add: op_chisel_accept_job_def)

lemma wf_commit: "worker_wf st \<Longrightarrow> worker_wf (snd (op_chisel_commit_transaction env rid st))"
  unfolding op_chisel_commit_transaction_def by (rule wf_end) (auto split: prod.split)

lemma wf_rollback: "worker_wf st \<Longrightarrow> worker_wf (snd (op_chisel_rollback_transaction rid st))"
  unfolding op_chisel_rollback_transaction_def by (rule wf_end) auto

lemmas wf_ops = wf_accept wf_received wf_respond wf_begin wf_commit wf_rollback wf_store wf_delete wf_poll wf_query_create
  wf_query_next wf_query_get_value wf_close

definition worker_inv :: "('g, 't, 'r, 'f, 'w) worker \<Rightarrow> bool" where
  "worker_inv st \<longleftrightarrow> worker_wf st \<and> keys (wk_ctxs st) = ctx_refs st \<and> keys (wk_txns st) = ctx_refs st \<union> txn_refs st"

lemma inv_release: "worker_wf st \<Longrightarrow> worker_inv (release st)"
  by (simp add: worker_inv_def wf_release release_keys)

lemma step_inv: "step env st st' \<Longrightarrow> worker_wf st \<Longrightarrow> worker_inv st'"
  by (cases rule: step.cases) (auto intro!: inv_release intro: wf_ops)

lemma init_inv: "worker_inv (worker_init db)"
  by (auto simp: worker_inv_def wf_defs worker_init_def unique_def map_comp_def ctx_refs_def txn_refs_def currents_def)

lemma reachable_inv: "reachable env st \<Longrightarrow> worker_inv st"
  by (induction rule: reachable.induct) (auto intro: init_inv step_inv simp: worker_inv_def [THEN iffD1])

text \<open>
  What an operation does to the database: nothing, unless it commits.
\<close>

lemma db_frame [simp]:
  "wk_db (set_resource rid r st) = wk_db st" "wk_db (set_txn c t st) = wk_db st" "wk_db (close_resource rid st) = wk_db st"
  "wk_db (snd (finish_pending pid x st)) = wk_db st" "wk_db (snd (add_pending pid p st)) = wk_db st"
  by (simp_all add: set_resource_def set_txn_def close_resource_def finish_pending_def add_pending_def)

definition keeps_db :: "(('g, 't, 'r, 'f, 'w) worker \<Rightarrow> 'a pol_res \<times> ('g, 't, 'r, 'f, 'w) worker) \<Rightarrow> bool" where
  "keeps_db m \<longleftrightarrow> (\<forall>st. wk_db (snd (m st)) = wk_db st)"

lemma keeps_db_bind: "keeps_db m \<Longrightarrow> (\<And>x. keeps_db (f x)) \<Longrightarrow> keeps_db (s_bind m f)"
  unfolding keeps_db_def s_bind_def by (auto split: prod.splits result.splits) (metis snd_conv)+

lemma keeps_db_basic:
  "keeps_db (s_lift r)" "keeps_db (with_policies c cl m)" "keeps_db (job_data_context msg rid)" "keeps_db (add_pending pid p)"
  by (auto simp: keeps_db_def s_lift_def job_data_context_def with_policies_def split: prod.split)

lemma keeps_dbD: "keeps_db m \<Longrightarrow> wk_db (snd (m st)) = wk_db st"
  by (simp add: keeps_db_def)

lemma keeps_db_case_prod: "(\<And>a b. keeps_db (f a b)) \<Longrightarrow> keeps_db (case p of (a, b) \<Rightarrow> f a b)"
  by (cases p) simp

lemma keeps_db_then: "keeps_db m \<Longrightarrow> keeps_db (\<lambda>st. let (r, st) = m st in (g r, st))"
  by (auto simp: keeps_db_def split: prod.splits) (metis snd_conv)

lemma keeps_db_create: "keeps_db (\<lambda>st. (Ok rid', set_resource rid' r st))"
  by (simp add: keeps_db_def)

lemmas keeps_db_intros = keeps_db_bind keeps_db_basic keeps_db_case_prod keeps_db_then keeps_db_create

lemma planned_db:
  "wk_db (snd (op_chisel_store env name v8 rid pid st)) = wk_db st"
  "wk_db (snd (op_chisel_delete env name filter_expr rid pid st)) = wk_db st"
  "wk_db (snd (op_chisel_crud_delete env name url_query rid pid st)) = wk_db st"
  "wk_db (snd (op_chisel_crud_query env params rid pid st)) = wk_db st"
  "wk_db (snd (op_chisel_relational_query_create env chain rid new_rid st)) = wk_db st"
  unfolding op_chisel_store_def op_chisel_delete_def op_chisel_crud_delete_def op_chisel_crud_query_def
    op_chisel_relational_query_create_def
  by (intro keeps_dbD keeps_db_intros)+

lemma get_value_db: "wk_db (snd (op_chisel_query_get_value env stream_rid rid st)) = wk_db st"
proof -
  have "keeps_db (validated_value env ty_name rid v)" for ty_name v
    unfolding validated_value_def Let_def by (cases "dc_typescript_policies (we_context env)") (simp_all add: keeps_db_intros)
  note this [THEN keeps_dbD]
  then show ?thesis
    by (simp add: op_chisel_query_get_value_def Let_def split: result.split option.split)
qed

lemma direct_db:
  "wk_db (snd (op_chisel_accept_job st)) = wk_db st" "wk_db (job_received job rid st) = wk_db st"
  "wk_db (snd (op_chisel_http_respond rid response st)) = wk_db st"
  "wk_db (snd (op_chisel_begin_transaction env rid c st)) = wk_db st"
  "wk_db (snd (op_chisel_rollback_transaction rid st)) = wk_db st"
  "wk_db (snd (op_chisel_query_next env rid st)) = wk_db st"
  by (auto simp: op_chisel_accept_job_def job_received_def op_chisel_http_respond_def op_chisel_begin_transaction_def
      op_chisel_rollback_transaction_def end_transaction_def op_chisel_query_next_def Let_def
      split: result.splits option.splits job_info.splits prod.splits)

lemma with_policies_db: "with_policies c cl m st = (r, st') \<Longrightarrow> wk_db st' = wk_db st"
  by (auto dest!: with_policies_state simp: caches_only_frame)

lemma finish_db: "wk_db (snd (case x of (Ok a, st) \<Rightarrow> (Ok None, f a st) | (Err e, st) \<Rightarrow> finish_pending pid (Err e) st
    | (Panic s, st) \<Rightarrow> finish_pending pid (Panic s) st)) = wk_db (snd x)" if "\<And>a st. wk_db (f a st) = wk_db st"
  using that by (auto split: prod.split result.split)

lemma poll_db: "wk_db (snd (poll_pending env pid p n t st)) = wk_db st"
proof (cases p)
  case (PStoreCheck c ty rec)
  have "keeps_db (s_bind (s_lift (deref_ctx st c)) (\<lambda>(c, cl). with_policies c cl (write_policies (we_exists_id env t) (ce_ctx cl) ty rec)))"
    by (intro keeps_db_intros)
  note keeps_dbD [OF this, of st]
  with PStoreCheck show ?thesis
    by (simp add: poll_pending_def finish_db)
qed (auto simp: poll_pending_def split: prod.splits dest: with_policies_db)

lemmas op_db = planned_db get_value_db direct_db poll_db

subsection \<open>Transactions of a worker\<close>

text \<open>
  C29. In every reachable state the data contexts and transactions that are alive are exactly those
  that a job, a waiting operation or a stream refers to: nothing uses a transaction after it was
  committed or rolled back, and one that is no longer used is gone.  A data context belongs to at
  most one job, at most one stream holds the lock of a transaction, and a request has been answered
  at most once.
\<close>

theorem worker_safe:
  assumes "reachable env st"
  shows "keys (wk_ctxs st) = ctx_refs st \<and> keys (wk_txns st) = ctx_refs st \<union> txn_refs st \<and>
    distinct (currents st) \<and> distinct (locks st) \<and> distinct (map fst (wk_sent st))"
proof -
  have inv: "worker_inv st" using assms by (rule reachable_inv)
  then have "distinct (currents st)" "distinct (locks st)"
    unfolding currents_def locks_def worker_inv_def wf_defs by (simp_all add: select_values_distinct)
  with inv show ?thesis by (simp add: worker_inv_def wf_defs)
qed

lemma txn_refs_set_job:
  assumes "keys_ok st" "resource_at st rid = Some (RJob jc)"
  shows "txn_refs (set_resource rid (RJob jc') st) = txn_refs st"
proof -
  have "keys_ok (set_resource rid (RJob jc') st)"
    using assms(1) by (simp add: keys_ok_def set_resource_def)
  moreover have "(stream_txn \<circ>\<^sub>m resource_at st)(rid := None) = stream_txn \<circ>\<^sub>m resource_at st"
    using assms(2) by (intro fun_upd_idem) (simp add: stream_txn_def)
  ultimately show ?thesis
    using assms(1) by (simp add: refs_ran set_resource_def stream_txn_def)
qed

lemma pending_ctx_txn: "ran (pending_ctx \<circ>\<^sub>m m) \<subseteq> ran ((Some \<circ> pending_txn) \<circ>\<^sub>m m)"
proof
  fix c
  assume "c \<in> ran (pending_ctx \<circ>\<^sub>m m)"
  then obtain k p where "m k = Some p" "pending_ctx p = Some c"
    by (auto simp: ran_def map_comp_Some_iff)
  moreover from this have "pending_txn p = c"
    by (cases p) (auto simp: pending_ctx_def pending_txn_def)
  ultimately show "c \<in> ran ((Some \<circ> pending_txn) \<circ>\<^sub>m m)"
    by (auto intro: ran_map_compI)
qed

lemma ctx_refs_taken:
  assumes "worker_wf st" "resource_at st rid = Some (RJob jc)" "jc_current jc = Some c"
    and "c \<in> ctx_refs (set_resource rid (RJob (jc\<lparr>jc_current := None\<rparr>)) st)"
  shows "c \<in> txn_refs st"
proof -
  let ?st = "set_resource rid (RJob (jc\<lparr>jc_current := None\<rparr>)) st"
  have ok: "keys_ok st" "keys_ok ?st"
    using assms(1) by (simp_all add: worker_wf_def keys_ok_def set_resource_def)
  have "c \<notin> ran ((current_ctx \<circ>\<^sub>m resource_at st)(rid := None))"
    using assms(2,3) by (intro unique_ran_remove [OF wf_unique(1) [OF assms(1)]]) (simp add: current_ctx_def)
  with assms(4) have "c \<in> ran (pending_ctx \<circ>\<^sub>m pending_at st)"
    unfolding refs_ran(1) [OF ok(2)] by (simp add: set_resource_def current_ctx_def)
  then show ?thesis
    using pending_ctx_txn by (auto simp: refs_ran(2) [OF ok(1)])
qed

lemma commit_result:
  assumes wf: "worker_wf st" and "get_job st rid = Ok jc" "jc_current jc = Some c"
    and "op_chisel_commit_transaction env rid st = (r, st')"
  shows "get_job st' rid = Ok (jc\<lparr>jc_current := None\<rparr>) \<and>
    (if c \<in> txn_refs st then (\<exists>e. r = Err e) \<and> wk_db st' = wk_db st
     else (\<exists>t. map_of (wk_txns st) c = Some t \<and> map_of (wk_txns st') c = None \<and>
             r = map_err OtherError (fst (we_commit env t (wk_db st))) \<and> wk_db st' = snd (we_commit env t (wk_db st))))"
proof -
  have jc: "resource_at st rid = Some (RJob jc)" using assms(2) by (simp add: get_job_Ok)
  let ?st = "set_resource rid (RJob (jc\<lparr>jc_current := None\<rparr>)) st"
  have txn: "txn_refs ?st = txn_refs st"
    using wf jc by (simp add: txn_refs_set_job worker_wf_def)
  have ctx: "c \<in> ctx_refs ?st \<Longrightarrow> c \<in> txn_refs st"
    using ctx_refs_taken [OF wf jc assms(3)] .
  have "c \<in> keys (wk_txns st)"
    using wf_resource(1) [OF wf jc] wf_ctx_txn [OF wf] assms(3) by (simp add: current_ctx_def)
  then obtain t where t: "map_of (wk_txns st) c = Some t" by (auto simp: keys_map_of)
  have "deref_txn ?st c = Ok t" "wk_db ?st = wk_db st" and job: "get_job (?st\<lparr>wk_ctxs := x, wk_txns := y, wk_db := z\<rparr>) rid = Ok (jc\<lparr>jc_current := None\<rparr>)"
    "get_job ?st rid = Ok (jc\<lparr>jc_current := None\<rparr>)" for x y z
    by (simp_all add: deref_txn_def set_resource_def t get_job_def)
  then have "op_chisel_commit_transaction env rid st =
      (if c \<in> ctx_refs ?st then (bad ''Cannot commit because a reference to the transaction is still being held.'', ?st)
       else if c \<in> txn_refs st
       then (bad ''Cannot commit a transaction because there is an operation in progress that uses this transaction'', ?st)
       else (map_err OtherError (fst (we_commit env t (wk_db st))),
             ?st\<lparr>wk_ctxs := al_remove c (wk_ctxs ?st), wk_txns := al_remove c (wk_txns ?st), wk_db := snd (we_commit env t (wk_db st))\<rparr>))"
    by (simp add: op_chisel_commit_transaction_def end_transaction_def assms(2,3) Let_def txn split: prod.split)
  with assms(4) ctx t job show ?thesis
    by (auto simp: bad_def split: if_splits)
qed

lemma reachable_wf: "reachable env st \<Longrightarrow> worker_wf st"
  using reachable_inv by (auto simp: worker_inv_def)

text \<open>
  What committing does, in every reachable state of a worker: the job has no transaction
  afterwards, whatever happens.  If a waiting operation or an open stream still uses the transaction,
  the commit fails and the database stays as it was: the work of the transaction is lost.  Otherwise
  the state of the transaction is committed, and the answer is that of the database.
\<close>

theorem commit_outcome:
  assumes "reachable env st" "get_job st rid = Ok jc" "jc_current jc = Some c"
    and "op_chisel_commit_transaction env rid st = (r, st')"
  shows "get_job st' rid = Ok (jc\<lparr>jc_current := None\<rparr>) \<and>
    (if c \<in> txn_refs st then (\<exists>e. r = Err e) \<and> wk_db st' = wk_db st
     else (\<exists>t. map_of (wk_txns st) c = Some t \<and> map_of (wk_txns st') c = None \<and>
             r = map_err OtherError (fst (we_commit env t (wk_db st))) \<and> wk_db st' = snd (we_commit env t (wk_db st))))"
  using commit_result [OF reachable_wf] assms by blast

lemma commit_no_job:
  "(\<And>jc. get_job st rid = Ok jc \<Longrightarrow> jc_current jc = None) \<Longrightarrow> wk_db (snd (op_chisel_commit_transaction env rid st)) = wk_db st"
  by (auto simp: op_chisel_commit_transaction_def end_transaction_def split: result.splits)


subsection \<open>A worker with an open transaction\<close>

definition counting_env :: "(sql_value, nat, unit, string, unit, unit) worker_env" where
  "counting_env = \<lparr>we_engine = value_env, we_exec = (\<lambda>_ t. (Ok (), t)), we_execute = (\<lambda>_ t. (Ok (), t)),
     we_exists_id = (\<lambda>_ _ _. Ok False), we_begin = (\<lambda>_. Ok ()), we_commit = (\<lambda>_ n. (Ok (), n + 1)), we_codec = id_codec,
     we_stack = 1, we_str_fits = (\<lambda>_. True), we_date_fits = (\<lambda>_. True), we_version_id = ''dev'', we_context = blog_context\<rparr>"

definition sample_worker :: "(nat, unit, string, unit, unit) worker" where
  "sample_worker =
     release (snd (op_chisel_begin_transaction counting_env 0 0
       (release (job_received (Some JobKafka) 0
         (release (snd (op_chisel_accept_job (worker_init 0))))))))"

lemma sample_worker_eq:
  "sample_worker = \<lparr>wk_db = 0, wk_txns = [(0, ())], wk_ctxs = [(0, create_data_context counting_env KafkaEvent)], wk_caches = (\<lambda>_. []),
     wk_resources = [(0, RJob \<lparr>jc_job = 0, jc_info = KafkaEvent, jc_response_tx = False, jc_current = Some 0\<rparr>)], wk_pending = [],
     wk_accepting = False, wk_jobs = 1, wk_sent = []\<rparr>"
  by (simp add: sample_worker_def worker_init_def op_chisel_accept_job_def job_received_def op_chisel_begin_transaction_def
      release_def drop_ctxs_def drop_txns_def set_resource_def get_job_def job_info_of_def counting_env_def
      ctx_refs_def txn_refs_def currents_def current_ctx_def stream_txn_def fun_upd_idem)

lemma sample_reachable: "reachable counting_env sample_worker"
proof -
  let ?s1 = "release (snd (op_chisel_accept_job (worker_init 0))) :: (nat, unit, string, unit, unit) worker"
  let ?s2 = "release (job_received (Some JobKafka) 0 ?s1)"
  note eval = worker_init_def op_chisel_accept_job_def job_received_def release_def drop_ctxs_def drop_txns_def set_resource_def
  have s1: "reachable counting_env ?s1"
    by (rule reachable_step [OF reachable_init step.accept])
  have "step counting_env ?s1 ?s2"
    by (rule step.received) (simp_all add: eval)
  note s2 = reachable_step [OF s1 this]
  have "step counting_env ?s2 sample_worker"
    unfolding sample_worker_def by (rule step.begin_txn) (simp add: eval)
  then show ?thesis by (rule reachable_step [OF s2])
qed

theorem worker_safe_witness: "keys (wk_txns sample_worker) = {0} \<and> distinct (currents sample_worker)"
  using worker_safe [OF sample_reachable] by (simp add: sample_worker_eq ctx_refs_def txn_refs_def currents_def current_ctx_def stream_txn_def)

theorem commit_outcome_witness: "wk_db (snd (op_chisel_commit_transaction counting_env 0 sample_worker)) = 1"
  using commit_outcome [OF sample_reachable, of 0 "\<lparr>jc_job = 0, jc_info = KafkaEvent, jc_response_tx = False, jc_current = Some 0\<rparr>" 0
      "fst (op_chisel_commit_transaction counting_env 0 sample_worker)" "snd (op_chisel_commit_transaction counting_env 0 sample_worker)"]
  by (simp add: sample_worker_eq get_job_def txn_refs_def stream_txn_def counting_env_def)


text \<open>
  A row that a read policy skips comes back from the operation as \<open>null\<close>, which is also what it
  gives at the end of the stream.
\<close>

lemma skipped_row_is_null:
  assumes "get_stream st stream_rid = Ok qs" "qs_next qs = Some v" "dc_typescript_policies (we_context env)"
    and "job_data_context ''No transaction in the current context'' rid (set_resource stream_rid (RStream (qs\<lparr>qs_next := None\<rparr>)) st) = (Ok (c, cl), st1)"
    and "with_policies c cl (read_entity (ce_ctx cl) (entity_name (qs_ty qs)) v) st1 = (Ok None, st2)"
  shows "fst (op_chisel_query_get_value env stream_rid rid st) = Ok V8Null"
  using assms by (simp add: op_chisel_query_get_value_def Let_def validated_value_def s_bind_def s_lift_def)

lemma end_of_stream_is_null:
  assumes "get_stream st stream_rid = Ok qs" "qs_next qs = None"
  shows "fst (op_chisel_query_get_value env stream_rid rid st) = Ok V8Null"
  using assms by (simp add: op_chisel_query_get_value_def Let_def)

end
