(* ===== verification/Meta.thy ===== *)
theory Meta
  imports Query_Plan
begin

text \<open>
  \<open>server/src/datastore/meta/\<close>: the metadata store.  Types, fields, labels, indexes, policies,
  modules and versions are rows of tables; the server writes them when a version is applied and
  reads them back when it starts.

  A table is the list of its rows, and a SELECT returns rows in the order of the list.  The
  statements follow the schema of \<open>meta/migrate.rs\<close>: unique columns, primary keys, and foreign keys
  with ON DELETE CASCADE.  A failing statement ends the transaction, so an operation is a function
  from the tables to the new tables or an error.  \<open>new_id\<close> is the database's choice of a key for
  a new row, given the keys in use.
\<close>

subsection \<open>The tables\<close>

record field_row =
  fr_id :: i32
  fr_type :: string
  fr_type_id :: i32
  fr_default :: "string option"
  fr_is_optional :: bool
  fr_is_unique :: bool

record meta_db =
  md_types :: "(i32 \<times> string) list"
  md_type_names :: "(i32 \<times> string) list"
  md_fields :: "field_row list"
  md_field_names :: "(string \<times> i32) list"
  md_field_labels :: "(string \<times> i32) list"
  md_indexes :: "(i32 \<times> i32 \<times> string) list"
  md_policies :: "(string \<times> string) list"
  md_policy_store :: "(string \<times> string) list"
  md_modules :: "(string \<times> string \<times> string) list"
  md_api_info :: "(string \<times> version_info) list"

type_synonym new_id = "i32 list \<Rightarrow> i32 res"

text \<open>The error context of \<open>execute\<close>, \<open>fetch_one\<close> and \<open>fetch_all\<close>.\<close>

definition constraint :: "bool \<Rightarrow> unit res" where
  "constraint b = ensure b (Context ''Failed to execute query {}'' (Bail ''constraint failed'' []))"

text \<open>DELETE on tables that others refer to.\<close>

definition delete_fields :: "(field_row \<Rightarrow> bool) \<Rightarrow> meta_db \<Rightarrow> meta_db" where
  "delete_fields P db =
     (let gone = fr_id ` set (filter P (md_fields db)) in
      db\<lparr>md_fields := filter (\<lambda>r. \<not> P r) (md_fields db),
         md_field_names := filter (\<lambda>(_, i). i \<notin> gone) (md_field_names db),
         md_field_labels := filter (\<lambda>(_, i). i \<notin> gone) (md_field_labels db)\<rparr>)"

definition delete_types :: "i32 \<Rightarrow> meta_db \<Rightarrow> meta_db" where
  "delete_types tid db =
     (let db = db\<lparr>md_types := filter (\<lambda>(i, _). i \<noteq> tid) (md_types db),
                  md_type_names := filter (\<lambda>(i, _). i \<noteq> tid) (md_type_names db),
                  md_indexes := filter (\<lambda>(_, i, _). i \<noteq> tid) (md_indexes db)\<rparr>
      in delete_fields (\<lambda>r. fr_type_id r = tid) db)"

subsection \<open>Writing fields, indexes and types\<close>

definition update_attrs :: "i32 \<Rightarrow> field_attr_delta \<Rightarrow> field_row \<Rightarrow> field_row" where
  "update_attrs field_id attrs r =
     (if fr_id r \<noteq> field_id then r
      else r\<lparr>fr_type := type_id_name (fad_type_id attrs), fr_is_optional := fad_is_optional attrs,
             fr_is_unique := fad_is_unique attrs,
             fr_default := (case fad_default attrs of None \<Rightarrow> fr_default r | Some v \<Rightarrow> Some v)\<rparr>)"

definition update_field_query :: "field_delta \<Rightarrow> meta_db \<Rightarrow> meta_db res" where
  "update_field_query delta db =
     (let field_id = fld_id delta;
          db = (case fld_attrs delta of
                  Some attrs \<Rightarrow> db\<lparr>md_fields := map (update_attrs field_id attrs) (md_fields db)\<rparr>
                | None \<Rightarrow> db)
      in case fld_labels delta of
           None \<Rightarrow> Ok db
         | Some labels \<Rightarrow>
             r_bind (constraint (labels = [] \<or> field_id \<in> fr_id ` set (md_fields db))) (\<lambda>_.
             Ok (db\<lparr>md_field_labels := filter (\<lambda>(_, i). i \<noteq> field_id) (md_field_labels db)
                                       @ map (\<lambda>l. (l, field_id)) labels\<rparr>)))"

definition remove_field_query :: "field \<Rightarrow> meta_db \<Rightarrow> meta_db res" where
  "remove_field_query field db =
     r_bind (ok_or (Bail ''logical error. Trying to delete field without id'' []) (f_id field)) (\<lambda>field_id.
     let db = delete_fields (\<lambda>r. fr_id r = field_id) db
     in Ok (db\<lparr>md_field_names := filter (\<lambda>(_, i). i \<noteq> field_id) (md_field_names db),
               md_field_labels := filter (\<lambda>(_, i). i \<noteq> field_id) (md_field_labels db)\<rparr>))"

definition opt_xor :: "'a option \<Rightarrow> 'a option \<Rightarrow> 'a option" where
  "opt_xor a b = (case (a, b) of (Some x, None) \<Rightarrow> Some x | (None, Some y) \<Rightarrow> Some y | _ \<Rightarrow> None)"

definition insert_field_query :: "new_id \<Rightarrow> object_type \<Rightarrow> i32 option \<Rightarrow> field \<Rightarrow> meta_db \<Rightarrow> meta_db res" where
  "insert_field_query new_id ty recently_added_type_id field db =
     r_bind (ok_or (Bail ''logical error. Seems like a type is at the same type pre-existing and recently added??'' [])
        (opt_xor (ot_meta_id ty) recently_added_type_id)) (\<lambda>tid.
     r_bind (constraint (tid \<in> fst ` set (md_types db))) (\<lambda>_.
     r_bind (new_id (map fr_id (md_fields db))) (\<lambda>field_id.
     let row = \<lparr>fr_id = field_id, fr_type = type_id_name (f_type_id field), fr_type_id = tid,
                fr_default = f_default field, fr_is_optional = f_is_optional field, fr_is_unique = f_is_unique field\<rparr>;
         full_name = field_persisted_name field ty in
     r_bind (ensure (length (split_on CHR ''.'' full_name) = 3)
        (Bail ''Expected version and type information as part of the field name. Got {}. Should have caught sooner! Aborting'' [full_name])) (\<lambda>_.
     r_bind (constraint (full_name \<notin> fst ` set (md_field_names db))) (\<lambda>_.
     Ok (db\<lparr>md_fields := md_fields db @ [row], md_field_names := md_field_names db @ [(full_name, field_id)],
            md_field_labels := md_field_labels db @ map (\<lambda>l. (l, field_id)) (f_labels field)\<rparr>))))))"

definition insert_indexes :: "new_id \<Rightarrow> i32 \<Rightarrow> db_index list \<Rightarrow> meta_db \<Rightarrow> meta_db res" where
  "insert_indexes new_id tid indexes db =
     r_fold (\<lambda>index db.
       r_bind (constraint (tid \<in> fst ` set (md_types db))) (\<lambda>_.
       r_bind (new_id (map fst (md_indexes db))) (\<lambda>index_id.
       Ok (db\<lparr>md_indexes := md_indexes db @ [(index_id, tid, join '';'' (di_fields index))]\<rparr>)))) indexes db"

definition delete_indexes :: "db_index list \<Rightarrow> meta_db \<Rightarrow> meta_db res" where
  "delete_indexes indexes db =
     r_fold (\<lambda>index db.
       r_bind (ok_or (Bail ''index id must be known when updating type'' []) (di_meta_id index)) (\<lambda>index_id.
       Ok (db\<lparr>md_indexes := filter (\<lambda>(i, _). i \<noteq> index_id) (md_indexes db)\<rparr>))) indexes db"

definition insert_type :: "new_id \<Rightarrow> object_type \<Rightarrow> meta_db \<Rightarrow> meta_db res" where
  "insert_type new_id ty db =
     r_bind (constraint (ot_backing_table ty \<notin> snd ` set (md_types db))) (\<lambda>_.
     r_bind (new_id (map fst (md_types db))) (\<lambda>tid.
     r_bind (constraint (persisted_name ty \<notin> snd ` set (md_type_names db))) (\<lambda>_.
     let db = db\<lparr>md_types := md_types db @ [(tid, ot_backing_table ty)], md_type_names := md_type_names db @ [(tid, persisted_name ty)]\<rparr> in
     r_bind (r_fold (insert_field_query new_id ty (Some tid)) (ot_fields ty) db) (\<lambda>db.
     insert_indexes new_id tid (ot_indexes ty) db))))"

definition update_type :: "new_id \<Rightarrow> object_type \<Rightarrow> object_delta \<Rightarrow> meta_db \<Rightarrow> meta_db res" where
  "update_type new_id ty delta db =
     r_bind (r_fold (insert_field_query new_id ty None) (added_fields delta) db) (\<lambda>db.
     r_bind (r_fold remove_field_query (removed_fields delta) db) (\<lambda>db.
     r_bind (r_fold update_field_query (updated_fields delta) db) (\<lambda>db.
     r_bind (delete_indexes (removed_indexes delta) db) (\<lambda>db.
     r_bind (ok_or (Bail (''object must have an id when it'' @ [CHR 0x27] @ ''s being updated'') []) (ot_meta_id ty)) (\<lambda>tid.
     insert_indexes new_id tid (added_indexes delta) db)))))"

definition remove_type :: "object_type \<Rightarrow> meta_db \<Rightarrow> meta_db res" where
  "remove_type ty db =
     r_bind (ok_or (Bail ''logical error. Trying to delete type without id'' []) (ot_meta_id ty)) (\<lambda>tid.
     r_bind (r_fold remove_field_query (ot_fields ty) db) (\<lambda>db.
     let db = delete_types tid db
     in Ok (db\<lparr>md_type_names := filter (\<lambda>(i, _). i \<noteq> tid) (md_type_names db)\<rparr>)))"

subsection \<open>Loading types\<close>

definition load_field_row :: "meta_db \<Rightarrow> type_system \<Rightarrow> string \<times> field_row \<Rightarrow> field res" where
  "load_field_row db ts = (\<lambda>(db_field_name, row).
     let split = split_on CHR ''.'' db_field_name in
     r_bind (ensure (length split = 3)
        (Bail ''Expected version and type information as part of the field name. Got {}. Database corrupted?'' [db_field_name])) (\<lambda>_.
     r_bind (from_ts (lookup_type ts (fr_type row))) (\<lambda>ty.
     Ok (Field_new (ExistingField_new (split ! 2) ty (fr_id row) (split ! 0))
           (map fst (filter (\<lambda>(_, i). i = fr_id row) (md_field_labels db)))
           (fr_default row) (fr_is_optional row) (fr_is_unique row)))))"

definition type_field_rows :: "meta_db \<Rightarrow> i32 \<Rightarrow> (string \<times> field_row) list" where
  "type_field_rows db tid =
     concat (map (\<lambda>(name, i). map (\<lambda>r. (name, r)) (filter (\<lambda>r. fr_type_id r = tid \<and> fr_id r = i) (md_fields db))) (md_field_names db))"

definition load_type_fields :: "meta_db \<Rightarrow> type_system \<Rightarrow> i32 \<Rightarrow> field list res" where
  "load_type_fields db ts tid = r_map (load_field_row db ts) (type_field_rows db tid)"

definition load_type_indexes :: "meta_db \<Rightarrow> i32 \<Rightarrow> string \<Rightarrow> db_index list" where
  "load_type_indexes db tid table =
     map (\<lambda>(index_id, _, flds). DbIndex_new index_id table (split_on CHR '';'' flds))
       (filter (\<lambda>(_, i, _). i = tid) (md_indexes db))"

definition type_rows :: "meta_db \<Rightarrow> (i32 \<times> string \<times> string) list" where
  "type_rows db =
     concat (map (\<lambda>(tid, table). map (\<lambda>(_, name). (tid, table, name))
       (filter (\<lambda>(i, _). i = tid) (md_type_names db))) (md_types db))"

definition ts_entry :: "(string \<times> ty) list \<Rightarrow> string \<Rightarrow> (string \<times> type_system) list \<Rightarrow> type_system" where
  "ts_entry builtin_types version_id tss =
     (case map_of tss version_id of Some ts \<Rightarrow> ts | None \<Rightarrow> TypeSystem_new builtin_types version_id)"

text \<open>The rest of the loop body once the fields of the type are there.\<close>

definition register_type ::
  "meta_db \<Rightarrow> object_descriptor \<Rightarrow> type_system \<Rightarrow> i32 \<Rightarrow> string \<Rightarrow> field list \<Rightarrow> type_system res" where
  "register_type db desc ts tid table flds =
     r_bind (ObjectType_new desc flds (load_type_indexes db tid table)) (\<lambda>ty.
     from_ts (add_custom_type ts (Custom ty)))"

definition load_type_row ::
  "(string \<times> ty) list \<Rightarrow> meta_db \<Rightarrow> i32 \<times> string \<times> string \<Rightarrow> (string \<times> type_system) list \<times> (i32 \<times> string \<times> string) list
     \<Rightarrow> ((string \<times> type_system) list \<times> (i32 \<times> string \<times> string) list) res" where
  "load_type_row builtin_types db row acc =
     (case (row, acc) of ((tid, table, name), (tss, failures)) \<Rightarrow>
        r_bind (ExistingObject_new name table tid) (\<lambda>desc.
        let ts = ts_entry builtin_types (od_version_id desc) tss in
        case load_type_fields db ts tid of
          Ok flds \<Rightarrow>
            r_bind (register_type db desc ts tid table flds) (\<lambda>ts. Ok (al_insert (od_version_id desc) ts tss, failures))
        | Err _ \<Rightarrow> Ok (al_insert (od_version_id desc) ts tss, failures @ [row])
        | Panic p \<Rightarrow> Panic p))"

definition retry_type_row ::
  "(string \<times> ty) list \<Rightarrow> meta_db \<Rightarrow> i32 \<times> string \<times> string \<Rightarrow> (string \<times> type_system) list \<Rightarrow> (string \<times> type_system) list res" where
  "retry_type_row builtin_types db row tss =
     (case row of (tid, table, name) \<Rightarrow>
        r_bind (ExistingObject_new name table tid) (\<lambda>desc.
        let ts = ts_entry builtin_types (od_version_id desc) tss in
        r_bind (load_type_fields db ts tid) (\<lambda>flds.
        r_bind (register_type db desc ts tid table flds) (\<lambda>ts. Ok (al_insert (od_version_id desc) ts tss)))))"

definition load_type_systems :: "(string \<times> ty) list \<Rightarrow> meta_db \<Rightarrow> (string \<times> type_system) list res" where
  "load_type_systems builtin_types db =
     r_bind (r_fold (load_type_row builtin_types db) (type_rows db) ([], [])) (\<lambda>(tss, failures).
     r_fold (retry_type_row builtin_types db) failures tss)"

subsection \<open>Version info, modules and policies\<close>

definition load_version_infos :: "meta_db \<Rightarrow> (string \<times> version_info) list" where
  "load_version_infos db = fold (\<lambda>(version_id, info) infos. al_insert version_id info infos) (md_api_info db) []"

definition persist_version_info :: "string \<Rightarrow> version_info \<Rightarrow> meta_db \<Rightarrow> meta_db res" where
  "persist_version_info version_id info db = Ok (db\<lparr>md_api_info := al_insert version_id info (md_api_info db)\<rparr>)"

definition load_modules :: "string \<Rightarrow> meta_db \<Rightarrow> (string \<times> string) list" where
  "load_modules version_id db = map snd (filter (\<lambda>(v, _). v = version_id) (md_modules db))"

definition persist_modules :: "string \<Rightarrow> (string \<times> string) list \<Rightarrow> meta_db \<Rightarrow> meta_db res" where
  "persist_modules version_id modules db =
     (let db = db\<lparr>md_modules := filter (\<lambda>(v, _). v \<noteq> version_id) (md_modules db)\<rparr> in
      r_fold (\<lambda>(url, code) db.
        r_bind (constraint (\<forall>(v, u, _) \<in> set (md_modules db). (v, u) \<noteq> (version_id, url))) (\<lambda>_.
        Ok (db\<lparr>md_modules := md_modules db @ [(version_id, url, code)]\<rparr>))) modules db)"

definition persist_policy_version :: "string \<Rightarrow> string \<Rightarrow> meta_db \<Rightarrow> meta_db res" where
  "persist_policy_version version_id policy db = Ok (db\<lparr>md_policies := al_insert version_id policy (md_policies db)\<rparr>)"

definition delete_policy_version :: "string \<Rightarrow> meta_db \<Rightarrow> meta_db res" where
  "delete_policy_version version_id db = Ok (db\<lparr>md_policies := al_remove version_id (md_policies db)\<rparr>)"

text \<open>\<open>yaml_load\<close> is the YAML reader.\<close>

definition load_policy_system ::
  "(string \<Rightarrow> 'r res) \<Rightarrow> (string \<Rightarrow> string res) \<Rightarrow> (string \<Rightarrow> yaml_policies res) \<Rightarrow> string \<Rightarrow> meta_db \<Rightarrow> 'r policy_system res" where
  "load_policy_system regex_new method_from_str yaml_load version_id db =
     r_bind (ok_or (Context ''Failed to execute query {}'' (Bail ''no rows returned'' [])) (map_of (md_policies db) version_id)) (\<lambda>yaml.
     from_yaml regex_new method_from_str (yaml_load yaml))"

text \<open>The sources are stored as one JSON text; \<open>to_string\<close> and \<open>from_str\<close> are those of \<open>serde_json\<close>.\<close>

definition persist_policy_sources :: "(policy_sources \<Rightarrow> string res) \<Rightarrow> string \<Rightarrow> policy_sources \<Rightarrow> meta_db \<Rightarrow> meta_db res" where
  "persist_policy_sources to_string version_id sources db =
     r_bind (to_string sources) (\<lambda>json. Ok (db\<lparr>md_policy_store := al_insert version_id json (md_policy_store db)\<rparr>))"

definition load_policy_sources :: "(string \<Rightarrow> policy_sources res) \<Rightarrow> string \<Rightarrow> meta_db \<Rightarrow> policy_sources res" where
  "load_policy_sources from_str version_id db =
     (case map_of (md_policy_store db) version_id of Some json \<Rightarrow> from_str json | None \<Rightarrow> Ok [])"

subsection \<open>What is persisted is loaded\<close>

definition fresh_ids :: "new_id \<Rightarrow> bool" where
  "fresh_ids new_id \<longleftrightarrow> (\<forall>used i. new_id used = Ok i \<longrightarrow> i \<notin> set used)"

definition meta_wf :: "meta_db \<Rightarrow> bool" where
  "meta_wf db \<longleftrightarrow>
     distinct (map fst (md_types db)) \<and> distinct (map fr_id (md_fields db)) \<and> distinct (map fst (md_field_names db)) \<and>
     fst ` set (md_type_names db) \<subseteq> fst ` set (md_types db) \<and> fr_type_id ` set (md_fields db) \<subseteq> fst ` set (md_types db) \<and>
     snd ` set (md_field_names db) \<subseteq> fr_id ` set (md_fields db) \<and> snd ` set (md_field_labels db) \<subseteq> fr_id ` set (md_fields db) \<and>
     (fst \<circ> snd) ` set (md_indexes db) \<subseteq> fst ` set (md_types db)"

abbreviation row_of :: "i32 \<Rightarrow> field \<Rightarrow> i32 \<Rightarrow> field_row" where
  "row_of tid f i \<equiv> \<lparr>fr_id = i, fr_type = type_id_name (f_type_id f), fr_type_id = tid, fr_default = f_default f,
     fr_is_optional = f_is_optional f, fr_is_unique = f_is_unique f\<rparr>"

text \<open>The tables after the rows of some fields, with their ids, were added.\<close>

definition with_fields :: "object_type \<Rightarrow> i32 \<Rightarrow> (field \<times> i32) list \<Rightarrow> meta_db \<Rightarrow> meta_db" where
  "with_fields ty tid fis db =
     db\<lparr>md_fields := md_fields db @ map (\<lambda>(f, i). row_of tid f i) fis,
        md_field_names := md_field_names db @ map (\<lambda>(f, i). (field_persisted_name f ty, i)) fis,
        md_field_labels := md_field_labels db @ concat (map (\<lambda>(f, i). map (\<lambda>l. (l, i)) (f_labels f)) fis)\<rparr>"

lemma constraint_Ok [simp]: "constraint b = Ok u \<longleftrightarrow> b"
  by (simp add: constraint_def)

lemma insert_field_Ok:
  assumes "insert_field_query new_id ty rec f db = Ok db'"
  shows "\<exists>tid i. opt_xor (ot_meta_id ty) rec = Some tid \<and> tid \<in> fst ` set (md_types db) \<and>
    new_id (map fr_id (md_fields db)) = Ok i \<and> length (split_on CHR ''.'' (field_persisted_name f ty)) = 3 \<and>
    field_persisted_name f ty \<notin> fst ` set (md_field_names db) \<and> db' = with_fields ty tid [(f, i)] db"
  using assms by (auto simp: insert_field_query_def r_bind_Ok_iff with_fields_def Let_def)

lemma with_fields_append: "with_fields ty tid gis (with_fields ty tid fis db) = with_fields ty tid (fis @ gis) db"
  by (simp add: with_fields_def)

lemma insert_fields_Ok:
  assumes "r_fold (insert_field_query new_id ty rec) fs db = Ok db'" "fresh_ids new_id" "opt_xor (ot_meta_id ty) rec = Some tid"
  shows "\<exists>fis. map fst fis = fs \<and> db' = with_fields ty tid fis db \<and> distinct (map snd fis) \<and>
    snd ` set fis \<inter> fr_id ` set (md_fields db) = {} \<and>
    distinct (map (\<lambda>f. field_persisted_name f ty) fs) \<and>
    (\<lambda>f. field_persisted_name f ty) ` set fs \<inter> fst ` set (md_field_names db) = {} \<and>
    (\<forall>f \<in> set fs. length (split_on CHR ''.'' (field_persisted_name f ty)) = 3)"
  using assms(1)
proof (induction fs arbitrary: db)
  case Nil
  then show ?case by (simp add: with_fields_def)
next
  case (Cons f fs)
  then obtain db1 where db1: "insert_field_query new_id ty rec f db = Ok db1"
    and rest: "r_fold (insert_field_query new_id ty rec) fs db1 = Ok db'"
    by (auto simp: r_bind_Ok_iff)
  obtain i where i: "new_id (map fr_id (md_fields db)) = Ok i" "db1 = with_fields ty tid [(f, i)] db"
    "length (split_on CHR ''.'' (field_persisted_name f ty)) = 3" "field_persisted_name f ty \<notin> fst ` set (md_field_names db)"
    using insert_field_Ok [OF db1] assms(3) by auto
  have new: "i \<notin> fr_id ` set (md_fields db)"
    using assms(2) i(1) unfolding fresh_ids_def by (metis list.set_map)
  from Cons.IH [OF rest] obtain fis where "map fst fis = fs" "db' = with_fields ty tid ([(f, i)] @ fis) db" "distinct (map snd fis)"
    "snd ` set fis \<inter> fr_id ` set (md_fields db1) = {}" "distinct (map (\<lambda>f. field_persisted_name f ty) fs)"
    "(\<lambda>f. field_persisted_name f ty) ` set fs \<inter> fst ` set (md_field_names db1) = {}"
    "\<forall>f \<in> set fs. length (split_on CHR ''.'' (field_persisted_name f ty)) = 3"
    by (auto simp: i(2) with_fields_append)
  with i new show ?case
    by (intro exI [of _ "(f, i) # fis"]) (auto simp: with_fields_def)
qed

lemma insert_indexes_Ok:
  assumes "insert_indexes new_id tid idxs db = Ok db'"
  shows "\<exists>ids. length ids = length idxs \<and> db' = db\<lparr>md_indexes := md_indexes db @ map2 (\<lambda>i x. (i, tid, join '';'' (di_fields x))) ids idxs\<rparr>"
  using assms unfolding insert_indexes_def
proof (induction idxs arbitrary: db)
  case (Cons x idxs)
  then obtain i where rest: "r_fold (\<lambda>index db.
       r_bind (constraint (tid \<in> fst ` set (md_types db))) (\<lambda>_.
       r_bind (new_id (map fst (md_indexes db))) (\<lambda>index_id.
       Ok (db\<lparr>md_indexes := md_indexes db @ [(index_id, tid, join '';'' (di_fields index))]\<rparr>)))) idxs
       (db\<lparr>md_indexes := md_indexes db @ [(i, tid, join '';'' (di_fields x))]\<rparr>) = Ok db'"
    by (auto simp: r_bind_Ok_iff)
  from Cons.IH [OF rest] obtain ids where "length ids = length idxs"
    "db' = db\<lparr>md_indexes := md_indexes db @ [(i, tid, join '';'' (di_fields x))] @ map2 (\<lambda>i x. (i, tid, join '';'' (di_fields x))) ids idxs\<rparr>"
    by auto
  then show ?case by (intro exI [of _ "i # ids"]) simp
qed simp

lemma split_persisted_name:
  assumes "length (split_on CHR ''.'' (field_persisted_name f ty)) = 3"
  shows "split_on CHR ''.'' (field_persisted_name f ty) = [f_version_id f, ot_name ty, f_name f]"
proof -
  have "CHR ''.'' \<notin> set (f_version_id f)" "CHR ''.'' \<notin> set (ot_name ty)" "CHR ''.'' \<notin> set (f_name f)"
    using assms by (auto simp: length_split_on field_persisted_name_def count_list_0_iff [symmetric])
  then show ?thesis by (simp add: field_persisted_name_def split_on_append split_on_no_sep)
qed

text \<open>A field the type system can resolve again: its type is the one its type name is looked up to.\<close>

definition resolvable :: "type_system \<Rightarrow> field \<Rightarrow> bool" where
  "resolvable ts f \<longleftrightarrow> (\<exists>t. lookup_type ts (type_id_name (f_type_id f)) = Ok t \<and>
     f = (Field_new \<lparr>fd_name = f_name f, fd_id = f_id f, fd_ty = t, fd_version_id = f_version_id f\<rparr>
            (f_labels f) (f_default f) (f_is_optional f) (f_is_unique f)))"

lemma load_stored_field:
  assumes "resolvable ts f" "length (split_on CHR ''.'' (field_persisted_name f ty)) = 3"
    and "map fst (filter (\<lambda>(_, j). j = i) (md_field_labels db)) = f_labels f"
  shows "load_field_row db ts (field_persisted_name f ty, row_of tid f i) = Ok (f\<lparr>f_id := Some i\<rparr>)"
proof -
  obtain t where "lookup_type ts (type_id_name (f_type_id f)) = Ok t"
    and f: "f = Field_new \<lparr>fd_name = f_name f, fd_id = f_id f, fd_ty = t, fd_version_id = f_version_id f\<rparr>
            (f_labels f) (f_default f) (f_is_optional f) (f_is_unique f)"
    using assms(1) by (auto simp: resolvable_def)
  moreover have "Field_new (ExistingField_new (f_name f) t i (f_version_id f)) (f_labels f) (f_default f) (f_is_optional f) (f_is_unique f)
      = f\<lparr>f_id := Some i\<rparr>"
    by (subst (6) f) (simp add: Field_new_def ExistingField_new_def)
  ultimately show ?thesis
    using assms(2,3) split_persisted_name [OF assms(2)]
    by (simp add: load_field_row_def from_ts_def)
qed

lemma filter_rows_new:
  assumes "(f, i) \<in> set fis" "distinct (map snd fis)"
  shows "filter (\<lambda>r. fr_type_id r = tid \<and> fr_id r = i) (map (\<lambda>(f, i). row_of tid f i) fis) = [row_of tid f i]"
  using assms
proof (induction fis)
  case (Cons x fis)
  obtain g j where x: "x = (g, j)" by (cases x)
  show ?case
  proof (cases "j = i")
    case True
    then have "g = f" and "i \<notin> snd ` set fis"
      using Cons.prems x by (auto simp: rev_image_eqI)
    then have "filter (\<lambda>r. fr_type_id r = tid \<and> fr_id r = i) (map (\<lambda>(f, i). row_of tid f i) fis) = []"
      by (auto simp: filter_empty_conv rev_image_eqI)
    with True \<open>g = f\<close> show ?thesis by (simp add: x)
  qed (use Cons x in auto)
qed simp

lemma filter_labels_new:
  assumes "(f, i) \<in> set fis" "distinct (map snd fis)"
  shows "filter (\<lambda>(_, j). j = i) (concat (map (\<lambda>(f, i). map (\<lambda>l. (l, i)) (f_labels f)) fis)) = map (\<lambda>l. (l, i)) (f_labels f)"
  using assms
proof (induction fis)
  case (Cons x fis)
  obtain g j where x: "x = (g, j)" by (cases x)
  show ?case
  proof (cases "j = i")
    case True
    then have "g = f" and "i \<notin> snd ` set fis"
      using Cons.prems x by (auto simp: rev_image_eqI)
    then have "filter (\<lambda>(_, j). j = i) (concat (map (\<lambda>(f, i). map (\<lambda>l. (l, i)) (f_labels f)) fis)) = []"
      by (auto simp: filter_empty_conv rev_image_eqI)
    with True \<open>g = f\<close> show ?thesis by (simp add: x filter_map comp_def)
  next
    case False
    then have "filter (\<lambda>(_, j'). j' = i) (map (\<lambda>l. (l, j)) (f_labels g)) = []"
      by (auto simp: filter_empty_conv)
    with False Cons x show ?thesis by auto
  qed
qed simp

lemma new_type_rows:
  assumes "meta_wf db" "tid \<notin> fr_type_id ` set (md_fields db)" "distinct (map snd fis)" "snd ` set fis \<inter> fr_id ` set (md_fields db) = {}"
  shows "type_field_rows (with_fields ty tid fis db) tid = map (\<lambda>(f, i). (field_persisted_name f ty, row_of tid f i)) fis"
proof -
  let ?db = "with_fields ty tid fis db"
  let ?rows = "\<lambda>i. filter (\<lambda>r. fr_type_id r = tid \<and> fr_id r = i) (md_fields ?db)"
  have old: "?rows i = []" if "(n, i) \<in> set (md_field_names db)" for n i
  proof -
    have "i \<in> fr_id ` set (md_fields db)" using assms(1) that by (force simp: meta_wf_def)
    then have "i \<notin> snd ` set fis" using assms(4) by auto
    then show ?thesis using assms(2) by (auto simp: with_fields_def filter_empty_conv rev_image_eqI)
  qed
  have new: "?rows i = [row_of tid f i]" if "(f, i) \<in> set fis" for f i
    using filter_rows_new [OF that assms(3), of tid] assms(2) by (auto simp: with_fields_def filter_empty_conv rev_image_eqI)
  have "concat (map (\<lambda>(n, i). map (Pair n) (?rows i)) (md_field_names db)) = []"
    using old by auto
  moreover have "concat (map (\<lambda>(n, i). map (Pair n) (?rows i)) (map (\<lambda>(f, i). (field_persisted_name f ty, i)) fis))
      = concat (map (\<lambda>(f, i). [(field_persisted_name f ty, row_of tid f i)]) fis)"
    unfolding map_map using new by (intro arg_cong [of _ _ concat] map_cong) auto
  moreover have "\<dots> = map (\<lambda>(f, i). (field_persisted_name f ty, row_of tid f i)) fis"
    by (induction fis) auto
  ultimately show ?thesis
    unfolding type_field_rows_def by (simp add: with_fields_def [of ty tid fis db] del: map_map)
qed

definition plain_index :: "db_index \<Rightarrow> bool" where
  "plain_index x \<longleftrightarrow> di_fields x \<noteq> [] \<and> (\<forall>f \<in> set (di_fields x). CHR '';'' \<notin> set f)"

lemma load_new_indexes:
  assumes "\<forall>x \<in> set idxs. plain_index x" "length ids = length idxs" "tid \<notin> (fst \<circ> snd) ` set old"
    and "md_indexes db = old @ map2 (\<lambda>i x. (i, tid, join '';'' (di_fields x))) ids idxs"
  shows "load_type_indexes db tid table = map2 (\<lambda>i x. DbIndex_new i table (di_fields x)) ids idxs"
proof -
  have "filter (\<lambda>(_, i, _). i = tid) old = []"
    using assms(3) by (force simp: filter_empty_conv)
  moreover have "map (\<lambda>(i, _, flds). DbIndex_new i table (split_on CHR '';'' flds))
      (filter (\<lambda>(_, i, _). i = tid) (map2 (\<lambda>i x. (i, tid, join '';'' (di_fields x))) ids idxs))
    = map2 (\<lambda>i x. DbIndex_new i table (di_fields x)) ids idxs"
    using assms(2,1) by (induction ids idxs rule: list_induct2) (auto simp: plain_index_def split_join)
  ultimately show ?thesis
    using assms(4) by (simp add: load_type_indexes_def)
qed

lemma ObjectType_new_Ok:
  "ObjectType_new desc flds idxs = Ok ty \<longleftrightarrow>
     (\<forall>f \<in> set flds. od_version_id desc = f_version_id f) \<and>
     (\<forall>x \<in> set idxs. \<forall>n \<in> set (di_fields x). n = ''id'' \<or> n \<in> f_name ` set flds) \<and>
     ty = \<lparr>ot_meta_id = od_id desc, ot_name = od_name desc, ot_fields = flds, ot_indexes = idxs,
         ot_chisel_id = chisel_id_field, ot_backing_table = od_backing_table desc, ot_version_id = od_version_id desc\<rparr>"
proof -
  have inner: "r_fold (\<lambda>n _. if n = ''id'' then Ok () else ensure (\<exists>f \<in> set flds. f_name f = n)
       (Bail ''trying to create an index over field {} which is not present on type {}'' [n, od_name desc])) ns u = Ok v
     \<longleftrightarrow> (\<forall>n \<in> set ns. n = ''id'' \<or> n \<in> f_name ` set flds)" for ns u v
    by (induction ns) (auto simp: r_bind_Ok_iff image_iff)
  have outer: "r_fold (\<lambda>x. r_fold (\<lambda>n _. if n = ''id'' then Ok () else ensure (\<exists>f \<in> set flds. f_name f = n)
       (Bail ''trying to create an index over field {} which is not present on type {}'' [n, od_name desc])) (di_fields x)) xs u = Ok v
     \<longleftrightarrow> (\<forall>x \<in> set xs. \<forall>n \<in> set (di_fields x). n = ''id'' \<or> n \<in> f_name ` set flds)" for xs u v
    by (induction xs) (auto simp: r_bind_Ok_iff inner)
  show ?thesis
    by (simp add: ObjectType_new_def r_bind_Ok_iff r_fold_ensure_Ok outer) blast
qed


text \<open>The tables after a type was inserted: \<open>fis\<close> are its fields and \<open>iids\<close> its indexes with the ids given to them.\<close>

definition with_type :: "object_type \<Rightarrow> i32 \<Rightarrow> (field \<times> i32) list \<Rightarrow> i32 list \<Rightarrow> meta_db \<Rightarrow> meta_db" where
  "with_type ty tid fis iids db =
     (with_fields ty tid fis (db\<lparr>md_types := md_types db @ [(tid, ot_backing_table ty)],
                                 md_type_names := md_type_names db @ [(tid, persisted_name ty)]\<rparr>))
     \<lparr>md_indexes := md_indexes db @ map2 (\<lambda>i x. (i, tid, join '';'' (di_fields x))) iids (ot_indexes ty)\<rparr>"

definition new_type_ids :: "object_type \<Rightarrow> i32 \<Rightarrow> (field \<times> i32) list \<Rightarrow> i32 list \<Rightarrow> meta_db \<Rightarrow> bool" where
  "new_type_ids ty tid fis iids db \<longleftrightarrow>
     tid \<notin> fst ` set (md_types db) \<and> map fst fis = ot_fields ty \<and> distinct (map snd fis) \<and>
     snd ` set fis \<inter> fr_id ` set (md_fields db) = {} \<and> length iids = length (ot_indexes ty) \<and>
     distinct (map (\<lambda>f. field_persisted_name f ty) (ot_fields ty)) \<and>
     (\<lambda>f. field_persisted_name f ty) ` set (ot_fields ty) \<inter> fst ` set (md_field_names db) = {} \<and>
     (\<forall>f \<in> set (ot_fields ty). length (split_on CHR ''.'' (field_persisted_name f ty)) = 3)"

lemma insert_type_Ok:
  assumes "insert_type new_id ty db = Ok db'" "fresh_ids new_id" "ot_meta_id ty = None"
  shows "\<exists>tid fis iids. new_type_ids ty tid fis iids db \<and> db' = with_type ty tid fis iids db"
proof -
  obtain tid db1 where tid: "new_id (map fst (md_types db)) = Ok tid"
    and flds: "r_fold (insert_field_query new_id ty (Some tid)) (ot_fields ty)
        (db\<lparr>md_types := md_types db @ [(tid, ot_backing_table ty)], md_type_names := md_type_names db @ [(tid, persisted_name ty)]\<rparr>) = Ok db1"
    and idxs: "insert_indexes new_id tid (ot_indexes ty) db1 = Ok db'"
    using assms(1) by (auto simp: insert_type_def r_bind_Ok_iff Let_def)
  have "tid \<notin> fst ` set (md_types db)"
    using assms(2) tid unfolding fresh_ids_def by (metis list.set_map)
  moreover have "opt_xor (ot_meta_id ty) (Some tid) = Some tid"
    using assms(3) by (simp add: opt_xor_def)
  from insert_fields_Ok [OF flds assms(2) this] obtain fis where "map fst fis = ot_fields ty" "distinct (map snd fis)"
    "db1 = with_fields ty tid fis (db\<lparr>md_types := md_types db @ [(tid, ot_backing_table ty)],
       md_type_names := md_type_names db @ [(tid, persisted_name ty)]\<rparr>)"
    "snd ` set fis \<inter> fr_id ` set (md_fields db) = {}" "distinct (map (\<lambda>f. field_persisted_name f ty) (ot_fields ty))"
    "(\<lambda>f. field_persisted_name f ty) ` set (ot_fields ty) \<inter> fst ` set (md_field_names db) = {}"
    "\<forall>f \<in> set (ot_fields ty). length (split_on CHR ''.'' (field_persisted_name f ty)) = 3"
    by auto
  moreover from insert_indexes_Ok [OF idxs] obtain iids where "length iids = length (ot_indexes ty)"
    "db' = db1\<lparr>md_indexes := md_indexes db1 @ map2 (\<lambda>i x. (i, tid, join '';'' (di_fields x))) iids (ot_indexes ty)\<rparr>"
    by blast
  ultimately have "new_type_ids ty tid fis iids db" "db' = with_type ty tid fis iids db"
    by (simp_all add: new_type_ids_def with_type_def with_fields_def)
  then show ?thesis by blast
qed

lemma r_map_Ok_all: "(\<And>x. x \<in> set xs \<Longrightarrow> f (g x) = Ok (h x)) \<Longrightarrow> r_map f (map g xs) = Ok (map h xs)"
  by (induction xs) auto

text \<open>The type as it is read back: the ids are filled in, and every index has its table.\<close>

definition persisted :: "object_type \<Rightarrow> i32 \<Rightarrow> (field \<times> i32) list \<Rightarrow> i32 list \<Rightarrow> object_type" where
  "persisted ty tid fis iids =
     ty\<lparr>ot_meta_id := Some tid, ot_fields := map (\<lambda>(f, i). f\<lparr>f_id := Some i\<rparr>) fis,
        ot_indexes := map2 (\<lambda>i x. DbIndex_new i (ot_backing_table ty) (di_fields x)) iids (ot_indexes ty)\<rparr>"

lemma load_new_fields:
  assumes "meta_wf db" "new_type_ids ty tid fis iids db" "\<forall>f \<in> set (ot_fields ty). resolvable ts f"
  shows "load_type_fields (with_type ty tid fis iids db) ts tid = Ok (map (\<lambda>(f, i). f\<lparr>f_id := Some i\<rparr>) fis)"
proof -
  let ?db = "with_type ty tid fis iids db"
  have free: "tid \<notin> fr_type_id ` set (md_fields db)" and ids: "distinct (map snd fis)" "snd ` set fis \<inter> fr_id ` set (md_fields db) = {}"
    and fs: "ot_fields ty = map fst fis"
    using assms(1,2) by (auto simp: meta_wf_def new_type_ids_def)
  define db0 where "db0 = db\<lparr>md_types := md_types db @ [(tid, ot_backing_table ty)],
    md_type_names := md_type_names db @ [(tid, persisted_name ty)]\<rparr>"
  have wf0: "meta_wf db0" and same: "md_fields db0 = md_fields db"
    using assms(1,2) by (auto simp: meta_wf_def db0_def new_type_ids_def)
  have "type_field_rows ?db tid = type_field_rows (with_fields ty tid fis db0) tid"
    by (simp add: type_field_rows_def with_type_def db0_def)
  also have "\<dots> = map (\<lambda>(f, i). (field_persisted_name f ty, row_of tid f i)) fis"
    using free ids by (intro new_type_rows [OF wf0]) (simp_all add: same)
  finally have rows: "type_field_rows ?db tid = map (\<lambda>(f, i). (field_persisted_name f ty, row_of tid f i)) fis" .
  have "load_field_row ?db ts (field_persisted_name f ty, row_of tid f i) = Ok (f\<lparr>f_id := Some i\<rparr>)" if "(f, i) \<in> set fis" for f i
  proof (rule load_stored_field)
    have "i \<notin> snd ` set (md_field_labels db)"
      using assms(1) ids(2) that by (force simp: meta_wf_def)
    then have "filter (\<lambda>(_, j). j = i) (md_field_labels db) = []"
      by (force simp: filter_empty_conv)
    then show "map fst (filter (\<lambda>(_, j). j = i) (md_field_labels ?db)) = f_labels f"
      using filter_labels_new [OF that ids(1)] by (simp add: with_type_def with_fields_def comp_def)
  qed (use assms(2,3) that fs in \<open>auto simp: new_type_ids_def\<close>)
  then have "r_map (load_field_row ?db ts) (map (\<lambda>(f, i). (field_persisted_name f ty, row_of tid f i)) fis)
      = Ok (map (\<lambda>(f, i). f\<lparr>f_id := Some i\<rparr>) fis)"
    by (intro r_map_Ok_all) auto
  then show ?thesis by (simp add: load_type_fields_def rows)
qed

lemma with_type_tables:
  "md_types (with_type ty tid fis iids db) = md_types db @ [(tid, ot_backing_table ty)]"
  "md_type_names (with_type ty tid fis iids db) = md_type_names db @ [(tid, persisted_name ty)]"
  "md_fields (with_type ty tid fis iids db) = md_fields db @ map (\<lambda>(f, i). row_of tid f i) fis"
  "md_field_names (with_type ty tid fis iids db) = md_field_names db @ map (\<lambda>(f, i). (field_persisted_name f ty, i)) fis"
  "md_field_labels (with_type ty tid fis iids db) = md_field_labels db @ concat (map (\<lambda>(f, i). map (\<lambda>l. (l, i)) (f_labels f)) fis)"
  "md_indexes (with_type ty tid fis iids db) = md_indexes db @ map2 (\<lambda>i x. (i, tid, join '';'' (di_fields x))) iids (ot_indexes ty)"
  by (simp_all add: with_type_def with_fields_def)

lemma type_rows_new:
  assumes "meta_wf db" "new_type_ids ty tid fis iids db"
  shows "type_rows (with_type ty tid fis iids db) = type_rows db @ [(tid, ot_backing_table ty, persisted_name ty)]"
proof -
  have "tid \<notin> fst ` set (md_type_names db)"
    using assms by (auto simp: meta_wf_def new_type_ids_def)
  then have "filter (\<lambda>(i, _). i = tid) (md_type_names db) = []"
    by (auto simp: filter_empty_conv rev_image_eqI)
  moreover have "filter (\<lambda>(i, _). i = t) (md_type_names db @ [(tid, n)]) = filter (\<lambda>(i, _). i = t) (md_type_names db)"
    if "(t, b) \<in> set (md_types db)" for t b n
    using assms(2) that by (auto simp: new_type_ids_def rev_image_eqI)
  then have old: "map (\<lambda>(t, table). map (\<lambda>(_, name). (t, table, name))
       (filter (\<lambda>(i, _). i = t) (md_type_names db @ [(tid, persisted_name ty)]))) (md_types db)
     = map (\<lambda>(t, table). map (\<lambda>(_, name). (t, table, name)) (filter (\<lambda>(i, _). i = t) (md_type_names db))) (md_types db)"
    by (intro map_cong) (auto simp del: filter_append)
  ultimately show ?thesis
    by (simp only: type_rows_def with_type_tables map_append concat_append old) simp
qed

lemma with_type_other_rows:
  assumes "meta_wf db" "new_type_ids ty tid fis iids db" "t \<in> fst ` set (md_types db)"
  shows "type_field_rows (with_type ty tid fis iids db) t = type_field_rows db t"
proof -
  have t: "t \<noteq> tid" using assms(2,3) by (auto simp: new_type_ids_def)
  have new: "filter (\<lambda>r. fr_type_id r = t \<and> fr_id r = i) (map (\<lambda>(f, i). row_of tid f i) fis) = []" for i
    using t by (auto simp: filter_empty_conv)
  have old: "filter (\<lambda>r. fr_type_id r = t \<and> fr_id r = i) (md_fields db) = []" if "(f, i) \<in> set fis" for f i
    using assms(2) that by (auto simp: new_type_ids_def filter_empty_conv rev_image_eqI)
  have "concat (map (\<lambda>(name, i). map (Pair name) (filter (\<lambda>r. fr_type_id r = t \<and> fr_id r = i) (md_fields db)))
      (map (\<lambda>(f, i). (field_persisted_name f ty, i)) fis)) = []"
    using old by auto
  then show ?thesis
    by (simp add: type_field_rows_def with_type_def with_fields_def new del: map_map)
qed

lemma with_type_other_fields:
  assumes "meta_wf db" "new_type_ids ty tid fis iids db" "t \<in> fst ` set (md_types db)"
  shows "load_type_fields (with_type ty tid fis iids db) ts t = load_type_fields db ts t"
proof -
  let ?db = "with_type ty tid fis iids db"
  have "load_field_row ?db ts x = load_field_row db ts x" if "x \<in> set (type_field_rows db t)" for x
  proof -
    obtain n r where x: "x = (n, r)" by (cases x)
    with that have "fr_id r \<in> fr_id ` set (md_fields db)" by (auto simp: type_field_rows_def)
    then have "fr_id r \<notin> snd ` set fis" using assms(2) by (auto simp: new_type_ids_def)
    then have "filter (\<lambda>(_, i). i = fr_id r) (concat (map (\<lambda>(f, i). map (\<lambda>l. (l, i)) (f_labels f)) fis)) = []"
      by (auto simp: filter_empty_conv rev_image_eqI)
    then show ?thesis
      by (simp add: x load_field_row_def with_type_def with_fields_def)
  qed
  then show ?thesis
    unfolding load_type_fields_def with_type_other_rows [OF assms] by (rule r_map_cong [OF refl])
qed

lemma with_type_other_indexes:
  assumes "new_type_ids ty tid fis iids db" "t \<in> fst ` set (md_types db)"
  shows "load_type_indexes (with_type ty tid fis iids db) t table = load_type_indexes db t table"
proof -
  have "t \<noteq> tid" using assms by (auto simp: new_type_ids_def)
  then have "filter (\<lambda>(_, i, _). i = t) (map2 (\<lambda>i x. (i, tid, join '';'' (di_fields x))) iids (ot_indexes ty)) = []"
    by (auto simp: filter_empty_conv)
  then show ?thesis by (simp add: load_type_indexes_def with_type_def)
qed

lemma with_type_wf:
  assumes "meta_wf db" "new_type_ids ty tid fis iids db"
  shows "meta_wf (with_type ty tid fis iids db)"
proof -
  let ?db = "with_type ty tid fis iids db"
  note wf = assms(1) [unfolded meta_wf_def] and new = assms(2) [unfolded new_type_ids_def]
  have ids: "map fr_id (md_fields ?db) = map fr_id (md_fields db) @ map snd fis"
    by (auto simp: with_type_tables)
  have names: "map fst (md_field_names ?db) = map fst (md_field_names db) @ map (\<lambda>f. field_persisted_name f ty) (map fst fis)"
    by (auto simp: with_type_tables)
  have types: "fst ` set (md_types ?db) = insert tid (fst ` set (md_types db))"
    by (simp add: with_type_tables)
  have rows: "fr_id ` set (md_fields ?db) = fr_id ` set (md_fields db) \<union> snd ` set fis"
    using arg_cong [OF ids, of set] by simp
  have "distinct (map fst (md_types ?db))" "distinct (map fr_id (md_fields ?db))"
    using wf new by (simp_all add: with_type_tables(1) ids Int_commute)
  moreover have "distinct (map fst (md_field_names ?db))"
    unfolding names using wf new by (simp add: Int_commute del: map_map)
  moreover have "fst ` set (md_type_names ?db) \<subseteq> fst ` set (md_types ?db)"
    "fr_type_id ` set (md_fields ?db) \<subseteq> fst ` set (md_types ?db)"
    "(fst \<circ> snd) ` set (md_indexes ?db) \<subseteq> fst ` set (md_types ?db)"
    unfolding types using wf by (auto simp: with_type_tables)
  moreover have "snd ` set (md_field_names ?db) \<subseteq> fr_id ` set (md_fields ?db)"
    "snd ` set (md_field_labels ?db) \<subseteq> fr_id ` set (md_fields ?db)"
    unfolding rows using wf by (auto simp: with_type_tables rev_image_eqI)
  ultimately show ?thesis
    unfolding meta_wf_def by blast
qed

lemma register_persisted:
  assumes "meta_wf db" "new_type_ids ty tid fis iids db" "ObjectType_new desc flds idxs = Ok ty" "\<forall>x \<in> set idxs. plain_index x"
    and "desc' = \<lparr>od_name = ot_name ty, od_id = Some tid, od_backing_table = ot_backing_table ty, od_version_id = ot_version_id ty\<rparr>"
  shows "register_type (with_type ty tid fis iids db) desc' ts tid (ot_backing_table ty) (map (\<lambda>(f, i). f\<lparr>f_id := Some i\<rparr>) fis)
     = from_ts (add_custom_type ts (Custom (persisted ty tid fis iids)))"
proof -
  let ?fs = "map (\<lambda>(f, i). f\<lparr>f_id := Some i\<rparr>) fis" and ?is = "map2 (\<lambda>i x. DbIndex_new i (ot_backing_table ty) (di_fields x)) iids idxs"
  have ty: "ty = \<lparr>ot_meta_id = od_id desc, ot_name = od_name desc, ot_fields = flds, ot_indexes = idxs,
      ot_chisel_id = chisel_id_field, ot_backing_table = od_backing_table desc, ot_version_id = od_version_id desc\<rparr>"
    and vs: "\<forall>f \<in> set flds. od_version_id desc = f_version_id f"
    and ns: "\<forall>x \<in> set idxs. \<forall>n \<in> set (di_fields x). n = ''id'' \<or> n \<in> f_name ` set flds"
    using assms(3) by (auto simp: ObjectType_new_Ok)
  have fs: "fst ` set fis = set flds" and len: "length iids = length idxs"
    using assms(2) ty unfolding new_type_ids_def by (metis list.set_map object_type.select_convs(3)) (simp add: assms(2) [unfolded new_type_ids_def] ty)
  have "tid \<notin> (fst \<circ> snd) ` set (md_indexes db)"
    using assms(1,2) by (auto simp: meta_wf_def new_type_ids_def)
  then have idx: "load_type_indexes (with_type ty tid fis iids db) tid (ot_backing_table ty) = ?is"
    using load_new_indexes [OF assms(4) len] by (simp add: with_type_tables ty)
  have "ObjectType_new desc' ?fs ?is = Ok (persisted ty tid fis iids)"
    unfolding ObjectType_new_Ok
  proof (intro conjI)
    show "\<forall>f \<in> set ?fs. od_version_id desc' = f_version_id f"
      using vs fs by (force simp: assms(5) ty)
    have names: "f_name ` set ?fs = f_name ` set flds"
      unfolding fs [symmetric] by (simp add: image_image case_prod_beta)
    show "\<forall>x \<in> set ?is. \<forall>n \<in> set (di_fields x). n = ''id'' \<or> n \<in> f_name ` set ?fs"
      unfolding names using ns by (auto simp: DbIndex_new_def dest!: set_zip_rightD) blast
  qed (simp add: persisted_def assms(5), simp add: ty)
  then show ?thesis by (simp add: register_type_def idx)
qed

text \<open>
  C31. A new type is read back as it was written.  After \<open>insert_type\<close>, the rows of types are the
  old ones and one for the new type; loading that row registers the type with every field, label,
  default and index in place and only the ids filled in; every other row loads as before.  What it
  takes: no dot in the version or the name, field types that the type system can look up, and
  indexes with at least one field and no semicolon in a field name.
\<close>

theorem type_persisted:
  assumes "meta_wf db" "fresh_ids new_id" "ObjectType_new desc flds idxs = Ok ty" "od_id desc = None"
    and "CHR ''.'' \<notin> set (od_version_id desc)" "CHR ''.'' \<notin> set (od_name desc)"
    and "insert_type new_id ty db = Ok db'"
    and "\<forall>f \<in> set flds. resolvable (ts_entry builtin_types (od_version_id desc) tss) f" "\<forall>x \<in> set idxs. plain_index x"
  shows "\<exists>tid fis iids. map fst fis = flds \<and> length iids = length idxs \<and>
    type_rows db' = type_rows db @ [(tid, ot_backing_table ty, persisted_name ty)] \<and>
    load_type_row builtin_types db' (tid, ot_backing_table ty, persisted_name ty) (tss, failures) =
      r_bind (from_ts (add_custom_type (ts_entry builtin_types (od_version_id desc) tss) (Custom (persisted ty tid fis iids))))
        (\<lambda>ts. Ok (al_insert (od_version_id desc) ts tss, failures)) \<and>
    (\<forall>row \<in> set (type_rows db). \<forall>acc. load_type_row builtin_types db' row acc = load_type_row builtin_types db row acc) \<and>
    meta_wf db'"
proof -
  have ty: "ot_meta_id ty = None" "ot_fields ty = flds" "ot_indexes ty = idxs" "ot_version_id ty = od_version_id desc" "ot_name ty = od_name desc"
    using assms(3,4) by (auto simp: ObjectType_new_Ok)
  obtain tid fis iids where new: "new_type_ids ty tid fis iids db" and db': "db' = with_type ty tid fis iids db"
    using insert_type_Ok [OF assms(7,2) ty(1)] by blast
  have "load_type_row builtin_types db' (tid, ot_backing_table ty, persisted_name ty) (tss, failures) =
      r_bind (from_ts (add_custom_type (ts_entry builtin_types (od_version_id desc) tss) (Custom (persisted ty tid fis iids))))
        (\<lambda>ts. Ok (al_insert (od_version_id desc) ts tss, failures))"
    using assms(5,6,8) register_persisted [OF assms(1) new assms(3,9) refl]
    by (simp add: load_type_row_def ExistingObject_persisted ty db' load_new_fields [OF assms(1) new])
  moreover have "load_type_row builtin_types db' row acc = load_type_row builtin_types db row acc" if "row \<in> set (type_rows db)" for row acc
  proof -
    obtain t table n where row: "row = (t, table, n)" by (cases row) auto
    with that have "t \<in> fst ` set (md_types db)" by (force simp: type_rows_def)
    note other = with_type_other_fields [OF assms(1) new this] with_type_other_indexes [OF new this]
    show ?thesis
      unfolding row db' load_type_row_def register_type_def prod.case other by (rule refl)
  qed
  moreover have "map fst fis = flds" "length iids = length idxs"
    using new by (simp_all add: new_type_ids_def ty)
  ultimately show ?thesis
    using type_rows_new [OF assms(1) new] with_type_wf [OF assms(1) new] db' by blast
qed


definition empty_meta :: meta_db where
  "empty_meta = \<lparr>md_types = [], md_type_names = [], md_fields = [], md_field_names = [], md_field_labels = [], md_indexes = [],
     md_policies = [], md_policy_store = [], md_modules = [], md_api_info = []\<rparr>"

text \<open>An example: a type with one field and one index, and a database that gives out the key 1 once.\<close>

definition sample_field :: field where
  "sample_field = Field_new \<lparr>fd_name = ''title'', fd_id = None, fd_ty = TString, fd_version_id = ''dev''\<rparr> [''pii''] (Some ''x'') False True"

definition sample_type :: object_type where
  "sample_type = \<lparr>ot_meta_id = None, ot_name = ''Post'', ot_fields = [sample_field], ot_indexes = [DbIndex_new_from_fields [''title'']],
     ot_chisel_id = chisel_id_field, ot_backing_table = ''ty_Post_0'', ot_version_id = ''dev''\<rparr>"

definition sample_new_id :: new_id where
  "sample_new_id used = (if 1 \<in> set used then Err (Bail ''full'' []) else Ok 1)"

abbreviation sample_desc :: object_descriptor where
  "sample_desc \<equiv> \<lparr>od_name = ''Post'', od_id = None, od_backing_table = ''ty_Post_0'', od_version_id = ''dev''\<rparr>"

lemma sample_facts:
  "meta_wf empty_meta" "fresh_ids sample_new_id"
  "ObjectType_new sample_desc [sample_field] [DbIndex_new_from_fields [''title'']] = Ok sample_type"
  "\<forall>x \<in> set [DbIndex_new_from_fields [''title'']]. plain_index x"
  "is_ok (insert_type sample_new_id sample_type empty_meta)" "type_rows empty_meta = []"
  "ot_backing_table sample_type = ''ty_Post_0''" "persisted_name sample_type = ''dev.Post''"
  by (simp_all add: meta_wf_def empty_meta_def fresh_ids_def sample_new_id_def ObjectType_new_Ok sample_field_def
      sample_type_def Field_new_def DbIndex_new_from_fields_def plain_index_def insert_type_def insert_field_query_def
      insert_indexes_def opt_xor_def constraint_def field_persisted_name_def persisted_name_def type_rows_def)

lemma sample_resolvable: "\<forall>f \<in> set [sample_field]. resolvable (ts_entry [(''string'', TString)] (od_version_id sample_desc) []) f"
proof -
  have "lookup_type (ts_entry [(''string'', TString)] ''dev'' []) ''string'' = Ok TString"
    by (simp add: ts_entry_def lookup_type_def lookup_builtin_type.simps TypeSystem_new_def extract_template_def strip_prefix_def starts_with_def)
  then show ?thesis
    by (simp add: resolvable_def sample_field_def Field_new_def)
qed

theorem type_persisted_witness:
  "\<exists>db' tid fis iids. insert_type sample_new_id sample_type empty_meta = Ok db' \<and> map fst fis = [sample_field] \<and>
     type_rows db' = [(tid, ''ty_Post_0'', ''dev.Post'')] \<and>
     load_type_row [(''string'', TString)] db' (tid, ''ty_Post_0'', ''dev.Post'') ([], []) =
       r_bind (from_ts (add_custom_type (ts_entry [(''string'', TString)] ''dev'' []) (Custom (persisted sample_type tid fis iids))))
         (\<lambda>ts. Ok ([(''dev'', ts)], []))"
proof -
  obtain db' where db': "insert_type sample_new_id sample_type empty_meta = Ok db'"
    using sample_facts(5) by (auto simp: is_ok_iff)
  have "CHR ''.'' \<notin> set (od_version_id sample_desc)" "CHR ''.'' \<notin> set (od_name sample_desc)" "od_id sample_desc = None"
    by simp_all
  from type_persisted [OF sample_facts(1-3) this(3,1,2) db' sample_resolvable sample_facts(4), of "[]"] db'
  show ?thesis
    unfolding sample_facts append_Nil object_descriptor.simps al_insert.simps by (elim exE conjE) (intro exI conjI)
qed

subsection \<open>Stores keyed by a version\<close>

text \<open>
  Version info, modules and policies are each written for one version and read for one version.
  The contract: a write that succeeds is what the next read of the version sees, and it leaves every
  other version alone.  Then a sequence of writes leaves the last one of every version.
\<close>

locale version_store =
  fixes persist :: "string \<Rightarrow> 'v \<Rightarrow> meta_db \<Rightarrow> meta_db res"
    and read :: "string \<Rightarrow> meta_db \<Rightarrow> 'v option"
  assumes read_written: "persist v x db = Ok db' \<Longrightarrow> read v db' = Some x"
    and read_other: "persist v x db = Ok db' \<Longrightarrow> v' \<noteq> v \<Longrightarrow> read v' db' = read v' db"
begin

lemma read_last:
  "r_fold (\<lambda>(v, x). persist v x) ws db = Ok db' \<Longrightarrow>
   read v db' = (case map_of (rev ws) v of Some x \<Rightarrow> Some x | None \<Rightarrow> read v db)"
proof (induction ws arbitrary: db)
  case (Cons w ws)
  obtain u x where w: "w = (u, x)" by (cases w)
  with Cons.prems obtain db1 where db1: "persist u x db = Ok db1" and rest: "r_fold (\<lambda>(v, x). persist v x) ws db1 = Ok db'"
    by (auto simp: r_bind_Ok_iff)
  show ?case
    using Cons.IH [OF rest] read_written [OF db1] read_other [OF db1, of v]
    by (auto simp: w map_add_def split: option.splits)
qed simp

end

interpretation info: version_store persist_version_info "\<lambda>v db. map_of (md_api_info db) v"
  by unfold_locales (auto simp: persist_version_info_def)

interpretation policies: version_store persist_policy_version "\<lambda>v db. map_of (md_policies db) v"
  by unfold_locales (auto simp: persist_policy_version_def)

lemma persist_modules_Ok:
  "persist_modules v ms db = Ok db' \<longleftrightarrow> distinct (map fst ms) \<and>
     db' = db\<lparr>md_modules := filter (\<lambda>(u, _). u \<noteq> v) (md_modules db) @ map (Pair v) ms\<rparr>"
proof -
  let ?f = "\<lambda>(url, code) db. r_bind (constraint (\<forall>(w, u, _) \<in> set (md_modules db). (w, u) \<noteq> (v, url))) (\<lambda>_.
        Ok (db\<lparr>md_modules := md_modules db @ [(v, url, code)]\<rparr>))"
  have *: "r_fold ?f ms d = Ok d' \<longleftrightarrow> distinct (map fst ms) \<and> (\<forall>(w, u, _) \<in> set (md_modules d). w = v \<longrightarrow> u \<notin> fst ` set ms) \<and>
      d' = d\<lparr>md_modules := md_modules d @ map (Pair v) ms\<rparr>" for d d'
  proof (induction ms arbitrary: d)
    case (Cons m ms)
    obtain url code where m: "m = (url, code)" by (cases m)
    show ?case
      by (simp only: m r_fold.simps prod.case r_bind_Ok_iff Cons.IH) (auto simp: r_bind_Ok_iff Cons.IH)
  qed auto
  show ?thesis
    using * [of "db\<lparr>md_modules := filter (\<lambda>(u, _). u \<noteq> v) (md_modules db)\<rparr>" db']
    by (auto simp: persist_modules_def Let_def)
qed

interpretation modules: version_store persist_modules "\<lambda>v db. Some (load_modules v db)"
proof unfold_locales
  fix v v' :: string and x db db' assume "persist_modules v x db = Ok db'"
  note db' = this [unfolded persist_modules_Ok, THEN conjunct2]
  show "Some (load_modules v db') = Some x"
    by (auto simp: db' load_modules_def filter_map comp_def filter_empty_conv)
  show "v' \<noteq> v \<Longrightarrow> Some (load_modules v' db') = Some (load_modules v' db)"
    by (auto simp: db' load_modules_def filter_map comp_def intro!: arg_cong [of _ _ "map snd"] filter_cong)
qed


text \<open>
  The modules of a version are those written last for it, whatever was written in between for
  other versions, and a set of modules with distinct URLs can always be written.
\<close>

theorem modules_last_write:
  assumes "\<forall>(v, ms) \<in> set ws. distinct (map fst ms)"
  shows "\<exists>db'. r_fold (\<lambda>(v, ms). persist_modules v ms) ws db = Ok db' \<and>
    (\<forall>v. load_modules v db' = (case map_of (rev ws) v of Some ms \<Rightarrow> ms | None \<Rightarrow> load_modules v db))"
proof -
  have "\<exists>db'. r_fold (\<lambda>(v, ms). persist_modules v ms) ws db = Ok db'"
    using assms
  proof (induction ws arbitrary: db)
    case (Cons w ws)
    then show ?case
      by (cases w) (auto simp: r_bind_Ok_iff persist_modules_Ok)
  qed simp
  then show ?thesis
    using modules.read_last by (fastforce split: option.splits)
qed

theorem modules_last_write_witness:
  "\<exists>db'. r_fold (\<lambda>(v, ms). persist_modules v ms)
      [(''dev'', [(''file:///__root.ts'', ''x'')]), (''prod'', []), (''dev'', [(''file:///a.ts'', ''y'')])] empty_meta = Ok db' \<and>
     load_modules ''dev'' db' = [(''file:///a.ts'', ''y'')] \<and> load_modules ''other'' db' = load_modules ''other'' empty_meta"
  using modules_last_write [of "[(''dev'', [(''file:///__root.ts'', ''x'')]), (''prod'', []), (''dev'', [(''file:///a.ts'', ''y'')])]" empty_meta]
  by fastforce

end
