(* ===== verification/Apply.thy ===== *)
theory Apply
  imports Meta Engine "HOL-Library.Multiset"
begin

text \<open>
  \<open>server/src/apply.rs\<close>: applying a new set of models, policies and modules to a version.  The
  request is checked and turned into types to insert, to update and to remove; these are written to
  the metadata store in one transaction, the type system is read back, and the tables of the data
  are changed in a second transaction.

  Not of this repository, and arguments of the model: the topological sort of \<open>petgraph\<close>, the
  \<open>permutation\<close> crate, the parser behind \<open>Policies::parse_code\<close>, the YAML and JSON readers and
  writers, the random part of a new table's name, the database's keys, row counts and table
  statements.
\<close>

subsection \<open>The request: messages of \<open>chisel.proto\<close>\<close>

datatype type_enum =
    TeString bool | TeNumber bool | TeBool bool | TeJsDate bool | TeArrayBuffer bool
  | TeEntity string | TeEntityId string | TeArray container_type
and container_type = ContainerType (ct_value_type: "type_msg option")
and type_msg = TypeMsg (tm_type_enum: "type_enum option")

record field_definition =
  fdef_name :: string
  fdef_field_type :: "type_msg option"
  fdef_labels :: "string list"
  fdef_is_optional :: bool
  fdef_default_value :: "string option"
  fdef_is_unique :: bool

record add_type_request =
  atr_name :: string
  atr_field_defs :: "field_definition list"

record index_candidate =
  ic_entity_name :: string
  ic_properties :: "string list"

record policy_update_request =
  pur_policy_config :: string
  pur_path :: string

record apply_request =
  ar_types :: "add_type_request list"
  ar_index_candidates :: "index_candidate list"
  ar_policies :: "policy_update_request list"
  ar_allow_type_deletion :: bool

definition field_type :: "field_definition \<Rightarrow> type_enum res" where
  "field_type f =
     r_bind (ok_or (Bail ''field_type of field {} is None'' [fdef_name f]) (fdef_field_type f)) (\<lambda>m.
     ok_or (Bail ''type_enum of field {} is None'' [fdef_name f]) (tm_type_enum m))"

definition value_type :: "container_type \<Rightarrow> type_enum res" where
  "value_type c =
     r_bind (ok_or (Bail ''value_type of ContainerType is None'' []) (ct_value_type c)) (\<lambda>m.
     ok_or (Bail ''type_enum of value_type of ContainerType is None'' []) (tm_type_enum m))"

lemma value_type_Ok: "value_type c = Ok t \<longleftrightarrow> c = ContainerType (Some (TypeMsg (Some t)))"
proof (cases c)
  case (ContainerType m)
  then show ?thesis by (cases m) (auto simp: value_type_def intro: type_msg.expand)
qed

lemma value_type_smaller [termination_simp]: "value_type c = Ok t \<Longrightarrow> size t < Suc (size c)"
  by (simp add: value_type_Ok)

function is_builtin :: "type_system \<Rightarrow> type_enum \<Rightarrow> bool res" where
  "is_builtin ts (TeEntity name) = Ok (is_ok (lookup_builtin_type ts name))"
| "is_builtin ts (TeArray inner) = r_bind (value_type inner) (is_builtin ts)"
| "is_builtin ts (TeString b) = Ok True"
| "is_builtin ts (TeNumber b) = Ok True"
| "is_builtin ts (TeBool b) = Ok True"
| "is_builtin ts (TeJsDate b) = Ok True"
| "is_builtin ts (TeArrayBuffer b) = Ok True"
| "is_builtin ts (TeEntityId name) = Ok True"
  by pat_completeness auto
termination
  by (relation "measure (\<lambda>(_, t). size t)") (auto simp: value_type_Ok)

fun get_builtin :: "type_system \<Rightarrow> type_enum \<Rightarrow> ty res" where
  "get_builtin ts (TeString _) = Ok TString"
| "get_builtin ts (TeNumber _) = Ok TFloat"
| "get_builtin ts (TeBool _) = Ok TBoolean"
| "get_builtin ts (TeJsDate _) = Ok TJsDate"
| "get_builtin ts (TeArrayBuffer _) = Ok TArrayBuffer"
| "get_builtin ts (TeEntity name) = from_ts (lookup_builtin_type ts name)"
| "get_builtin ts (TeEntityId name) = Ok (TEntityId name)"
| "get_builtin ts (TeArray inner) =
     r_bind (value_type inner) (\<lambda>t. r_bind (get_builtin ts t) (\<lambda>t. Ok (TArray t)))"

text \<open>\<open>From<Type> for TypeMsg\<close>.\<close>

fun type_msg_of :: "ty \<Rightarrow> type_msg" where
  "type_msg_of TFloat = TypeMsg (Some (TeNumber True))"
| "type_msg_of TString = TypeMsg (Some (TeString True))"
| "type_msg_of TBoolean = TypeMsg (Some (TeBool True))"
| "type_msg_of TJsDate = TypeMsg (Some (TeJsDate True))"
| "type_msg_of TArrayBuffer = TypeMsg (Some (TeArrayBuffer True))"
| "type_msg_of (TEntity e) = TypeMsg (Some (TeEntity (ot_name (entity_object e))))"
| "type_msg_of (TEntityId name) = TypeMsg (Some (TeEntityId name))"
| "type_msg_of (TArray t) = TypeMsg (Some (TeArray (ContainerType (Some (type_msg_of t)))))"

subsection \<open>Policies\<close>

text \<open>\<open>PathBuf\<close>: the last component of a path that is not \<open>.\<close>, unless it is \<open>..\<close>, and its extension.\<close>

definition file_name :: "string \<Rightarrow> string option" where
  "file_name path =
     (case filter (\<lambda>c. c \<noteq> [] \<and> c \<noteq> ''.'') (split_on CHR ''/'' path) of
        [] \<Rightarrow> None
      | cs \<Rightarrow> if last cs = ''..'' then None else Some (last cs))"

definition file_extension :: "string \<Rightarrow> string option" where
  "file_extension path =
     (case file_name path of
        None \<Rightarrow> None
      | Some name \<Rightarrow>
          (case split_on CHR ''.'' name of
             [_] \<Rightarrow> None
           | parts \<Rightarrow> if butlast parts = [[]] then None else Some (last parts)))"

definition strip_suffix :: "string \<Rightarrow> string \<Rightarrow> string option" where
  "strip_suffix p s = (if suffix p s then Some (take (length s - length p) s) else None)"

record 'r parsed_policies =
  pp_policy_system :: "'r policy_system"
  pp_policy_system_str :: string
  pp_policy_sources :: policy_sources

record ('r, 'db) apply_env =
  ae_typescript_policies :: bool
  ae_parse_code :: "8 word list \<Rightarrow> unit res"
  ae_from_yaml :: "string \<Rightarrow> 'r policy_system res"
  ae_sources_to_string :: "policy_sources \<Rightarrow> string res"
  ae_toposort :: "string list \<Rightarrow> (string \<times> string) list \<Rightarrow> string list option"
  ae_apply_inv :: "nat list \<Rightarrow> add_type_request list \<Rightarrow> add_type_request list"
  ae_new_uuid :: "string \<Rightarrow> string"
  ae_new_id :: new_id
  ae_count :: "string \<Rightarrow> 'db \<Rightarrow> nat res"
  ae_exec :: "ddl \<Rightarrow> 'db \<Rightarrow> 'db res"
  ae_builtin_types :: "(string \<times> ty) list"

definition as_bytes :: "string \<Rightarrow> 8 word list" where
  "as_bytes s = map (\<lambda>c. word_of_nat (of_char c)) s"

definition parse_policy ::
  "('r, 'db) apply_env \<Rightarrow> policy_update_request \<Rightarrow> ('r policy_system \<times> string) option \<times> policy_sources
     \<Rightarrow> (('r policy_system \<times> string) option \<times> policy_sources) res" where
  "parse_policy env p acc =
     (case acc of (policy_system, sources) \<Rightarrow>
        if file_extension (pur_path p) = Some ''ts'' \<and> ae_typescript_policies env
        then
          r_bind (ok_or (Bail ''invalid policy path'' []) (Option.bind (file_name (pur_path p)) (strip_suffix ''.ts''))) (\<lambda>entity_nm.
          let policy_code = as_bytes (pur_policy_config p) in
          r_bind (ae_parse_code env policy_code) (\<lambda>_.
          Ok (policy_system, al_insert entity_nm policy_code sources)))
        else
          (case policy_system of
             None \<Rightarrow> r_bind (ae_from_yaml env (pur_policy_config p)) (\<lambda>ps. Ok (Some (ps, pur_policy_config p), sources))
           | Some _ \<Rightarrow> Err (Bail ''Currently only one policy file is supported'' [])))"

definition ParsedPolicies_parse :: "('r, 'db) apply_env \<Rightarrow> policy_update_request list \<Rightarrow> 'r parsed_policies res" where
  "ParsedPolicies_parse env request =
     r_bind (r_fold (parse_policy env) request (None, [])) (\<lambda>(policy_system, sources).
     let (ps, str) = (case policy_system of Some p \<Rightarrow> p | None \<Rightarrow> (PolicySystem_default, []))
     in Ok \<lparr>pp_policy_system = ps, pp_policy_system_str = str, pp_policy_sources = sources\<rparr>)"

subsection \<open>Indexes and the order of the models\<close>

definition aggregate_indexes :: "index_candidate list \<Rightarrow> (string \<times> db_index list) list" where
  "aggregate_indexes indexes =
     fold (\<lambda>candidate index_map.
       let idx = DbIndex_new_from_fields (ic_properties candidate) in
       case map_of index_map (ic_entity_name candidate) of
         Some type_indexes \<Rightarrow> al_insert (ic_entity_name candidate) (type_indexes @ [idx]) index_map
       | None \<Rightarrow> al_insert (ic_entity_name candidate) [idx] index_map) indexes []"

text \<open>The graph of the models: its nodes in the order they are added, and an edge from a model to every
  model that has a field of it.\<close>

type_synonym graph = "string list \<times> (string \<times> string) list"

definition add_node :: "string \<Rightarrow> graph \<Rightarrow> graph" where
  "add_node n = (\<lambda>(nodes, edges). (if n \<in> set nodes then nodes else nodes @ [n], edges))"

definition add_edge :: "string \<Rightarrow> string \<Rightarrow> graph \<Rightarrow> graph" where
  "add_edge a b g =
     (case add_node b (add_node a g) of (nodes, edges) \<Rightarrow> (nodes, if (a, b) \<in> set edges then edges else edges @ [(a, b)]))"

definition graph_field :: "type_system \<Rightarrow> string \<Rightarrow> field_definition \<Rightarrow> graph \<Rightarrow> graph res" where
  "graph_field ts ty_name field g =
     r_bind (field_type field) (\<lambda>t.
     case t of
       TeEntity name \<Rightarrow> r_bind (is_builtin ts t) (\<lambda>b. Ok (if b then g else add_edge name ty_name (add_node name g)))
     | _ \<Rightarrow> Ok g)"

definition type_graph :: "type_system \<Rightarrow> add_type_request list \<Rightarrow> graph res" where
  "type_graph ts types =
     r_fold (\<lambda>ty g. r_fold (graph_field ts (atr_name ty)) (atr_field_defs ty) (add_node (atr_name ty) g)) types ([], [])"

text \<open>The positions of the models: of models with one name, the last.\<close>

definition type_positions :: "add_type_request list \<Rightarrow> string \<rightharpoonup> nat" where
  "type_positions types = map_of (rev (zip (map atr_name types) [0..<length types]))"

definition sort_custom_types ::
  "(string list \<Rightarrow> (string \<times> string) list \<Rightarrow> string list option) \<Rightarrow> (nat list \<Rightarrow> add_type_request list \<Rightarrow> add_type_request list)
     \<Rightarrow> type_system \<Rightarrow> add_type_request list \<Rightarrow> add_type_request list res" where
  "sort_custom_types toposort apply_inv ts types =
     r_bind (type_graph ts types) (\<lambda>(nodes, edges).
     r_bind (ok_or (Bail ''cycle detected in models'' []) (toposort nodes edges)) (\<lambda>order.
     r_bind (r_map (\<lambda>ty. ok_or (Bail ''unknown type {ty}'' [ty]) (type_positions types ty)) order) (\<lambda>positions.
     Ok (apply_inv positions types))))"

subsection \<open>What the request changes\<close>

record apply_plan =
  ap_to_remove :: "object_type list"
  ap_to_insert :: "object_type list"
  ap_to_update :: "(object_type \<times> object_delta) list"

text \<open>\<open>MetaService::count_rows\<close>.\<close>

definition count_rows :: "('r, 'db) apply_env \<Rightarrow> 'db \<Rightarrow> object_type \<Rightarrow> nat res" where
  "count_rows env db ty = ae_count env (ot_backing_table ty) db"

definition find_removed ::
  "('r, 'db) apply_env \<Rightarrow> 'db \<Rightarrow> string set \<Rightarrow> string \<times> entity \<Rightarrow> object_type list \<times> (object_type \<times> nat) list
     \<Rightarrow> (object_type list \<times> (object_type \<times> nat) list) res" where
  "find_removed env db type_names ex acc =
     (case (ex, acc) of ((existing, removed), (to_remove, to_remove_has_data)) \<Rightarrow>
        if existing \<in> type_names then Ok acc
        else
          r_bind (count_rows env db (entity_object removed)) (\<lambda>cnt.
          Ok (if cnt = 0 then (to_remove @ [entity_object removed], to_remove_has_data)
              else (to_remove, to_remove_has_data @ [(entity_object removed, cnt)]))))"

definition removed_models :: "('r, 'db) apply_env \<Rightarrow> 'db \<Rightarrow> type_system \<Rightarrow> apply_request \<Rightarrow> object_type list res" where
  "removed_models env db ts req =
     r_bind (r_fold (find_removed env db (atr_name ` set (ar_types req))) (custom_types ts) ([], [])) (\<lambda>(to_remove, to_remove_has_data).
     let s = fold (\<lambda>(ty, cnt) acc. acc @ [CHR 0x0A, CHR 0x09] @ ot_name ty @ '' ('' @ show_nat cnt @ '' elements)'') to_remove_has_data [CHR 0x09] in
     r_bind (ensure (to_remove_has_data = [] \<or> ar_allow_type_deletion req)
        (Bail ''Trying to remove models from the models file, but the following models still have data: {}'' [s])) (\<lambda>_.
     Ok (to_remove @ map fst to_remove_has_data)))"

definition new_field_type ::
  "type_system \<Rightarrow> string set \<Rightarrow> (string \<times> entity) list \<Rightarrow> string \<Rightarrow> field_definition \<Rightarrow> ty res" where
  "new_field_type ts type_names new_types name field =
     r_bind (field_type field) (\<lambda>field_ty.
     case field_ty of
       TeEntityId entity_nm \<Rightarrow>
         r_bind (ensure (entity_nm \<in> type_names)
           (Bail ''field {} of entity {name} is of type Id<{entity_name}>, but entity {entity_name} is undefined''
              [fdef_name field, name, entity_nm])) (\<lambda>_.
         Ok (TEntityId entity_nm))
     | _ \<Rightarrow>
         r_bind (is_builtin ts field_ty) (\<lambda>b.
         if b then get_builtin ts field_ty
         else case field_ty of
           TeEntity entity_nm \<Rightarrow>
             (case map_of new_types entity_nm of
                Some e \<Rightarrow> Ok (TEntity e)
              | None \<Rightarrow> Err (Bail ''field type {entity_name} is neither a built-in nor a custom type'' [entity_nm]))
         | _ \<Rightarrow> Err (Bail ''field {} of entity {name} is neither entity, entity id or be a builtin (actual type: {:?})''
                        [fdef_name field, name])))"

definition new_field ::
  "type_system \<Rightarrow> string set \<Rightarrow> (string \<times> entity) list \<Rightarrow> string \<Rightarrow> string \<Rightarrow> field_definition \<Rightarrow> field res" where
  "new_field ts type_names new_types version_id name field =
     r_bind (new_field_type ts type_names new_types name field) (\<lambda>field_ty.
     r_bind (NewField_new (fdef_name field) field_ty version_id) (\<lambda>desc.
     Ok (Field_new desc (fdef_labels field) (fdef_default_value field) (fdef_is_optional field) (fdef_is_unique field))))"

type_synonym apply_acc = "(string \<times> entity) list \<times> object_type list \<times> (object_type \<times> object_delta) list"

definition apply_type ::
  "('r, 'db) apply_env \<Rightarrow> 'db \<Rightarrow> type_system \<Rightarrow> string set \<Rightarrow> (string \<times> db_index list) list \<Rightarrow> string \<Rightarrow> add_type_request
     \<Rightarrow> apply_acc \<Rightarrow> apply_acc res" where
  "apply_type env db ts type_names indexes version_id type_def acc =
     (case acc of (new_types, to_insert, to_update) \<Rightarrow>
        let name = atr_name type_def in
        r_bind (ensure (\<not> is_ok (lookup_builtin_type ts name)) (Bail ''custom type expected, got {name} instead'' [name])) (\<lambda>_.
        r_bind (r_map (new_field ts type_names new_types version_id name) (atr_field_defs type_def)) (\<lambda>flds.
        let ty_indexes = (case map_of indexes name of Some ix \<Rightarrow> ix | None \<Rightarrow> []) in
        r_bind (ObjectType_new (NewObject_new (ae_new_uuid env name) name version_id) flds ty_indexes) (\<lambda>ty.
        let new_types = al_insert name (Custom ty) new_types in
        case lookup_custom_type ts name of
          Ok old_type \<Rightarrow>
            r_bind (count_rows env db (entity_object old_type)) (\<lambda>cnt.
            r_bind (from_ts (generate_type_delta ts (entity_object old_type) ty (cnt = 0))) (\<lambda>delta.
            Ok (new_types, to_insert, to_update @ [(entity_object old_type, delta)])))
        | Err (NoSuchType _) \<Rightarrow> Ok (new_types, to_insert @ [ty], to_update)
        | Err e \<Rightarrow> from_ts (Err e)
        | Panic p \<Rightarrow> Panic p))))"

definition plan_apply :: "('r, 'db) apply_env \<Rightarrow> 'db \<Rightarrow> type_system \<Rightarrow> apply_request \<Rightarrow> string \<Rightarrow> apply_plan res" where
  "plan_apply env db ts req version_id =
     r_bind (removed_models env db ts req) (\<lambda>to_remove.
     let indexes = aggregate_indexes (ar_index_candidates req) in
     r_bind (sort_custom_types (ae_toposort env) (ae_apply_inv env) ts (ar_types req)) (\<lambda>type_defs.
     r_bind (r_fold (apply_type env db ts (atr_name ` set (ar_types req)) indexes version_id) type_defs ([], [], [])) (\<lambda>(_, to_insert, to_update).
     Ok \<lparr>ap_to_remove = to_remove, ap_to_insert = to_insert, ap_to_update = to_update\<rparr>)))"

subsection \<open>Applying it\<close>

definition persist_plan ::
  "('r, 'db) apply_env \<Rightarrow> string \<Rightarrow> version_info \<Rightarrow> (string \<times> string) list \<Rightarrow> 'r parsed_policies \<Rightarrow> apply_plan \<Rightarrow> meta_db \<Rightarrow> meta_db res" where
  "persist_plan env version_id info modules policies plan db =
     r_bind (persist_policy_sources (ae_sources_to_string env) version_id (pp_policy_sources policies) db) (\<lambda>db.
     r_bind (persist_policy_version version_id (pp_policy_system_str policies) db) (\<lambda>db.
     r_bind (persist_version_info version_id info db) (\<lambda>db.
     r_bind (persist_modules version_id modules db) (\<lambda>db.
     r_bind (r_fold (insert_type (ae_new_id env)) (ap_to_insert plan) db) (\<lambda>db.
     r_bind (r_fold (\<lambda>(old, delta). update_type (ae_new_id env) old delta) (ap_to_update plan) db) (\<lambda>db.
     r_fold remove_type (ap_to_remove plan) db))))))"

definition change_tables ::
  "('r, 'db) apply_env \<Rightarrow> type_system \<Rightarrow> apply_plan \<Rightarrow> 'db \<Rightarrow> 'db res" where
  "change_tables env ts plan db =
     r_bind (r_map (\<lambda>ty. from_ts (lookup_custom_type ts (ot_name ty))) (ap_to_insert plan)) (\<lambda>to_insert.
     r_bind (r_map (\<lambda>(ty, delta). r_map_ok (\<lambda>ty. (ty, delta)) (from_ts (lookup_custom_type ts (ot_name ty)))) (ap_to_update plan)) (\<lambda>to_update.
     r_bind (r_fold (\<lambda>e. create_table (ae_exec env) (entity_object e)) to_insert db) (\<lambda>db.
     r_bind (r_fold (drop_table (ae_exec env)) (ap_to_remove plan) db) (\<lambda>db.
     r_fold (\<lambda>(e, delta). alter_table (ae_exec env) (entity_object e) delta) to_update db))))"

record 'db apply_state =
  as_meta :: meta_db
  as_data :: 'db
  as_types :: type_system

record 'r apply_result =
  res_type_system :: type_system
  res_policy_system :: "'r policy_system"
  res_type_names_user_order :: "string list"
  res_labels :: "string list"
  res_policy_sources :: policy_sources

text \<open>\<open>?\<close> where the state changed so far stays changed.\<close>

definition or_return :: "'a res \<Rightarrow> 's \<Rightarrow> ('a \<Rightarrow> 'b res \<times> 's) \<Rightarrow> 'b res \<times> 's" where
  "or_return r s f = (case r of Ok x \<Rightarrow> f x | Err e \<Rightarrow> (Err e, s) | Panic p \<Rightarrow> (Panic p, s))"

definition apply_models ::
  "('r, 'db) apply_env \<Rightarrow> apply_request \<Rightarrow> string \<Rightarrow> version_info \<Rightarrow> (string \<times> string) list \<Rightarrow> 'db apply_state
     \<Rightarrow> 'r apply_result res \<times> 'db apply_state" where
  "apply_models env req version_id info modules st =
     or_return (plan_apply env (as_data st) (as_types st) req version_id) st (\<lambda>plan.
     or_return (ParsedPolicies_parse env (ar_policies req)) st (\<lambda>policies.
     or_return (persist_plan env version_id info modules policies plan (as_meta st)) st (\<lambda>meta.
     let st = st\<lparr>as_meta := meta\<rparr> in
     or_return (load_type_systems (ae_builtin_types env) meta) st (\<lambda>type_systems.
     let ts = ts_entry (ae_builtin_types env) version_id type_systems; st = st\<lparr>as_types := ts\<rparr> in
     or_return (change_tables env ts plan (as_data st)) st (\<lambda>data.
     (Ok \<lparr>res_type_system = ts, res_policy_system = pp_policy_system policies,
          res_type_names_user_order = map atr_name (ar_types req),
          res_labels = map fst (ps_labels (pp_policy_system policies)), res_policy_sources = pp_policy_sources policies\<rparr>,
      st\<lparr>as_data := data\<rparr>))))))"

subsection \<open>What a failing apply leaves behind\<close>

text \<open>
  A failing apply never leaves the tables of the data half changed: they are as before.  The
  metadata and the type system are as before too, or the metadata is the complete result of the
  first transaction (the tables and the metadata then disagree).
\<close>

theorem apply_failure:
  assumes "apply_models env req version_id info modules st = (r, st')" "\<not> is_ok r"
  shows "as_data st' = as_data st \<and>
    (st' = st \<or> (\<exists>plan policies. plan_apply env (as_data st) (as_types st) req version_id = Ok plan \<and>
       ParsedPolicies_parse env (ar_policies req) = Ok policies \<and>
       persist_plan env version_id info modules policies plan (as_meta st) = Ok (as_meta st')))"
  using assms by (auto simp: apply_models_def or_return_def Let_def is_ok_def split: result.splits)

subsection \<open>Models with data\<close>

lemma find_removed_Ok:
  assumes "r_fold (find_removed env db names) xs acc = Ok (rm, data)"
  shows "rm = fst acc @ [entity_object e. (n, e) \<leftarrow> xs, n \<notin> names \<and> count_rows env db (entity_object e) = Ok 0] \<and>
    map fst data = map fst (snd acc) @ [entity_object e. (n, e) \<leftarrow> xs, n \<notin> names \<and> count_rows env db (entity_object e) \<noteq> Ok 0] \<and>
    (\<forall>(n, e) \<in> set xs. n \<notin> names \<longrightarrow> is_ok (count_rows env db (entity_object e)))"
  using assms
proof (induction xs arbitrary: acc)
  case (Cons x xs)
  obtain n e where x: "x = (n, e)" by (cases x)
  from Cons.prems obtain acc1 where step: "find_removed env db names (n, e) acc = Ok acc1"
    and rest: "r_fold (find_removed env db names) xs acc1 = Ok (rm, data)"
    by (auto simp: x r_bind_Ok_iff)
  from step Cons.IH [OF rest] show ?case
    by (cases acc; cases "n \<in> names") (auto simp: x find_removed_def r_bind_Ok_iff is_ok_def split: if_splits)
qed auto

lemma removed_models_empty:
  assumes "removed_models env db ts req = Ok to_remove" "\<not> ar_allow_type_deletion req" "ty \<in> set to_remove"
  shows "count_rows env db ty = Ok 0"
proof -
  obtain data where "r_fold (find_removed env db (atr_name ` set (ar_types req))) (custom_types ts) ([], []) = Ok (to_remove, data)"
    using assms(1,2) by (auto simp: removed_models_def r_bind_Ok_iff Let_def)
  from find_removed_Ok [OF this] assms(3) show ?thesis by (auto split: if_splits)
qed

lemma apply_type_Ok:
  assumes "apply_type env db ts names indexes version_id def (new_types, ins, upd) = Ok (new_types', ins', upd')"
  shows "\<exists>flds ty. r_map (new_field ts names new_types version_id (atr_name def)) (atr_field_defs def) = Ok flds \<and>
    ObjectType_new (NewObject_new (ae_new_uuid env (atr_name def)) (atr_name def) version_id) flds
      (case map_of indexes (atr_name def) of Some ix \<Rightarrow> ix | None \<Rightarrow> []) = Ok ty \<and>
    new_types' = al_insert (atr_name def) (Custom ty) new_types \<and>
    (case map_of (custom_types ts) (atr_name def) of
       Some old \<Rightarrow> ins' = ins \<and> (\<exists>cnt delta. count_rows env db (entity_object old) = Ok cnt \<and>
         generate_type_delta ts (entity_object old) ty (cnt = 0) = Ok delta \<and> upd' = upd @ [(entity_object old, delta)])
     | None \<Rightarrow> ins' = ins @ [ty] \<and> upd' = upd)"
proof (cases "map_of (custom_types ts) (atr_name def)")
  case None
  then show ?thesis
    using assms by (auto simp: apply_type_def lookup_custom_type_def ok_or_def Let_def r_bind_Ok_iff)
next
  case (Some old)
  then show ?thesis
    using assms by (auto simp: apply_type_def lookup_custom_type_def ok_or_def Let_def r_bind_Ok_iff from_ts_def)
qed

lemma apply_types_updates:
  assumes "r_fold (apply_type env db ts names indexes version_id) defs acc = Ok acc'" "(old, delta) \<in> set (snd (snd acc'))"
    "(old, delta) \<notin> set (snd (snd acc))"
  shows "\<exists>new cnt. count_rows env db old = Ok cnt \<and> generate_type_delta ts old new (cnt = 0) = Ok delta"
  using assms
proof (induction defs arbitrary: acc)
  case (Cons d defs)
  then obtain acc1 where step: "apply_type env db ts names indexes version_id d acc = Ok acc1"
    and rest: "r_fold (apply_type env db ts names indexes version_id) defs acc1 = Ok acc'"
    by (auto simp: r_bind_Ok_iff)
  show ?case
  proof (cases "(old, delta) \<in> set (snd (snd acc1))")
    case True
    then show ?thesis
      using step Cons.prems(3)
      by (cases acc; cases acc1) (auto dest!: apply_type_Ok split: option.splits, blast+)
  next
    case False
    then show ?thesis using Cons.IH [OF rest Cons.prems(2)] by blast
  qed
qed simp

text \<open>
  C32. Without \<open>allow_type_deletion\<close>, applying never drops a table with rows in it, and a model with
  rows only loses fields that are optional or have a default.
\<close>

theorem apply_keeps_data:
  assumes "plan_apply env db ts req version_id = Ok plan" "\<not> ar_allow_type_deletion req"
  shows "(\<forall>ty \<in> set (ap_to_remove plan). count_rows env db ty = Ok 0) \<and>
    (\<forall>(old, delta) \<in> set (ap_to_update plan). count_rows env db old \<noteq> Ok 0 \<longrightarrow>
       (\<forall>f \<in> set (removed_fields delta). f_default f \<noteq> None \<or> f_is_optional f))"
proof -
  obtain to_remove defs acc where rm: "removed_models env db ts req = Ok to_remove" "ap_to_remove plan = to_remove"
    and upd: "r_fold (apply_type env db ts (atr_name ` set (ar_types req)) (aggregate_indexes (ar_index_candidates req)) version_id) defs ([], [], []) = Ok acc"
      "ap_to_update plan = snd (snd acc)"
    using assms(1) by (auto simp: plan_apply_def r_bind_Ok_iff Let_def)
  have "f_default f \<noteq> None \<or> f_is_optional f"
    if u: "(old, delta) \<in> set (snd (snd acc))" "count_rows env db old \<noteq> Ok 0" "f \<in> set (removed_fields delta)" for old delta f
  proof -
    obtain new cnt where "count_rows env db old = Ok cnt" "generate_type_delta ts old new (cnt = 0) = Ok delta"
      using apply_types_updates [OF upd(1) u(1)] by auto
    then have "generate_type_delta ts old new False = Ok delta" using u(2) by auto
    from generate_type_delta_Ok [OF this] u(3) show ?thesis by blast
  qed
  then show ?thesis
    using removed_models_empty [OF rm(1) assms(2)] rm(2) upd(2) by auto
qed

subsection \<open>The order of the models\<close>

text \<open>What the two libraries document: a sort that succeeds gives every node once and every edge forwards,
  and the inverse of a permutation in one-line notation takes the element at each of its entries.\<close>

definition toposort_ok :: "(string list \<Rightarrow> (string \<times> string) list \<Rightarrow> string list option) \<Rightarrow> bool" where
  "toposort_ok toposort \<longleftrightarrow> (\<forall>nodes edges order. toposort nodes edges = Some order \<longrightarrow>
     distinct order \<and> set order = set nodes \<and> (\<forall>(a, b) \<in> set edges. \<forall>pre post. order = pre @ b # post \<longrightarrow> a \<in> set pre))"

definition apply_inv_ok :: "(nat list \<Rightarrow> 'a list \<Rightarrow> 'a list) \<Rightarrow> bool" where
  "apply_inv_ok apply_inv \<longleftrightarrow> (\<forall>order xs. distinct order \<and> set order = {..<length xs} \<longrightarrow> apply_inv order xs = map ((!) xs) order)"

definition needs :: "type_system \<Rightarrow> add_type_request \<Rightarrow> string \<Rightarrow> bool" where
  "needs ts d n \<longleftrightarrow> (\<exists>f \<in> set (atr_field_defs d). field_type f = Ok (TeEntity n) \<and> is_builtin ts (TeEntity n) = Ok False)"

lemma graph_ops [simp]:
  "set (fst (add_node n g)) = insert n (set (fst g))" "snd (add_node n g) = snd g"
  "set (fst (add_edge a b g)) = {a, b} \<union> set (fst g)" "set (snd (add_edge a b g)) = insert (a, b) (set (snd g))"
  by (cases g; auto simp: add_node_def add_edge_def split: prod.splits)+

lemma graph_field_Ok:
  assumes "graph_field ts nm f g = Ok g'"
  shows "set (fst g) \<subseteq> set (fst g') \<and> set (snd g) \<subseteq> set (snd g') \<and>
    (\<forall>n. field_type f = Ok (TeEntity n) \<and> is_builtin ts (TeEntity n) = Ok False \<longrightarrow> (n, nm) \<in> set (snd g'))"
proof -
  obtain t where t: "field_type f = Ok t" using assms by (auto simp: graph_field_def r_bind_Ok_iff)
  with assms show ?thesis by (cases t) (auto simp: graph_field_def)
qed

lemma graph_fields_Ok:
  "r_fold (graph_field ts nm) fs g = Ok g' \<Longrightarrow> set (fst g) \<subseteq> set (fst g') \<and> set (snd g) \<subseteq> set (snd g') \<and>
    (\<forall>f \<in> set fs. \<forall>n. field_type f = Ok (TeEntity n) \<and> is_builtin ts (TeEntity n) = Ok False \<longrightarrow> (n, nm) \<in> set (snd g'))"
proof (induction fs arbitrary: g)
  case (Cons f fs)
  then obtain g1 where g1: "graph_field ts nm f g = Ok g1" and "r_fold (graph_field ts nm) fs g1 = Ok g'"
    by (auto simp: r_bind_Ok_iff)
  note step = graph_field_Ok [OF g1] and rest = Cons.IH [OF this(2)]
  have "(n, nm) \<in> set (snd g')" if "h \<in> set (f # fs)" "field_type h = Ok (TeEntity n)" "is_builtin ts (TeEntity n) = Ok False" for h n
  proof (cases "h = f")
    case True
    then have "(n, nm) \<in> set (snd g1)" using step that(2,3) by blast
    then show ?thesis using rest by blast
  next
    case False
    then show ?thesis using rest that by simp
  qed
  moreover have "set (fst g) \<subseteq> set (fst g')" "set (snd g) \<subseteq> set (snd g')" using step rest by blast+
  ultimately show ?case by blast
qed simp

lemma type_graph_Ok:
  assumes "type_graph ts types = Ok (nodes, edges)"
  shows "atr_name ` set types \<subseteq> set nodes \<and> (\<forall>d \<in> set types. \<forall>n. needs ts d n \<longrightarrow> (n, atr_name d) \<in> set edges)"
proof -
  have "r_fold (\<lambda>ty g. r_fold (graph_field ts (atr_name ty)) (atr_field_defs ty) (add_node (atr_name ty) g)) types g = Ok g' \<Longrightarrow>
    set (fst g) \<subseteq> set (fst g') \<and> set (snd g) \<subseteq> set (snd g') \<and> atr_name ` set types \<subseteq> set (fst g') \<and>
    (\<forall>d \<in> set types. \<forall>n. needs ts d n \<longrightarrow> (n, atr_name d) \<in> set (snd g'))" for g g'
  proof (induction types arbitrary: g)
    case (Cons d types)
    then obtain g1 where g1: "r_fold (graph_field ts (atr_name d)) (atr_field_defs d) (add_node (atr_name d) g) = Ok g1"
      and rest: "r_fold (\<lambda>ty g. r_fold (graph_field ts (atr_name ty)) (atr_field_defs ty) (add_node (atr_name ty) g)) types g1 = Ok g'"
      by (auto simp: r_bind_Ok_iff)
    from graph_fields_Ok [OF g1] have "insert (atr_name d) (set (fst g)) \<subseteq> set (fst g1)" "set (snd g) \<subseteq> set (snd g1)"
      "needs ts d n \<Longrightarrow> (n, atr_name d) \<in> set (snd g1)" for n
      by (auto simp: needs_def)
    with Cons.IH [OF rest] show ?case by auto
  qed simp
  from this [of "([], [])" "(nodes, edges)"] assms show ?thesis by (simp add: type_graph_def)
qed

lemma type_positions_Some: "type_positions types n = Some p \<Longrightarrow> p < length types \<and> atr_name (types ! p) = n"
  by (auto simp: type_positions_def set_zip dest!: map_of_SomeD)

lemma sort_custom_types_order:
  assumes "sort_custom_types toposort apply_inv ts types = Ok models" "toposort_ok toposort" "apply_inv_ok apply_inv"
    "distinct (map atr_name types)"
  shows "\<exists>nodes edges. type_graph ts types = Ok (nodes, edges) \<and> toposort nodes edges = Some (map atr_name models) \<and> mset models = mset types"
proof -
  obtain nodes edges order positions where g: "type_graph ts types = Ok (nodes, edges)" and order: "toposort nodes edges = Some order"
    and pos: "r_map (\<lambda>ty. ok_or (Bail ''unknown type {ty}'' [ty]) (type_positions types ty)) order = Ok positions"
    and models: "models = apply_inv positions types"
    using assms(1) by (auto simp: sort_custom_types_def r_bind_Ok_iff)
  have ord: "distinct order" "set order = set nodes" using assms(2) order by (auto simp: toposort_ok_def)
  have "list_all2 (\<lambda>n p. type_positions types n = Some p) order positions"
    using pos by (induction order arbitrary: positions) (auto simp: r_bind_Ok_iff)
  then have rel: "list_all2 (\<lambda>n p. p < length types \<and> atr_name (types ! p) = n) order positions"
    by (rule list_all2_mono) (rule type_positions_Some)
  then have names: "map (\<lambda>p. atr_name (types ! p)) positions = order" and bound: "set positions \<subseteq> {..<length types}"
    by (induction rule: list_all2_induct) auto
  have dist: "distinct positions"
    using ord(1) names by (metis distinct_map)
  have "i \<in> set positions" if "i < length types" for i
  proof -
    have "atr_name (types ! i) \<in> set order"
      using type_graph_Ok [OF g] ord(2) that by auto
    then obtain p where p: "p \<in> set positions" "atr_name (types ! p) = atr_name (types ! i)"
      using names by (metis (no_types, lifting) imageE list.set_map)
    then have "p = i"
      using assms(4) bound that nth_eq_iff_index_eq [of "map atr_name types" p i] by auto
    with p show ?thesis by simp
  qed
  then have all: "set positions = {..<length types}" using bound by auto
  then have eq: "models = map ((!) types) positions"
    using assms(3) dist by (simp add: models apply_inv_ok_def)
  have "mset positions = mset [0..<length types]"
    using dist all set_eq_iff_mset_eq_distinct [of positions "[0..<length types]"] by (auto simp: atLeast0LessThan)
  then have "mset models = mset (map ((!) types) [0..<length types])"
    unfolding eq mset_map by simp
  then have "mset models = mset types" by (simp add: map_nth)
  moreover have "map atr_name models = order" using names by (simp add: eq comp_def)
  ultimately show ?thesis using g order by blast
qed

text \<open>
  The models are processed in an order in which every model comes after those its fields refer to,
  none left out: the lookup of a field's entity type among the models seen so far finds it.
\<close>

theorem sorted_models_resolve:
  assumes "sort_custom_types toposort apply_inv ts types = Ok models" "toposort_ok toposort" "apply_inv_ok apply_inv"
    "distinct (map atr_name types)"
  shows "mset models = mset types \<and> (\<forall>pre d post n. models = pre @ d # post \<and> needs ts d n \<longrightarrow> n \<in> atr_name ` set pre)"
proof -
  obtain nodes edges where g: "type_graph ts types = Ok (nodes, edges)" and order: "toposort nodes edges = Some (map atr_name models)"
    and m: "mset models = mset types"
    using sort_custom_types_order [OF assms] by blast
  have forwards: "(a, b) \<in> set edges \<Longrightarrow> map atr_name models = pre @ b # post \<Longrightarrow> a \<in> set pre" for a b pre post
    using assms(2) order unfolding toposort_ok_def by fast
  have "n \<in> atr_name ` set pre" if "models = pre @ d # post" "needs ts d n" for pre d post n
  proof -
    have "d \<in> set types" using m that(1) by (metis in_set_conv_decomp mset_eq_setD)
    then have "(n, atr_name d) \<in> set edges" using type_graph_Ok [OF g] that(2) by blast
    moreover have "map atr_name models = map atr_name pre @ atr_name d # map atr_name post" by (simp add: that(1))
    ultimately have "n \<in> set (map atr_name pre)" using forwards by blast
    then show ?thesis by simp
  qed
  with m show ?thesis by blast
qed

subsection \<open>Examples\<close>

definition sample_toposort :: "string list \<Rightarrow> (string \<times> string) list \<Rightarrow> string list option" where
  "sample_toposort nodes edges =
     (if distinct nodes \<and> (\<forall>(a, b) \<in> set edges. a \<in> set (takeWhile (\<lambda>x. x \<noteq> b) nodes)) then Some nodes else None)"

lemma sample_toposort_ok: "toposort_ok sample_toposort"
proof -
  have "takeWhile (\<lambda>x. x \<noteq> b) (pre @ b # post) = pre" if "distinct (pre @ b # post)" for pre post :: "string list" and b
    using that by (induction pre) auto
  then show ?thesis
    unfolding toposort_ok_def sample_toposort_def by (auto split: if_splits)
qed

abbreviation sample_def :: "string \<Rightarrow> type_enum \<Rightarrow> add_type_request" where
  "sample_def name t \<equiv> \<lparr>atr_name = name, atr_field_defs = [\<lparr>fdef_name = ''f'', fdef_field_type = Some (TypeMsg (Some t)), fdef_labels = [],
     fdef_is_optional = False, fdef_default_value = None, fdef_is_unique = False\<rparr>]\<rparr>"

theorem sorted_models_resolve_witness:
  "\<exists>models. sort_custom_types sample_toposort (\<lambda>order xs. map ((!) xs) order) (TypeSystem_new [] ''dev'')
      [sample_def ''Author'' (TeString True), sample_def ''Post'' (TeEntity ''Author'')] = Ok models \<and>
     mset models = {#sample_def ''Author'' (TeString True), sample_def ''Post'' (TeEntity ''Author'')#}"
proof -
  let ?types = "[sample_def ''Author'' (TeString True), sample_def ''Post'' (TeEntity ''Author'')]"
  have "\<not> is_ok (lookup_builtin_type (TypeSystem_new [] ''dev'') ''Author'')"
    by (simp add: lookup_builtin_type.simps TypeSystem_new_def extract_template_def strip_prefix_def starts_with_def ok_or_def is_ok_def)
  then have "\<exists>models. sort_custom_types sample_toposort (\<lambda>order xs. map ((!) xs) order) (TypeSystem_new [] ''dev'') ?types = Ok models"
    by (simp add: sort_custom_types_def type_graph_def graph_field_def field_type_def add_node_def add_edge_def sample_toposort_def
        type_positions_def upt_conv_Cons)
  then obtain models where m: "sort_custom_types sample_toposort (\<lambda>order xs. map ((!) xs) order) (TypeSystem_new [] ''dev'') ?types = Ok models"
    by blast
  from sorted_models_resolve [OF m sample_toposort_ok] m show ?thesis
    by (auto simp: apply_inv_ok_def)
qed

definition sample_env :: "nat \<Rightarrow> (unit, unit) apply_env" where
  "sample_env rows = \<lparr>ae_typescript_policies = False, ae_parse_code = (\<lambda>_. Ok ()), ae_from_yaml = (\<lambda>_. Ok PolicySystem_default),
     ae_sources_to_string = (\<lambda>_. Ok []), ae_toposort = sample_toposort, ae_apply_inv = (\<lambda>order xs. map ((!) xs) order),
     ae_new_uuid = (\<lambda>n. n), ae_new_id = sample_new_id, ae_count = (\<lambda>_ _. Ok rows), ae_exec = (\<lambda>_ _. Ok ()), ae_builtin_types = []\<rparr>"

definition sample_ts :: type_system where
  "sample_ts = (TypeSystem_new [] ''dev'')\<lparr>custom_types := [(''Post'', Custom sample_type)]\<rparr>"

abbreviation empty_request :: apply_request where
  "empty_request \<equiv> \<lparr>ar_types = [], ar_index_candidates = [], ar_policies = [], ar_allow_type_deletion = False\<rparr>"

lemmas sample_plan_defs = plan_apply_def removed_models_def find_removed_def count_rows_def sample_env_def sample_ts_def
  sort_custom_types_def type_graph_def sample_toposort_def

theorem apply_keeps_data_witness:
  "\<exists>plan. plan_apply (sample_env 0) () sample_ts empty_request ''dev'' = Ok plan \<and> ap_to_remove plan = [sample_type] \<and>
     count_rows (sample_env 0) () sample_type = Ok 0"
proof -
  have plan: "plan_apply (sample_env 0) () sample_ts empty_request ''dev'' =
      Ok \<lparr>ap_to_remove = [sample_type], ap_to_insert = [], ap_to_update = []\<rparr>"
    by (simp add: sample_plan_defs entity_object_def)
  with apply_keeps_data [OF plan] show ?thesis by simp
qed

theorem apply_failure_witness:
  "\<exists>e st'. apply_models (sample_env 3) empty_request ''dev'' \<lparr>vi_name = [], vi_tag = []\<rparr> []
      \<lparr>as_meta = empty_meta, as_data = (), as_types = sample_ts\<rparr> = (Err e, st') \<and> as_data st' = ()"
proof -
  obtain e where "removed_models (sample_env 3) () sample_ts empty_request = Err e"
    by (auto simp: sample_plan_defs)
  then have run: "apply_models (sample_env 3) empty_request ''dev'' \<lparr>vi_name = [], vi_tag = []\<rparr> []
      \<lparr>as_meta = empty_meta, as_data = (), as_types = sample_ts\<rparr> = (Err e, \<lparr>as_meta = empty_meta, as_data = (), as_types = sample_ts\<rparr>)"
    by (simp add: apply_models_def or_return_def plan_apply_def)
  from apply_failure [OF run] run show ?thesis by (simp add: is_ok_def)
qed

end
