(* ===== verification/Model_Parser.thy ===== *)
theory Model_Parser
  imports Apply
begin

text \<open>
  \<open>cli/src/ts.rs\<close>: the models of a project, exported TypeScript classes, become the types of an apply
  request.  The syntax trees keep what the code looks at and have one constructor for all the rest;
  reading a file and parsing it are the SWC package, so a file is the result of its parser.  Diagnostics
  and warnings go to the terminal and are left out.  \<open>show_f64\<close> prints a number.
\<close>

subsection \<open>Syntax trees\<close>

datatype ts_keyword = KwString | KwNumber | KwBoolean | KwOther

datatype ts_entity_name = EnIdent string | EnQualified

datatype ts_type =
    TsKeyword ts_keyword
  | TsTypeRef ts_entity_name "ts_type list option"
  | TsArrayType ts_type
  | TsOther

datatype model_lit = MlStr string | MlBool bool | MlNum f64 | MlOther

datatype model_expr =
    MeIdent string
  | MeLit model_lit
  | MeUnary string model_expr
  | MeCall "model_expr option" "model_expr list"
  | MeNew
  | MeOther

datatype prop_name = PnIdent string bool | PnOther

record class_prop =
  cp_key :: prop_name
  cp_type_ann :: "ts_type option"
  cp_value :: "model_expr option"
  cp_decorators :: "model_expr list"

datatype class_member = CmProp class_prop | CmConstructor | CmOther

datatype model_decl = MdClass string "class_member list" | MdOther

datatype model_item = MiExport model_decl | MiImport | MiStmt | MiOther

subsection \<open>Types of fields\<close>

definition te_array :: "type_enum \<Rightarrow> type_enum" where
  "te_array inner = TeArray (ContainerType (Some (TypeMsg (Some inner))))"

function type_enum_fmt :: "type_enum \<Rightarrow> string res" where
  "type_enum_fmt (TeString b) = Ok ''string''"
| "type_enum_fmt (TeNumber b) = Ok ''number''"
| "type_enum_fmt (TeBool b) = Ok ''boolean''"
| "type_enum_fmt (TeJsDate b) = Ok ''jsDate''"
| "type_enum_fmt (TeArrayBuffer b) = Ok ''ArrayBuffer''"
| "type_enum_fmt (TeEntity name) = Ok name"
| "type_enum_fmt (TeEntityId name) = Ok (''Id<'' @ name @ ''>'')"
| "type_enum_fmt (TeArray inner) =
     r_bind (case value_type inner of Err _ \<Rightarrow> Panic ''called Result::unwrap() on an Err value'' | r \<Rightarrow> r) (\<lambda>t.
     r_bind (type_enum_fmt t) (\<lambda>s. Ok (''Array<'' @ s @ ''>'')))"
  by pat_completeness auto
termination
  by (relation "measure size") (auto dest: value_type_smaller split: result.splits)

definition get_ident_string :: "model_expr \<Rightarrow> string res" where
  "get_ident_string x = (case x of MeIdent name \<Rightarrow> Ok name | _ \<Rightarrow> Err (Bail ''expected an identifier'' []))"

definition get_field_info :: "prop_name \<Rightarrow> (string \<times> bool) res" where
  "get_field_info x = (case x of PnIdent name optional \<Rightarrow> Ok (name, optional) | PnOther \<Rightarrow> Err (Bail ''expected an identifier'' []))"

definition map_keyword :: "ts_keyword \<Rightarrow> type_enum res" where
  "map_keyword kw =
     (case kw of KwString \<Rightarrow> Ok (TeString True) | KwNumber \<Rightarrow> Ok (TeNumber True) | KwBoolean \<Rightarrow> Ok (TeBool True)
      | KwOther \<Rightarrow> Err (Bail ''type keyword not supported'' []))"

definition map_entity_id :: "ts_type list option \<Rightarrow> type_enum res" where
  "map_entity_id type_params =
     r_bind (ok_or (Bail ''type Id must have type parameter'' []) type_params) (\<lambda>params.
     r_bind (ensure (length params = 1) (Bail ''type Id requires exactly one type argument'' [])) (\<lambda>_.
     case hd params of
       TsTypeRef (EnIdent entity_nm) _ \<Rightarrow> Ok (TeEntityId entity_nm)
     | _ \<Rightarrow> Err (Bail ''the type argument of type Id must refer to an entity'' [])))"

fun map_array_type :: "ts_type \<Rightarrow> type_enum res" where
  "map_array_type (TsArrayType elem_type) =
     r_bind (case elem_type of
         TsKeyword kw \<Rightarrow> map_keyword kw
       | TsArrayType _ \<Rightarrow> map_array_type elem_type
       | TsTypeRef (EnIdent ident_name) type_params \<Rightarrow>
           if ident_name = ''Date'' then Ok (TeJsDate True)
           else if ident_name = ''Id'' then map_entity_id type_params
           else Err (Bail ''only arrays of primitive types are supported'' [])
       | _ \<Rightarrow> Err (Bail ''only arrays of primitive types are supported'' [])) (\<lambda>t. Ok (te_array t))"
| "map_array_type _ = Panic ''trying to map as array a type which is not an array''"

definition map_type :: "ts_type \<Rightarrow> type_enum res" where
  "map_type x =
     (case x of
        TsKeyword kw \<Rightarrow> map_keyword kw
      | TsTypeRef (EnIdent ident_name) type_params \<Rightarrow>
          if ident_name = ''Date'' then Ok (TeJsDate True)
          else if ident_name = ''ArrayBuffer'' then Ok (TeArrayBuffer True)
          else if ident_name = ''Id'' then map_entity_id type_params
          else Ok (TeEntity ident_name)
      | TsTypeRef EnQualified _ \<Rightarrow> Err (Bail ''qualified names are not supported'' [])
      | TsArrayType _ \<Rightarrow> map_array_type x
      | TsOther \<Rightarrow> Err (Bail ''type is not supported'' []))"

subsection \<open>Values and decorators\<close>

definition parse_literal :: "(f64 \<Rightarrow> string) \<Rightarrow> model_lit \<Rightarrow> (string \<times> type_enum) res" where
  "parse_literal show_f64 x =
     (case x of
        MlStr s \<Rightarrow> Ok (s, TeString True)
      | MlBool b \<Rightarrow> Ok (if b then ''true'' else ''false'', TeBool True)
      | MlNum n \<Rightarrow> Ok (show_f64 n, TeNumber True)
      | MlOther \<Rightarrow> Err (Bail ''literal not supported'' []))"

fun get_field_value :: "(f64 \<Rightarrow> string) \<Rightarrow> model_expr \<Rightarrow> (string \<times> type_enum) option res" where
  "get_field_value show_f64 (MeLit k) = r_map_ok Some (parse_literal show_f64 k)"
| "get_field_value show_f64 (MeUnary op arg) =
     r_bind (get_field_value show_f64 arg) (\<lambda>v.
     r_bind (ok_or (Bail ''unexpected empty expression'' []) v) (\<lambda>(val, ty).
     Ok (Some (op @ val, ty))))"
| "get_field_value show_f64 _ = Ok None"

definition label_step :: "(f64 \<Rightarrow> string) \<Rightarrow> model_expr \<Rightarrow> string list \<Rightarrow> string list res" where
  "label_step show_f64 arg output =
     r_bind (get_field_value show_f64 arg) (\<lambda>v.
     case v of
       None \<Rightarrow> Ok output
     | Some (label, ty) \<Rightarrow>
         (case ty of TeString _ \<Rightarrow> Ok (output @ [label]) | _ \<Rightarrow> Err (Bail ''Only strings accepted as labels'' [])))"

definition decorator_step :: "(f64 \<Rightarrow> string) \<Rightarrow> model_expr \<Rightarrow> string list \<times> bool \<Rightarrow> (string list \<times> bool) res" where
  "decorator_step show_f64 dec = (\<lambda>(output, is_unique).
     case dec of
       MeCall callee args \<Rightarrow>
         r_bind (ok_or (Bail ''expected expression, got {:?} instead'' []) callee) (\<lambda>callee.
         r_bind (get_ident_string callee) (\<lambda>name.
         r_bind (ensure (name = ''labels'') (Bail ''decorator {} is not supported by ChiselStrike'' [name])) (\<lambda>_.
         r_bind (r_fold (label_step show_f64) args output) (\<lambda>output. Ok (output, is_unique)))))
     | MeIdent name \<Rightarrow>
         r_bind (ensure (name \<noteq> ''labels'') (Bail ''expected a call-like decorator'' [])) (\<lambda>_.
         r_bind (ensure (name = ''unique'') (Bail ''decorator {} is not supported by ChiselStrike'' [name])) (\<lambda>_.
         Ok (output, True)))
     | _ \<Rightarrow> Err (Bail ''expected a call-like decorator'' []))"

definition get_type_decorators :: "(f64 \<Rightarrow> string) \<Rightarrow> model_expr list \<Rightarrow> (string list \<times> bool) res" where
  "get_type_decorators show_f64 x = r_fold (decorator_step show_f64) x ([], False)"

subsection \<open>Classes\<close>

definition default_of_type :: "string \<Rightarrow> type_enum \<Rightarrow> (string \<times> type_enum) option \<Rightarrow> string option res" where
  "default_of_type field_name field_ty value =
     (case value of
        None \<Rightarrow> Ok None
      | Some (default_value, value_ty) \<Rightarrow>
          if field_ty = value_ty then Ok (Some default_value)
          else
            r_bind (type_enum_fmt field_ty) (\<lambda>a. r_bind (type_enum_fmt value_ty) (\<lambda>b.
            Err (Bail ''field `{field_name}` is of type {field_type} but is default initialized by a value of type {value_type}''
                   [field_name, a, b]))))"

definition prop_type_and_default :: "(f64 \<Rightarrow> string) \<Rightarrow> string \<Rightarrow> class_prop \<Rightarrow> (type_enum \<times> string option) res" where
  "prop_type_and_default show_f64 field_name x =
     (case (cp_type_ann x, cp_value x) of
        (Some type_ann, Some val) \<Rightarrow>
          r_bind (map_type type_ann) (\<lambda>field_ty.
          r_bind (get_field_value show_f64 val) (\<lambda>v.
          r_bind (default_of_type field_name field_ty v) (\<lambda>d. Ok (field_ty, d))))
      | (Some type_ann, None) \<Rightarrow> r_bind (map_type type_ann) (\<lambda>field_ty. Ok (field_ty, None))
      | (None, Some val) \<Rightarrow>
          r_bind (get_field_value show_f64 val) (\<lambda>v.
          case v of
            Some (default_value, value_ty) \<Rightarrow> Ok (value_ty, Some default_value)
          | None \<Rightarrow> Err (Bail ''field `{field_name}` needs an explicit type annotation'' [field_name]))
      | (None, None) \<Rightarrow> Err (Bail ''field `{field_name}` needs a type annotation or a default value'' [field_name]))"

definition parse_class_prop :: "(f64 \<Rightarrow> string) \<Rightarrow> string \<Rightarrow> class_prop \<Rightarrow> field_definition res" where
  "parse_class_prop show_f64 class_name x =
     r_bind (get_field_info (cp_key x)) (\<lambda>(field_name, is_optional).
     r_bind (ensure (field_name \<noteq> ''id'') (Bail ''Creating a field with the name `id` is not supported.'' [class_name])) (\<lambda>_.
     r_bind (prop_type_and_default show_f64 field_name x) (\<lambda>(field_ty, default_value).
     r_bind (get_type_decorators show_f64 (cp_decorators x)) (\<lambda>(labels, is_unique).
     r_bind (case (field_ty, cp_value x) of
         (TeEntity name, Some k) \<Rightarrow>
           if is_optional \<or> k = MeNew then Ok ()
           else Err (Bail ''field `{field_name}` of entity type `{name}` has unexpected initializer'' [field_name, name])
       | _ \<Rightarrow> Ok ()) (\<lambda>_.
     Ok \<lparr>fdef_name = field_name, fdef_field_type = Some (TypeMsg (Some field_ty)), fdef_labels = labels,
         fdef_is_optional = is_optional, fdef_default_value = default_value, fdef_is_unique = is_unique\<rparr>)))))"

definition anyhow_message :: "anyhow \<Rightarrow> string" where
  "anyhow_message e = (case e of Bail f _ \<Rightarrow> f | Context c _ \<Rightarrow> c)"

definition parse_member ::
  "(f64 \<Rightarrow> string) \<Rightarrow> string \<Rightarrow> string \<Rightarrow> class_member \<Rightarrow> field_definition list \<Rightarrow> field_definition list res" where
  "parse_member show_f64 filename name member field_defs =
     (case member of
        CmProp x \<Rightarrow>
          r_bind (map_err (\<lambda>err. Bail ''{}'' [anyhow_message err]) (parse_class_prop show_f64 name x)) (\<lambda>fd.
          if fdef_name fd \<in> fdef_name ` set field_defs
          then Err (Bail ''found duplicate field `{}` on entity type `{name}`'' [fdef_name fd, name])
          else Ok (field_defs @ [fd]))
      | CmConstructor \<Rightarrow> Err (Bail ''invalid type file {}'' [filename])
      | CmOther \<Rightarrow> Ok field_defs)"

definition parse_class_decl ::
  "(f64 \<Rightarrow> string) \<Rightarrow> string \<Rightarrow> model_decl \<Rightarrow> add_type_request list \<times> string set \<Rightarrow> (add_type_request list \<times> string set) res" where
  "parse_class_decl show_f64 filename decl = (\<lambda>(type_vec, valid_types).
     case decl of
       MdClass name body \<Rightarrow>
         if name \<in> valid_types then Err (Bail ''Model {} defined twice'' [name])
         else
           r_bind (r_fold (parse_member show_f64 filename name) body []) (\<lambda>field_defs.
           Ok (type_vec @ [\<lparr>atr_name = name, atr_field_defs = field_defs\<rparr>], insert name valid_types))
     | MdOther \<Rightarrow> Err (Bail ''invalid type file {}'' [filename]))"

definition parse_item ::
  "(f64 \<Rightarrow> string) \<Rightarrow> string \<Rightarrow> model_item \<Rightarrow> add_type_request list \<times> string set \<Rightarrow> (add_type_request list \<times> string set) res" where
  "parse_item show_f64 filename item acc =
     (case item of
        MiExport decl \<Rightarrow> parse_class_decl show_f64 filename decl acc
      | MiImport \<Rightarrow> Ok acc
      | MiStmt \<Rightarrow> Ok acc
      | MiOther \<Rightarrow> Err (Bail ''invalid type file {}'' [filename]))"

definition parse_one_file ::
  "(f64 \<Rightarrow> string) \<Rightarrow> string \<times> model_item list res \<Rightarrow> add_type_request list \<times> string set \<Rightarrow> (add_type_request list \<times> string set) res" where
  "parse_one_file show_f64 = (\<lambda>(filename, parsed) acc. r_bind parsed (\<lambda>body. r_fold (parse_item show_f64 filename) body acc))"

definition validate_field :: "string set \<Rightarrow> string \<Rightarrow> field_definition \<Rightarrow> unit \<Rightarrow> unit res" where
  "validate_field valid_entities class_name field u =
     r_bind (field_type field) (\<lambda>t.
     case t of
       TeEntity name \<Rightarrow>
         ensure (name \<in> valid_entities \<or> is_auth_entity_name name)
           (Bail ''field {} in class {} is of unknown entity type {name}'' [fdef_name field, class_name, name])
     | _ \<Rightarrow> Ok ())"

definition validate_type_vec :: "add_type_request list \<Rightarrow> string set \<Rightarrow> unit res" where
  "validate_type_vec type_vec valid_entities =
     r_fold (\<lambda>t. r_fold (validate_field valid_entities (atr_name t)) (atr_field_defs t)) type_vec ()"

definition parse_types :: "(f64 \<Rightarrow> string) \<Rightarrow> (string \<times> model_item list res) list \<Rightarrow> add_type_request list res" where
  "parse_types show_f64 files =
     r_bind (r_fold (parse_one_file show_f64) files ([], {})) (\<lambda>(type_vec, valid_types).
     r_bind (validate_type_vec type_vec valid_types) (\<lambda>_. Ok type_vec))"

subsection \<open>What the parser accepts\<close>

text \<open>A type that needs no model: the server has it built in.\<close>

definition self_contained :: "type_enum \<Rightarrow> bool" where
  "self_contained t \<longleftrightarrow> (\<forall>ts. is_builtin ts t = Ok True \<and> is_ok (get_builtin ts t))"

lemma self_contained_simps [simp]:
  "self_contained (TeString b)" "self_contained (TeNumber b)" "self_contained (TeBool b)" "self_contained (TeJsDate b)"
  "self_contained (TeArrayBuffer b)" "self_contained (TeEntityId n)"
  by (auto simp: self_contained_def is_ok_iff)

lemma self_contained_array [simp]:
  assumes "self_contained t"
  shows "self_contained (te_array t)"
proof -
  have "is_builtin ts (te_array t) = Ok True \<and> is_ok (get_builtin ts (te_array t))" for ts
  proof -
    obtain ty where "is_builtin ts t = Ok True" "get_builtin ts t = Ok ty"
      using assms by (auto simp: self_contained_def is_ok_iff)
    then show ?thesis by (simp add: te_array_def value_type_def is_ok_def)
  qed
  then show ?thesis by (simp add: self_contained_def)
qed

lemma map_keyword_Ok: "map_keyword kw = Ok t \<Longrightarrow> self_contained t"
  by (cases kw) (auto simp: map_keyword_def)

lemma map_entity_id_Ok:
  assumes "map_entity_id ps = Ok t"
  shows "self_contained t"
proof -
  obtain params where *: "(case hd params of TsTypeRef (EnIdent n) _ \<Rightarrow> Ok (TeEntityId n)
      | _ \<Rightarrow> Err (Bail ''the type argument of type Id must refer to an entity'' [])) = Ok t"
    using assms unfolding map_entity_id_def r_bind_Ok_iff by blast
  show ?thesis
  proof (cases "hd params")
    case (TsTypeRef nm qs)
    with * show ?thesis by (cases nm) auto
  qed (use * in auto)
qed

lemma map_array_type_Ok: "map_array_type x = Ok t \<Longrightarrow> self_contained t"
proof (induction x arbitrary: t)
  case (TsArrayType elem)
  show ?case
  proof (cases elem)
    case (TsTypeRef nm ps)
    with TsArrayType.prems show ?thesis
      by (cases nm) (auto simp: r_bind_Ok_iff dest: map_entity_id_Ok split: if_splits)
  qed (use TsArrayType in \<open>auto simp: r_bind_Ok_iff dest: map_keyword_Ok\<close>)
qed auto

lemma map_type_Ok:
  assumes "map_type x = Ok t"
  shows "self_contained t \<or> (\<exists>n. t = TeEntity n)"
proof (cases x)
  case (TsTypeRef nm ps)
  with assms show ?thesis
    by (cases nm) (auto simp: map_type_def dest: map_entity_id_Ok split: if_splits)
next
  case (TsArrayType elem)
  with assms show ?thesis by (simp add: map_type_def map_array_type_Ok del: map_array_type.simps)
qed (use assms in \<open>auto simp: map_type_def dest: map_keyword_Ok\<close>)

definition literal_type :: "type_enum \<Rightarrow> bool" where
  "literal_type t \<longleftrightarrow> t \<in> {TeString True, TeNumber True, TeBool True}"

lemma get_field_value_Ok: "get_field_value show_f64 x = Ok (Some (d, t)) \<Longrightarrow> literal_type t"
proof (induction x arbitrary: d t)
  case (MeLit k)
  then show ?case by (cases k) (auto simp: parse_literal_def literal_type_def r_map_ok_Ok_iff)
qed (auto simp: r_bind_Ok_iff)

lemma default_of_type_Ok:
  "default_of_type nm t v = Ok d \<longleftrightarrow> v = None \<and> d = None \<or> (\<exists>x. v = Some (x, t) \<and> d = Some x)"
proof (cases v)
  case (Some x)
  show ?thesis
    by (cases x; cases "t = snd x") (auto simp: Some default_of_type_def r_bind_Ok_iff)
qed (auto simp: default_of_type_def)

lemma prop_type_and_default_Ok:
  assumes "prop_type_and_default show_f64 nm x = Ok (t, d)"
  shows "(self_contained t \<or> (\<exists>n. t = TeEntity n)) \<and> (d \<noteq> None \<longrightarrow> literal_type t)"
proof -
  have lit: "get_field_value show_f64 e = Ok (Some (v, t)) \<Longrightarrow> self_contained t" for e v
    using get_field_value_Ok [of show_f64 e v t] by (auto simp: literal_type_def)
  show ?thesis
    using assms
    by (cases "cp_type_ann x"; cases "cp_value x")
      (auto simp: prop_type_and_default_def default_of_type_Ok r_bind_Ok_iff dest: map_type_Ok get_field_value_Ok lit split: option.splits)
qed

text \<open>What holds of a field that was parsed, given the entities it may refer to.\<close>

definition field_ok :: "string set \<Rightarrow> field_definition \<Rightarrow> bool" where
  "field_ok entities f \<longleftrightarrow> fdef_name f \<noteq> ''id'' \<and> (\<exists>t. field_type f = Ok t \<and>
     (self_contained t \<or> (\<exists>n. t = TeEntity n \<and> n \<in> entities)) \<and> (fdef_default_value f \<noteq> None \<longrightarrow> literal_type t))"

lemma parse_class_prop_Ok: "parse_class_prop show_f64 cls x = Ok fd \<Longrightarrow> field_ok UNIV fd"
  by (auto simp: parse_class_prop_def field_ok_def field_type_def r_bind_Ok_iff dest!: prop_type_and_default_Ok)

definition model_ok :: "string set \<Rightarrow> add_type_request \<Rightarrow> bool" where
  "model_ok entities d \<longleftrightarrow> distinct (map fdef_name (atr_field_defs d)) \<and> (\<forall>f \<in> set (atr_field_defs d). field_ok entities f)"

lemma parse_members_Ok:
  assumes "r_fold (parse_member show_f64 filename name) body [] = Ok fds"
  shows "model_ok UNIV \<lparr>atr_name = name, atr_field_defs = fds\<rparr>"
  using assms
proof (rule r_fold_invariant [where P = "\<lambda>fds. model_ok UNIV \<lparr>atr_name = name, atr_field_defs = fds\<rparr>"])
  fix m a b assume "model_ok UNIV \<lparr>atr_name = name, atr_field_defs = a\<rparr>" "parse_member show_f64 filename name m a = Ok b"
  then show "model_ok UNIV \<lparr>atr_name = name, atr_field_defs = b\<rparr>"
    by (auto simp: parse_member_def model_ok_def r_bind_Ok_iff dest: parse_class_prop_Ok split: class_member.splits if_splits)
qed (simp add: model_ok_def)

definition parsed_inv :: "add_type_request list \<times> string set \<Rightarrow> bool" where
  "parsed_inv = (\<lambda>(type_vec, valid_types).
     valid_types = atr_name ` set type_vec \<and> distinct (map atr_name type_vec) \<and> (\<forall>d \<in> set type_vec. model_ok UNIV d))"

lemma parse_item_inv:
  assumes "parsed_inv a" "parse_item show_f64 filename item a = Ok b"
  shows "parsed_inv b"
proof (cases item)
  case (MiExport decl)
  then show ?thesis
    using assms
    by (cases a; cases decl)
      (auto simp: parse_item_def parse_class_decl_def parsed_inv_def r_bind_Ok_iff dest: parse_members_Ok split: if_splits)
qed (use assms in \<open>auto simp: parse_item_def\<close>)

lemma parse_files_inv:
  assumes "r_fold (parse_one_file show_f64) files ([], {}) = Ok acc"
  shows "parsed_inv acc"
  using assms
proof (rule r_fold_invariant)
  fix entry a b assume inv: "parsed_inv a" and "parse_one_file show_f64 entry a = Ok b"
  then obtain filename body where "r_fold (parse_item show_f64 filename) body a = Ok b"
    by (cases entry) (auto simp: parse_one_file_def r_bind_Ok_iff)
  then show "parsed_inv b"
    using inv by (rule r_fold_invariant) (rule parse_item_inv)
qed (simp add: parsed_inv_def)

lemma r_fold_unit: "r_fold f xs () = Ok () \<Longrightarrow> x \<in> set xs \<Longrightarrow> f x () = Ok ()"
  by (induction xs) (auto simp: r_bind_Ok_iff)

lemma validated:
  assumes "validate_type_vec types entities = Ok ()" "d \<in> set types" "f \<in> set (atr_field_defs d)" "field_type f = Ok (TeEntity n)"
  shows "n \<in> entities \<or> is_auth_entity_name n"
  using r_fold_unit [OF r_fold_unit [OF assms(1) [unfolded validate_type_vec_def] assms(2)] assms(3)] assms(4)
  by (simp add: validate_field_def)

lemma parse_types_Ok:
  assumes "parse_types show_f64 files = Ok types"
  shows "distinct (map atr_name types) \<and> (\<forall>d \<in> set types. model_ok (atr_name ` set types \<union> set AUTH_ENTITY_NAMES) d)"
proof -
  obtain entities where files: "r_fold (parse_one_file show_f64) files ([], {}) = Ok (types, entities)"
    and valid: "validate_type_vec types entities = Ok ()"
    using assms by (auto simp: parse_types_def r_bind_Ok_iff)
  note inv = parse_files_inv [OF files]
  have "field_ok (atr_name ` set types \<union> set AUTH_ENTITY_NAMES) f" if "d \<in> set types" "f \<in> set (atr_field_defs d)" for d f
    using inv that validated [OF valid that]
    by (fastforce simp: parsed_inv_def model_ok_def field_ok_def is_auth_entity_name_def)
  with inv show ?thesis by (auto simp: parsed_inv_def model_ok_def)
qed

text \<open>
  C38. What the server may rely on in the models of a project.  No two models and no two fields of a model
  have one name, no field is called \<open>id\<close>, every field has a type that is either built in or one of the
  models or entities of the authentication, and only fields of a literal's type have a default.
\<close>

theorem parse_types_accepts:
  assumes "parse_types show_f64 files = Ok types"
  shows "distinct (map atr_name types) \<and> (\<forall>d \<in> set types.
    distinct (map fdef_name (atr_field_defs d)) \<and> (\<forall>f \<in> set (atr_field_defs d). fdef_name f \<noteq> ''id'' \<and> (\<exists>t. field_type f = Ok t \<and>
      ((\<forall>ts. is_builtin ts t = Ok True \<and> is_ok (get_builtin ts t)) \<or>
       (\<exists>n. t = TeEntity n \<and> (n \<in> atr_name ` set types \<or> is_auth_entity_name n))) \<and>
      (fdef_default_value f \<noteq> None \<longrightarrow> t \<in> {TeString True, TeNumber True, TeBool True}))))"
  using parse_types_Ok [OF assms]
  by (fastforce simp: model_ok_def field_ok_def self_contained_def literal_type_def is_auth_entity_name_def)

subsection \<open>The server resolves what the parser accepts\<close>

lemma auth_entities_builtin:
  assumes "BuiltinTypes_new = Ok (builtin ts)" "n \<in> set AUTH_ENTITY_NAMES"
  shows "is_ok (lookup_builtin_type ts n)"
proof -
  have "map_of (builtin ts) n \<noteq> None"
    using assms
    by (auto simp: AUTH_ENTITY_NAMES_def BuiltinTypes_new_def add_auth_entity_def add_custom_entity_def r_bind_Ok_iff Let_def
        dest!: add_entity_Ok)
  then show ?thesis
    using assms(2)
    by (auto simp: AUTH_ENTITY_NAMES_def lookup_builtin_type.simps extract_template_def strip_prefix_def starts_with_def ok_or_def is_ok_def)
qed

lemma apply_types_known:
  assumes "r_fold (apply_type env db ts names indexes version_id) defs acc = Ok acc'"
  shows "fst ` set (fst acc') = fst ` set (fst acc) \<union> atr_name ` set defs"
  using assms
proof (induction defs arbitrary: acc)
  case (Cons d defs)
  then obtain acc1 where step: "apply_type env db ts names indexes version_id d acc = Ok acc1"
    and rest: "r_fold (apply_type env db ts names indexes version_id) defs acc1 = Ok acc'"
    by (auto simp: r_bind_Ok_iff)
  obtain types ins upd types1 ins1 upd1 where acc: "acc = (types, ins, upd)" "acc1 = (types1, ins1, upd1)"
    by (cases acc; cases acc1) auto
  obtain ty where "types1 = al_insert (atr_name d) (Custom ty) types"
    using apply_type_Ok [OF step [unfolded acc]] by blast
  then show ?case
    using Cons.IH [OF rest] by (simp add: acc del: set_map)
qed simp

text \<open>
  C37. Models that the parser accepted never fail on the server for a type it cannot find.  While the server
  goes through them in its order, with the models before already there, a field's type is resolved exactly when
  the model its \<open>Id\<close> type names, if it has one, is among the models.
\<close>

theorem parsed_models_resolve:
  assumes "parse_types show_f64 files = Ok types" "BuiltinTypes_new = Ok (builtin ts)"
    and "sort_custom_types toposort apply_inv ts types = Ok models" "toposort_ok toposort" "apply_inv_ok apply_inv"
    and "models = pre @ d # post" "f \<in> set (atr_field_defs d)"
    and "r_fold (apply_type env db ts (atr_name ` set types) indexes version_id) pre ([], [], []) = Ok (new_types, to_insert, to_update)"
  shows "is_ok (new_field_type ts (atr_name ` set types) new_types (atr_name d) f) \<longleftrightarrow>
    (\<forall>n. field_type f = Ok (TeEntityId n) \<longrightarrow> n \<in> atr_name ` set types)"
proof -
  note parsed = parse_types_Ok [OF assms(1)]
  note sorted = sorted_models_resolve [OF assms(3-5) conjunct1 [OF parsed]]
  have "d \<in> set types" using sorted assms(6) by (metis in_set_conv_decomp mset_eq_setD)
  then have "field_ok (atr_name ` set types \<union> set AUTH_ENTITY_NAMES) f"
    using parsed assms(7) by (simp add: model_ok_def)
  then obtain t where t: "field_type f = Ok t" and ok: "self_contained t \<or> (\<exists>n. t = TeEntity n \<and> (n \<in> atr_name ` set types \<or> n \<in> set AUTH_ENTITY_NAMES))"
    by (auto simp: field_ok_def)
  have known: "fst ` set new_types = atr_name ` set pre"
    using apply_types_known [OF assms(8)] by simp
  show ?thesis
  proof (cases "\<exists>n. t = TeEntityId n")
    case True
    then show ?thesis by (auto simp: new_field_type_def t is_ok_iff r_bind_Ok_iff)
  next
    case False
    have "is_ok (new_field_type ts (atr_name ` set types) new_types (atr_name d) f)"
    proof (cases "self_contained t")
      case True
      then have "is_builtin ts t = Ok True" "is_ok (get_builtin ts t)" by (auto simp: self_contained_def)
      then show ?thesis
        using False by (cases t) (simp_all add: new_field_type_def t)
    next
      case False
      then obtain n where n: "t = TeEntity n" "n \<in> atr_name ` set types \<or> n \<in> set AUTH_ENTITY_NAMES"
        using ok by blast
      show ?thesis
      proof (cases "is_ok (lookup_builtin_type ts n)")
        case True
        then show ?thesis by (auto simp: new_field_type_def t n(1) is_ok_iff from_ts_def)
      next
        case False
        then have "needs ts d n"
          using assms(7) t n(1) by (auto simp: needs_def)
        then have "n \<in> atr_name ` set pre" using sorted assms(6) by blast
        then have "map_of new_types n \<noteq> None"
          unfolding known [symmetric] by (simp add: map_of_eq_None_iff)
        then show ?thesis
          using False by (auto simp: new_field_type_def t n(1) is_ok_def)
      qed
    qed
    with False t show ?thesis by auto
  qed
qed

subsection \<open>An example\<close>

definition sample_classes :: "model_item list" where
  "sample_classes =
     [MiImport,
      MiExport (MdClass ''Author'' [CmProp \<lparr>cp_key = PnIdent ''name'' False, cp_type_ann = None,
        cp_value = Some (MeLit (MlStr ''x'')), cp_decorators = [MeIdent ''unique'']\<rparr>]),
      MiExport (MdClass ''Post'' [CmProp \<lparr>cp_key = PnIdent ''by'' False, cp_type_ann = Some (TsTypeRef (EnIdent ''Author'') None),
        cp_value = None, cp_decorators = []\<rparr>, CmOther])]"

definition sample_types :: "add_type_request list" where
  "sample_types =
     [\<lparr>atr_name = ''Author'', atr_field_defs = [\<lparr>fdef_name = ''name'', fdef_field_type = Some (TypeMsg (Some (TeString True))),
        fdef_labels = [], fdef_is_optional = False, fdef_default_value = Some ''x'', fdef_is_unique = True\<rparr>]\<rparr>,
      \<lparr>atr_name = ''Post'', atr_field_defs = [\<lparr>fdef_name = ''by'', fdef_field_type = Some (TypeMsg (Some (TeEntity ''Author''))),
        fdef_labels = [], fdef_is_optional = False, fdef_default_value = None, fdef_is_unique = False\<rparr>]\<rparr>]"

lemma sample_parsed: "parse_types (\<lambda>_. []) [(''models.ts'', Ok sample_classes)] = Ok sample_types"
  by (simp add: parse_types_def parse_one_file_def sample_classes_def sample_types_def parse_item_def parse_class_decl_def parse_member_def
      parse_class_prop_def get_field_info_def prop_type_and_default_def parse_literal_def get_type_decorators_def decorator_step_def
      map_type_def validate_type_vec_def validate_field_def field_type_def ok_or_def)

theorem parse_types_accepts_witness: "distinct (map atr_name sample_types)"
  using parse_types_accepts [OF sample_parsed] by blast

lemma sample_not_builtin:
  assumes "BuiltinTypes_new = Ok bt"
  shows "\<not> is_ok (lookup_builtin_type (TypeSystem_new bt ''dev'') ''Author'')"
proof -
  have "map_of bt ''Author'' = None"
    using assms
    by (auto simp: BuiltinTypes_new_def add_auth_entity_def add_custom_entity_def r_bind_Ok_iff Let_def dest!: add_entity_Ok)
  then show ?thesis
    by (simp add: lookup_builtin_type.simps TypeSystem_new_def extract_template_def strip_prefix_def starts_with_def ok_or_def is_ok_def)
qed

lemma sample_sorted:
  assumes "BuiltinTypes_new = Ok bt"
  shows "sort_custom_types sample_toposort (\<lambda>order xs. map ((!) xs) order) (TypeSystem_new bt ''dev'') sample_types = Ok sample_types"
  using sample_not_builtin [OF assms]
  by (simp add: sort_custom_types_def type_graph_def graph_field_def field_type_def add_node_def add_edge_def sample_toposort_def
      type_positions_def upt_conv_Cons sample_types_def)

theorem parsed_models_resolve_witness:
  "\<exists>ts new_types. BuiltinTypes_new = Ok (builtin ts) \<and>
     is_ok (new_field_type ts {''Author'', ''Post''} new_types ''Post'' (hd (atr_field_defs (sample_types ! 1))))"
proof -
  obtain bt where bt: "BuiltinTypes_new = Ok bt" using BuiltinTypes_new_ok by (auto simp: is_ok_iff)
  let ?ts = "TypeSystem_new bt ''dev''" and ?pre = "[sample_types ! 0]" and ?d = "sample_types ! 1"
  have b: "BuiltinTypes_new = Ok (builtin ?ts)" using bt by (simp add: TypeSystem_new_def)
  have "is_ok (r_fold (apply_type (sample_env 0) () ?ts (atr_name ` set sample_types) [] ''dev'') ?pre ([], [], []))"
    using sample_not_builtin [OF bt]
    by (simp add: apply_type_def sample_types_def new_field_def new_field_type_def field_type_def NewField_new_def is_ok_def
        ObjectType_new_def NewObject_new_def Field_new_def lookup_custom_type_def TypeSystem_new_def ok_or_def Let_def)
  then obtain new_types ins upd where run:
    "r_fold (apply_type (sample_env 0) () ?ts (atr_name ` set sample_types) [] ''dev'') ?pre ([], [], []) = Ok (new_types, ins, upd)"
    by (auto simp: is_ok_iff)
  have inv: "apply_inv_ok (\<lambda>order xs. map ((!) xs) order)" by (simp add: apply_inv_ok_def)
  have split: "sample_types = ?pre @ ?d # []" and field: "hd (atr_field_defs ?d) \<in> set (atr_field_defs ?d)"
    and ty: "field_type (hd (atr_field_defs ?d)) = Ok (TeEntity ''Author'')"
    by (simp_all add: sample_types_def field_type_def)
  have "is_ok (new_field_type ?ts (atr_name ` set sample_types) new_types (atr_name ?d) (hd (atr_field_defs ?d)))"
    unfolding parsed_models_resolve [OF sample_parsed b sample_sorted [OF bt] sample_toposort_ok inv split field run] using ty by simp
  with b show ?thesis by (auto simp: sample_types_def)
qed

end
