(* ===== verification/Rpc.thy ===== *)
theory Rpc
  imports Apply Http
begin

text \<open>
  \<open>server/src/rpc.rs\<close> with the parts of \<open>server.rs\<close>, \<open>version.rs\<close>, \<open>trunk.rs\<close>, \<open>kafka.rs\<close> and
  \<open>types/type_system.rs\<close> around it: the life of a version.  A version is started by an apply or at
  the start of the server, answers jobs while it is in the trunk, and ends with a delete.

  A call of the RPC service is one step of the server's state; calls that overlap in time are not
  modelled.  What a version's workers do while they start is a list of events chosen by the
  environment (\<open>re_run\<close>), and an apply whose version neither becomes ready nor fails does not
  return: the result is \<open>None\<close>.
\<close>

subsection \<open>Versions, their workers and jobs\<close>

record 'r version_init =
  vt_version_id :: string
  vt_info :: version_info
  vt_modules :: "(string \<times> string) list"
  vt_type_system :: type_system
  vt_policy_system :: "'r policy_system"
  vt_policy_sources :: policy_sources
  vt_worker_count :: nat
  vt_is_canary :: bool

definition version_spawn :: "'r version_init \<Rightarrow> 'r version" where
  "version_spawn init =
     \<lparr>v_version_id = vt_version_id init, v_info = vt_info init, v_type_system = vt_type_system init,
      v_policy_system = vt_policy_system init, v_policy_sources = vt_policy_sources init\<rparr>"

record kafka_event =
  ke_topic :: string
  ke_key :: "8 word list"
  ke_value :: "8 word list"

datatype version_job = JobHttp http_request | JobKafka kafka_event | JobOutbox

text \<open>
  The task that hands the jobs of a version to its workers.  \<open>accepts i sent\<close> says whether the
  channel to worker \<open>i\<close> takes another job after the jobs \<open>sent\<close>.
\<close>

definition job_step ::
  "(nat \<Rightarrow> version_job list \<Rightarrow> bool) \<Rightarrow> string \<Rightarrow> version_job \<Rightarrow> nat \<times> version_job list list \<Rightarrow> (nat \<times> version_job list list) res" where
  "job_step accepts version_id job = (\<lambda>(worker_i, sent).
     if length sent \<le> worker_i then Panic ''index out of bounds''
     else if \<not> accepts worker_i (sent ! worker_i)
     then Err (Bail ''Worker {:?} {} is unable to accept jobs'' [version_id, show_nat worker_i])
     else Ok ((worker_i + 1) mod length sent, sent[worker_i := sent ! worker_i @ [job]]))"

definition job_task ::
  "(nat \<Rightarrow> version_job list \<Rightarrow> bool) \<Rightarrow> string \<Rightarrow> nat \<Rightarrow> version_job list \<Rightarrow> (nat \<times> version_job list list) res" where
  "job_task accepts version_id worker_count jobs = r_fold (job_step accepts version_id) jobs (0, replicate worker_count [])"

text \<open>\<open>kafka.rs\<close>: an event, and a request to publish the outbox, become a job of every version.\<close>

definition handle_event :: "'r trunk \<Rightarrow> string \<Rightarrow> 8 word list option \<Rightarrow> 8 word list option \<Rightarrow> (string \<times> version_job) list" where
  "handle_event trunk topic key val =
     (let unwrap_or_default = (\<lambda>x. case x of Some bs \<Rightarrow> bs | None \<Rightarrow> []) in
      map (\<lambda>(version_id, _).
        (version_id, JobKafka \<lparr>ke_topic = topic, ke_key = unwrap_or_default key, ke_value = unwrap_or_default val\<rparr>)) trunk)"

definition handle_publish :: "'r trunk \<Rightarrow> (string \<times> version_job) list" where
  "handle_publish trunk = map (\<lambda>(version_id, _). (version_id, JobOutbox)) trunk"

subsection \<open>Waiting for a version\<close>

text \<open>
  What \<open>select!\<close> can see.  A task result of none is a cancelled task.  The timeout is armed when the
  version has dropped its ready channel, and the channel is not polled again after that.
\<close>

datatype version_event = TaskEnded "unit res option" | ReadySent | ReadyDropped | TimeoutFired

fun wait_until_ready :: "bool \<Rightarrow> version_event list \<Rightarrow> unit res option" where
  "wait_until_ready dropped [] = None"
| "wait_until_ready dropped (TaskEnded r # events) =
     Some (case r of
        Some (Ok _) \<Rightarrow> Err (Bail ''Version task terminated before the version was ready'' [])
      | Some (Err err) \<Rightarrow> Err (Context ''Could not apply the provided code'' err)
      | Some (Panic p) \<Rightarrow> Panic p
      | None \<Rightarrow> Err (Bail ''Version task was cancelled'' []))"
| "wait_until_ready dropped (ReadySent # events) = (if dropped then wait_until_ready dropped events else Some (Ok ()))"
| "wait_until_ready dropped (ReadyDropped # events) = wait_until_ready True events"
| "wait_until_ready dropped (TimeoutFired # events) =
     (if dropped then Some (Err (Bail ''Version did not become ready'' [])) else wait_until_ready dropped events)"

subsection \<open>The state of the server\<close>

text \<open>\<open>sr_nursery\<close> holds what was started by the version tasks that the trunk watches.\<close>

record ('r, 'db) server_state =
  sr_trunk :: "'r trunk"
  sr_nursery :: "'r version_init list"
  sr_type_systems :: "(string \<times> type_system) list"
  sr_meta :: meta_db
  sr_data :: 'db
  sr_secrets :: "(string \<times> json) list"

record ('r, 'cell, 'db) rpc_env =
  re_apply :: "('r, 'db) apply_env"
  re_engine :: "('cell, 'db) engine_env"
  re_exec_sql :: "sql_with_arguments \<Rightarrow> 'db \<Rightarrow> unit res \<times> 'db"
  re_regex_new :: "string \<Rightarrow> 'r res"
  re_method_from_str :: "string \<Rightarrow> string res"
  re_yaml_load :: "string \<Rightarrow> yaml_policies res"
  re_sources_from_str :: "string \<Rightarrow> policy_sources res"
  re_run :: "'r version_init \<Rightarrow> version_event list"
  re_worker_threads :: nat
  re_get_secrets :: "(string \<times> json) list res"
  re_semver :: string

text \<open>Policy files are parsed by \<open>PolicySystem::from_yaml\<close> on both ways, at an apply and at a start.\<close>

definition env_from_yaml :: "('r, 'cell, 'db) rpc_env \<Rightarrow> string \<Rightarrow> 'r policy_system res" where
  "env_from_yaml env config = from_yaml (re_regex_new env) (re_method_from_str env) (re_yaml_load env config)"

definition env_apply :: "('r, 'cell, 'db) rpc_env \<Rightarrow> ('r, 'db) apply_env" where
  "env_apply env = (re_apply env)\<lparr>ae_from_yaml := env_from_yaml env\<rparr>"

abbreviation env_builtin :: "('r, 'cell, 'db) rpc_env \<Rightarrow> (string \<times> ty) list" where
  "env_builtin env \<equiv> ae_builtin_types (re_apply env)"

text \<open>\<open>Trunk::add_version\<close> with the task it is given.\<close>

definition publish_version :: "'r version_init \<Rightarrow> ('r, 'db) server_state \<Rightarrow> ('r, 'db) server_state" where
  "publish_version init st =
     st\<lparr>sr_trunk := add_version (version_spawn init) (sr_trunk st), sr_nursery := sr_nursery st @ [init]\<rparr>"

definition update_secrets :: "('r, 'cell, 'db) rpc_env \<Rightarrow> ('r, 'db) server_state \<Rightarrow> unit res \<times> ('r, 'db) server_state" where
  "update_secrets env st = or_return (re_get_secrets env) st (\<lambda>secrets. (Ok (), st\<lparr>sr_secrets := secrets\<rparr>))"

subsection \<open>Apply\<close>

record rpc_apply_request = apply_request +
  ar_version_id :: string
  ar_app_name :: string
  ar_version_tag :: string
  ar_modules :: "(string \<times> string) list"

record apply_response =
  ap_types :: "string list"
  ap_labels :: "string list"

text \<open>The regular expression \<open>^[-_[[:alnum:]]]+$\<close>.\<close>

definition version_char :: "char \<Rightarrow> bool" where
  "version_char c =
     (let n = of_char c :: nat in
      c = CHR ''-'' \<or> c = CHR ''_'' \<or> 48 \<le> n \<and> n \<le> 57 \<or> 65 \<le> n \<and> n \<le> 90 \<or> 97 \<le> n \<and> n \<le> 122)"

definition validate_version_id :: "string \<Rightarrow> string res" where
  "validate_version_id version_id =
     r_bind (ensure (version_id \<noteq> ''__chiselstrike'') (Bail ''Version {:?} is special and cannot be used'' [version_id])) (\<lambda>_.
     r_bind (ensure (version_id \<noteq> [] \<and> list_all version_char version_id)
       (Bail ''Version can only be alphanumeric, _ or -'' [])) (\<lambda>_.
     Ok version_id))"

definition canary_init ::
  "('r, 'cell, 'db) rpc_env \<Rightarrow> string \<Rightarrow> version_info \<Rightarrow> (string \<times> string) list \<Rightarrow> 'r version_init" where
  "canary_init env version_id info modules =
     \<lparr>vt_version_id = version_id, vt_info = info, vt_modules = modules,
      vt_type_system = TypeSystem_new (env_builtin env) version_id, vt_policy_system = PolicySystem_default,
      vt_policy_sources = [], vt_worker_count = 1, vt_is_canary = True\<rparr>"

definition validate_modules ::
  "('r, 'cell, 'db) rpc_env \<Rightarrow> string \<Rightarrow> version_info \<Rightarrow> (string \<times> string) list \<Rightarrow> unit res option" where
  "validate_modules env version_id info modules =
     wait_until_ready False (re_run env (canary_init env version_id info modules))"

text \<open>\<open>?\<close> after an \<open>await\<close> that may never return.\<close>

definition or_wait :: "'a res option \<Rightarrow> 's \<Rightarrow> ('a \<Rightarrow> 'b res option \<times> 's) \<Rightarrow> 'b res option \<times> 's" where
  "or_wait r s f =
     (case r of None \<Rightarrow> (None, s) | Some (Ok x) \<Rightarrow> f x | Some (Err e) \<Rightarrow> (Some (Err e), s) | Some (Panic p) \<Rightarrow> (Some (Panic p), s))"

definition module_map :: "(string \<times> string) list \<Rightarrow> (string \<times> string) list" where
  "module_map ms = fold (\<lambda>(url, code) modules. al_insert url code modules) ms []"

text \<open>The migration of the version's models, under the lock of the type systems.\<close>

definition apply_locked ::
  "('r, 'cell, 'db) rpc_env \<Rightarrow> rpc_apply_request \<Rightarrow> string \<Rightarrow> version_info \<Rightarrow> (string \<times> string) list \<Rightarrow> ('r, 'db) server_state
     \<Rightarrow> 'r apply_result res \<times> ('r, 'db) server_state" where
  "apply_locked env req version_id info modules st =
     (case apply_models (env_apply env) (apply_request.truncate req) version_id info modules
        \<lparr>as_meta = sr_meta st, as_data = sr_data st, as_types = ts_entry (env_builtin env) version_id (sr_type_systems st)\<rparr> of
        (r, as) \<Rightarrow>
          (r, st\<lparr>sr_meta := as_meta as, sr_data := as_data as, sr_type_systems := al_insert version_id (as_types as) (sr_type_systems st)\<rparr>))"

definition result_init ::
  "('r, 'cell, 'db) rpc_env \<Rightarrow> string \<Rightarrow> version_info \<Rightarrow> (string \<times> string) list \<Rightarrow> 'r apply_result \<Rightarrow> 'r version_init" where
  "result_init env version_id info modules result =
     \<lparr>vt_version_id = version_id, vt_info = info, vt_modules = modules, vt_type_system = res_type_system result,
      vt_policy_system = res_policy_system result, vt_policy_sources = res_policy_sources result,
      vt_worker_count = re_worker_threads env, vt_is_canary = False\<rparr>"

definition rpc_apply ::
  "('r, 'cell, 'db) rpc_env \<Rightarrow> rpc_apply_request \<Rightarrow> ('r, 'db) server_state \<Rightarrow> apply_response res option \<times> ('r, 'db) server_state" where
  "rpc_apply env req st =
     or_wait (Some (validate_version_id (ar_version_id req))) st (\<lambda>version_id.
     let info = \<lparr>vi_name = ar_app_name req, vi_tag = ar_version_tag req\<rparr>; modules = module_map (ar_modules req) in
     or_wait (map_option (with_context ''The provided code does not seem to work'') (validate_modules env version_id info modules)) st (\<lambda>_.
     case apply_locked env req version_id info modules st of (r, st) \<Rightarrow>
     or_wait (Some r) st (\<lambda>result.
     let init = result_init env version_id info modules result in
     or_wait (map_option (with_context ''The version did not start up correcly, but the database has already been modified'')
         (wait_until_ready False (re_run env init))) st (\<lambda>_.
     (Some (Ok \<lparr>ap_types = res_type_names_user_order result, ap_labels = res_labels result\<rparr>),
      snd (update_secrets env (publish_version init st)))))))"

subsection \<open>Delete\<close>

definition version_types :: "'r version \<Rightarrow> object_type list" where
  "version_types v = map (\<lambda>(_, e). entity_object e) (custom_types (v_type_system v))"

definition rpc_delete ::
  "('r, 'cell, 'db) rpc_env \<Rightarrow> string \<Rightarrow> ('r, 'db) server_state \<Rightarrow> string res \<times> ('r, 'db) server_state" where
  "rpc_delete env version_id st =
     (case remove_version version_id (sr_trunk st) of
        (_, None) \<Rightarrow> (Err (Bail ''Version {:?} does not exist'' [version_id]), st)
      | (trunk, Some version) \<Rightarrow>
          let st = st\<lparr>sr_trunk := trunk\<rparr>; entities_to_remove = version_types version in
          or_return (r_bind (delete_policy_version (v_version_id version) (sr_meta st)) (r_fold remove_type entities_to_remove)) st (\<lambda>meta.
          let st = st\<lparr>sr_meta := meta\<rparr> in
          or_return (r_fold (drop_table (ae_exec (re_apply env))) entities_to_remove (sr_data st)) st (\<lambda>data.
          (Ok (''Deleted '' @ v_version_id version), st\<lparr>sr_data := data\<rparr>))))"

subsection \<open>Populate\<close>

text \<open>\<open>n\<close> numbers the fresh ids.\<close>

fun populate_rows ::
  "('cell, 'db) engine_env \<Rightarrow> (sql_with_arguments \<Rightarrow> 'db \<Rightarrow> unit res \<times> 'db) \<Rightarrow> object_type \<Rightarrow> entity_map res list \<Rightarrow> nat
     \<Rightarrow> 'db \<Rightarrow> unit res \<times> 'db" where
  "populate_rows env exec ty_obj_to [] n db = (Ok (), db)"
| "populate_rows env exec ty_obj_to (row # rows) n db =
     or_return (with_context ''population cannot proceed as reading from the underlying database for type {} failed'' row) db (\<lambda>row.
     case add_row_shallow env exec ty_obj_to row n db of
       (Ok _, db) \<Rightarrow> populate_rows env exec ty_obj_to rows (Suc n) db
     | failed \<Rightarrow> failed)"

text \<open>A transaction that is not committed is rolled back.\<close>

definition populate_type ::
  "('cell, 'db) engine_env \<Rightarrow> (sql_with_arguments \<Rightarrow> 'db \<Rightarrow> unit res \<times> 'db) \<Rightarrow> entity \<Rightarrow> entity \<Rightarrow> 'db \<Rightarrow> unit res \<times> 'db" where
  "populate_type env exec ty_obj ty_obj_to db =
     or_return (with_context ''Not possible to evolve type {} ({} -> {})''
         (check_if_safe_to_populate (entity_object ty_obj_to) (entity_object ty_obj))) db (\<lambda>_.
     or_return (engine_query env db (from_type ty_obj)) db (\<lambda>row_streams.
     case populate_rows env exec (entity_object ty_obj_to) row_streams 0 db of
       (Ok _, db') \<Rightarrow> (Ok (), db')
     | (r, _) \<Rightarrow> (r, db)))"

fun populate_types ::
  "('cell, 'db) engine_env \<Rightarrow> (sql_with_arguments \<Rightarrow> 'db \<Rightarrow> unit res \<times> 'db) \<Rightarrow> type_system \<Rightarrow> (string \<times> entity) list \<Rightarrow> 'db
     \<Rightarrow> unit res \<times> 'db" where
  "populate_types env exec to_ts [] db = (Ok (), db)"
| "populate_types env exec to_ts ((ty_name, ty_obj) # types) db =
     (case map_of (custom_types to_ts) ty_name of
        None \<Rightarrow> populate_types env exec to_ts types db
      | Some ty_obj_to \<Rightarrow>
          (case populate_type env exec ty_obj ty_obj_to db of
             (Ok _, db) \<Rightarrow> populate_types env exec to_ts types db
           | failed \<Rightarrow> failed))"

definition rpc_populate ::
  "('r, 'cell, 'db) rpc_env \<Rightarrow> string \<Rightarrow> string \<Rightarrow> ('r, 'db) server_state \<Rightarrow> string res \<times> ('r, 'db) server_state" where
  "rpc_populate env to_version_id from_version_id st =
     or_return (ok_or (Bail ''To-version {:?} does not exist'' [to_version_id]) (get_version (sr_trunk st) to_version_id)) st (\<lambda>to_version.
     or_return (ok_or (Bail ''From-version {:?} does not exist'' [from_version_id]) (get_version (sr_trunk st) from_version_id)) st (\<lambda>from_version.
     case populate_types (re_engine env) (re_exec_sql env) (v_type_system to_version) (custom_types (v_type_system from_version)) (sr_data st) of
       (r, data) \<Rightarrow> or_return r (st\<lparr>sr_data := data\<rparr>) (\<lambda>_. (Ok ''OK'', st\<lparr>sr_data := data\<rparr>))))"

subsection \<open>Describe\<close>

record type_definition =
  tdef_name :: string
  tdef_field_defs :: "field_definition list"

record version_definition =
  vdef_version_id :: string
  vdef_type_defs :: "type_definition list"
  vdef_labels :: "string list"

definition describe_field :: "type_system \<Rightarrow> field \<Rightarrow> field_definition res" where
  "describe_field ts f =
     (case ts_get ts (f_type_id f) of
        Ok ty \<Rightarrow> Ok
          \<lparr>fdef_name = f_name f, fdef_field_type = Some (type_msg_of ty), fdef_labels = f_labels f,
           fdef_is_optional = f_is_optional f, fdef_default_value = f_default f, fdef_is_unique = f_is_unique f\<rparr>
      | Err _ \<Rightarrow> Panic ''called Result::unwrap() on an Err value''
      | Panic p \<Rightarrow> Panic p)"

definition describe_version :: "'r version \<Rightarrow> version_definition res" where
  "describe_version v =
     r_bind (r_map (\<lambda>(_, e).
       r_bind (r_map (describe_field (v_type_system v)) (all_fields (entity_object e))) (\<lambda>field_defs.
       Ok \<lparr>tdef_name = ot_name (entity_object e), tdef_field_defs = field_defs\<rparr>)) (custom_types (v_type_system v))) (\<lambda>type_defs.
     Ok \<lparr>vdef_version_id = v_version_id v, vdef_type_defs = sort_key tdef_name type_defs,
         vdef_labels = sort (map fst (ps_labels (v_policy_system v)))\<rparr>)"

definition describe :: "'r trunk \<Rightarrow> version_definition list res" where
  "describe trunk = r_map describe_version (list_versions trunk)"

subsection \<open>The start of the server\<close>

definition create_backing_tables :: "(ddl \<Rightarrow> 'db \<Rightarrow> 'db res) \<Rightarrow> (string \<times> ty) list \<Rightarrow> 'db \<Rightarrow> 'db res" where
  "create_backing_tables exec types db =
     r_fold (\<lambda>(_, ty) db. case ty of TEntity e \<Rightarrow> create_table exec (entity_object e) db | _ \<Rightarrow> Ok db) types db"

definition root_url :: string where
  "root_url = ''file:///__root.ts''"

definition start_version ::
  "('r, 'cell, 'db) rpc_env \<Rightarrow> string \<times> version_info \<Rightarrow> ('r, 'db) server_state \<Rightarrow> unit res \<times> ('r, 'db) server_state" where
  "start_version env = (\<lambda>(version_id, info) st.
     let ts = ts_entry (env_builtin env) version_id (sr_type_systems st) in
     or_return (load_policy_system (re_regex_new env) (re_method_from_str env) (re_yaml_load env) version_id (sr_meta st)) st (\<lambda>policy_system.
     let modules = load_modules version_id (sr_meta st) in
     or_return (load_policy_sources (re_sources_from_str env) version_id (sr_meta st)) st (\<lambda>policy_sources.
     if root_url \<notin> fst ` set modules then (Ok (), st)
     else (Ok (), publish_version
       \<lparr>vt_version_id = version_id, vt_info = info, vt_modules = modules, vt_type_system = ts, vt_policy_system = policy_system,
        vt_policy_sources = policy_sources, vt_worker_count = re_worker_threads env, vt_is_canary = False\<rparr> st))))"

fun start_each ::
  "('r, 'cell, 'db) rpc_env \<Rightarrow> (string \<times> version_info) list \<Rightarrow> ('r, 'db) server_state \<Rightarrow> unit res \<times> ('r, 'db) server_state" where
  "start_each env [] st = (Ok (), st)"
| "start_each env (v # versions) st =
     (case start_version env v st of (Ok _, st) \<Rightarrow> start_each env versions st | failed \<Rightarrow> failed)"

definition start_versions :: "('r, 'cell, 'db) rpc_env \<Rightarrow> ('r, 'db) server_state \<Rightarrow> unit res \<times> ('r, 'db) server_state" where
  "start_versions env st = start_each env (load_version_infos (sr_meta st)) st"

definition builtin_root :: string where
  "builtin_root =
     (let indent = CHR 0x0A # ''        ''
      in indent @ ''export * from '' @ [CHR 0x27] @ ''chisel://api/builtin_root.ts'' @ [CHR 0x27] @ '';'' @ indent)"

definition start_builtin_version :: "('r, 'cell, 'db) rpc_env \<Rightarrow> ('r, 'db) server_state \<Rightarrow> ('r, 'db) server_state" where
  "start_builtin_version env st =
     (let version_id = ''__chiselstrike'' in
      publish_version
        \<lparr>vt_version_id = version_id, vt_info = \<lparr>vi_name = ''ChiselStrike Internal API'', vi_tag = re_semver env\<rparr>,
         vt_modules = [(root_url, builtin_root)], vt_type_system = TypeSystem_new (env_builtin env) version_id,
         vt_policy_system = PolicySystem_default, vt_policy_sources = [], vt_worker_count = 1, vt_is_canary = False\<rparr> st)"

text \<open>\<open>make_server\<close> on a database whose metadata tables are current, and \<open>run\<close> up to the versions.\<close>

definition make_server ::
  "('r, 'cell, 'db) rpc_env \<Rightarrow> meta_db \<Rightarrow> 'db \<Rightarrow> ('r, 'db) server_state res" where
  "make_server env meta db =
     r_bind (create_backing_tables (ae_exec (re_apply env)) (env_builtin env) db) (\<lambda>db.
     r_bind (load_type_systems (env_builtin env) meta) (\<lambda>type_systems.
     let secrets = (case re_get_secrets env of Ok secrets \<Rightarrow> secrets | _ \<Rightarrow> []) in
     Ok \<lparr>sr_trunk = [], sr_nursery = [], sr_type_systems = type_systems, sr_meta = meta, sr_data = db, sr_secrets = secrets\<rparr>))"

definition server_run :: "('r, 'cell, 'db) rpc_env \<Rightarrow> meta_db \<Rightarrow> 'db \<Rightarrow> ('r, 'db) server_state res" where
  "server_run env meta db =
     r_bind (make_server env meta db) (\<lambda>st.
     case start_versions env st of (r, st) \<Rightarrow> r_bind r (\<lambda>_. Ok (start_builtin_version env st)))"

text \<open>The server's states: a start, then calls of the service.\<close>

inductive served :: "('r, 'cell, 'db) rpc_env \<Rightarrow> ('r, 'db) server_state \<Rightarrow> bool" for env where
  Start: "server_run env meta db = Ok st \<Longrightarrow> served env st"
| Apply: "served env st \<Longrightarrow> served env (snd (rpc_apply env req st))"
| Delete: "served env st \<Longrightarrow> served env (snd (rpc_delete env version_id st))"
| Populate: "served env st \<Longrightarrow> served env (snd (rpc_populate env to_id from_id st))"
| Secrets: "served env st \<Longrightarrow> served env (snd (update_secrets env st))"

subsection \<open>Jobs are dealt out in turn\<close>

lemma job_steps_Ok:
  assumes "r_fold (job_step accepts version_id) jobs (length dealt mod n, sent) = Ok (i, sent')" "0 < n" "length sent = n"
    and "\<And>k. k < n \<Longrightarrow> sent ! k = map ((!) dealt) (filter (\<lambda>j. j mod n = k) [0..<length dealt])"
  shows "i = length (dealt @ jobs) mod n \<and> length sent' = n \<and>
    (\<forall>k < n. sent' ! k = map ((!) (dealt @ jobs)) (filter (\<lambda>j. j mod n = k) [0..<length (dealt @ jobs)]))"
  using assms
proof (induction jobs arbitrary: dealt sent)
  case (Cons job jobs)
  let ?w = "length dealt mod n" and ?sent = "sent[length dealt mod n := sent ! (length dealt mod n) @ [job]]"
  have w: "?w < length sent" using Cons.prems(2,3) by simp
  have next_w: "(?w + 1) mod length sent = length (dealt @ [job]) mod n"
    by (simp add: Cons.prems(3) mod_Suc_eq)
  have step: "job_step accepts version_id job (?w, sent) = Ok ((?w + 1) mod length sent, ?sent) \<or>
      (\<exists>e. job_step accepts version_id job (?w, sent) = Err e)"
    using w by (simp add: job_step_def)
  then have rest: "r_fold (job_step accepts version_id) jobs (length (dealt @ [job]) mod n, ?sent) = Ok (i, sent')"
    using Cons.prems(1) next_w by auto
  have "?sent ! k = map ((!) (dealt @ [job])) (filter (\<lambda>j. j mod n = k) [0..<length (dealt @ [job])])" if "k < n" for k
  proof -
    have "map ((!) (dealt @ [job])) (filter (\<lambda>j. j mod n = k) [0..<length dealt]) = sent ! k"
      unfolding Cons.prems(4) [OF that] by (rule map_cong [OF refl]) (auto simp: nth_append)
    then show ?thesis
      using w Cons.prems(3) that by (simp add: nth_list_update)
  qed
  from Cons.IH [OF rest Cons.prems(2) _ this] show ?case
    using Cons.prems(3) by simp
qed simp

lemma job_steps_total:
  assumes "\<And>k sent. accepts k sent" "i < length sent"
  shows "is_ok (r_fold (job_step accepts version_id) jobs (i, sent))"
  using assms(2)
proof (induction jobs arbitrary: i sent)
  case (Cons job jobs)
  have "Suc i mod length sent < length (sent[i := sent ! i @ [job]])"
    using Cons.prems by (simp, metis length_greater_0_conv mod_less_divisor less_nat_zero_code list.size(3))
  from Cons.IH [OF this] show ?case
    using Cons.prems by (simp add: job_step_def assms(1))
qed (simp add: is_ok_def)

text \<open>
  Jobs are dealt out to the workers of a version in turn: worker \<open>k\<close> of \<open>n\<close> is sent exactly the jobs
  number \<open>k\<close>, \<open>k + n\<close>, \<open>k + 2n\<close> and so on, in that order, and no job is lost while the workers accept them.
\<close>

theorem job_task_round_robin:
  assumes "0 < n"
  shows "(\<forall>i sent. job_task accepts version_id n jobs = Ok (i, sent) \<longrightarrow>
      length sent = n \<and> (\<forall>k < n. sent ! k = map ((!) jobs) (filter (\<lambda>j. j mod n = k) [0..<length jobs]))) \<and>
    ((\<forall>k sent. accepts k sent) \<longrightarrow> is_ok (job_task accepts version_id n jobs))"
proof (intro conjI allI impI)
  fix i sent assume "job_task accepts version_id n jobs = Ok (i, sent)"
  then have "r_fold (job_step accepts version_id) jobs (length [] mod n, replicate n []) = Ok (i, sent)"
    by (simp add: job_task_def)
  from job_steps_Ok [OF this assms] have sent: "length sent = n"
    "\<forall>k < n. sent ! k = map ((!) jobs) (filter (\<lambda>j. j mod n = k) [0..<length jobs])"
    by simp_all
  show "length sent = n" by (rule sent(1))
  show "sent ! k = map ((!) jobs) (filter (\<lambda>j. j mod n = k) [0..<length jobs])" if "k < n" for k
    using sent(2) that by simp
next
  assume "\<forall>k sent. accepts k sent"
  then show "is_ok (job_task accepts version_id n jobs)"
    unfolding job_task_def using assms by (intro job_steps_total) auto
qed

theorem job_task_round_robin_witness:
  "\<exists>i sent. job_task (\<lambda>_ _. True) ''dev'' 2 [JobOutbox, JobOutbox, JobOutbox] = Ok (i, sent) \<and> sent ! 0 = [JobOutbox, JobOutbox]"
  using job_task_round_robin [of 2 "\<lambda>_ _. True" "''dev''" "[JobOutbox, JobOutbox, JobOutbox]"]
  by (auto simp: is_ok_iff upt_conv_Cons)

subsection \<open>What is kept for a version\<close>

text \<open>The tables that are keyed by a version; the writes of types leave them alone.\<close>

definition version_tables ::
  "meta_db \<Rightarrow> (string \<times> string) list \<times> (string \<times> string) list \<times> (string \<times> string \<times> string) list \<times> (string \<times> version_info) list" where
  "version_tables db = (md_policies db, md_policy_store db, md_modules db, md_api_info db)"

named_theorems frame \<open>operations that leave the tables of versions alone\<close>

lemma frame_fold:
  assumes "r_fold f xs db = Ok db'" "\<And>x d d'. f x d = Ok d' \<Longrightarrow> version_tables d' = version_tables d"
  shows "version_tables db' = version_tables db"
  using assms(1) by (rule r_fold_invariant [where P = "\<lambda>d. version_tables d = version_tables db"]) (auto dest: assms(2))

lemma version_tables_updates [simp]:
  "version_tables (db\<lparr>md_types := ts\<rparr>) = version_tables db" "version_tables (db\<lparr>md_type_names := ns\<rparr>) = version_tables db"
  "version_tables (db\<lparr>md_fields := fs\<rparr>) = version_tables db" "version_tables (db\<lparr>md_field_names := fns\<rparr>) = version_tables db"
  "version_tables (db\<lparr>md_field_labels := ls\<rparr>) = version_tables db" "version_tables (db\<lparr>md_indexes := idx\<rparr>) = version_tables db"
  "version_tables (delete_fields P db) = version_tables db" "version_tables (delete_types tid db) = version_tables db"
  by (simp_all add: version_tables_def delete_types_def delete_fields_def Let_def)

lemma frame_insert_field [frame]: "insert_field_query new_id ty rec f db = Ok db' \<Longrightarrow> version_tables db' = version_tables db"
  by (auto simp: insert_field_query_def r_bind_Ok_iff Let_def)

lemma frame_remove_field [frame]: "remove_field_query f db = Ok db' \<Longrightarrow> version_tables db' = version_tables db"
  by (auto simp: remove_field_query_def r_bind_Ok_iff Let_def)

lemma frame_update_field [frame]: "update_field_query delta db = Ok db' \<Longrightarrow> version_tables db' = version_tables db"
  by (auto simp: update_field_query_def r_bind_Ok_iff Let_def split: option.splits)

lemma frame_insert_indexes [frame]: "insert_indexes new_id tid idxs db = Ok db' \<Longrightarrow> version_tables db' = version_tables db"
  unfolding insert_indexes_def by (erule frame_fold) (auto simp: r_bind_Ok_iff)

lemma frame_delete_indexes [frame]: "delete_indexes idxs db = Ok db' \<Longrightarrow> version_tables db' = version_tables db"
  unfolding delete_indexes_def by (erule frame_fold) (auto simp: r_bind_Ok_iff)

lemma frame_insert_fields [frame]: "r_fold (insert_field_query new_id ty rec) fs db = Ok db' \<Longrightarrow> version_tables db' = version_tables db"
  by (erule frame_fold) (rule frame_insert_field)

lemma frame_remove_fields [frame]: "r_fold remove_field_query fs db = Ok db' \<Longrightarrow> version_tables db' = version_tables db"
  by (erule frame_fold) (rule frame_remove_field)

lemma frame_update_fields [frame]: "r_fold update_field_query ds db = Ok db' \<Longrightarrow> version_tables db' = version_tables db"
  by (erule frame_fold) (rule frame_update_field)

lemma frame_insert_type [frame]: "insert_type new_id ty db = Ok db' \<Longrightarrow> version_tables db' = version_tables db"
  by (auto simp: insert_type_def r_bind_Ok_iff Let_def dest!: frame)

lemma frame_update_type [frame]: "update_type new_id ty delta db = Ok db' \<Longrightarrow> version_tables db' = version_tables db"
  by (auto simp: update_type_def r_bind_Ok_iff dest!: frame)

lemma frame_remove_type [frame]: "remove_type ty db = Ok db' \<Longrightarrow> version_tables db' = version_tables db"
  by (auto simp: remove_type_def r_bind_Ok_iff Let_def dest!: frame)

lemma frame_insert_types [frame]: "r_fold (insert_type new_id) tys db = Ok db' \<Longrightarrow> version_tables db' = version_tables db"
  by (erule frame_fold) (rule frame_insert_type)

lemma frame_update_types [frame]:
  "r_fold (\<lambda>(old, delta). update_type new_id old delta) us db = Ok db' \<Longrightarrow> version_tables db' = version_tables db"
  by (erule frame_fold) (auto dest: frame_update_type)

lemma frame_remove_types [frame]: "r_fold remove_type tys db = Ok db' \<Longrightarrow> version_tables db' = version_tables db"
  by (erule frame_fold) (rule frame_remove_type)

lemma persist_plan_tables:
  assumes "persist_plan env version_id info modules policies plan db = Ok db'"
  shows "\<exists>json. ae_sources_to_string env (pp_policy_sources policies) = Ok json \<and> version_tables db' =
    (al_insert version_id (pp_policy_system_str policies) (md_policies db), al_insert version_id json (md_policy_store db),
     filter (\<lambda>(u, _). u \<noteq> version_id) (md_modules db) @ map (Pair version_id) modules, al_insert version_id info (md_api_info db))"
proof -
  obtain json d1 d2 where json: "ae_sources_to_string env (pp_policy_sources policies) = Ok json"
    and mods: "persist_modules version_id modules (db\<lparr>md_policy_store := al_insert version_id json (md_policy_store db),
        md_policies := al_insert version_id (pp_policy_system_str policies) (md_policies db),
        md_api_info := al_insert version_id info (md_api_info db)\<rparr>) = Ok d1"
    and types: "version_tables db' = version_tables d1"
    using assms
    by (auto simp: persist_plan_def persist_policy_sources_def persist_policy_version_def persist_version_info_def r_bind_Ok_iff
        dest!: frame)
  show ?thesis
    using json mods unfolding types by (auto simp: persist_modules_Ok version_tables_def)
qed

subsection \<open>Who is in the trunk\<close>

definition persisted_version :: "meta_db \<Rightarrow> string \<Rightarrow> bool" where
  "persisted_version db version_id \<longleftrightarrow> version_id \<in> fst ` set (md_api_info db) \<and> version_id \<in> fst ` set (md_policies db)"

definition server_inv :: "('r, 'db) server_state \<Rightarrow> bool" where
  "server_inv st \<longleftrightarrow> (\<forall>version_id v. get_version (sr_trunk st) version_id = Some v \<longrightarrow>
     v_version_id v = version_id \<and> (version_id \<noteq> ''__chiselstrike'' \<longrightarrow> persisted_version (sr_meta st) version_id))"

lemma server_inv_publish:
  assumes "server_inv st" "vt_version_id init = ''__chiselstrike'' \<or> persisted_version (sr_meta st) (vt_version_id init)"
  shows "server_inv (publish_version init st)"
  using assms by (auto simp: server_inv_def publish_version_def add_version_def version_spawn_def get_version_def)

lemma server_inv_meta:
  assumes "server_inv st" "sr_trunk st' = sr_trunk st"
    and "\<And>v. persisted_version (sr_meta st) v \<Longrightarrow> persisted_version (sr_meta st') v"
  shows "server_inv st'"
  using assms by (simp add: server_inv_def)

lemma start_version_Ok:
  assumes "start_version env (version_id, info) st = (Ok (), st')"
  shows "version_id \<in> fst ` set (md_policies (sr_meta st)) \<and> sr_meta st' = sr_meta st \<and> sr_type_systems st' = sr_type_systems st \<and>
    (st' = st \<or> (\<exists>init. vt_version_id init = version_id \<and> st' = publish_version init st))"
  using assms
  by (auto simp: start_version_def or_return_def load_policy_system_def ok_or_def publish_version_def Let_def r_bind_Ok_iff image_iff
      split: result.splits option.splits if_splits dest!: map_of_SomeD) force+

lemma start_each_inv:
  assumes "start_each env vs st = (Ok (), st')" "server_inv st" "fst ` set vs \<subseteq> fst ` set (md_api_info (sr_meta st))"
  shows "server_inv st' \<and> sr_meta st' = sr_meta st"
  using assms
proof (induction vs arbitrary: st)
  case (Cons v vs)
  obtain version_id info where v: "v = (version_id, info)" by (cases v)
  from Cons.prems(1) obtain st1 where st1: "start_version env (version_id, info) st = (Ok (), st1)" and rest: "start_each env vs st1 = (Ok (), st')"
    by (auto simp: v split: prod.splits result.splits)
  note step = start_version_Ok [OF st1]
  then have "persisted_version (sr_meta st) version_id"
    using Cons.prems(3) by (simp add: v persisted_version_def)
  with step Cons.prems(2) have "server_inv st1"
    by (auto intro: server_inv_publish)
  from Cons.IH [OF rest this] step Cons.prems(3) show ?case by (auto simp: v)
qed simp

lemma keys_fold_al_insert: "fst ` set (fold (\<lambda>(k, v). al_insert k v) xs acc) = fst ` set xs \<union> fst ` set acc"
proof (induction xs arbitrary: acc)
  case (Cons x xs)
  obtain k v where x: "x = (k, v)" by (cases x)
  from Cons.IH [of "al_insert k v acc"] show ?case
    unfolding x keys_al_insert by (simp del: set_map)
qed simp

lemma load_version_infos_keys: "fst ` set (load_version_infos db) = fst ` set (md_api_info db)"
  by (simp add: load_version_infos_def keys_fold_al_insert)

lemma server_run_Ok:
  assumes "server_run env meta db = Ok st"
  shows "\<exists>st0 st1. make_server env meta db = Ok st0 \<and> start_versions env st0 = (Ok (), st1) \<and> st = start_builtin_version env st1"
proof -
  obtain st0 where st0: "make_server env meta db = Ok st0"
    and run: "(case start_versions env st0 of (r, st) \<Rightarrow> r_bind r (\<lambda>_. Ok (start_builtin_version env st))) = Ok st"
    using assms by (auto simp: server_run_def r_bind_Ok_iff)
  obtain r st1 where "start_versions env st0 = (r, st1)" by force
  with st0 run show ?thesis by (auto simp: r_bind_Ok_iff)
qed

lemma server_run_inv:
  assumes "server_run env meta db = Ok st"
  shows "server_inv st"
proof -
  obtain st0 st1 where st0: "make_server env meta db = Ok st0" and st1: "start_versions env st0 = (Ok (), st1)"
    and st: "st = start_builtin_version env st1"
    using server_run_Ok [OF assms] by blast
  have "server_inv st0"
    using st0 by (auto simp: make_server_def r_bind_Ok_iff Let_def server_inv_def get_version_def)
  moreover have "fst ` set (load_version_infos (sr_meta st0)) \<subseteq> fst ` set (md_api_info (sr_meta st0))"
    by (simp only: load_version_infos_keys)
  ultimately have "server_inv st1"
    using start_each_inv st1 unfolding start_versions_def by blast
  then show ?thesis
    unfolding st start_builtin_version_def Let_def by (rule server_inv_publish) simp
qed

lemma apply_models_cases:
  assumes "apply_models env req version_id info modules st = (r, st')"
  shows "(as_meta st' = as_meta st \<and> \<not> is_ok r \<or>
      (\<exists>plan policies. ParsedPolicies_parse env (ar_policies req) = Ok policies \<and>
        persist_plan env version_id info modules policies plan (as_meta st) = Ok (as_meta st') \<and>
        (\<forall>res. r = Ok res \<longrightarrow> (\<exists>tss. load_type_systems (ae_builtin_types env) (as_meta st') = Ok tss \<and>
           res_type_system res = ts_entry (ae_builtin_types env) version_id tss \<and>
           res_policy_system res = pp_policy_system policies \<and> res_policy_sources res = pp_policy_sources policies)))) \<and>
    (is_ok r \<or> as_data st' = as_data st)"
  using assms by (auto simp: apply_models_def or_return_def Let_def is_ok_def split: result.splits)

lemma persist_plan_persisted:
  assumes "persist_plan env version_id info modules policies plan db = Ok db'"
  shows "persisted_version db' version_id \<and> (persisted_version db v \<longrightarrow> persisted_version db' v)"
proof -
  obtain p where "md_policies db' = al_insert version_id p (md_policies db)" "md_api_info db' = al_insert version_id info (md_api_info db)"
    using persist_plan_tables [OF assms] by (auto simp: version_tables_def)
  then show ?thesis by (simp add: persisted_version_def)
qed

text \<open>What an apply has done when it returns, or waits forever.\<close>

lemma apply_locked_step:
  assumes "apply_locked env req version_id info modules st = (r, st')"
  shows "sr_trunk st' = sr_trunk st \<and> sr_nursery st' = sr_nursery st \<and> sr_secrets st' = sr_secrets st \<and>
    (is_ok r \<or> sr_data st' = sr_data st) \<and> (is_ok r \<longrightarrow> persisted_version (sr_meta st') version_id) \<and>
    (\<forall>v. persisted_version (sr_meta st) v \<longrightarrow> persisted_version (sr_meta st') v)"
proof -
  obtain as where run: "apply_models (env_apply env) (apply_request.truncate req) version_id info modules
        \<lparr>as_meta = sr_meta st, as_data = sr_data st, as_types = ts_entry (env_builtin env) version_id (sr_type_systems st)\<rparr> = (r, as)"
    and st': "st' = st\<lparr>sr_meta := as_meta as, sr_data := as_data as, sr_type_systems := al_insert version_id (as_types as) (sr_type_systems st)\<rparr>"
    using assms by (auto simp: apply_locked_def split: prod.splits)
  from apply_models_cases [OF run] show ?thesis
    by (auto simp: st' dest: persist_plan_persisted)
qed

definition request_info :: "rpc_apply_request \<Rightarrow> version_info" where
  "request_info req = \<lparr>vi_name = ar_app_name req, vi_tag = ar_version_tag req\<rparr>"

lemma update_secrets_fields [simp]:
  "sr_trunk (snd (update_secrets env st)) = sr_trunk st" "sr_nursery (snd (update_secrets env st)) = sr_nursery st"
  "sr_type_systems (snd (update_secrets env st)) = sr_type_systems st" "sr_meta (snd (update_secrets env st)) = sr_meta st"
  "sr_data (snd (update_secrets env st)) = sr_data st"
  by (auto simp: update_secrets_def or_return_def split: result.splits)

lemma rpc_apply_cases:
  assumes "rpc_apply env req st = (r, st')"
  shows "(st' = st \<and> (\<forall>resp. r \<noteq> Some (Ok resp))) \<or>
    (\<exists>lr st1. validate_version_id (ar_version_id req) = Ok (ar_version_id req) \<and>
      validate_modules env (ar_version_id req) (request_info req) (module_map (ar_modules req)) = Some (Ok ()) \<and>
      apply_locked env req (ar_version_id req) (request_info req) (module_map (ar_modules req)) st = (lr, st1) \<and>
      ((st' = st1 \<and> (\<forall>resp. r \<noteq> Some (Ok resp))) \<or>
       (\<exists>result. lr = Ok result \<and>
          (let init = result_init env (ar_version_id req) (request_info req) (module_map (ar_modules req)) result in
           wait_until_ready False (re_run env init) = Some (Ok ()) \<and>
           st' = snd (update_secrets env (publish_version init st1)) \<and>
           r = Some (Ok \<lparr>ap_types = res_type_names_user_order result, ap_labels = res_labels result\<rparr>)))))"
proof -
  have v: "validate_version_id i = Ok j \<Longrightarrow> j = i" for i j by (auto simp: validate_version_id_def r_bind_Ok_iff)
  show ?thesis
    using assms
    by (auto simp: rpc_apply_def or_wait_def Let_def request_info_def [symmetric] dest!: v
        split: result.splits option.splits prod.splits)
qed

lemma rpc_delete_cases:
  assumes "rpc_delete env version_id st = (r, st')"
  shows "(get_version (sr_trunk st) version_id = None \<and> st' = st \<and> \<not> is_ok r) \<or>
    (\<exists>v. get_version (sr_trunk st) version_id = Some v \<and> sr_trunk st' = al_remove version_id (sr_trunk st) \<and>
      sr_type_systems st' = sr_type_systems st \<and>
      (version_tables (sr_meta st') = version_tables (sr_meta st) \<and> \<not> is_ok r \<or>
       version_tables (sr_meta st') =
         (al_remove (v_version_id v) (md_policies (sr_meta st)), md_policy_store (sr_meta st), md_modules (sr_meta st), md_api_info (sr_meta st))))"
proof (cases "get_version (sr_trunk st) version_id")
  case None
  then show ?thesis using assms by (auto simp: rpc_delete_def remove_version_def get_version_def is_ok_def)
next
  case (Some v)
  let ?ops = "r_bind (delete_policy_version (v_version_id v) (sr_meta st)) (r_fold remove_type (version_types v))"
  have tables: "version_tables meta = (al_remove (v_version_id v) (md_policies (sr_meta st)), md_policy_store (sr_meta st),
      md_modules (sr_meta st), md_api_info (sr_meta st))" if "?ops = Ok meta" for meta
    using that by (auto simp: delete_policy_version_def dest!: frame_remove_types) (simp add: version_tables_def)
  have "sr_trunk st' = al_remove version_id (sr_trunk st) \<and> sr_type_systems st' = sr_type_systems st \<and>
      (sr_meta st' = sr_meta st \<and> \<not> is_ok r \<or> ?ops = Ok (sr_meta st'))"
    using assms Some
    by (auto simp: rpc_delete_def remove_version_def get_version_def or_return_def Let_def is_ok_def split: result.splits)
  with Some tables show ?thesis by auto
qed

lemma rpc_populate_fields [simp]:
  "sr_trunk (snd (rpc_populate env to_id from_id st)) = sr_trunk st" "sr_meta (snd (rpc_populate env to_id from_id st)) = sr_meta st"
  by (auto simp: rpc_populate_def or_return_def split: result.splits prod.splits)

lemma server_inv_same [simp]:
  "server_inv (snd (update_secrets env st)) \<longleftrightarrow> server_inv st"
  "server_inv (snd (rpc_populate env to_id from_id st)) \<longleftrightarrow> server_inv st"
  by (simp_all add: server_inv_def)

lemma keys_al_remove: "fst ` set (al_remove k xs) = fst ` set xs - {k}"
  by (auto simp: al_remove_def image_iff)

lemma server_inv_apply:
  assumes "server_inv st"
  shows "server_inv (snd (rpc_apply env req st))"
proof -
  obtain r st' where run: "rpc_apply env req st = (r, st')" by force
  show ?thesis
  proof (cases "st' = st")
    case False
    then obtain lr st1 where lr: "apply_locked env req (ar_version_id req) (request_info req) (module_map (ar_modules req)) st = (lr, st1)"
      and rest: "st' = st1 \<or> (\<exists>result. lr = Ok result \<and>
        st' = snd (update_secrets env (publish_version (result_init env (ar_version_id req) (request_info req) (module_map (ar_modules req)) result) st1)))"
      using rpc_apply_cases [OF run] unfolding Let_def by blast
    note step = apply_locked_step [OF lr]
    have inv1: "server_inv st1"
      using step by (intro server_inv_meta [OF assms]) auto
    have "server_inv (publish_version (result_init env (ar_version_id req) info modules result) st1)" if "lr = Ok result" for info modules result
      using step that by (intro server_inv_publish [OF inv1]) (simp add: result_init_def is_ok_def)
    with rest inv1 show ?thesis
      unfolding run by auto
  qed (simp add: run assms)
qed

lemma server_inv_delete:
  assumes "server_inv st"
  shows "server_inv (snd (rpc_delete env version_id st))"
proof -
  obtain r st' where run: "rpc_delete env version_id st = (r, st')" by force
  show ?thesis
    using rpc_delete_cases [OF run] assms
    by (auto simp: run server_inv_def get_version_def persisted_version_def version_tables_def keys_al_remove split: if_splits
        simp del: set_map image_iff)
qed

lemma served_inv: "served env st \<Longrightarrow> server_inv st"
  by (induction rule: served.induct) (auto intro: server_run_inv server_inv_apply server_inv_delete)


subsection \<open>Deleting a version\<close>

lemma start_each_policies:
  "start_each env vs st = (Ok (), st') \<Longrightarrow> fst ` set vs \<subseteq> fst ` set (md_policies (sr_meta st))"
proof (induction vs arbitrary: st)
  case (Cons v vs)
  obtain version_id info where v: "v = (version_id, info)" by (cases v)
  from Cons.prems obtain st1 where st1: "start_version env (version_id, info) st = (Ok (), st1)" and rest: "start_each env vs st1 = (Ok (), st')"
    by (auto simp: v split: prod.splits result.splits)
  from start_version_Ok [OF st1] Cons.IH [OF rest] show ?case by (simp add: v)
qed simp

lemma server_run_policies:
  assumes "server_run env meta db = Ok st"
  shows "fst ` set (md_api_info meta) \<subseteq> fst ` set (md_policies meta)"
proof -
  obtain st0 st1 where st0: "make_server env meta db = Ok st0" and st1: "start_versions env st0 = (Ok (), st1)"
    using server_run_Ok [OF assms] by blast
  have "sr_meta st0 = meta" using st0 by (auto simp: make_server_def r_bind_Ok_iff Let_def)
  with start_each_policies [OF st1 [unfolded start_versions_def]] show ?thesis
    by (simp only: load_version_infos_keys)
qed

text \<open>
  C36. A version that was deleted keeps the server from starting again.  The row with its info stays, so
  the next start looks for its policies, which are gone; the query for them fails, and with it the start.
\<close>

theorem deleted_version_blocks_start:
  assumes "served env st" "version_id \<noteq> ''__chiselstrike''" "rpc_delete env version_id st = (Ok msg, st')"
  shows "\<not> is_ok (server_run env' (sr_meta st') db)"
proof
  assume "is_ok (server_run env' (sr_meta st') db)"
  then obtain st'' where "server_run env' (sr_meta st') db = Ok st''" by (auto simp: is_ok_iff)
  note all = server_run_policies [OF this]
  obtain v where v: "get_version (sr_trunk st) version_id = Some v"
    and tables: "version_tables (sr_meta st') =
      (al_remove (v_version_id v) (md_policies (sr_meta st)), md_policy_store (sr_meta st), md_modules (sr_meta st), md_api_info (sr_meta st))"
    using rpc_delete_cases [OF assms(3)] by (auto simp: is_ok_def)
  have "v_version_id v = version_id" "version_id \<in> fst ` set (md_api_info (sr_meta st))"
    using served_inv [OF assms(1)] v assms(2) by (simp_all add: server_inv_def persisted_version_def)
  with all tables show False by (auto simp: version_tables_def keys_al_remove simp del: set_map image_iff)
qed

subsection \<open>What it takes to replace a version\<close>

definition signals_ready :: "version_event list \<Rightarrow> bool" where
  "signals_ready events \<longleftrightarrow> (\<exists>n post. events = replicate n TimeoutFired @ ReadySent # post)"

lemma wait_dropped_not_ready: "wait_until_ready True events \<noteq> Some (Ok ())"
  by (induction True events rule: wait_until_ready.induct) (auto split: option.splits result.splits)

lemma wait_until_ready_Ok: "wait_until_ready False events = Some (Ok ()) \<longleftrightarrow> signals_ready events"
proof (induction events)
  case (Cons e events)
  have timeout: "signals_ready (TimeoutFired # events) \<longleftrightarrow> signals_ready events"
    unfolding signals_ready_def by (metis (no_types, opaque_lifting) append_Cons list.inject list.sel(3) replicate_Suc version_event.distinct append_Nil neq0_conv gr0_conv_Suc replicate_0 list.sel(1))
  have other: "signals_ready (e' # events) \<longleftrightarrow> e' = ReadySent" if "e' \<noteq> TimeoutFired" for e'
    unfolding signals_ready_def using that by (metis (no_types, opaque_lifting) append_Cons append_Nil list.inject not0_implies_Suc replicate_0 replicate_Suc)
  show ?case
    by (cases e) (simp_all add: Cons.IH timeout other wait_dropped_not_ready split: option.splits result.splits)
qed (simp add: signals_ready_def)

abbreviation request_init ::
  "('r, 'cell, 'db) rpc_env \<Rightarrow> rpc_apply_request \<Rightarrow> 'r apply_result \<Rightarrow> 'r version_init" where
  "request_init env req \<equiv> result_init env (ar_version_id req) (request_info req) (module_map (ar_modules req))"

lemma get_version_publish [simp]:
  "get_version (sr_trunk (publish_version init st)) v =
     (if v = vt_version_id init then Some (version_spawn init) else get_version (sr_trunk st) v)"
  by (simp add: publish_version_def get_version_def add_version_def version_spawn_def)

lemma publish_version_fields [simp]:
  "sr_meta (publish_version init st) = sr_meta st" "sr_data (publish_version init st) = sr_data st"
  "sr_type_systems (publish_version init st) = sr_type_systems st" "sr_nursery (publish_version init st) = sr_nursery st @ [init]"
  by (simp_all add: publish_version_def)

lemma request_init_id [simp]: "vt_version_id (request_init env req result) = ar_version_id req"
  by (simp add: result_init_def)

text \<open>
  C33. What an apply can change, and when.  Nothing at all, unless the version id is a name of letters,
  digits, dashes and underscores other than \<open>__chiselstrike\<close>, and the code has become ready once in a
  canary without models; the tables of the data only if the models were applied as a whole; of the
  running versions only the one of the request, and that only when the apply answers with success, the
  models were applied and the workers of the new version have become ready.
\<close>

theorem apply_gate:
  assumes "rpc_apply env req st = (r, st')"
  shows "(st' \<noteq> st \<longrightarrow> ar_version_id req \<noteq> ''__chiselstrike'' \<and> ar_version_id req \<noteq> [] \<and> list_all version_char (ar_version_id req) \<and>
      signals_ready (re_run env (canary_init env (ar_version_id req) (request_info req) (module_map (ar_modules req))))) \<and>
    (sr_data st' \<noteq> sr_data st \<longrightarrow>
      is_ok (fst (apply_locked env req (ar_version_id req) (request_info req) (module_map (ar_modules req)) st))) \<and>
    (\<forall>v. get_version (sr_trunk st') v \<noteq> get_version (sr_trunk st) v \<longrightarrow> v = ar_version_id req \<and> (\<exists>resp result. r = Some (Ok resp) \<and>
      fst (apply_locked env req (ar_version_id req) (request_info req) (module_map (ar_modules req)) st) = Ok result \<and>
      signals_ready (re_run env (request_init env req result)) \<and>
      get_version (sr_trunk st') v = Some (version_spawn (request_init env req result))))"
proof (cases "st' = st")
  case False
  from rpc_apply_cases [OF assms] False obtain lr st1 where
    id: "validate_version_id (ar_version_id req) = Ok (ar_version_id req)"
    and canary: "validate_modules env (ar_version_id req) (request_info req) (module_map (ar_modules req)) = Some (Ok ())"
    and lr: "apply_locked env req (ar_version_id req) (request_info req) (module_map (ar_modules req)) st = (lr, st1)"
    and rest: "st' = st1 \<or> (\<exists>result. lr = Ok result \<and> wait_until_ready False (re_run env (request_init env req result)) = Some (Ok ()) \<and>
        st' = snd (update_secrets env (publish_version (request_init env req result) st1)) \<and> (\<exists>resp. r = Some (Ok resp)))"
    unfolding Let_def by blast
  note step = apply_locked_step [OF lr]
  have "sr_data st' = sr_data st1" using rest by auto
  then have data: "sr_data st' \<noteq> sr_data st \<longrightarrow> is_ok lr" using step by auto
  have vs: "v = ar_version_id req \<and> (\<exists>resp result. r = Some (Ok resp) \<and> lr = Ok result \<and>
      signals_ready (re_run env (request_init env req result)) \<and>
      get_version (sr_trunk st') v = Some (version_spawn (request_init env req result)))"
    if "get_version (sr_trunk st') v \<noteq> get_version (sr_trunk st) v" for v
    using rest step that by (auto simp: wait_until_ready_Ok split: if_splits)
  have gate: "ar_version_id req \<noteq> ''__chiselstrike'' \<and> ar_version_id req \<noteq> [] \<and> list_all version_char (ar_version_id req) \<and>
      signals_ready (re_run env (canary_init env (ar_version_id req) (request_info req) (module_map (ar_modules req))))"
    using id canary by (simp add: validate_version_id_def validate_modules_def wait_until_ready_Ok r_bind_Ok_iff)
  have published: "\<forall>v. get_version (sr_trunk st') v \<noteq> get_version (sr_trunk st) v \<longrightarrow> v = ar_version_id req \<and> (\<exists>resp result.
      r = Some (Ok resp) \<and> lr = Ok result \<and> signals_ready (re_run env (request_init env req result)) \<and>
      get_version (sr_trunk st') v = Some (version_spawn (request_init env req result)))"
    using vs by blast
  show ?thesis
    unfolding lr fst_conv by (rule conjI [OF _ conjI [OF data published]]) (simp add: gate)
qed simp

subsection \<open>A restart after an apply\<close>

lemma ParsedPolicies_parse_read_back:
  assumes "ParsedPolicies_parse env ps = Ok p"
  shows "ae_from_yaml env (pp_policy_system_str p) = Ok (pp_policy_system p) \<or>
    (pp_policy_system_str p = [] \<and> pp_policy_system p = PolicySystem_default)"
proof -
  obtain psys sources where acc: "r_fold (parse_policy env) ps (None, []) = Ok (psys, sources)"
    and p: "psys = None \<and> pp_policy_system_str p = [] \<and> pp_policy_system p = PolicySystem_default \<or>
      psys = Some (pp_policy_system p, pp_policy_system_str p)"
    using assms by (fastforce simp: ParsedPolicies_parse_def r_bind_Ok_iff split: option.splits prod.splits)
  have "\<forall>x. fst (psys, sources) = Some x \<longrightarrow> ae_from_yaml env (snd x) = Ok (fst x)"
    using acc by (rule r_fold_invariant) (auto simp: parse_policy_def r_bind_Ok_iff Let_def split: prod.splits if_splits option.splits)
  with p show ?thesis by auto
qed

lemma start_each_starts:
  assumes "start_each env vs st = (Ok (), st')" "distinct (map fst vs)" "(version_id, info) \<in> set vs"
  shows "\<exists>st1 st2. sr_meta st1 = sr_meta st \<and> sr_type_systems st1 = sr_type_systems st \<and>
    start_version env (version_id, info) st1 = (Ok (), st2) \<and>
    get_version (sr_trunk st') version_id = get_version (sr_trunk st2) version_id \<and> set (sr_nursery st2) \<subseteq> set (sr_nursery st')"
  using assms
proof (induction vs arbitrary: st)
  case (Cons v vs)
  obtain u i where v: "v = (u, i)" by (cases v)
  from Cons.prems(1) obtain st1 where st1: "start_version env (u, i) st = (Ok (), st1)" and rest: "start_each env vs st1 = (Ok (), st')"
    by (auto simp: v split: prod.splits result.splits)
  note step = start_version_Ok [OF st1]
  have later: "get_version (sr_trunk t') u = get_version (sr_trunk t) u \<and> set (sr_nursery t) \<subseteq> set (sr_nursery t')"
    if "start_each env ws t = (Ok (), t')" "u \<notin> fst ` set ws" for ws t t'
    using that
  proof (induction ws arbitrary: t)
    case (Cons w ws)
    obtain x j where w: "w = (x, j)" by (cases w)
    from Cons.prems(1) obtain t1 where t1: "start_version env (x, j) t = (Ok (), t1)" and more: "start_each env ws t1 = (Ok (), t')"
      by (auto simp: w split: prod.splits result.splits)
    from start_version_Ok [OF t1] Cons.IH [OF more] Cons.prems(2) show ?case by (auto simp: w)
  qed simp
  show ?case
  proof (cases "(version_id, info) = v")
    case True
    then show ?thesis
      using st1 later [OF rest] Cons.prems(2) by (intro exI [of _ st] exI [of _ st1]) (auto simp: v)
  next
    case False
    then have "(version_id, info) \<in> set vs" using Cons.prems(3) by auto
    from Cons.IH [OF rest _ this] Cons.prems(2) step show ?thesis by auto
  qed
qed simp

definition empty_policies :: yaml_policies where
  "empty_policies = \<lparr>y_routes = None, y_endpoints = None, y_labels = None\<rparr>"

lemma policies_read_back:
  assumes "ParsedPolicies_parse (env_apply env) ps = Ok p" "re_yaml_load env [] = Ok empty_policies"
  shows "env_from_yaml env (pp_policy_system_str p) = Ok (pp_policy_system p)"
  using ParsedPolicies_parse_read_back [OF assms(1)] assms(2)
  by (auto simp: env_apply_def env_from_yaml_def from_yaml_def empty_policies_def yaml_routes_def)

lemma apply_locked_written:
  assumes "apply_locked env req version_id info modules st = (Ok result, st')" "re_yaml_load env [] = Ok empty_policies"
  shows "\<exists>text json tss. env_from_yaml env text = Ok (res_policy_system result) \<and>
    ae_sources_to_string (re_apply env) (res_policy_sources result) = Ok json \<and>
    load_type_systems (env_builtin env) (sr_meta st') = Ok tss \<and> res_type_system result = ts_entry (env_builtin env) version_id tss \<and>
    version_tables (sr_meta st') = (al_insert version_id text (md_policies (sr_meta st)), al_insert version_id json (md_policy_store (sr_meta st)),
     filter (\<lambda>(u, _). u \<noteq> version_id) (md_modules (sr_meta st)) @ map (Pair version_id) modules, al_insert version_id info (md_api_info (sr_meta st)))"
proof -
  obtain as where run: "apply_models (env_apply env) (apply_request.truncate req) version_id info modules
        \<lparr>as_meta = sr_meta st, as_data = sr_data st, as_types = ts_entry (env_builtin env) version_id (sr_type_systems st)\<rparr> = (Ok result, as)"
    and st': "sr_meta st' = as_meta as"
    using assms(1) by (auto simp: apply_locked_def split: prod.splits)
  have env: "ae_builtin_types (env_apply env) = env_builtin env" "ae_sources_to_string (env_apply env) = ae_sources_to_string (re_apply env)"
    by (simp_all add: env_apply_def)
  obtain plan policies where pol: "ParsedPolicies_parse (env_apply env) (ar_policies (apply_request.truncate req)) = Ok policies"
    and meta: "persist_plan (env_apply env) version_id info modules policies plan (sr_meta st) = Ok (as_meta as)"
    and result: "\<exists>tss. load_type_systems (env_builtin env) (as_meta as) = Ok tss \<and> res_type_system result = ts_entry (env_builtin env) version_id tss"
      "res_policy_system result = pp_policy_system policies" "res_policy_sources result = pp_policy_sources policies"
    using apply_models_cases [OF run] by (auto simp: is_ok_def env)
  show ?thesis
    using persist_plan_tables [OF meta] result policies_read_back [OF pol assms(2)] unfolding st' env by metis
qed

text \<open>
  C34. A version that was applied is the version that runs after a restart.  After a successful apply with a root
  module, starting a server on the resulting metadata gives the same version the apply put into the
  trunk: its models, its policies, its policy functions, its info, and its workers run the same modules.  (The
  YAML reader reads the empty text as a document without entries, JSON text is read back,
  and the version is the primary key of the version infos.)
\<close>

theorem apply_survives_restart:
  assumes "rpc_apply env req st = (Some (Ok resp), st')" "server_run env (sr_meta st') db = Ok st''"
    and "root_url \<in> fst ` set (ar_modules req)" "distinct (map fst (md_api_info (sr_meta st)))"
    and "re_yaml_load env [] = Ok empty_policies"
    and "\<forall>sources text. ae_sources_to_string (re_apply env) sources = Ok text \<longrightarrow> re_sources_from_str env text = Ok sources"
  shows "\<exists>init. vt_version_id init = ar_version_id req \<and> vt_modules init = module_map (ar_modules req) \<and>
    init \<in> set (sr_nursery st') \<and> get_version (sr_trunk st') (ar_version_id req) = Some (version_spawn init) \<and>
    init \<in> set (sr_nursery st'') \<and> get_version (sr_trunk st'') (ar_version_id req) = Some (version_spawn init)"
proof -
  let ?id = "ar_version_id req" and ?info = "request_info req" and ?ms = "module_map (ar_modules req)"
  obtain result st1 where valid: "validate_version_id ?id = Ok ?id" and lr: "apply_locked env req ?id ?info ?ms st = (Ok result, st1)"
    and st': "st' = snd (update_secrets env (publish_version (request_init env req result) st1))"
    using rpc_apply_cases [OF assms(1)] unfolding Let_def by auto
  let ?meta = "sr_meta st1" and ?init = "request_init env req result"
  obtain yaml json tss where w: "env_from_yaml env yaml = Ok (res_policy_system result)"
    "ae_sources_to_string (re_apply env) (res_policy_sources result) = Ok json"
    "load_type_systems (env_builtin env) ?meta = Ok tss" "res_type_system result = ts_entry (env_builtin env) ?id tss"
    and tables: "version_tables ?meta = (al_insert ?id yaml (md_policies (sr_meta st)), al_insert ?id json (md_policy_store (sr_meta st)),
     filter (\<lambda>(u, _). u \<noteq> ?id) (md_modules (sr_meta st)) @ map (Pair ?id) ?ms, al_insert ?id ?info (md_api_info (sr_meta st)))"
    using apply_locked_written [OF lr assms(5)] by blast
  have meta: "sr_meta st' = ?meta" by (simp add: st')
  have keys: "distinct (map fst (md_api_info ?meta))" using tables assms(4) by (simp add: version_tables_def)
  have infos: "load_version_infos ?meta = md_api_info ?meta"
    using fold_al_insert_distinct [of "[]" "md_api_info ?meta"] keys by (simp add: load_version_infos_def)
  obtain st2 st3 where st2: "make_server env ?meta db = Ok st2" and st3: "start_each env (md_api_info ?meta) st2 = (Ok (), st3)"
    and st'': "st'' = start_builtin_version env st3"
    using server_run_Ok [OF assms(2)] infos unfolding meta start_versions_def make_server_def
    by (auto simp: r_bind_Ok_iff Let_def)
  have st2_fields: "sr_meta st2 = ?meta" "sr_type_systems st2 = tss"
    using st2 w(3) by (auto simp: make_server_def r_bind_Ok_iff Let_def)
  have "(?id, ?info) \<in> set (md_api_info ?meta)"
    using tables map_of_SomeD [of "al_insert ?id ?info (md_api_info (sr_meta st))" ?id ?info] by (simp add: version_tables_def)
  from start_each_starts [OF st3 keys this] obtain s1 s2 where s1: "sr_meta s1 = ?meta" "sr_type_systems s1 = tss"
    and start: "start_version env (?id, ?info) s1 = (Ok (), s2)"
    and s2: "get_version (sr_trunk st3) ?id = get_version (sr_trunk s2) ?id" "set (sr_nursery s2) \<subseteq> set (sr_nursery st3)"
    using st2_fields by auto
  have mods: "load_modules ?id ?meta = ?ms"
    using tables by (auto simp: version_tables_def load_modules_def filter_map comp_def filter_empty_conv)
  have root: "root_url \<in> fst ` set ?ms"
    using assms(3) by (simp only: module_map_def keys_fold_al_insert Un_iff simp_thms)
  have "s2 = publish_version ?init s1"
    using start w assms(6) tables root
    by (simp add: start_version_def s1 load_policy_system_def load_policy_sources_def version_tables_def or_return_def mods
        env_from_yaml_def ok_or_def result_init_def)
  moreover have "?id \<noteq> ''__chiselstrike''" using valid by (simp add: validate_version_id_def r_bind_Ok_iff)
  ultimately have "?init \<in> set (sr_nursery st'')" "get_version (sr_trunk st'') ?id = Some (version_spawn ?init)"
    using s2 by (auto simp: st'' start_builtin_version_def Let_def)
  then show ?thesis
    by (intro exI [of _ ?init]) (simp add: st' result_init_def)
qed

subsection \<open>An example\<close>

definition sample_rpc :: "(unit, sql_value, unit) rpc_env" where
  "sample_rpc =
     \<lparr>re_apply = (sample_env 0)\<lparr>ae_sources_to_string := \<lambda>sources. if sources = [] then Ok ''{}'' else Err (Bail [] [])\<rparr>,
      re_engine = value_env, re_exec_sql = (\<lambda>_ db. (Ok (), db)), re_regex_new = (\<lambda>_. Ok ()), re_method_from_str = Ok,
      re_yaml_load = (\<lambda>_. Ok empty_policies), re_sources_from_str = (\<lambda>_. Ok []), re_run = (\<lambda>_. [ReadySent]),
      re_worker_threads = 2, re_get_secrets = Ok [], re_semver = ''0.1''\<rparr>"

definition sample_apply :: rpc_apply_request where
  "sample_apply = \<lparr>ar_types = [], ar_index_candidates = [], ar_policies = [], ar_allow_type_deletion = False,
     ar_version_id = ''dev'', ar_app_name = ''blog'', ar_version_tag = ''1'', ar_modules = [(''file:///__root.ts'', ''x'')]\<rparr>"

definition sample_started :: "(unit, unit) server_state" where
  "sample_started = start_builtin_version sample_rpc
     \<lparr>sr_trunk = [], sr_nursery = [], sr_type_systems = [], sr_meta = empty_meta, sr_data = (), sr_secrets = []\<rparr>"

definition sample_meta :: meta_db where
  "sample_meta = empty_meta\<lparr>md_policies := [(''dev'', [])], md_policy_store := [(''dev'', ''{}'')],
     md_modules := [(''dev'', ''file:///__root.ts'', ''x'')], md_api_info := [(''dev'', request_info sample_apply)]\<rparr>"

definition sample_result :: "unit apply_result" where
  "sample_result = \<lparr>res_type_system = TypeSystem_new [] ''dev'', res_policy_system = PolicySystem_default,
     res_type_names_user_order = [], res_labels = [], res_policy_sources = []\<rparr>"

definition sample_state :: "(unit, unit) server_state" where
  "sample_state = publish_version (request_init sample_rpc sample_apply sample_result)
     (sample_started\<lparr>sr_meta := sample_meta, sr_type_systems := [(''dev'', TypeSystem_new [] ''dev'')]\<rparr>)"

lemma sample_served_start: "server_run sample_rpc empty_meta () = Ok sample_started"
  by (simp add: server_run_def make_server_def create_backing_tables_def sample_rpc_def sample_env_def load_type_systems_def type_rows_def
      empty_meta_def start_versions_def load_version_infos_def sample_started_def Let_def)

lemma sample_started_fields: "sr_meta sample_started = empty_meta" "sr_type_systems sample_started = []" "sr_data sample_started = ()"
  by (simp_all add: sample_started_def start_builtin_version_def Let_def)

lemma sample_applied: "rpc_apply sample_rpc sample_apply sample_started = (Some (Ok \<lparr>ap_types = [], ap_labels = []\<rparr>), sample_state)"
proof -
  let ?id = "''dev''" and ?info = "request_info sample_apply" and ?ms = "[(''file:///__root.ts'', ''x'')]" and ?env = "env_apply sample_rpc"
  have req: "apply_request.truncate sample_apply = empty_request" "ar_version_id sample_apply = ?id" "ar_modules sample_apply = ?ms"
    by (simp_all add: sample_apply_def apply_request.truncate_def)
  have mods: "module_map ?ms = ?ms" by (simp add: module_map_def)
  have env: "ae_builtin_types ?env = []" "env_builtin sample_rpc = []" by (simp_all add: env_apply_def sample_rpc_def sample_env_def)
  have plan: "plan_apply ?env () (TypeSystem_new [] ?id) empty_request ?id = Ok \<lparr>ap_to_remove = [], ap_to_insert = [], ap_to_update = []\<rparr>"
    by (simp add: sample_plan_defs env_apply_def sample_rpc_def TypeSystem_new_def)
  have pol: "ParsedPolicies_parse ?env [] = Ok \<lparr>pp_policy_system = PolicySystem_default, pp_policy_system_str = [], pp_policy_sources = []\<rparr>"
    by (simp add: ParsedPolicies_parse_def)
  have meta: "persist_plan ?env ?id ?info ?ms \<lparr>pp_policy_system = PolicySystem_default, pp_policy_system_str = [], pp_policy_sources = []\<rparr>
      \<lparr>ap_to_remove = [], ap_to_insert = [], ap_to_update = []\<rparr> empty_meta = Ok sample_meta"
    by (simp add: persist_plan_def persist_policy_sources_def persist_policy_version_def persist_version_info_def persist_modules_def
        env_apply_def sample_rpc_def sample_env_def sample_meta_def empty_meta_def constraint_def)
  have types: "load_type_systems [] sample_meta = Ok []"
    by (simp add: load_type_systems_def type_rows_def sample_meta_def empty_meta_def)
  have labels: "ps_labels PolicySystem_default = []" by (simp add: PolicySystem_default_def)
  have models: "apply_models ?env empty_request ?id ?info ?ms \<lparr>as_meta = empty_meta, as_data = (), as_types = TypeSystem_new [] ?id\<rparr> =
      (Ok sample_result, \<lparr>as_meta = sample_meta, as_data = (), as_types = TypeSystem_new [] ?id\<rparr>)"
    by (simp add: apply_models_def or_return_def plan pol meta env types ts_entry_def change_tables_def sample_result_def labels Let_def)
  have locked: "apply_locked sample_rpc sample_apply ?id ?info ?ms sample_started =
      (Ok sample_result, sample_started\<lparr>sr_meta := sample_meta, sr_type_systems := [(?id, TypeSystem_new [] ?id)]\<rparr>)"
    by (simp add: apply_locked_def req env sample_started_fields ts_entry_def models server_state.equality)
  have valid: "validate_version_id ?id = Ok ?id" by (simp add: validate_version_id_def version_char_def)
  have info: "\<lparr>vi_name = ar_app_name sample_apply, vi_tag = ar_version_tag sample_apply\<rparr> = ?info" by (simp add: request_info_def)
  have run: "re_run sample_rpc init = [ReadySent]" for init by (simp add: sample_rpc_def)
  have "re_get_secrets sample_rpc = Ok []" by (simp add: sample_rpc_def)
  moreover have "sr_secrets sample_state = []"
    by (simp add: sample_state_def publish_version_def sample_started_def start_builtin_version_def Let_def)
  ultimately have secrets: "snd (update_secrets sample_rpc sample_state) = sample_state"
    by (simp add: update_secrets_def or_return_def server_state.equality)
  have state: "publish_version (result_init sample_rpc ?id ?info ?ms sample_result)
      (sample_started\<lparr>sr_meta := sample_meta, sr_type_systems := [(?id, TypeSystem_new [] ?id)]\<rparr>) = sample_state"
    by (simp add: sample_state_def req mods)
  show ?thesis
    unfolding rpc_apply_def req info mods Let_def valid or_wait_def validate_modules_def run
    by (simp add: locked mods state secrets) (simp add: sample_result_def)
qed

lemma sample_served: "served sample_rpc sample_state"
  using served.Apply [OF served.Start [OF sample_served_start], of sample_apply] by (simp add: sample_applied)

lemma sample_fields: "sr_meta sample_state = sample_meta" "sr_data sample_state = ()"
  "get_version (sr_trunk sample_state) ''dev'' = Some (version_spawn (request_init sample_rpc sample_apply sample_result))"
  by (simp_all add: sample_state_def) (simp_all add: sample_apply_def)


lemma sample_deleted: "\<exists>st'. rpc_delete sample_rpc ''dev'' sample_state = (Ok ''Deleted dev'', st')"
proof -
  have "v_version_id (version_spawn (request_init sample_rpc sample_apply sample_result)) = ''dev''"
    "version_types (version_spawn (request_init sample_rpc sample_apply sample_result)) = []"
    by (simp_all add: version_spawn_def version_types_def result_init_def sample_result_def TypeSystem_new_def)
      (simp add: sample_apply_def)
  then show ?thesis
    using sample_fields by (simp add: rpc_delete_def remove_version_def get_version_def delete_policy_version_def or_return_def Let_def)
qed

theorem deleted_version_blocks_start_witness:
  "\<exists>st'. rpc_delete sample_rpc ''dev'' sample_state = (Ok ''Deleted dev'', st') \<and> \<not> is_ok (server_run sample_rpc (sr_meta st') ())"
proof -
  obtain st' where "rpc_delete sample_rpc ''dev'' sample_state = (Ok ''Deleted dev'', st')"
    using sample_deleted by blast
  with deleted_version_blocks_start [OF sample_served _ this, where env' = sample_rpc and db = "()"] show ?thesis by simp
qed

theorem apply_gate_witness: "signals_ready (re_run sample_rpc (canary_init sample_rpc ''dev'' (request_info sample_apply) [(''file:///__root.ts'', ''x'')]))"
proof -
  have "sr_meta sample_state \<noteq> sr_meta sample_started"
    by (simp add: sample_fields sample_started_fields sample_meta_def empty_meta_def)
  then have "sample_state \<noteq> sample_started" by auto
  with apply_gate [OF sample_applied] show ?thesis by (simp add: sample_apply_def module_map_def)
qed

lemma sample_restarted: "\<exists>st. server_run sample_rpc (sr_meta sample_state) () = Ok st"
  by (simp add: sample_fields server_run_def make_server_def create_backing_tables_def sample_rpc_def sample_env_def load_type_systems_def
      type_rows_def sample_meta_def empty_meta_def start_versions_def load_version_infos_def start_version_def or_return_def
      load_policy_system_def load_policy_sources_def ok_or_def from_yaml_def empty_policies_def yaml_routes_def load_modules_def
      root_url_def Let_def)

theorem apply_survives_restart_witness:
  "\<exists>st. server_run sample_rpc (sr_meta sample_state) () = Ok st \<and>
     get_version (sr_trunk st) ''dev'' = get_version (sr_trunk sample_state) ''dev''"
proof -
  obtain st where st: "server_run sample_rpc (sr_meta sample_state) () = Ok st" using sample_restarted by blast
  have "root_url \<in> fst ` set (ar_modules sample_apply)" "distinct (map fst (md_api_info (sr_meta sample_started)))"
    "re_yaml_load sample_rpc [] = Ok empty_policies"
    "\<forall>sources text. ae_sources_to_string (re_apply sample_rpc) sources = Ok text \<longrightarrow> re_sources_from_str sample_rpc text = Ok sources"
    by (simp_all add: root_url_def sample_apply_def sample_started_fields empty_meta_def sample_rpc_def)
  from apply_survives_restart [OF sample_applied st this] st show ?thesis by (auto simp: sample_apply_def)
qed

end
