(* ===== verification/Client_Gen.thy ===== *)
theory Client_Gen
  imports Rpc
begin

text \<open>
  \<open>cli/src/cmd/generate.rs\<close>: the client of a version.  From the description of its models
  (\<open>Rpc.describe\<close>) and the list of its routes, the command writes TypeScript: the types of the models,
  a reflection of them, and an object that follows the routes and has a function for every CRUD handler.

  The files of \<open>generate_src\<close> that are copied into the output, the printer of JSON and the formatter are
  parameters; fetching over the network and writing files are not modelled.
\<close>

definition omega :: string where
  "omega = [CHR 0xCE, CHR 0xA9]"

definition nl :: string where
  "nl = [CHR 0x0A]"

datatype client_mode = ModeNode | ModeDeno

subsection \<open>Models\<close>

function type_enum_to_code :: "type_enum \<Rightarrow> string res" where
  "type_enum_to_code (TeArrayBuffer b) = Ok ''ArrayBuffer''"
| "type_enum_to_code (TeBool b) = Ok ''boolean''"
| "type_enum_to_code (TeJsDate b) = Ok ''Date''"
| "type_enum_to_code (TeNumber b) = Ok ''number''"
| "type_enum_to_code (TeString b) = Ok ''string''"
| "type_enum_to_code (TeEntityId n) = Ok ''string''"
| "type_enum_to_code (TeArray (ContainerType v)) =
     r_bind (ok_or (Bail ''container has no value'' []) v) (\<lambda>m.
     r_bind (ok_or (Bail ''type enum is not present in TypeMsg'' []) (tm_type_enum m)) (\<lambda>element_type.
     r_bind (type_enum_to_code element_type) (\<lambda>s. Ok (s @ ''[]''))))"
| "type_enum_to_code (TeEntity entity_nm) = Ok entity_nm"
  by pat_completeness auto
termination
proof (relation "measure size")
  fix v :: "type_msg option" and m t
  assume "ok_or (Bail ''container has no value'' []) v = Ok m"
    "ok_or (Bail ''type enum is not present in TypeMsg'' []) (tm_type_enum m) = Ok t"
  then show "(t, TeArray (ContainerType v)) \<in> measure size"
    by (cases m) (auto simp: ok_or_def split: option.splits)
qed simp

definition model_field :: "bool \<Rightarrow> field_definition \<Rightarrow> string \<Rightarrow> string res" where
  "model_field omit_id field output =
     (if omit_id \<and> fdef_name field = ''id'' then Ok output
      else
        r_bind (field_type field) (\<lambda>field_ty.
        r_bind (type_enum_to_code field_ty) (\<lambda>code.
        Ok (output @ ''    '' @ fdef_name field @ (if fdef_is_optional field then ''?'' else []) @ '': '' @ code @ '';'' @ nl))))"

definition generate_models :: "version_definition \<Rightarrow> bool \<Rightarrow> string res" where
  "generate_models version_def omit_id =
     r_fold (\<lambda>def output.
       r_bind (r_fold (model_field omit_id) (tdef_field_defs def) (output @ ''export type '' @ tdef_name def @ '' = {'' @ nl)) (\<lambda>output.
       Ok (output @ ''}'' @ nl))) (vdef_type_defs version_def) []"

definition generate_models_without_id :: "string \<Rightarrow> version_definition \<Rightarrow> client_mode \<Rightarrow> string res" where
  "generate_models_without_id models_without_id_src version_def mode =
     (let imports = ''import * as '' @ omega @ ''models from '' @ [CHR 0x22] @
            (case mode of ModeDeno \<Rightarrow> ''./models.ts'' | ModeNode \<Rightarrow> ''./models'') @ [CHR 0x22] @ '';'' in
      r_bind (generate_models version_def True) (\<lambda>models.
      let without_id_chain = foldl (\<lambda>acc x.
            omega @ ''IfEquals<'' @ omega @ ''EntityType, '' @ omega @ ''models.'' @ x @ '', '' @ x @ '', '' @ acc @ ''>'')
            ''never'' (map tdef_name (vdef_type_defs version_def))
      in Ok (imports @ nl @ nl @ models_without_id_src @ nl @ models @ nl @
             ''export type '' @ omega @ ''WithoutId<'' @ omega @ ''EntityType> = '' @ without_id_chain @ '';'')))"

subsection \<open>Reflection\<close>

text \<open>
  A description of an entity contains those of the entities its fields refer to.  An entity that
  contains itself makes the source recurse until its stack ends; the fuel is the depth of entities.
\<close>

type_synonym entity_defs = "(string \<times> type_definition) list"

function (sequential) type_to_obj :: "entity_defs \<Rightarrow> nat \<Rightarrow> type_msg \<Rightarrow> json res"
  and make_field_obj :: "entity_defs \<Rightarrow> nat \<Rightarrow> field_definition \<Rightarrow> json res"
  and make_entity_type_obj :: "entity_defs \<Rightarrow> nat \<Rightarrow> string \<Rightarrow> json res" where
  "type_to_obj entities n (TypeMsg None) = Err (Bail ''field does not have type_enum'' [])"
| "type_to_obj entities n (TypeMsg (Some type_enum)) =
     (case type_enum of
        TeArrayBuffer _ \<Rightarrow> Ok (JObject [(''name'', JString ''arrayBuffer'')])
      | TeBool _ \<Rightarrow> Ok (JObject [(''name'', JString ''boolean'')])
      | TeJsDate _ \<Rightarrow> Ok (JObject [(''name'', JString ''date'')])
      | TeNumber _ \<Rightarrow> Ok (JObject [(''name'', JString ''number'')])
      | TeString _ \<Rightarrow> Ok (JObject [(''name'', JString ''string'')])
      | TeEntityId entity_nm \<Rightarrow> Ok (JObject [(''name'', JString ''entityId''), (''entityName'', JString entity_nm)])
      | TeArray (ContainerType None) \<Rightarrow> Err (Bail ''container has no value'' [])
      | TeArray (ContainerType (Some element_type)) \<Rightarrow>
          r_bind (type_to_obj entities n element_type) (\<lambda>e. Ok (JObject [(''name'', JString ''array''), (''elementType'', e)]))
      | TeEntity entity_nm \<Rightarrow>
          r_bind (make_entity_type_obj entities n entity_nm) (\<lambda>e. Ok (JObject [(''name'', JString ''entity''), (''entityType'', e)])))"
| "make_field_obj entities n field =
     (case fdef_field_type field of
        None \<Rightarrow> Err (Bail ''field does not have type'' [])
      | Some field_ty \<Rightarrow>
          r_bind (type_to_obj entities n field_ty) (\<lambda>type_obj.
          Ok (JObject [(''name'', JString (fdef_name field)), (''type'', type_obj),
                       (''isOptional'', JBool (fdef_is_optional field)), (''isUnique'', JBool (fdef_is_unique field))])))"
| "make_entity_type_obj entities 0 entity_nm = Panic ''stack overflow''"
| "make_entity_type_obj entities (Suc n) entity_nm =
     (case map_of entities entity_nm of
        None \<Rightarrow> Err (Bail ''trying to generate entity object from an unknown entity name {entity_name:?}'' [entity_nm])
      | Some entity \<Rightarrow>
          r_bind (r_map (make_field_obj entities n) (tdef_field_defs entity)) (\<lambda>flds.
          Ok (JObject [(''name'', JString entity_nm), (''fields'', JArray flds)])))"
  by pat_completeness auto
termination
  by (relation "measures [\<lambda>x. case x of Inl (_, n, _) \<Rightarrow> n | Inr (Inl (_, n, _)) \<Rightarrow> n | Inr (Inr (_, n, _)) \<Rightarrow> n,
       \<lambda>x. case x of Inl _ \<Rightarrow> 1 | Inr (Inl _) \<Rightarrow> 2 | Inr (Inr _) \<Rightarrow> 0,
       \<lambda>x. case x of Inl (_, _, m) \<Rightarrow> size m | _ \<Rightarrow> 0]") auto

definition generate_reflection :: "(json \<Rightarrow> string) \<Rightarrow> string \<Rightarrow> nat \<Rightarrow> version_definition \<Rightarrow> string res" where
  "generate_reflection json_to_string reflection_src n version_def =
     (let entities = fold (\<lambda>ty m. al_insert (tdef_name ty) ty m) (vdef_type_defs version_def) [] in
      r_fold (\<lambda>(entity_nm, _) output.
        r_bind (make_entity_type_obj entities n entity_nm) (\<lambda>obj.
        Ok (output @ ''export const '' @ omega @ entity_nm @ '': Entity = '' @ json_to_string obj @ nl))) entities reflection_src)"

subsection \<open>Routes\<close>

datatype crud_handler =
    GetOne string | GetMany string | PutOne string | PostOne string | PatchOne string | DeleteOne string | DeleteMany string

datatype http_method = MOptions | MGet | MPost | MPut | MDelete | MHead | MTrace | MConnect | MPatch

record route_info =
  ri_methods :: "http_method list"
  ri_path_pattern :: string
  ri_client_metadata :: "crud_handler option"

record route_handler =
  rh_method :: http_method
  rh_kind :: crud_handler

datatype route_segment = FixedText string | Wildcard string

datatype sub_route = SubRoute "route_handler list" "(route_segment \<times> sub_route) list"

definition SubRoute_new :: sub_route where
  "SubRoute_new = SubRoute [] []"

definition make_segment :: "string \<Rightarrow> route_segment" where
  "make_segment segment_str = (if starts_with '':'' segment_str then Wildcard segment_str else FixedText segment_str)"

fun add_route_rec :: "string list \<Rightarrow> route_handler \<Rightarrow> sub_route \<Rightarrow> sub_route" where
  "add_route_rec [] h (SubRoute handlers children) = SubRoute (handlers @ [h]) children"
| "add_route_rec (segment_str # sub_segments) h (SubRoute handlers children) =
     (let segment = make_segment segment_str in
      SubRoute handlers
        (case map_of children segment of
           Some child \<Rightarrow> al_insert segment (add_route_rec sub_segments h child) children
         | None \<Rightarrow> al_insert segment (add_route_rec sub_segments h SubRoute_new) children))"

text \<open>\<open>str::trim\<close>: the characters of white space, as bytes.\<close>

definition white_space :: "string list" where
  "white_space =
     [[CHR 0x09], [CHR 0x0A], [CHR 0x0B], [CHR 0x0C], [CHR 0x0D], [CHR 0x20], [CHR 0xC2, CHR 0x85], [CHR 0xC2, CHR 0xA0],
      [CHR 0xE1, CHR 0x9A, CHR 0x80], [CHR 0xE2, CHR 0x80, CHR 0x80], [CHR 0xE2, CHR 0x80, CHR 0x81], [CHR 0xE2, CHR 0x80, CHR 0x82],
      [CHR 0xE2, CHR 0x80, CHR 0x83], [CHR 0xE2, CHR 0x80, CHR 0x84], [CHR 0xE2, CHR 0x80, CHR 0x85], [CHR 0xE2, CHR 0x80, CHR 0x86],
      [CHR 0xE2, CHR 0x80, CHR 0x87], [CHR 0xE2, CHR 0x80, CHR 0x88], [CHR 0xE2, CHR 0x80, CHR 0x89], [CHR 0xE2, CHR 0x80, CHR 0x8A],
      [CHR 0xE2, CHR 0x80, CHR 0xA8], [CHR 0xE2, CHR 0x80, CHR 0xA9], [CHR 0xE2, CHR 0x80, CHR 0xAF], [CHR 0xE2, CHR 0x81, CHR 0x9F],
      [CHR 0xE3, CHR 0x80, CHR 0x80]]"

function trim_any :: "string list \<Rightarrow> string \<Rightarrow> string" where
  "trim_any ps s = (case find (\<lambda>p. p \<noteq> [] \<and> prefix p s) ps of Some p \<Rightarrow> trim_any ps (drop (length p) s) | None \<Rightarrow> s)"
  by pat_completeness auto
termination
proof (relation "measure (length \<circ> snd)")
  fix ps s p assume "find (\<lambda>p. p \<noteq> [] \<and> prefix p s) ps = Some p"
  then have "p \<noteq> []" "prefix p s" by (auto simp: find_Some_iff)
  then show "((ps, drop (length p) s), ps, s) \<in> measure (length \<circ> snd)" by (cases s) auto
qed simp

declare trim_any.simps [simp del]

definition trim :: "string \<Rightarrow> string" where
  "trim s = rev (trim_any (map rev white_space) (rev (trim_any white_space s)))"

definition trim_start_char :: "char \<Rightarrow> string \<Rightarrow> string" where
  "trim_start_char c s = dropWhile (\<lambda>d. d = c) s"

definition trim_end_char :: "char \<Rightarrow> string \<Rightarrow> string" where
  "trim_end_char c s = rev (dropWhile (\<lambda>d. d = c) (rev s))"

definition route_segments :: "string \<Rightarrow> string list" where
  "route_segments route = split_on CHR ''/'' (trim_end_char CHR ''/'' (trim_start_char CHR ''/'' (trim route)))"

definition add_route :: "string \<Rightarrow> route_handler \<Rightarrow> sub_route \<Rightarrow> sub_route" where
  "add_route route h root = add_route_rec (route_segments route) h root"

definition path_join :: "string \<Rightarrow> string \<Rightarrow> string" where
  "path_join p1 p2 = trim_end_char CHR ''/'' p1 @ ''/'' @ trim_start_char CHR ''/'' p2"

definition routing_step :: "route_info \<Rightarrow> sub_route \<Rightarrow> sub_route res" where
  "routing_step route root =
     (case ri_client_metadata route of
        None \<Rightarrow> Ok root
      | Some meta_handler \<Rightarrow>
          r_bind (ensure (length (ri_methods route) = 1) (Bail ''the number of allowed route methods must be one'' [])) (\<lambda>_.
          Ok (add_route (ri_path_pattern route) \<lparr>rh_method = hd (ri_methods route), rh_kind = meta_handler\<rparr> root)))"

definition build_routing :: "route_info list \<Rightarrow> sub_route res" where
  "build_routing routes = r_fold routing_step routes SubRoute_new"

text \<open>One call of a function of the client library, the first argument being the URL.\<close>

definition client_call :: "string \<Rightarrow> string \<Rightarrow> string option \<Rightarrow> string option \<Rightarrow> string \<Rightarrow> string" where
  "client_call key fn_name type_arg reflection url =
     key @ '': '' @ omega @ ''lib.'' @ fn_name @ (case type_arg of Some e \<Rightarrow> ''<'' @ omega @ ''models.'' @ e @ ''>'' | None \<Rightarrow> []) @ ''('' @
     omega @ ''url('' @ [CHR 0x60] @ url @ [CHR 0x60] @ ''), '' @ (case reflection of Some e \<Rightarrow> omega @ ''reflection.'' @ omega @ e @ '', '' | None \<Rightarrow> []) @
     omega @ ''config)''"

definition handler_to_ts :: "route_handler \<Rightarrow> string \<Rightarrow> string list" where
  "handler_to_ts h url =
     (case rh_kind h of
        DeleteMany e \<Rightarrow> [client_call ''delete'' ''makeDeleteMany'' (Some e) None url]
      | DeleteOne _ \<Rightarrow> [client_call ''delete'' ''makeDeleteOne'' None None url]
      | GetMany e \<Rightarrow> [client_call ''get'' ''makeGetMany'' (Some e) (Some e) url, client_call ''getIter'' ''makeGetManyIter'' (Some e) (Some e) url,
                      client_call ''getAll'' ''makeGetAll'' (Some e) (Some e) url]
      | GetOne e \<Rightarrow> [client_call ''get'' ''makeGetOne'' (Some e) (Some e) url]
      | PatchOne e \<Rightarrow> [client_call ''patch'' ''makePatchOne'' (Some e) (Some e) url]
      | PostOne e \<Rightarrow> [client_call ''post'' ''makePostOne'' (Some e) (Some e) url]
      | PutOne e \<Rightarrow> [client_call ''put'' ''makePutOne'' (Some e) (Some e) url])"

fun generate_routing_obj :: "sub_route \<Rightarrow> string \<Rightarrow> string"
  and generate_children :: "(route_segment \<times> sub_route) list \<Rightarrow> string \<Rightarrow> string list" where
  "generate_routing_obj (SubRoute handlers children) url_prefix =
     ''{'' @ join ('','' @ nl) (concat (map (\<lambda>h. handler_to_ts h url_prefix) handlers) @ generate_children children url_prefix) @ ''}'' @ nl"
| "generate_children [] url_prefix = []"
| "generate_children ((segment, subroute) # children) url_prefix =
     (case segment of
        FixedText segment \<Rightarrow> [CHR 0x22] @ segment @ [CHR 0x22] @ '': '' @ generate_routing_obj subroute (path_join url_prefix segment)
      | Wildcard segment \<Rightarrow>
          let group_name = trim_start_char CHR '':'' segment; url_path = path_join url_prefix (''${'' @ group_name @ ''}'') in
          group_name @ '': ('' @ group_name @ '': string) => { return '' @ generate_routing_obj subroute url_path @ ''; }'')
     # generate_children children url_prefix"

definition generate_routing_client :: "string \<Rightarrow> route_info list \<Rightarrow> string \<Rightarrow> client_mode \<Rightarrow> string res" where
  "generate_routing_client client_src routes version mode =
     (let ext = (case mode of ModeDeno \<Rightarrow> ''.ts'' | ModeNode \<Rightarrow> []);
          indent = (\<lambda>n. nl @ replicate n (CHR 0x20));
          from_file = (\<lambda>what nm. indent 16 @ ''import '' @ what @ '' from '' @ [CHR 0x22] @ ''./'' @ nm @ ext @ [CHR 0x22] @ '';'');
          imports = from_file (''* as '' @ omega @ ''lib'') ''client_lib'' @ from_file (''* as '' @ omega @ ''models'') ''models'' @
            from_file (''* as '' @ omega @ ''reflection'') ''reflection'' @
            from_file (''{ type '' @ omega @ ''WithoutId }'') ''models_without_id'' @ indent 12 in
      r_bind (build_routing routes) (\<lambda>root.
      Ok (imports @ nl @ client_src @
          indent 12 @ ''function '' @ omega @ ''createClient('' @ omega @ ''clientConfig: '' @ omega @ ''lib.ClientConfig) {'' @
          indent 16 @ ''const '' @ omega @ ''config = '' @ omega @ ''lib.cliConfigToInternal('' @ omega @ ''clientConfig);'' @
          indent 16 @ ''const '' @ omega @ ''version = '' @ omega @ ''config.version ?? '' @ [CHR 0x27] @ version @ [CHR 0x27] @ '';'' @
          indent 16 @ ''const '' @ omega @ ''url = (url: string) => {'' @
          indent 20 @ ''return '' @ omega @ ''lib.urlJoin('' @ omega @ ''config.serverUrl, '' @ omega @ ''version, url);'' @
          indent 16 @ ''};'' @
          indent 16 @ ''return '' @ generate_routing_obj root [] @ '';'' @
          indent 12 @ ''}'' @ indent 8 @ nl)))"

subsection \<open>The tree of routes\<close>

fun route_at :: "sub_route \<Rightarrow> route_segment list \<Rightarrow> route_handler list" where
  "route_at (SubRoute handlers children) [] = handlers"
| "route_at (SubRoute handlers children) (s # ss) = (case map_of children s of Some child \<Rightarrow> route_at child ss | None \<Rightarrow> [])"

lemma route_at_new [simp]: "route_at SubRoute_new p = []"
  by (cases p) (simp_all add: SubRoute_new_def)

lemma route_at_add:
  "route_at (add_route_rec segs h t) p = route_at t p @ (if p = map make_segment segs then [h] else [])"
proof (induction segs arbitrary: t p)
  case Nil
  then show ?case by (cases t; cases p) auto
next
  case (Cons s segs)
  show ?case
    by (cases t; cases p) (auto simp: Let_def Cons.IH split: option.split)
qed

definition handlers_at :: "route_info list \<Rightarrow> route_segment list \<Rightarrow> route_handler list" where
  "handlers_at routes p =
     concat (map (\<lambda>r. case ri_client_metadata r of
         Some h \<Rightarrow> if map make_segment (route_segments (ri_path_pattern r)) = p then [\<lparr>rh_method = hd (ri_methods r), rh_kind = h\<rparr>] else []
       | None \<Rightarrow> []) routes)"

lemma build_routing_at: "build_routing routes = Ok root \<Longrightarrow> route_at root p = handlers_at routes p"
proof -
  have "r_fold routing_step routes t = Ok root \<Longrightarrow> route_at root p = route_at t p @ handlers_at routes p" for t
  proof (induction routes arbitrary: t)
    case (Cons r routes)
    then obtain t1 where t1: "routing_step r t = Ok t1" and rest: "r_fold routing_step routes t1 = Ok root"
      by (auto simp: r_bind_Ok_iff)
    from Cons.IH [OF rest] t1 show ?case
      by (auto simp: routing_step_def handlers_at_def add_route_def route_at_add r_bind_Ok_iff split: option.splits)
  qed (simp add: handlers_at_def)
  then show "build_routing routes = Ok root \<Longrightarrow> route_at root p = handlers_at routes p"
    by (simp add: build_routing_def)
qed

lemma build_routing_ok: "is_ok (build_routing routes) \<longleftrightarrow> (\<forall>r \<in> set routes. ri_client_metadata r \<noteq> None \<longrightarrow> length (ri_methods r) = 1)"
proof -
  have "is_ok (r_fold routing_step routes t) \<longleftrightarrow> (\<forall>r \<in> set routes. ri_client_metadata r \<noteq> None \<longrightarrow> length (ri_methods r) = 1)" for t
  proof (induction routes arbitrary: t)
    case (Cons r routes)
    then show ?case
      by (cases "ri_client_metadata r"; cases "length (ri_methods r) = 1") (auto simp: routing_step_def ensure_def is_ok_def)
  qed (simp add: is_ok_def)
  then show ?thesis by (simp add: build_routing_def)
qed

subsection \<open>The text of the client\<close>

lemma sublist_join: "x \<in> set xs \<Longrightarrow> sublist x (join sep xs)"
proof (induction xs)
  case (Cons y xs)
  show ?case
  proof (cases "x = y")
    case True
    then show ?thesis by (cases xs) (auto intro: sublist_appendI [of _ "[]", simplified])
  next
    case False
    with Cons have "sublist x (join sep xs)" "xs \<noteq> []" by auto
    then show ?thesis by (cases xs) (auto simp: sublist_def, metis append.assoc)
  qed
qed simp

definition url_step :: "string \<Rightarrow> route_segment \<Rightarrow> string" where
  "url_step url_prefix s =
     path_join url_prefix (case s of FixedText x \<Rightarrow> x | Wildcard x \<Rightarrow> ''${'' @ trim_start_char CHR '':'' x @ ''}'')"

lemma sublist_middle: "sublist x b \<Longrightarrow> sublist x (a @ b @ c)"
  by (meson sublist_append_leftI sublist_append_rightI sublist_order.order.trans)

lemma generate_children_in:
  "map_of children s = Some child \<Longrightarrow>
     \<exists>x \<in> set (generate_children children url_prefix). sublist (generate_routing_obj child (url_step url_prefix s)) x"
proof (induction children)
  case (Cons c children)
  obtain seg sub where c: "c = (seg, sub)" by (cases c)
  show ?case
  proof (cases "seg = s")
    case True
    with Cons.prems have "child = sub" by (simp add: c)
    have "sublist (generate_routing_obj sub u) (([CHR 0x22] @ x @ [CHR 0x22] @ '': '') @ generate_routing_obj sub u @ [])"
      "sublist (generate_routing_obj sub u) ((x @ '': ('' @ x @ '': string) => { return '') @ generate_routing_obj sub u @ ''; }'')" for u x
      by (rule sublist_middle, simp)+
    with \<open>child = sub\<close> True show ?thesis
      by (cases s) (simp_all add: c url_step_def Let_def)
  next
    case False
    with Cons show ?thesis by (auto simp: c)
  qed
qed simp

lemma generated_calls:
  "h \<in> set (route_at t p) \<Longrightarrow> call \<in> set (handler_to_ts h (foldl url_step url_prefix p)) \<Longrightarrow>
     sublist call (generate_routing_obj t url_prefix)"
proof (induction p arbitrary: t url_prefix)
  case Nil
  obtain handlers children where t: "t = SubRoute handlers children" by (cases t)
  with Nil have "call \<in> set (concat (map (\<lambda>h. handler_to_ts h url_prefix) handlers) @ generate_children children url_prefix)" by auto
  from sublist_join [OF this] show ?case
    unfolding t generate_routing_obj.simps by (rule sublist_middle)
next
  case (Cons s p)
  obtain handlers children where t: "t = SubRoute handlers children" by (cases t)
  from Cons.prems obtain child where child: "map_of children s = Some child" "h \<in> set (route_at child p)"
    by (cases "map_of children s") (auto simp: t)
  with Cons have call: "sublist call (generate_routing_obj child (url_step url_prefix s))" by simp
  obtain x where x: "x \<in> set (generate_children children url_prefix)" "sublist (generate_routing_obj child (url_step url_prefix s)) x"
    using generate_children_in [OF child(1)] by blast
  then have "x \<in> set (concat (map (\<lambda>h. handler_to_ts h url_prefix) handlers) @ generate_children children url_prefix)" by simp
  from sublist_join [OF this] x(2) call have "sublist call (join ('','' @ nl)
      (concat (map (\<lambda>h. handler_to_ts h url_prefix) handlers) @ generate_children children url_prefix))"
    by (meson sublist_order.order.trans)
  then show ?case
    unfolding t generate_routing_obj.simps by (rule sublist_middle)
qed

definition url_segment :: "string \<Rightarrow> string" where
  "url_segment s = (if starts_with '':'' s then ''${'' @ trim_start_char CHR '':'' s @ ''}'' else s)"

lemma url_steps:
  assumes "\<And>s. s \<in> set segs \<Longrightarrow> s \<noteq> [] \<and> CHR ''/'' \<notin> set s" "url_prefix = [] \<or> last url_prefix \<noteq> CHR ''/''"
  shows "foldl url_step url_prefix (map make_segment segs) = url_prefix @ concat (map (\<lambda>s. ''/'' @ url_segment s) segs)"
  using assms
proof (induction segs arbitrary: url_prefix)
  case (Cons s segs)
  have s: "s \<noteq> []" "CHR ''/'' \<notin> set s" using Cons.prems(1) by auto
  have "trim_end_char CHR ''/'' url_prefix = url_prefix"
    using Cons.prems(2) by (cases url_prefix rule: rev_cases) (auto simp: trim_end_char_def)
  moreover have "trim_start_char CHR ''/'' s = s" using s by (cases s) (auto simp: trim_start_char_def)
  ultimately have step: "url_step url_prefix (make_segment s) = url_prefix @ ''/'' @ url_segment s"
    by (simp add: url_step_def make_segment_def url_segment_def path_join_def trim_start_char_def)
  have "last (url_segment s) \<noteq> CHR ''/''" "url_segment s \<noteq> []"
    using s by (auto simp: url_segment_def) (metis last_in_set)
  with Cons.IH [of "url_prefix @ ''/'' @ url_segment s"] Cons.prems(1) show ?case
    by (simp add: step)
qed simp


definition sample_route :: route_info where
  "sample_route = \<lparr>ri_methods = [MGet], ri_path_pattern = ''/posts/:id'', ri_client_metadata = Some (GetOne ''Post'')\<rparr>"

lemma sample_segments: "route_segments ''/posts/:id'' = [''posts'', '':id'']"
  by code_simp

lemma sample_call: "client_call ''get'' ''makeGetOne'' (Some ''Post'') (Some ''Post'') ''/posts/${id}'' \<in>
    set (handler_to_ts \<lparr>rh_method = MGet, rh_kind = GetOne ''Post''\<rparr> (concat (map (\<lambda>s. ''/'' @ url_segment s) [''posts'', '':id''])))"
  by (simp add: handler_to_ts_def url_segment_def starts_with_def trim_start_char_def)


subsection \<open>Reflection ends\<close>

text \<open>The entities a complete type refers to.\<close>

fun entity_refs :: "type_msg \<Rightarrow> string list option" where
  "entity_refs (TypeMsg None) = None"
| "entity_refs (TypeMsg (Some (TeEntity n))) = Some [n]"
| "entity_refs (TypeMsg (Some (TeArray (ContainerType None)))) = None"
| "entity_refs (TypeMsg (Some (TeArray (ContainerType (Some m))))) = entity_refs m"
| "entity_refs (TypeMsg (Some _)) = Some []"

lemma type_to_obj_ok:
  "is_ok (type_to_obj entities n m) \<longleftrightarrow> (\<exists>refs. entity_refs m = Some refs \<and> (\<forall>r \<in> set refs. is_ok (make_entity_type_obj entities n r)))"
  by (induction m rule: entity_refs.induct) (auto simp: is_ok_iff r_bind_Ok_iff)

lemma r_map_ok: "is_ok (r_map f xs) \<longleftrightarrow> (\<forall>x \<in> set xs. is_ok (f x))"
  by (induction xs) (auto simp: is_ok_iff r_bind_Ok_iff)

definition refers_only :: "string set \<Rightarrow> type_definition \<Rightarrow> bool" where
  "refers_only names d \<longleftrightarrow> (\<forall>f \<in> set (tdef_field_defs d). \<exists>m refs. fdef_field_type f = Some m \<and> entity_refs m = Some refs \<and> set refs \<subseteq> names)"

lemma make_entity_ok:
  assumes "map_of entities nm = Some d" "refers_only names d" "\<And>r. r \<in> names \<Longrightarrow> is_ok (make_entity_type_obj entities n r)"
  shows "is_ok (make_entity_type_obj entities (Suc n) nm)"
proof -
  have "is_ok (make_field_obj entities n f)" if f: "f \<in> set (tdef_field_defs d)" for f
  proof -
    obtain m refs where m: "fdef_field_type f = Some m" "entity_refs m = Some refs" "set refs \<subseteq> names"
      using assms(2) f unfolding refers_only_def by blast
    then have "is_ok (type_to_obj entities n m)"
      using assms(3) by (auto simp: type_to_obj_ok)
    with m(1) show ?thesis by (auto simp: is_ok_iff)
  qed
  then have "is_ok (r_map (make_field_obj entities n) (tdef_field_defs d))" by (simp add: r_map_ok)
  with assms(1) show ?thesis by (auto simp: is_ok_iff)
qed

lemma make_entity_in_order:
  assumes "\<And>d. d \<in> set order \<Longrightarrow> map_of entities (tdef_name d) = Some d"
    and "\<And>pre d post. order = pre @ d # post \<Longrightarrow> refers_only (tdef_name ` set pre) d"
  shows "d \<in> set order \<Longrightarrow> is_ok (make_entity_type_obj entities (length order + k) (tdef_name d))"
  using assms
proof (induction order arbitrary: d k rule: rev_induct)
  case (snoc e order)
  have earlier: "is_ok (make_entity_type_obj entities (length order + k) (tdef_name d))" if "d \<in> set order" for d k
  proof (rule snoc.IH [OF that])
    show "refers_only (tdef_name ` set pre) d" if "order = pre @ d # post" for pre d post
      using snoc.prems(3) [of pre d "post @ [e]"] that by simp
  qed (use snoc.prems(2) in simp)
  show ?case
  proof (cases "d \<in> set order")
    case True
    then show ?thesis using earlier [of d "Suc k"] by simp
  next
    case False
    then have "d = e" using snoc.prems(1) by simp
    moreover have "refers_only (tdef_name ` set order) e" using snoc.prems(3) [of order e "[]"] by simp
    moreover have "map_of entities (tdef_name e) = Some e" using snoc.prems(2) by simp
    ultimately show ?thesis
      using earlier [of _ k] make_entity_ok [of entities "tdef_name e" e "tdef_name ` set order" "length order + k"] by auto
  qed
qed simp

text \<open>
  The reflection of a version ends.  When the models have an order in which every model refers only to
  models before it, as the server's order does, the recursion through the fields is never deeper than there are
  models, and every model gets its description.
\<close>

theorem reflection_ends:
  assumes "set order = set (vdef_type_defs version_def)" "distinct (map tdef_name (vdef_type_defs version_def))"
    and "\<forall>pre d post. order = pre @ d # post \<longrightarrow> refers_only (tdef_name ` set pre) d" "length order \<le> n"
  shows "is_ok (generate_reflection json_to_string src n version_def)"
proof -
  let ?defs = "vdef_type_defs version_def"
  let ?entities = "fold (\<lambda>ty m. al_insert (tdef_name ty) ty m) ?defs []"
  have entities: "?entities = map (\<lambda>d. (tdef_name d, d)) ?defs"
    using fold_al_insert_distinct [of "[]" "map (\<lambda>d. (tdef_name d, d)) ?defs"] assms(2) by (simp add: fold_map comp_def)
  then have lookup: "map_of ?entities (tdef_name d) = Some d" if "d \<in> set order" for d
    using that assms(1,2) by (simp add: map_of_is_SomeI comp_def image_iff)
  have each: "is_ok (make_entity_type_obj ?entities n (tdef_name d))" if "d \<in> set order" for d
    using make_entity_in_order [of order ?entities d "n - length order"] lookup that assms(3,4) by simp
  have loop: "is_ok (r_fold f xs acc)" if "\<And>x a. x \<in> set xs \<Longrightarrow> is_ok (f x a)" for f :: "string \<times> type_definition \<Rightarrow> string \<Rightarrow> string res" and xs acc
    using that
  proof (induction xs arbitrary: acc)
    case (Cons x xs)
    from Cons.prems [of x acc] obtain b where "f x acc = Ok b" by (auto simp: is_ok_iff)
    with Cons show ?case by simp
  qed (simp add: is_ok_def)
  show ?thesis
    unfolding generate_reflection_def Let_def entities
  proof (rule loop)
    fix x a assume "x \<in> set (map (\<lambda>d. (tdef_name d, d)) ?defs)"
    then obtain d where x: "x = (tdef_name d, d)" "d \<in> set order" using assms(1) by auto
    then show "is_ok ((\<lambda>(entity_nm, _) output. r_bind (make_entity_type_obj (map (\<lambda>d. (tdef_name d, d)) ?defs) n entity_nm) (\<lambda>obj.
        Ok (output @ ''export const '' @ omega @ entity_nm @ '': Entity = '' @ json_to_string obj @ nl))) x a)"
      using each [unfolded entities, OF x(2)] by (auto simp: is_ok_iff)
  qed
qed

definition sample_defs :: "type_definition list" where
  "sample_defs =
     [\<lparr>tdef_name = ''Author'', tdef_field_defs = []\<rparr>,
      \<lparr>tdef_name = ''Post'', tdef_field_defs = [\<lparr>fdef_name = ''by'', fdef_field_type = Some (TypeMsg (Some (TeEntity ''Author''))),
         fdef_labels = [], fdef_is_optional = False, fdef_default_value = None, fdef_is_unique = False\<rparr>]\<rparr>]"

theorem reflection_ends_witness:
  "is_ok (generate_reflection (\<lambda>_. []) [] 2 \<lparr>vdef_version_id = ''dev'', vdef_type_defs = sample_defs, vdef_labels = []\<rparr>)"
proof -
  let ?v = "\<lparr>vdef_version_id = ''dev'', vdef_type_defs = sample_defs, vdef_labels = []\<rparr>"
  have "refers_only (tdef_name ` set pre) d" if "sample_defs = pre @ d # post" for pre d post
    using that by (auto simp: sample_defs_def Cons_eq_append_conv refers_only_def)
  then show ?thesis
    using reflection_ends [of sample_defs ?v 2] by (simp add: sample_defs_def)
qed

end
