(* ===== verification/Migrate.thy ===== *)
theory Migrate
  imports Types "HOL-Library.Multiset"
begin

text \<open>
  \<open>server/src/datastore/meta/migrate.rs\<close>, \<open>migrate_to_2.rs\<close>, \<open>schema.rs\<close> and the migration half of
  \<open>meta/mod.rs\<close>: how the tables of a database written by an older server, or of an empty one, become
  the tables this server reads.

  A table has its columns, the groups of columns that are unique together, the columns of type
  \<open>jsonb\<close>, and its rows; a cell is NULL or a text.  The migration runs in one transaction.  A failing
  statement is an error, and when the code drops that error the two databases differ: SQLite goes on,
  Postgres refuses every later statement of the transaction (\<open>tx_aborted\<close>).
\<close>

subsection \<open>Tables and statements\<close>

datatype any_kind = Sqlite | Postgres

type_synonym sql_cell = "string option"

record table =
  t_cols :: "string list"
  t_unique :: "string list list"
  t_jsonb :: "string list"
  t_rows :: "sql_cell list list"

type_synonym tables = "(string \<times> table) list"

record txn =
  tx_kind :: any_kind
  tx_tables :: tables
  tx_aborted :: bool

definition cell_of :: "table \<Rightarrow> string \<Rightarrow> sql_cell list \<Rightarrow> sql_cell" where
  "cell_of t c row = (case map_of (zip (t_cols t) row) c of Some v \<Rightarrow> v | None \<Rightarrow> None)"

definition query_failed :: "string \<Rightarrow> anyhow" where
  "query_failed msg = Context ''Failed to execute query {}'' (Bail msg [])"

text \<open>\<open>execute\<close>, \<open>fetch_one\<close> and \<open>fetch_all\<close> on the transaction: \<open>stmt\<close> is what the statement does to the tables.\<close>

definition run_stmt :: "(tables \<Rightarrow> ('a \<times> tables) res) \<Rightarrow> txn \<Rightarrow> ('a \<times> txn) res" where
  "run_stmt stmt tx =
     r_bind (ensure (\<not> tx_aborted tx) (query_failed ''current transaction is aborted'')) (\<lambda>_.
     r_bind (stmt (tx_tables tx)) (\<lambda>(x, ts). Ok (x, tx\<lparr>tx_tables := ts\<rparr>)))"

definition execute_stmt :: "(tables \<Rightarrow> tables res) \<Rightarrow> txn \<Rightarrow> txn res" where
  "execute_stmt stmt tx = r_map_ok snd (run_stmt (\<lambda>ts. r_map_ok (Pair ()) (stmt ts)) tx)"

definition fetch_stmt :: "(tables \<Rightarrow> 'a res) \<Rightarrow> txn \<Rightarrow> 'a res" where
  "fetch_stmt query tx = r_map_ok fst (run_stmt (\<lambda>ts. r_map_ok (\<lambda>x. (x, ts)) (query ts)) tx)"

text \<open>\<open>let _: Result<_> = execute_stmt(..)\<close>.\<close>

definition ignore_stmt :: "(tables \<Rightarrow> tables res) \<Rightarrow> txn \<Rightarrow> txn res" where
  "ignore_stmt stmt tx =
     (case execute_stmt stmt tx of
        Ok tx' \<Rightarrow> Ok tx'
      | Err _ \<Rightarrow> Ok (tx\<lparr>tx_aborted := (tx_aborted tx \<or> tx_kind tx = Postgres)\<rparr>)
      | Panic p \<Rightarrow> Panic p)"

definition sql_create_table :: "string \<Rightarrow> bool \<Rightarrow> string list \<Rightarrow> string list list \<Rightarrow> tables \<Rightarrow> tables res" where
  "sql_create_table name if_not_exists cols uniq ts =
     (if map_of ts name = None
      then Ok (ts @ [(name, \<lparr>t_cols = cols, t_unique = uniq, t_jsonb = [], t_rows = []\<rparr>)])
      else if if_not_exists then Ok ts else Err (query_failed ''table already exists''))"

definition the_table :: "string \<Rightarrow> tables \<Rightarrow> table res" where
  "the_table name ts = ok_or (query_failed ''no such table'') (map_of ts name)"

definition add_column :: "string \<Rightarrow> string \<Rightarrow> tables \<Rightarrow> tables res" where
  "add_column name col ts =
     r_bind (the_table name ts) (\<lambda>t.
     r_bind (ensure (col \<notin> set (t_cols t)) (query_failed ''duplicate column name'')) (\<lambda>_.
     Ok (al_insert name (t\<lparr>t_cols := t_cols t @ [col], t_rows := map (\<lambda>r. r @ [None]) (t_rows t)\<rparr>) ts)))"

definition sql_drop_table :: "string \<Rightarrow> tables \<Rightarrow> tables res" where
  "sql_drop_table name ts = r_bind (the_table name ts) (\<lambda>_. Ok (al_remove name ts))"

definition rename_table :: "string \<Rightarrow> string \<Rightarrow> tables \<Rightarrow> tables res" where
  "rename_table old new ts =
     r_bind (the_table old ts) (\<lambda>t.
     r_bind (ensure (map_of ts new = None) (query_failed ''there is already another table with this name'')) (\<lambda>_.
     Ok (map (\<lambda>(n, t). (if n = old then new else n, t)) ts)))"

text \<open>A row is refused when a unique group of its columns, none of them NULL, is in the table already.\<close>

definition conflicts :: "table \<Rightarrow> sql_cell list \<Rightarrow> sql_cell list \<Rightarrow> bool" where
  "conflicts t row row' \<longleftrightarrow>
     (\<exists>cs \<in> set (t_unique t). \<forall>c \<in> set cs. cell_of t c row \<noteq> None \<and> cell_of t c row = cell_of t c row')"

definition insert_row :: "string \<Rightarrow> sql_cell list \<Rightarrow> tables \<Rightarrow> tables res" where
  "insert_row name row ts =
     r_bind (the_table name ts) (\<lambda>t.
     r_bind (ensure (length row = length (t_cols t)) (query_failed ''wrong number of values'')) (\<lambda>_.
     r_bind (ensure (\<forall>row' \<in> set (t_rows t). \<not> conflicts t row row') (query_failed ''constraint failed'')) (\<lambda>_.
     Ok (al_insert name (t\<lparr>t_rows := t_rows t @ [row]\<rparr>) ts))))"

definition select_from :: "string \<Rightarrow> string list \<Rightarrow> tables \<Rightarrow> sql_cell list list res" where
  "select_from name cols ts =
     r_bind (the_table name ts) (\<lambda>t.
     r_bind (ensure (set cols \<subseteq> set (t_cols t)) (query_failed ''no such column'')) (\<lambda>_.
     Ok (map (\<lambda>row. map (\<lambda>c. cell_of t c row) cols) (t_rows t))))"

text \<open>\<open>row.get\<close> into a \<open>String\<close> panics on NULL.\<close>

definition get_string :: "sql_cell \<Rightarrow> string res" where
  "get_string c = unwrap ''unexpected null'' c"

subsection \<open>Sources become modules: \<open>migrate_to_2.rs\<close>\<close>

record source_row = sr_path :: string sr_code :: string
record module_row = mr_version_id :: string mr_url :: string mr_code :: string
record source = s_path :: string s_code :: string
record endpoint_source = es_route :: string es_source :: source
record version_source_map =
  vs_version_id :: string
  vs_endpoints :: "endpoint_source list"
  vs_others :: "source list"
record source_path = sp_version_id :: string sp_path :: string sp_endpoint_route :: "string option"

definition split_once :: "char \<Rightarrow> string \<Rightarrow> (string \<times> string) option" where
  "split_once c s = (if c \<in> set s then Some (takeWhile (\<lambda>x. x \<noteq> c) s, tl (dropWhile (\<lambda>x. x \<noteq> c) s)) else None)"

definition rsplit_once :: "char \<Rightarrow> string \<Rightarrow> (string \<times> string) option" where
  "rsplit_once c s = map_option (\<lambda>(a, b). (rev b, rev a)) (split_once c (rev s))"

text \<open>\<open>trim_end_matches\<close> with a text removes it as often as it is there.\<close>

lemma starts_with_shorter [termination_simp]: "p \<noteq> [] \<Longrightarrow> starts_with p s \<Longrightarrow> length s - length p < length s"
  by (cases s) (auto simp: starts_with_def)

fun trim_start_str :: "string \<Rightarrow> string \<Rightarrow> string" where
  "trim_start_str p s = (if p \<noteq> [] \<and> starts_with p s then trim_start_str p (drop (length p) s) else s)"

declare trim_start_str.simps [simp del]

definition trim_end_str :: "string \<Rightarrow> string \<Rightarrow> string" where
  "trim_end_str p s = rev (trim_start_str (rev p) (rev s))"

definition parse_source_path :: "string \<Rightarrow> source_path option" where
  "parse_source_path path =
     (let path = dropWhile (\<lambda>x. x = CHR ''/'') path in
      case split_once CHR ''/'' path of
        None \<Rightarrow> None
      | Some (version_id, rel_path) \<Rightarrow>
          let endpoint_route =
            (case split_once CHR ''/'' rel_path of
               Some (dir, endpoint_rel_path) \<Rightarrow>
                 if dir = ''endpoints'' \<or> dir = ''routes''
                 then Some (trim_end_str ''.js'' (trim_end_str ''.ts'' endpoint_rel_path)) else None
             | None \<Rightarrow> None)
          in Some \<lparr>sp_version_id = version_id, sp_path = path, sp_endpoint_route = endpoint_route\<rparr>)"

definition path_to_url :: "string \<Rightarrow> string" where
  "path_to_url path = ''file:///'' @ path"

text \<open>\<open>{:?}\<close> of a \<open>str\<close>; a character outside ASCII is printed as it is.\<close>

definition hex_digit :: "nat \<Rightarrow> char" where
  "hex_digit n = (if n < 10 then char_of (48 + n) else char_of (87 + n))"

definition debug_char :: "char \<Rightarrow> string" where
  "debug_char c =
     (let n = of_char c :: nat in
      if n = 34 then [CHR 0x5C, CHR 0x22] else if n = 92 then [CHR 0x5C, CHR 0x5C]
      else if n = 0 then [CHR 0x5C, CHR ''0''] else if n = 9 then [CHR 0x5C, CHR ''t'']
      else if n = 10 then [CHR 0x5C, CHR ''n''] else if n = 13 then [CHR 0x5C, CHR ''r'']
      else if n < 32 \<or> n = 127
      then [CHR 0x5C] @ ''u{'' @ (if n < 16 then [] else [hex_digit (n div 16)]) @ [hex_digit (n mod 16)] @ ''}''
      else [c])"

definition debug_str :: "string \<Rightarrow> string" where
  "debug_str s = [CHR 0x22] @ concat (map debug_char s) @ [CHR 0x22]"

definition single_quoted :: "string \<Rightarrow> string" where
  "single_quoted s = [CHR 0x27] @ s @ [CHR 0x27]"

definition endpoint_lines :: "nat \<Rightarrow> endpoint_source \<Rightarrow> string list" where
  "endpoint_lines i endpoint =
     [''import endpoint'' @ show_nat i @ '' from '' @ debug_str (path_to_url (s_path (es_source endpoint))) @ '';'',
      ''routeMap.prefix('' @ debug_str (es_route endpoint) @ '', RouteMap.convert(endpoint'' @ show_nat i @ '', ''
        @ debug_str (es_route endpoint) @ ''));'']"

definition codegen_root :: "string \<Rightarrow> endpoint_source list \<Rightarrow> module_row" where
  "codegen_root version_id endpoints =
     (let lines = [''// this code was migrated by server/src/datastore/meta/migrate_to_2.rs'',
                   ''import { RouteMap } from '' @ single_quoted ''chisel://api/routing.ts'' @ '';'',
                   ''import { TopicMap } from '' @ single_quoted ''chisel://api/kafka.ts'' @ '';'',
                   ''export const routeMap = new RouteMap();'', ''export const topicMap = new TopicMap();'', '''']
                  @ concat (map (\<lambda>(i, endpoint). endpoint_lines i endpoint) (enumerate 0 endpoints))
      in \<lparr>mr_version_id = version_id, mr_url = ''file:///__root.ts'', mr_code = join [CHR 0x0A] lines\<rparr>)"

definition migrate_source :: "string \<Rightarrow> source \<Rightarrow> module_row" where
  "migrate_source version_id source = \<lparr>mr_version_id = version_id, mr_url = path_to_url (s_path source), mr_code = s_code source\<rparr>"

definition migrate_version :: "version_source_map \<Rightarrow> module_row list \<Rightarrow> module_row list" where
  "migrate_version source_map module_rows =
     module_rows @ [codegen_root (vs_version_id source_map) (vs_endpoints source_map)]
       @ map (\<lambda>endpoint. migrate_source (vs_version_id source_map) (es_source endpoint)) (vs_endpoints source_map)
       @ map (migrate_source (vs_version_id source_map)) (vs_others source_map)"

definition add_source_row :: "source_row \<Rightarrow> (string \<times> version_source_map) list \<Rightarrow> (string \<times> version_source_map) list" where
  "add_source_row row source_maps =
     (case parse_source_path (sr_path row) of
        None \<Rightarrow> source_maps
      | Some source_path \<Rightarrow>
          let source = \<lparr>s_path = sp_path source_path, s_code = sr_code row\<rparr>;
              source_map = (case map_of source_maps (sp_version_id source_path) of
                  Some m \<Rightarrow> m
                | None \<Rightarrow> \<lparr>vs_version_id = sp_version_id source_path, vs_endpoints = [], vs_others = []\<rparr>);
              source_map = (case sp_endpoint_route source_path of
                  Some route \<Rightarrow> source_map\<lparr>vs_endpoints := vs_endpoints source_map @ [\<lparr>es_route = route, es_source = source\<rparr>]\<rparr>
                | None \<Rightarrow> source_map\<lparr>vs_others := vs_others source_map @ [source]\<rparr>)
          in al_insert (sp_version_id source_path) source_map source_maps)"

definition migrate_sources :: "source_row list \<Rightarrow> module_row list" where
  "migrate_sources source_rows =
     (let source_maps = fold add_source_row source_rows []
      in fold migrate_version (map snd source_maps) [])"

subsection \<open>The steps: \<open>migrate.rs\<close>\<close>

definition migrate_from_empty_to_0 :: "txn \<Rightarrow> txn res" where
  "migrate_from_empty_to_0 tx =
     r_bind (execute_stmt (sql_create_table ''types'' False [''type_id'', ''backing_table'', ''api_version'']
               [[''type_id''], [''backing_table''], [''api_version'']]) tx) (\<lambda>tx.
     r_bind (execute_stmt (sql_create_table ''type_names'' False [''type_id'', ''name''] [[''name'']]) tx) (\<lambda>tx.
     r_bind (execute_stmt (sql_create_table ''fields'' False [''field_id'', ''field_type'', ''default_value'', ''is_optional'', ''type_id'']
               [[''field_id'']]) tx) (\<lambda>tx.
     r_bind (execute_stmt (sql_create_table ''field_names'' False [''field_name'', ''field_id''] [[''field_name'']]) tx) (\<lambda>tx.
     r_bind (execute_stmt (sql_create_table ''field_labels'' False [''label_name'', ''field_id''] []) tx) (\<lambda>tx.
     r_bind (execute_stmt (sql_create_table ''endpoints'' True [''path'', ''code''] [[''path'']]) tx) (\<lambda>tx.
     r_bind (execute_stmt (sql_create_table ''sessions'' True [''token'', ''user_id''] [[''token'']]) tx) (\<lambda>tx.
     execute_stmt (sql_create_table ''policies'' False [''version'', ''policy_str''] [[''version'']]) tx)))))))"

definition migrate_from_0_to_0_7 :: "txn \<Rightarrow> txn res" where
  "migrate_from_0_to_0_7 tx =
     r_bind (execute_stmt (sql_create_table ''chisel_version'' False [''version_id'', ''version''] [[''version_id'']]) tx) (\<lambda>tx.
     execute_stmt (add_column ''fields'' ''is_unique'') tx)"

definition migrate_from_0_7_to_1 :: "txn \<Rightarrow> txn res" where
  "migrate_from_0_7_to_1 tx =
     r_bind (execute_stmt (sql_create_table ''api_info'' True [''api_version'', ''app_name'', ''version_tag''] [[''api_version'']]) tx) (\<lambda>tx.
     r_bind (execute_stmt (sql_create_table ''indexes'' True [''index_id'', ''type_id'', ''fields''] [[''index_id'']]) tx) (\<lambda>tx.
     r_bind (ignore_stmt (sql_drop_table ''sessions'') tx) (\<lambda>tx.
     ignore_stmt (rename_table ''endpoints'' ''sources'') tx)))"

definition to_source_row :: "sql_cell list \<Rightarrow> source_row res" where
  "to_source_row row =
     r_bind (get_string (row ! 0)) (\<lambda>path. r_bind (get_string (row ! 1)) (\<lambda>code. Ok \<lparr>sr_path = path, sr_code = code\<rparr>))"

definition module_cells :: "module_row \<Rightarrow> sql_cell list" where
  "module_cells m = [Some (mr_version_id m), Some (mr_url m), Some (mr_code m)]"

definition migrate_to_2 :: "txn \<Rightarrow> txn res" where
  "migrate_to_2 tx =
     r_bind (execute_stmt (sql_create_table ''modules'' False [''version'', ''url'', ''code''] [[''version'', ''url'']]) tx) (\<lambda>tx.
     r_bind (fetch_stmt (select_from ''sources'' [''path'', ''code'']) tx) (\<lambda>rows.
     r_bind (r_map to_source_row rows) (\<lambda>source_rows.
     let module_rows = migrate_sources source_rows in
     r_bind (if module_rows \<noteq> []
             then execute_stmt (r_fold (\<lambda>m. insert_row ''modules'' (module_cells m)) module_rows) tx
             else Ok tx) (\<lambda>tx.
     execute_stmt (sql_drop_table ''sources'') tx))))"

definition migrate_to_3 :: "txn \<Rightarrow> txn res" where
  "migrate_to_3 tx = execute_stmt (sql_create_table ''policy_store'' False [''version'', ''store''] [[''version'']]) tx"

text \<open>The join of \<open>migrate_to_4\<close>: the full name, the type and the backing table of every field.\<close>

definition join_fields :: "tables \<Rightarrow> (sql_cell \<times> sql_cell \<times> sql_cell) list res" where
  "join_fields ts =
     r_bind (select_from ''fields'' [''field_id'', ''type_id'', ''field_type''] ts) (\<lambda>fs.
     r_bind (select_from ''field_names'' [''field_id'', ''field_name''] ts) (\<lambda>ns.
     r_bind (select_from ''types'' [''type_id'', ''backing_table''] ts) (\<lambda>tys.
     Ok [(n ! 1, f ! 2, t ! 1). f \<leftarrow> fs, n \<leftarrow> ns, t \<leftarrow> tys,
           f ! 0 \<noteq> None \<and> f ! 0 = n ! 0 \<and> f ! 1 \<noteq> None \<and> f ! 1 = t ! 0])))"

text \<open>\<open>ALTER TABLE .. ALTER COLUMN .. TYPE jsonb USING ..::jsonb\<close>; \<open>valid_json\<close> is what the cast accepts.\<close>

definition alter_to_jsonb :: "(string \<Rightarrow> bool) \<Rightarrow> string \<Rightarrow> string \<Rightarrow> tables \<Rightarrow> tables res" where
  "alter_to_jsonb valid_json name col ts =
     r_bind (the_table name ts) (\<lambda>t.
     r_bind (ensure (col \<in> set (t_cols t)) (query_failed ''no such column'')) (\<lambda>_.
     r_bind (ensure (\<forall>row \<in> set (t_rows t). case cell_of t col row of Some v \<Rightarrow> valid_json v | None \<Rightarrow> True)
        (query_failed ''invalid input syntax for type json'')) (\<lambda>_.
     Ok (al_insert name (t\<lparr>t_jsonb := col # t_jsonb t\<rparr>) ts))))"

definition to_field_strings :: "sql_cell \<times> sql_cell \<times> sql_cell \<Rightarrow> (string \<times> string \<times> string) res" where
  "to_field_strings = (\<lambda>(n, ft, t).
     r_bind (get_string n) (\<lambda>n. r_bind (get_string ft) (\<lambda>ft. r_bind (get_string t) (\<lambda>t. Ok (n, ft, t)))))"

definition migrate_to_4 :: "(string \<Rightarrow> bool) \<Rightarrow> txn \<Rightarrow> txn res" where
  "migrate_to_4 valid_json tx =
     (if tx_kind tx = Sqlite then Ok tx
      else
        r_bind (fetch_stmt join_fields tx) (\<lambda>rows.
        r_fold (\<lambda>row tx.
          r_bind (to_field_strings row) (\<lambda>(full_name, ftype, backing_table).
          if \<not> starts_with ''Array'' ftype then Ok tx
          else
            r_bind (ok_or (Bail ''Field name has unexpected format'' []) (rsplit_once CHR ''.'' full_name)) (\<lambda>(_, field_name).
            execute_stmt (alter_to_jsonb valid_json backing_table field_name) tx))) rows tx))"

definition migrate_schema_step :: "(string \<Rightarrow> bool) \<Rightarrow> string \<Rightarrow> txn \<Rightarrow> (string option \<times> txn) res" where
  "migrate_schema_step valid_json old_version tx =
     (if old_version = ''empty'' then r_map_ok (Pair (Some ''0'')) (migrate_from_empty_to_0 tx)
      else if old_version = ''0'' then r_map_ok (Pair (Some ''0.7'')) (migrate_from_0_to_0_7 tx)
      else if old_version = ''0.7'' then r_map_ok (Pair (Some ''1'')) (migrate_from_0_7_to_1 tx)
      else if old_version = ''1'' then r_map_ok (Pair (Some ''2'')) (migrate_to_2 tx)
      else if old_version = ''2'' then r_map_ok (Pair (Some ''3'')) (migrate_to_3 tx)
      else if old_version = ''3'' then r_map_ok (Pair (Some ''4'')) (migrate_to_4 valid_json tx)
      else if old_version = ''4'' then Ok (None, tx)
      else Err (Bail (''Don'' @ [CHR 0x27] @ ''t know how to migrate from version {:?}'') [old_version]))"

text \<open>The number of steps still to do.\<close>

definition steps_left :: "string \<Rightarrow> nat" where
  "steps_left v = (case map_of (zip [''empty'', ''0'', ''0.7'', ''1'', ''2'', ''3''] [6, 5, 4, 3, 2, 1]) v of Some n \<Rightarrow> n | None \<Rightarrow> 0)"

lemma step_decreases:
  "migrate_schema_step valid_json v tx = Ok (Some v', tx') \<Longrightarrow> steps_left v = Suc (steps_left v')"
  by (auto simp: migrate_schema_step_def r_map_ok_Ok_iff steps_left_def split: if_splits)

text \<open>The \<open>while let\<close> loop of \<open>migrate_schema\<close>.\<close>

function migrate_loop :: "(string \<Rightarrow> bool) \<Rightarrow> string \<Rightarrow> txn \<Rightarrow> (string \<times> txn) res" where
  "migrate_loop valid_json version tx =
     (case migrate_schema_step valid_json version tx of
        Ok (Some new_version, tx') \<Rightarrow> migrate_loop valid_json new_version tx'
      | Ok (None, tx') \<Rightarrow> Ok (version, tx')
      | Err e \<Rightarrow> Err e
      | Panic p \<Rightarrow> Panic p)"
  by pat_completeness auto
termination
  by (relation "measure (\<lambda>(_, v, _). steps_left v)") (auto dest: step_decreases)

declare migrate_loop.simps [simp del]

subsection \<open>\<open>MetaService\<close>: versions and the whole migration\<close>

definition list_tables :: "txn \<Rightarrow> string list res" where
  "list_tables tx = fetch_stmt (\<lambda>ts. Ok (map fst ts)) tx"

definition get_schema_version :: "txn \<Rightarrow> string res" where
  "get_schema_version tx =
     r_bind (list_tables tx) (\<lambda>tables.
     let fallback = (if tables = [] then ''empty'' else ''0'') in
     if ''chisel_version'' \<in> set tables
     then
       r_bind (fetch_stmt (select_from ''chisel_version'' [''version_id'', ''version'']) tx) (\<lambda>rows.
       case filter (\<lambda>row. row ! 0 = Some ''chiselstrike'') rows of
         row # _ \<Rightarrow> get_string (row ! 1)
       | [] \<Rightarrow> Ok fallback)
     else Ok fallback)"

text \<open>\<open>INSERT INTO chisel_version .. ON CONFLICT(version_id) DO UPDATE SET version\<close>.\<close>

definition upsert_version :: "string \<Rightarrow> tables \<Rightarrow> tables res" where
  "upsert_version version ts =
     r_bind (the_table ''chisel_version'' ts) (\<lambda>t.
     r_bind (ensure (t_cols t = [''version_id'', ''version'']) (query_failed ''no such column'')) (\<lambda>_.
     let row = [Some ''chiselstrike'', Some version];
         is_old = (\<lambda>r. cell_of t ''version_id'' r = Some ''chiselstrike'') in
     Ok (al_insert ''chisel_version'' (t\<lparr>t_rows := (if \<exists>r \<in> set (t_rows t). is_old r
           then map (\<lambda>r. if is_old r then row else r) (t_rows t) else t_rows t @ [row])\<rparr>) ts)))"

definition begin_transaction :: "any_kind \<Rightarrow> tables \<Rightarrow> txn" where
  "begin_transaction kind ts = \<lparr>tx_kind = kind, tx_tables = ts, tx_aborted = False\<rparr>"

definition migrate_schema :: "(string \<Rightarrow> bool) \<Rightarrow> any_kind \<Rightarrow> tables \<Rightarrow> tables res" where
  "migrate_schema valid_json kind ts =
     (let tx = begin_transaction kind ts in
      r_bind (get_schema_version tx) (\<lambda>version.
      r_bind (migrate_loop valid_json version tx) (\<lambda>(version, tx).
      r_bind (execute_stmt (upsert_version version) tx) (\<lambda>tx.
      Ok (tx_tables tx)))))"

text \<open>
  The files of the old layout: \<open>files\<close> gives the tables of the SQLite file of that name, or nothing
  when there is no such file.
\<close>

definition copy_table :: "string \<times> table \<Rightarrow> txn \<Rightarrow> txn res" where
  "copy_table = (\<lambda>(name, t) tx.
     r_bind (execute_stmt (sql_create_table name True (t_cols t) (t_unique t)) tx) (\<lambda>tx.
     execute_stmt (r_fold (insert_row name) (t_rows t)) tx))"

definition maybe_migrate_split_sqlite_database_inner :: "(string \<Rightarrow> tables option) \<Rightarrow> string list \<Rightarrow> txn \<Rightarrow> (bool \<times> txn) res" where
  "maybe_migrate_split_sqlite_database_inner files sources tx =
     r_bind (list_tables tx) (\<lambda>tables.
     if tables \<noteq> [] then Ok (False, tx)
     else
       r_bind (r_fold (\<lambda>src tx.
         r_bind (ok_or (query_failed ''unable to open database'') (files src)) (\<lambda>rows. r_fold copy_table rows tx)) sources tx) (\<lambda>tx.
       Ok (True, tx)))"

definition maybe_migrate_split_sqlite_database ::
  "(string \<Rightarrow> tables option) \<Rightarrow> any_kind \<Rightarrow> string list \<Rightarrow> tables \<Rightarrow> tables res" where
  "maybe_migrate_split_sqlite_database files kind sources ts =
     r_bind (ensure (kind = Sqlite) (Bail (''Can'' @ [CHR 0x27] @ ''t migrate postgres tables yet'') [])) (\<lambda>_.
     let not_found = filter (\<lambda>src. files src = None) sources in
     if length not_found = length sources then Ok ts
     else
       r_bind (ensure (not_found = []) (Bail ''Some of the old sqlite files were not found: {:?}'' not_found)) (\<lambda>_.
       r_bind (maybe_migrate_split_sqlite_database_inner files sources (begin_transaction kind ts)) (\<lambda>(_, tx).
       Ok (tx_tables tx))))"

subsection \<open>A migrated database stays as it is\<close>

lemma step_None: "migrate_schema_step valid_json v tx = Ok (None, tx') \<longleftrightarrow> v = ''4'' \<and> tx' = tx"
  unfolding migrate_schema_step_def by (simp add: r_map_ok_Ok_iff eq_commute [of tx])

lemma migrate_loop_ends_at_4: "migrate_loop valid_json v tx = Ok (v', tx') \<Longrightarrow> v' = ''4''"
proof (induction valid_json v tx rule: migrate_loop.induct)
  case (1 valid_json v tx)
  from "1.prems" have "(case migrate_schema_step valid_json v tx of
        Ok (Some new_version, tx') \<Rightarrow> migrate_loop valid_json new_version tx'
      | Ok (None, tx') \<Rightarrow> Ok (v, tx') | Err e \<Rightarrow> Err e | Panic p \<Rightarrow> Panic p) = Ok (v', tx')"
    by (subst (asm) migrate_loop.simps)
  with "1.IH" show ?case
    by (auto simp: step_None split: result.splits prod.splits option.splits)
qed

lemma migrate_loop_at_4: "migrate_loop valid_json ''4'' tx = Ok (''4'', tx)"
  by (simp add: migrate_loop.simps migrate_schema_step_def)

lemma execute_stmt_Ok:
  "execute_stmt stmt tx = Ok tx' \<longleftrightarrow> \<not> tx_aborted tx \<and> (\<exists>ts. stmt (tx_tables tx) = Ok ts \<and> tx' = tx\<lparr>tx_tables := ts\<rparr>)"
  by (auto simp: execute_stmt_def run_stmt_def r_bind_Ok_iff r_map_ok_Ok_iff)

lemma fetch_stmt_begin [simp]: "fetch_stmt query (begin_transaction kind ts) = query ts"
  by (cases "query ts") (auto simp: fetch_stmt_def run_stmt_def begin_transaction_def ensure_def)

lemma al_insert_same: "map_of m k = Some v \<Longrightarrow> al_insert k v m = m"
  by (induction k v m rule: al_insert.induct) (auto split: if_splits)

text \<open>The table of versions once a version was written.\<close>

definition version_is :: "string \<Rightarrow> tables \<Rightarrow> bool" where
  "version_is v ts \<longleftrightarrow> (\<exists>t. map_of ts ''chisel_version'' = Some t \<and> t_cols t = [''version_id'', ''version''] \<and>
     (\<exists>r \<in> set (t_rows t). cell_of t ''version_id'' r = Some ''chiselstrike'') \<and>
     (\<forall>r \<in> set (t_rows t). cell_of t ''version_id'' r = Some ''chiselstrike'' \<longrightarrow> r = [Some ''chiselstrike'', Some v]))"

lemma cell_of_version: "t_cols t = [''version_id'', ''version''] \<Longrightarrow>
    cell_of t ''version_id'' [a, b] = a \<and> cell_of t ''version'' [a, b] = b"
  by (simp add: cell_of_def)

lemma upsert_version_is:
  assumes "upsert_version v ts = Ok ts'"
  shows "version_is v ts'"
proof -
  obtain t where t: "map_of ts ''chisel_version'' = Some t" "t_cols t = [''version_id'', ''version'']"
    and ts': "ts' = al_insert ''chisel_version'' (t\<lparr>t_rows := (if \<exists>r \<in> set (t_rows t). cell_of t ''version_id'' r = Some ''chiselstrike''
       then map (\<lambda>r. if cell_of t ''version_id'' r = Some ''chiselstrike'' then [Some ''chiselstrike'', Some v] else r) (t_rows t)
       else t_rows t @ [[Some ''chiselstrike'', Some v]])\<rparr>) ts"
    using assms by (auto simp: upsert_version_def the_table_def r_bind_Ok_iff Let_def)
  have "cell_of (t\<lparr>t_rows := rs\<rparr>) c r = cell_of t c r" for rs c r
    by (simp add: cell_of_def)
  then show ?thesis
    unfolding version_is_def ts'
    by (auto simp: t cell_of_version split: if_splits intro!: bexI [of _ "[Some ''chiselstrike'', Some v]"])
qed

lemma version_is_read:
  assumes "version_is v ts"
  shows "get_schema_version (begin_transaction kind ts) = Ok v"
proof -
  obtain t where t: "map_of ts ''chisel_version'' = Some t" "t_cols t = [''version_id'', ''version'']"
    and ex: "\<exists>r \<in> set (t_rows t). cell_of t ''version_id'' r = Some ''chiselstrike''"
    and all: "\<And>r. r \<in> set (t_rows t) \<Longrightarrow> cell_of t ''version_id'' r = Some ''chiselstrike'' \<Longrightarrow> r = [Some ''chiselstrike'', Some v]"
    using assms by (auto simp: version_is_def)
  let ?rows = "filter (\<lambda>row. row ! 0 = Some ''chiselstrike'') (map (\<lambda>row. map (\<lambda>c. cell_of t c row) [''version_id'', ''version'']) (t_rows t))"
  have "?rows \<noteq> []"
    using ex by (auto simp: filter_empty_conv)
  then obtain r rs where rs: "?rows = r # rs" by (cases ?rows) auto
  then have "r \<in> set ?rows" by (metis list.set_intros(1))
  then obtain row where "row \<in> set (t_rows t)" "cell_of t ''version_id'' row = Some ''chiselstrike''"
    "r = [cell_of t ''version_id'' row, cell_of t ''version'' row]"
    by auto
  with all [of row] have "r ! 1 = Some v" by (auto simp: cell_of_version t)
  moreover have "''chisel_version'' \<in> set (map fst ts)"
    using t(1) by (force dest: map_of_SomeD)
  ultimately show ?thesis
    using rs t by (simp add: get_schema_version_def list_tables_def select_from_def the_table_def get_string_def unwrap_def)
qed

lemma version_is_upsert:
  assumes "version_is v ts"
  shows "upsert_version v ts = Ok ts"
proof -
  obtain t where t: "map_of ts ''chisel_version'' = Some t" "t_cols t = [''version_id'', ''version'']"
    and ex: "\<exists>r \<in> set (t_rows t). cell_of t ''version_id'' r = Some ''chiselstrike''"
    and all: "\<And>r. r \<in> set (t_rows t) \<Longrightarrow> cell_of t ''version_id'' r = Some ''chiselstrike'' \<Longrightarrow> r = [Some ''chiselstrike'', Some v]"
    using assms by (auto simp: version_is_def)
  have "map (\<lambda>r. if cell_of t ''version_id'' r = Some ''chiselstrike'' then [Some ''chiselstrike'', Some v] else r) (t_rows t) = t_rows t"
    using all by (simp add: map_idI)
  then show ?thesis
    using t ex by (simp add: upsert_version_def the_table_def al_insert_same)
qed

text \<open>
  A migration that succeeds ends at version 4, and the next start of the server leaves the
  database as it is.
\<close>

theorem migrate_schema_stable:
  assumes "migrate_schema valid_json kind ts = Ok ts'"
  shows "get_schema_version (begin_transaction kind ts') = Ok ''4'' \<and> migrate_schema valid_json kind ts' = Ok ts'"
proof -
  obtain v tx where "migrate_loop valid_json v (begin_transaction kind ts) = Ok (''4'', tx)" and up: "upsert_version ''4'' (tx_tables tx) = Ok ts'"
    using assms by (auto simp: migrate_schema_def Let_def r_bind_Ok_iff execute_stmt_Ok) (metis migrate_loop_ends_at_4)
  have read: "get_schema_version (begin_transaction kind ts') = Ok ''4''"
    by (rule version_is_read [OF upsert_version_is [OF up]])
  have "execute_stmt (upsert_version ''4'') (begin_transaction kind ts') = Ok (begin_transaction kind ts')"
    using version_is_upsert [OF upsert_version_is [OF up]] by (simp add: execute_stmt_Ok begin_transaction_def)
  with read show ?thesis
    by (simp add: migrate_schema_def migrate_loop_at_4) (simp add: begin_transaction_def)
qed

subsection \<open>A fresh database\<close>

lemma execute_stmt_live:
  "execute_stmt stmt (begin_transaction k ts) = r_map_ok (begin_transaction k) (stmt ts)"
  "ignore_stmt stmt (begin_transaction k ts) = (case stmt ts of Ok ts' \<Rightarrow> Ok (begin_transaction k ts')
     | Err _ \<Rightarrow> Ok ((begin_transaction k ts)\<lparr>tx_aborted := k = Postgres\<rparr>) | Panic p \<Rightarrow> Panic p)"
  by (cases "stmt ts"; simp add: ignore_stmt_def execute_stmt_def run_stmt_def ensure_def begin_transaction_def)+

lemma loop_step: "migrate_schema_step valid_json v tx = Ok (Some v', tx') \<Longrightarrow> migrate_loop valid_json v tx = migrate_loop valid_json v' tx'"
  by (subst migrate_loop.simps) simp

abbreviation new_table :: "string list \<Rightarrow> string list list \<Rightarrow> table" where
  "new_table cols uniq \<equiv> \<lparr>t_cols = cols, t_unique = uniq, t_jsonb = [], t_rows = []\<rparr>"

text \<open>The tables of a database without rows, at the versions 0, 0.7, 1 and 4.\<close>

definition core_tables :: "string list \<Rightarrow> tables" where
  "core_tables field_cols =
     [(''types'', new_table [''type_id'', ''backing_table'', ''api_version''] [[''type_id''], [''backing_table''], [''api_version'']]),
      (''type_names'', new_table [''type_id'', ''name''] [[''name'']]),
      (''fields'', new_table ([''field_id'', ''field_type'', ''default_value'', ''is_optional'', ''type_id''] @ field_cols) [[''field_id'']]),
      (''field_names'', new_table [''field_name'', ''field_id''] [[''field_name'']]),
      (''field_labels'', new_table [''label_name'', ''field_id''] [])]"

definition endpoint_tables :: tables where
  "endpoint_tables = [(''endpoints'', new_table [''path'', ''code''] [[''path'']]), (''sessions'', new_table [''token'', ''user_id''] [[''token'']])]"

definition policy_table :: "string \<times> table" where
  "policy_table = (''policies'', new_table [''version'', ''policy_str''] [[''version'']])"

definition version_table :: "string \<times> table" where
  "version_table = (''chisel_version'', new_table [''version_id'', ''version''] [[''version_id'']])"

definition info_tables :: tables where
  "info_tables = [(''api_info'', new_table [''api_version'', ''app_name'', ''version_tag''] [[''api_version'']]),
     (''indexes'', new_table [''index_id'', ''type_id'', ''fields''] [[''index_id'']])]"

definition current_schema :: tables where
  "current_schema = core_tables [''is_unique''] @ [policy_table, version_table] @ info_tables @
     [(''modules'', new_table [''version'', ''url'', ''code''] [[''version'', ''url'']]),
      (''policy_store'', new_table [''version'', ''store''] [[''version'']])]"

lemmas schema_defs = core_tables_def endpoint_tables_def policy_table_def version_table_def info_tables_def
lemmas stmt_defs = sql_create_table_def add_column_def sql_drop_table_def rename_table_def the_table_def al_remove_def select_from_def

lemma fresh_steps:
  "migrate_from_empty_to_0 (begin_transaction k []) = Ok (begin_transaction k (core_tables [] @ endpoint_tables @ [policy_table]))"
  "migrate_from_0_to_0_7 (begin_transaction k (core_tables [] @ endpoint_tables @ [policy_table])) =
     Ok (begin_transaction k (core_tables [''is_unique''] @ endpoint_tables @ [policy_table, version_table]))"
  "migrate_from_0_7_to_1 (begin_transaction k (core_tables [''is_unique''] @ endpoint_tables @ [policy_table, version_table])) =
     Ok (begin_transaction k (core_tables [''is_unique''] @ [(''sources'', new_table [''path'', ''code''] [[''path'']]), policy_table, version_table] @ info_tables))"
  by (simp_all add: migrate_from_empty_to_0_def migrate_from_0_to_0_7_def migrate_from_0_7_to_1_def execute_stmt_live stmt_defs schema_defs)

lemma fresh_steps_2_to_4:
  "migrate_to_2 (begin_transaction k (core_tables [''is_unique''] @ [(''sources'', new_table [''path'', ''code''] [[''path'']]), policy_table, version_table] @ info_tables)) =
     Ok (begin_transaction k (core_tables [''is_unique''] @ [policy_table, version_table] @ info_tables @
       [(''modules'', new_table [''version'', ''url'', ''code''] [[''version'', ''url'']])]))"
  "migrate_to_3 (begin_transaction k (core_tables [''is_unique''] @ [policy_table, version_table] @ info_tables @
       [(''modules'', new_table [''version'', ''url'', ''code''] [[''version'', ''url'']])])) = Ok (begin_transaction k current_schema)"
  "migrate_to_4 valid_json (begin_transaction k current_schema) = Ok (begin_transaction k current_schema)"
    apply (simp add: migrate_to_2_def execute_stmt_live stmt_defs schema_defs migrate_sources_def)
   apply (simp add: migrate_to_3_def execute_stmt_live stmt_defs schema_defs current_schema_def)
  apply (simp add: migrate_to_4_def join_fields_def stmt_defs schema_defs current_schema_def)
  done

lemma migrate_empty_database:
  "migrate_schema valid_json kind [] =
     Ok (al_insert ''chisel_version'' ((snd version_table)\<lparr>t_rows := [[Some ''chiselstrike'', Some ''4'']]\<rparr>) current_schema)"
proof -
  have "get_schema_version (begin_transaction kind []) = Ok ''empty''"
    by (simp add: get_schema_version_def list_tables_def)
  moreover have "migrate_loop valid_json ''empty'' (begin_transaction kind []) = Ok (''4'', begin_transaction kind current_schema)"
    by (simp add: loop_step migrate_schema_step_def fresh_steps [simplified] fresh_steps_2_to_4 [simplified] migrate_loop_at_4)
  moreover have "upsert_version ''4'' current_schema =
      Ok (al_insert ''chisel_version'' ((snd version_table)\<lparr>t_rows := [[Some ''chiselstrike'', Some ''4'']]\<rparr>) current_schema)"
    by (simp add: upsert_version_def stmt_defs schema_defs current_schema_def)
  ultimately show ?thesis
    by (simp add: migrate_schema_def execute_stmt_live) (simp add: begin_transaction_def)
qed


theorem migrate_schema_stable_witness:
  "\<exists>ts. migrate_schema (\<lambda>_. True) Postgres [] = Ok ts \<and> get_schema_version (begin_transaction Postgres ts) = Ok ''4'' \<and>
     migrate_schema (\<lambda>_. True) Postgres ts = Ok ts"
  using migrate_schema_stable [OF migrate_empty_database] migrate_empty_database by blast

subsection \<open>No source is lost\<close>

definition source_module :: "source_row \<Rightarrow> module_row option" where
  "source_module row = map_option (\<lambda>sp. migrate_source (sp_version_id sp) \<lparr>s_path = sp_path sp, s_code = sr_code row\<rparr>) (parse_source_path (sr_path row))"

definition source_versions :: "source_row list \<Rightarrow> string set" where
  "source_versions rows = {sp_version_id sp | sp row. row \<in> set rows \<and> parse_source_path (sr_path row) = Some sp}"

definition version_endpoint :: "string \<Rightarrow> source_row \<Rightarrow> endpoint_source option" where
  "version_endpoint v row =
     (case parse_source_path (sr_path row) of
        Some sp \<Rightarrow> if sp_version_id sp = v
          then map_option (\<lambda>route. \<lparr>es_route = route, es_source = \<lparr>s_path = sp_path sp, s_code = sr_code row\<rparr>\<rparr>) (sp_endpoint_route sp) else None
      | None \<Rightarrow> None)"

definition version_modules :: "version_source_map \<Rightarrow> module_row list" where
  "version_modules m = map (\<lambda>e. migrate_source (vs_version_id m) (es_source e)) (vs_endpoints m) @ map (migrate_source (vs_version_id m)) (vs_others m)"

text \<open>What the loop over the rows keeps.\<close>

definition sources_inv :: "source_row list \<Rightarrow> (string \<times> version_source_map) list \<Rightarrow> bool" where
  "sources_inv rows sms \<longleftrightarrow> distinct (map fst sms) \<and> fst ` set sms = source_versions rows \<and>
     (\<forall>(v, m) \<in> set sms. vs_version_id m = v \<and> vs_endpoints m = List.map_filter (version_endpoint v) rows) \<and>
     mset (concat (map (version_modules \<circ> snd) sms)) = mset (List.map_filter source_module rows)"

lemma mset_al_insert_distinct:
  "distinct (map fst xs) \<Longrightarrow> mset (concat (map (g \<circ> snd) (al_insert k v xs))) + (case map_of xs k of Some u \<Rightarrow> mset (g u) | None \<Rightarrow> {#}) =
     mset (concat (map (g \<circ> snd) xs)) + mset (g v)"
  by (induction k v xs rule: al_insert.induct) (auto simp: map_of_eq_None_iff [THEN iffD2])

lemma set_al_insert_distinct: "distinct (map fst xs) \<Longrightarrow> set (al_insert k v xs) = {(k, v)} \<union> {x \<in> set xs. fst x \<noteq> k}"
  by (induction k v xs rule: al_insert.induct) (auto simp: rev_image_eqI)

lemma map_filter_snoc: "List.map_filter f (xs @ [x]) = List.map_filter f xs @ (case f x of None \<Rightarrow> [] | Some y \<Rightarrow> [y])"
  by (simp add: List.map_filter_def split: option.split)

lemma source_versions_snoc:
  "source_versions (rows @ [row]) = (case parse_source_path (sr_path row) of Some sp \<Rightarrow> insert (sp_version_id sp) (source_versions rows) | None \<Rightarrow> source_versions rows)"
  by (auto simp: source_versions_def split: option.splits)

lemma no_endpoints: "v \<notin> source_versions rows \<Longrightarrow> List.map_filter (version_endpoint v) rows = []"
  by (force simp: List.map_filter_def filter_empty_conv version_endpoint_def source_versions_def split: option.splits if_splits)

lemma add_source_row_inv:
  assumes "sources_inv rows sms"
  shows "sources_inv (rows @ [row]) (add_source_row row sms)"
proof (cases "parse_source_path (sr_path row)")
  case None
  then show ?thesis
    using assms by (simp add: sources_inv_def add_source_row_def source_versions_snoc map_filter_snoc version_endpoint_def source_module_def)
next
  case (Some sp)
  let ?v = "sp_version_id sp" and ?src = "\<lparr>s_path = sp_path sp, s_code = sr_code row\<rparr>"
  define m0 where "m0 = (case map_of sms ?v of Some m \<Rightarrow> m | None \<Rightarrow> \<lparr>vs_version_id = ?v, vs_endpoints = [], vs_others = []\<rparr>)"
  define m1 where "m1 = (case sp_endpoint_route sp of Some route \<Rightarrow> m0\<lparr>vs_endpoints := vs_endpoints m0 @ [\<lparr>es_route = route, es_source = ?src\<rparr>]\<rparr>
      | None \<Rightarrow> m0\<lparr>vs_others := vs_others m0 @ [?src]\<rparr>)"
  have add: "add_source_row row sms = al_insert ?v m1 sms"
    by (simp add: add_source_row_def Some m1_def Let_def flip: m0_def)
  have keys: "distinct (map fst sms)" "fst ` set sms = source_versions rows"
    and old: "\<And>v m. (v, m) \<in> set sms \<Longrightarrow> vs_version_id m = v \<and> vs_endpoints m = List.map_filter (version_endpoint v) rows"
    and content: "mset (concat (map (version_modules \<circ> snd) sms)) = mset (List.map_filter source_module rows)"
    using assms by (auto simp: sources_inv_def)
  have m0: "vs_version_id m0 = ?v" "vs_endpoints m0 = List.map_filter (version_endpoint ?v) rows"
    "mset (version_modules m0) = (case map_of sms ?v of Some m \<Rightarrow> mset (version_modules m) | None \<Rightarrow> {#})"
  proof (atomize (full), cases "map_of sms ?v")
    case None
    then have "?v \<notin> source_versions rows"
      using keys(2) by (simp add: map_of_eq_None_iff)
    with None show "vs_version_id m0 = ?v \<and> vs_endpoints m0 = List.map_filter (version_endpoint ?v) rows \<and>
        mset (version_modules m0) = (case map_of sms ?v of Some m \<Rightarrow> mset (version_modules m) | None \<Rightarrow> {#})"
      using no_endpoints [of ?v rows] by (simp add: m0_def version_modules_def)
  next
    case (Some m)
    then show "vs_version_id m0 = ?v \<and> vs_endpoints m0 = List.map_filter (version_endpoint ?v) rows \<and>
        mset (version_modules m0) = (case map_of sms ?v of Some m \<Rightarrow> mset (version_modules m) | None \<Rightarrow> {#})"
      using old [OF map_of_SomeD] by (simp add: m0_def)
  qed
  have m1: "vs_version_id m1 = ?v" "vs_endpoints m1 = List.map_filter (version_endpoint ?v) (rows @ [row])"
    "mset (version_modules m1) = add_mset (migrate_source ?v ?src) (mset (version_modules m0))"
    using m0(1,2) by (auto simp: m1_def map_filter_snoc version_endpoint_def Some version_modules_def split: option.split)
  have other: "List.map_filter (version_endpoint v) (rows @ [row]) = List.map_filter (version_endpoint v) rows" if "v \<noteq> ?v" for v
    using that by (simp add: map_filter_snoc version_endpoint_def Some)
  have "\<forall>(v, m) \<in> set (al_insert ?v m1 sms). vs_version_id m = v \<and> vs_endpoints m = List.map_filter (version_endpoint v) (rows @ [row])"
    using old m1 other by (auto simp: set_al_insert_distinct [OF keys(1)])
  moreover have "mset (concat (map (version_modules \<circ> snd) (al_insert ?v m1 sms))) = mset (List.map_filter source_module (rows @ [row]))"
    using mset_al_insert_distinct [OF keys(1), of version_modules ?v m1] m0(3) m1(3) content
    by (simp add: map_filter_snoc source_module_def Some)
  ultimately show ?thesis
    using keys by (simp add: sources_inv_def add source_versions_snoc Some)
qed

lemma migrate_versions: "fold migrate_version ms acc = acc @ concat (map (\<lambda>m. codegen_root (vs_version_id m) (vs_endpoints m) # version_modules m) ms)"
  by (induction ms arbitrary: acc) (simp_all add: migrate_version_def version_modules_def)

lemma mset_concat_Cons: "mset (concat (map (\<lambda>x. g x # h x) xs)) = mset (concat (map h xs)) + mset (map g xs)"
  by (induction xs) auto

text \<open>
  No source is lost and none is invented: the modules are one for every source whose path names a
  version, with its code unchanged, and one root module for every version, importing the version's
  endpoints in their order.
\<close>

theorem migrate_sources_complete:
  "mset (migrate_sources rows) = mset (List.map_filter source_module rows) +
     image_mset (\<lambda>v. codegen_root v (List.map_filter (version_endpoint v) rows)) (mset_set (source_versions rows))"
proof -
  let ?sms = "fold add_source_row rows []"
  have inv: "sources_inv rows ?sms"
  proof (induction rows rule: rev_induct)
    case Nil
    then show ?case by (simp add: sources_inv_def source_versions_def List.map_filter_def)
  next
    case (snoc row rows)
    then show ?case by (simp add: add_source_row_inv)
  qed
  have "mset (migrate_sources rows) = mset (concat (map (version_modules \<circ> snd) ?sms))
      + mset (map (\<lambda>x. codegen_root (vs_version_id (snd x)) (vs_endpoints (snd x))) ?sms)"
    by (simp only: migrate_sources_def Let_def migrate_versions append_Nil map_map comp_def mset_concat_Cons)
  also have "map (\<lambda>x. codegen_root (vs_version_id (snd x)) (vs_endpoints (snd x))) ?sms
      = map ((\<lambda>v. codegen_root v (List.map_filter (version_endpoint v) rows)) \<circ> fst) ?sms"
    using inv by (auto simp: sources_inv_def)
  also have "mset \<dots> = image_mset (\<lambda>v. codegen_root v (List.map_filter (version_endpoint v) rows)) (mset (map fst ?sms))"
    by (simp flip: mset_map add: map_map)
  also have "mset (map fst ?sms) = mset_set (source_versions rows)"
    using inv by (metis (no_types, lifting) sources_inv_def mset_set_set list.set_map)
  finally show ?thesis
    using inv by (simp add: sources_inv_def comp_def)
qed

subsection \<open>Ignored errors\<close>

lemma create_if_missing: "s \<noteq> n \<Longrightarrow> \<exists>ts'. sql_create_table n True cols uniq ts = Ok ts' \<and> map_of ts' s = map_of ts s"
  by (cases "map_of ts n") (auto simp: sql_create_table_def map_add_def split: option.split)

text \<open>
  The step from 0.7 to 1 ignores that the table of sessions may be gone.  On Postgres the
  ignored error has aborted the transaction, so the whole migration fails for such a database.
\<close>

theorem migrate_0_7_postgres:
  assumes "get_schema_version (begin_transaction Postgres ts) = Ok ''0.7''" "map_of ts ''sessions'' = None"
  shows "migrate_schema valid_json Postgres ts = Err (query_failed ''current transaction is aborted'')"
proof -
  obtain ts1 where ts1: "sql_create_table ''api_info'' True [''api_version'', ''app_name'', ''version_tag''] [[''api_version'']] ts = Ok ts1"
    "map_of ts1 ''sessions'' = None"
    using create_if_missing [of "''sessions''" "''api_info''"] assms(2) by fastforce
  obtain ts2 where ts2: "sql_create_table ''indexes'' True [''index_id'', ''type_id'', ''fields''] [[''index_id'']] ts1 = Ok ts2"
    "map_of ts2 ''sessions'' = None"
    using create_if_missing [of "''sessions''" "''indexes''"] ts1(2) by fastforce
  let ?tx = "(begin_transaction Postgres ts2)\<lparr>tx_aborted := True\<rparr>"
  have aborted: "execute_stmt stmt ?tx = Err (query_failed ''current transaction is aborted'')" for stmt
    by (simp add: execute_stmt_def run_stmt_def ensure_def)
  have "ignore_stmt (sql_drop_table ''sessions'') (begin_transaction Postgres ts2) = Ok ?tx"
    using ts2(2) by (simp add: execute_stmt_live sql_drop_table_def the_table_def ok_or_def)
  moreover have "ignore_stmt stmt ?tx = Ok ?tx" for stmt
    unfolding ignore_stmt_def aborted by (simp add: begin_transaction_def)
  ultimately have "migrate_from_0_7_to_1 (begin_transaction Postgres ts) = Ok ?tx"
    using ts1(1) ts2(1) by (simp add: migrate_from_0_7_to_1_def execute_stmt_live)
  then have "migrate_loop valid_json ''0.7'' (begin_transaction Postgres ts) = migrate_loop valid_json ''1'' ?tx"
    by (intro loop_step) (simp add: migrate_schema_step_def)
  also have "\<dots> = Err (query_failed ''current transaction is aborted'')"
    by (subst migrate_loop.simps) (simp add: migrate_schema_step_def migrate_to_2_def aborted)
  finally show ?thesis
    using assms(1) by (simp add: migrate_schema_def)
qed

theorem migrate_0_7_postgres_witness:
  "migrate_schema (\<lambda>_. True) Postgres
     (core_tables [''is_unique''] @ [(''endpoints'', new_table [''path'', ''code''] [[''path'']]), policy_table,
        (''chisel_version'', (new_table [''version_id'', ''version''] [[''version_id'']])\<lparr>t_rows := [[Some ''chiselstrike'', Some ''0.7'']]\<rparr>)])
     = Err (query_failed ''current transaction is aborted'')"
  by (rule migrate_0_7_postgres)
    (simp_all add: get_schema_version_def list_tables_def stmt_defs schema_defs cell_of_def get_string_def unwrap_def)

end
